(* ===== verification/Prelude.thy ===== *)
theory Prelude
  imports Main "HOL-Library.Word"
begin

text \<open>
  Shared vocabulary of the development: the collections of simplification rules the
  component proofs use, the types of identifiers and clocks, and generic facts on lists
  that several components need.

  Conventions:
  \<^item> a PostgreSQL \<open>uuid\<close> is the 128-bit value it stores (\<open>uuid\<close>);
  \<^item> a \<open>timestamptz\<close> column holds microseconds since the epoch, as PostgreSQL does; a
    JavaScript \<open>Date\<close> holds milliseconds (\<open>js_ms\<close>); both directions of the conversion
    are written out;
  \<^item> a table is the list of its rows in scan order. The order is arbitrary: a query with
    \<open>LIMIT 1\<close> and no \<open>ORDER BY\<close> takes the first matching row of an arbitrary list.
\<close>

named_theorems eff_simps \<open>unfolding of the effect combinators\<close>
named_theorems sql_simps \<open>unfolding of SQL statements on a given state\<close>
named_theorems clean_intros \<open>a program returns its connection clean\<close>

type_synonym uuid = "128 word"
type_synonym timestamptz = int
type_synonym js_ms = int

definition date_of_timestamptz :: "timestamptz \<Rightarrow> js_ms" where
  "date_of_timestamptz t = t div 1000"

definition timestamptz_of_date :: "js_ms \<Rightarrow> timestamptz" where
  "timestamptz_of_date d = d * 1000"

lemma date_timestamptz_roundtrip [simp]:
  "date_of_timestamptz (timestamptz_of_date d) = d"
  by (simp add: date_of_timestamptz_def timestamptz_of_date_def)

lemma date_of_timestamptz_mono: "s \<le> t \<Longrightarrow> date_of_timestamptz s \<le> date_of_timestamptz t"
  by (simp add: date_of_timestamptz_def zdiv_mono1)

subsection \<open>Lists as tables\<close>

text \<open>The first row that satisfies a condition: \<open>rows[0]\<close> of a query result.\<close>

fun first_row :: "'a list \<Rightarrow> 'a option" where
  "first_row [] = None"
| "first_row (x # xs) = Some x"

lemma first_row_Some_in: "first_row xs = Some x \<Longrightarrow> x \<in> set xs"
  by (cases xs) auto

lemma first_row_None [simp]: "first_row xs = None \<longleftrightarrow> xs = []"
  by (cases xs) auto

lemma first_row_filterD:
  "first_row (filter P xs) = Some x \<Longrightarrow> x \<in> set xs \<and> P x"
  by (drule first_row_Some_in) simp

lemma filter_unique:
  assumes "\<forall>x\<in>set xs. \<forall>y\<in>set xs. P x \<and> P y \<longrightarrow> x = y" and "distinct xs"
  shows "length (filter P xs) \<le> 1"
  using assms
proof (induction xs)
  case Nil
  show ?case by simp
next
  case (Cons a xs)
  show ?case
  proof (cases "P a")
    case True
    with Cons.prems have "filter P xs = []" by (auto simp: filter_empty_conv)
    then show ?thesis by simp
  next
    case False
    with Cons show ?thesis by simp
  qed
qed

lemma filter_map_if:
  assumes "\<And>x. x \<in> set xs \<Longrightarrow> Q x \<Longrightarrow> P (f x) \<longleftrightarrow> P x"
  shows "filter P (map (\<lambda>x. if Q x then f x else x) xs) =
         map (\<lambda>x. if Q x then f x else x) (filter P xs)"
  using assms by (induction xs) auto

lemma map_if_id: "(\<And>x. x \<in> set xs \<Longrightarrow> \<not> Q x) \<Longrightarrow> map (\<lambda>x. if Q x then f x else x) xs = xs"
  by (induction xs) auto

end
