(* ===== verification/AppErrors.thy ===== *)
theory AppErrors
  imports Prelude
begin

text \<open>
  \<^verbatim>\<open>src/errors.ts\<close>: the application's error contract, and the exceptions a handler can end
  with: an \<open>AppError\<close>, an error the database raised (by its SQLSTATE), or any other
  thrown value (a driver or gateway failure).
\<close>

datatype error_code =
    VALIDATION_FAILED | UNAUTHORIZED | FORBIDDEN | NO_TENANT_CONTEXT | RESOURCE_NOT_FOUND
  | CONFLICT | GONE | PAYMENT_REQUIRED | QUOTA_EXCEEDED | RATE_LIMITED | BAD_GATEWAY | INTERNAL

record app_error =
  status_code :: nat
  err_code :: error_code
  err_message :: string

definition app_error :: "nat \<Rightarrow> error_code \<Rightarrow> string \<Rightarrow> app_error" where
  "app_error s c m = \<lparr>status_code = s, err_code = c, err_message = m\<rparr>"

definition bad_request :: "string \<Rightarrow> app_error" where
  "bad_request m = app_error 400 VALIDATION_FAILED m"

definition unauthorized :: "string \<Rightarrow> app_error" where
  "unauthorized m = app_error 401 UNAUTHORIZED m"

definition forbidden :: "string \<Rightarrow> app_error" where
  "forbidden m = app_error 403 FORBIDDEN m"

definition no_tenant :: "string \<Rightarrow> app_error" where
  "no_tenant m = app_error 403 NO_TENANT_CONTEXT m"

definition not_found :: "string \<Rightarrow> app_error" where
  "not_found m = app_error 404 RESOURCE_NOT_FOUND m"

definition conflict :: "string \<Rightarrow> app_error" where
  "conflict m = app_error 409 CONFLICT m"

definition gone :: "string \<Rightarrow> app_error" where
  "gone m = app_error 410 GONE m"

definition payment_required :: "string \<Rightarrow> app_error" where
  "payment_required m = app_error 402 PAYMENT_REQUIRED m"

definition quota_exceeded :: "string \<Rightarrow> app_error" where
  "quota_exceeded m = app_error 403 QUOTA_EXCEEDED m"

definition bad_gateway :: "string \<Rightarrow> app_error" where
  "bad_gateway m = app_error 502 BAD_GATEWAY m"

text \<open>The default messages of the constructors of \<^verbatim>\<open>errors\<close>.\<close>

abbreviation "unauthorized_default \<equiv> unauthorized ''Unauthorized''"
abbreviation "forbidden_default \<equiv> forbidden ''Forbidden''"
abbreviation "no_tenant_default \<equiv> no_tenant ''No tenant context''"

subsection \<open>The response envelope\<close>

record error_envelope =
  env_code :: error_code
  env_message :: string
  env_request_id :: string

definition to_envelope :: "error_code \<Rightarrow> string \<Rightarrow> string \<Rightarrow> error_envelope" where
  "to_envelope c m rid = \<lparr>env_code = c, env_message = m, env_request_id = rid\<rparr>"

subsection \<open>Exceptions\<close>

text \<open>
  The SQLSTATE classes the code meets: \<open>UniqueViolation\<close> is 23505, \<open>ForeignKeyViolation\<close>
  23503, \<open>RlsViolation\<close> 42501 (a row refused by a policy), \<open>InFailedTransaction\<close> 25P02
  (a statement after an error in the same transaction), \<open>InvalidText\<close> 22P02/22007 (a cast
  of ill-formed text).
\<close>

datatype sql_error =
  UniqueViolation | ForeignKeyViolation | RlsViolation | InFailedTransaction | InvalidText

datatype exn = AppError app_error | SqlError sql_error | OtherError string

definition is_unique_violation :: "exn \<Rightarrow> bool" where
  "is_unique_violation e \<longleftrightarrow> e = SqlError UniqueViolation"

lemma is_unique_violation_simps [simp]:
  "is_unique_violation (SqlError x) \<longleftrightarrow> x = UniqueViolation"
  "\<not> is_unique_violation (AppError a)"
  "\<not> is_unique_violation (OtherError m)"
  by (simp_all add: is_unique_violation_def)

lemma app_error_sel [simp]:
  "status_code (app_error s c m) = s"
  "err_code (app_error s c m) = c"
  "err_message (app_error s c m) = m"
  by (simp_all add: app_error_def)

lemma app_error_eq [simp]:
  "app_error s c m = app_error s' c' m' \<longleftrightarrow> s = s' \<and> c = c' \<and> m = m'"
  by (simp add: app_error_def)

lemmas error_defs = bad_request_def unauthorized_def forbidden_def no_tenant_def not_found_def
  conflict_def gone_def payment_required_def quota_exceeded_def bad_gateway_def

subsection \<open>The error handler\<close>

text \<open>
  \<^verbatim>\<open>setErrorHandler\<close> of \<^verbatim>\<open>src/app.ts\<close>: an \<open>AppError\<close> keeps its status and code, a failed
  request validation is a 400, anything else becomes a generic 500. \<open>thrown\<close> is what
  reaches the handler.
\<close>

datatype thrown = ThrownExn exn | ThrownValidation

definition error_handler :: "string \<Rightarrow> thrown \<Rightarrow> nat \<times> error_envelope" where
  "error_handler rid t =
     (case t of
        ThrownExn (AppError e) \<Rightarrow> (status_code e, to_envelope (err_code e) (err_message e) rid)
      | ThrownValidation \<Rightarrow> (400, to_envelope VALIDATION_FAILED ''Request validation failed'' rid)
      | ThrownExn (SqlError _) \<Rightarrow> (500, to_envelope INTERNAL ''Internal server error'' rid)
      | ThrownExn (OtherError _) \<Rightarrow> (500, to_envelope INTERNAL ''Internal server error'' rid))"

definition not_found_handler :: "string \<Rightarrow> nat \<times> error_envelope" where
  "not_found_handler rid = (404, to_envelope RESOURCE_NOT_FOUND ''Route not found'' rid)"

end
