(* ===== verification/Rbac.thy ===== *)
theory Rbac
  imports AppErrors
begin

text \<open>
  \<^verbatim>\<open>src/auth/rbac.ts\<close>: the three organization roles, their precedence and the guard every
  privileged route calls. The type \<open>role\<close> is made a linear order by the rank, so the
  library's order reasoning applies to role checks.
\<close>

datatype role = Owner | Admin | Member

fun rank :: "role \<Rightarrow> nat" where
  "rank Owner = 3"
| "rank Admin = 2"
| "rank Member = 1"

definition has_min_role :: "role \<Rightarrow> role \<Rightarrow> bool" where
  "has_min_role r need \<longleftrightarrow> rank r \<ge> rank need"

definition require_role :: "role \<Rightarrow> role \<Rightarrow> exn + unit" where
  "require_role r need =
     (if \<not> has_min_role r need then Inl (AppError forbidden_default) else Inr ())"

instantiation role :: linorder
begin

definition less_eq_role :: "role \<Rightarrow> role \<Rightarrow> bool" where
  "less_eq_role a b \<longleftrightarrow> rank a \<le> rank b"

definition less_role :: "role \<Rightarrow> role \<Rightarrow> bool" where
  "less_role a b \<longleftrightarrow> rank a < rank b"

instance
proof
  fix a b c :: role
  show "a < b \<longleftrightarrow> a \<le> b \<and> \<not> b \<le> a" by (auto simp: less_eq_role_def less_role_def)
  show "a \<le> a" by (simp add: less_eq_role_def)
  show "a \<le> b \<Longrightarrow> b \<le> c \<Longrightarrow> a \<le> c" by (simp add: less_eq_role_def)
  show "a \<le> b \<Longrightarrow> b \<le> a \<Longrightarrow> a = b" by (cases a; cases b) (simp_all add: less_eq_role_def)
  show "a \<le> b \<or> b \<le> a" by (auto simp: less_eq_role_def)
qed

end

lemma has_min_role_iff_le: "has_min_role r need \<longleftrightarrow> need \<le> r"
  by (simp add: has_min_role_def less_eq_role_def)

lemma has_min_role_simps [simp]:
  "has_min_role r Member" "has_min_role Owner r"
  "has_min_role r Owner \<longleftrightarrow> r = Owner"
  "has_min_role r Admin \<longleftrightarrow> r \<noteq> Member"
  by (cases r; simp add: has_min_role_def)+

lemma require_role_ok [simp]: "require_role r need = Inr u \<longleftrightarrow> has_min_role r need"
  by (simp add: require_role_def)

lemma require_role_err [simp]:
  "require_role r need = Inl e \<longleftrightarrow> \<not> has_min_role r need \<and> e = AppError forbidden_default"
  by (auto simp: require_role_def)

end
