(* ===== verification/Uuids.thy ===== *)
theory Uuids
  imports Prelude
begin

text \<open>
  The text form of a \<open>uuid\<close>, as PostgreSQL writes it (\<open>uuid_out\<close>) and reads it back
  (\<open>uuid_in\<close>). Audit targets and pagination cursors carry this text, and a cursor's id is
  cast back with \<^verbatim>\<open>$2::uuid\<close>.
\<close>

definition hex_digits :: string where
  "hex_digits = ''0123456789abcdef''"

definition hex_digit :: "nat \<Rightarrow> char" where
  "hex_digit n = hex_digits ! (n mod 16)"

text \<open>The value of a hexadecimal digit, of either case; \<open>None\<close> for another character.\<close>

definition hex_val :: "char \<Rightarrow> nat option" where
  "hex_val c =
     (let n = (of_char c :: nat) in
      if 48 \<le> n \<and> n \<le> 57 then Some (n - 48)
      else if 97 \<le> n \<and> n \<le> 102 then Some (n - 87)
      else if 65 \<le> n \<and> n \<le> 70 then Some (n - 55)
      else None)"

fun to_hex :: "nat \<Rightarrow> nat \<Rightarrow> string" where
  "to_hex 0 n = []"
| "to_hex (Suc k) n = to_hex k (n div 16) @ [hex_digit n]"

fun of_hex :: "nat \<Rightarrow> string \<Rightarrow> nat option" where
  "of_hex acc [] = Some acc"
| "of_hex acc (c # cs) = (case hex_val c of None \<Rightarrow> None | Some v \<Rightarrow> of_hex (acc * 16 + v) cs)"

text \<open>The hyphens stand after the 8th, 12th, 16th and 20th digit.\<close>

definition uuid_out :: "uuid \<Rightarrow> string" where
  "uuid_out u =
     (let ds = to_hex 32 (unat u) in
      take 8 ds @ ''-'' @ take 4 (drop 8 ds) @ ''-'' @ take 4 (drop 12 ds) @ ''-'' @
      take 4 (drop 16 ds) @ ''-'' @ drop 20 ds)"

text \<open>
  PostgreSQL's input routine reads sixteen bytes of two digits; after every second byte but
  the last a hyphen may follow. (It also accepts the whole in braces; a 36-character text
  of digits and hyphens has none.) \<open>strip_groups\<close> removes the optional hyphens.
\<close>

fun strip_groups :: "nat \<Rightarrow> string \<Rightarrow> string option" where
  "strip_groups 0 s = (if s = [] then Some [] else None)"
| "strip_groups (Suc k) s =
     (if length s < 4 then None
      else let rest = drop 4 s;
               rest' = (if k \<noteq> 0 \<and> rest \<noteq> [] \<and> hd rest = CHR ''-'' then tl rest else rest)
           in map_option (\<lambda>ds. take 4 s @ ds) (strip_groups k rest'))"

definition uuid_in :: "string \<Rightarrow> uuid option" where
  "uuid_in s =
     (case strip_groups 8 s of
        None \<Rightarrow> None
      | Some ds \<Rightarrow> map_option of_nat (of_hex 0 ds))"

subsection \<open>Reading back what was written\<close>

lemma hex_val_hex_digit [simp]: "hex_val (hex_digit n) = Some (n mod 16)"
proof -
  have "\<forall>k<16. hex_val (hex_digits ! k) = Some k"
    by code_simp
  then show ?thesis by (simp add: hex_digit_def)
qed

lemma hex_digit_not_hyphen: "hex_digit n \<noteq> CHR ''-''"
proof
  assume "hex_digit n = CHR ''-''"
  then have "hex_val (CHR ''-'') = Some (n mod 16)" by (metis hex_val_hex_digit)
  then show False by (simp add: hex_val_def)
qed

lemma length_to_hex [simp]: "length (to_hex k n) = k"
  by (induction k arbitrary: n) auto

lemma of_hex_append:
  "of_hex a (xs @ ys) = (case of_hex a xs of None \<Rightarrow> None | Some b \<Rightarrow> of_hex b ys)"
  by (induction xs arbitrary: a) (auto split: option.splits)

lemma of_hex_to_hex: "of_hex a (to_hex k n) = Some (a * 16 ^ k + n mod 16 ^ k)"
proof (induction k arbitrary: n)
  case 0
  show ?case by simp
next
  case (Suc k)
  have "(n div 16 mod 16 ^ k) * 16 + n mod 16 = n mod 16 ^ Suc k"
    using mod_mult2_eq [of n 16 "16 ^ k"] by (simp add: mult.commute)
  then show ?case
    by (simp add: of_hex_append Suc.IH algebra_simps)
qed

lemma set_to_hex: "c \<in> set (to_hex k n) \<Longrightarrow> \<exists>v. hex_val c = Some v"
  by (induction k arbitrary: n) auto

lemma hyphen_no_hex: "hex_val (CHR ''-'') = None"
  by (simp add: hex_val_def)

lemma hyphen_not_in_to_hex: "CHR ''-'' \<notin> set (to_hex k n)"
  using set_to_hex hyphen_no_hex by fastforce

text \<open>A list of 32 digits without hyphens, written with the four hyphens, reads back.\<close>

lemma strip_groups_plain:
  assumes "length ds = 4 * k" and "CHR ''-'' \<notin> set ds"
  shows "strip_groups k ds = Some ds"
  using assms
proof (induction k arbitrary: ds)
  case 0
  then show ?case by simp
next
  case (Suc k)
  have "CHR ''-'' \<notin> set (drop 4 ds)"
    using Suc.prems(2) by (meson in_set_dropD)
  moreover have "length (drop 4 ds) = 4 * k" using Suc.prems(1) by simp
  ultimately have "strip_groups k (drop 4 ds) = Some (drop 4 ds)" by (rule Suc.IH [rotated])
  moreover have "drop 4 ds = [] \<or> hd (drop 4 ds) \<noteq> CHR ''-''"
    using Suc.prems(2) by (metis hd_in_set in_set_dropD)
  ultimately show ?case using Suc.prems(1) by (auto simp: Let_def)
qed

declare strip_groups.simps [simp del]

lemma strip_groups_hyphen:
  assumes "n = Suc k" and "k \<noteq> 0" and "length g = 4" and "strip_groups k rest = Some ds"
  shows "strip_groups n (g @ ''-'' @ rest) = Some (g @ ds)"
  using assms by (simp add: strip_groups.simps(2))

lemma strip_groups_no_hyphen:
  assumes "n = Suc k" and "length g = 4" and "strip_groups k rest = Some ds"
    and "hd rest \<noteq> CHR ''-''"
  shows "strip_groups n (g @ rest) = Some (g @ ds)"
  using assms by (simp add: strip_groups.simps(2))

lemma strip_groups_uuid:
  assumes len: "length a = 4" "length b = 4" "length c = 4" "length d = 4" "length e = 4"
      "length f = 12"
    and hy: "CHR ''-'' \<notin> set b" "CHR ''-'' \<notin> set f"
  shows "strip_groups 8 (a @ b @ ''-'' @ c @ ''-'' @ d @ ''-'' @ e @ ''-'' @ f) =
         Some (a @ b @ c @ d @ e @ f)"
proof -
  have hdb: "hd (b @ r) \<noteq> CHR ''-''" for r
    using hy(1) len(2) by (cases b) auto
  have f: "strip_groups 3 f = Some f"
    by (rule strip_groups_plain) (use len hy in auto)
  have e: "strip_groups 4 (e @ ''-'' @ f) = Some (e @ f)"
    by (rule strip_groups_hyphen [OF _ _ len(5) f]) auto
  have d: "strip_groups 5 (d @ ''-'' @ e @ ''-'' @ f) = Some (d @ e @ f)"
    by (rule strip_groups_hyphen [OF _ _ len(4) e]) auto
  have c: "strip_groups 6 (c @ ''-'' @ d @ ''-'' @ e @ ''-'' @ f) = Some (c @ d @ e @ f)"
    by (rule strip_groups_hyphen [OF _ _ len(3) d]) auto
  have b: "strip_groups 7 (b @ ''-'' @ c @ ''-'' @ d @ ''-'' @ e @ ''-'' @ f) =
      Some (b @ c @ d @ e @ f)"
    by (rule strip_groups_hyphen [OF _ _ len(2) c]) auto
  show ?thesis
    by (rule strip_groups_no_hyphen [OF _ len(1) b hdb]) auto
qed

lemma length_uuid_out: "length (uuid_out u) = 36"
  by (simp add: uuid_out_def Let_def)

lemma uuid_in_out: "uuid_in (uuid_out u) = Some u"
proof -
  define ds where "ds = to_hex 32 (unat u)"
  have len: "length ds = 32" and hy: "CHR ''-'' \<notin> set ds"
    by (simp_all add: ds_def hyphen_not_in_to_hex)
  let ?a = "take 4 ds" and ?b = "take 4 (drop 4 ds)" and ?c = "take 4 (drop 8 ds)"
    and ?d = "take 4 (drop 12 ds)" and ?e = "take 4 (drop 16 ds)" and ?f = "drop 20 ds"
  have d: "drop k ds = take 4 (drop k ds) @ drop (k + 4) ds" for k
    by (metis add.commute append_take_drop_id drop_drop)
  have split: "ds = ?a @ ?b @ ?c @ ?d @ ?e @ ?f"
    using d [of 0] d [of 4] d [of 8] d [of 12] d [of 16] by simp
  have "take 8 ds = ?a @ ?b"
    using take_add [of 4 4 ds] by simp
  then have out: "uuid_out u = ?a @ ?b @ ''-'' @ ?c @ ''-'' @ ?d @ ''-'' @ ?e @ ''-'' @ ?f"
    by (simp add: uuid_out_def Let_def flip: ds_def)
  have "CHR ''-'' \<notin> set ?b" "CHR ''-'' \<notin> set ?f"
    using hy by (meson in_set_takeD in_set_dropD)+
  then have "strip_groups 8 (uuid_out u) = Some ds"
    using strip_groups_uuid [of ?a ?b ?c ?d ?e ?f] len split unfolding out by simp
  moreover have "of_hex 0 ds = Some (unat u)"
  proof -
    have "unat u < 16 ^ 32"
      using unsigned_less [of u] by simp
    then show ?thesis by (simp add: ds_def of_hex_to_hex)
  qed
  ultimately show ?thesis by (simp add: uuid_in_def)
qed

end
