(* ===== verification/Schema.thy ===== *)
theory Schema
  imports Rbac Uuids
begin

text \<open>
  \<^verbatim>\<open>src/db/schema/\<close>: one record per table, with the columns of the source and their unique
  indexes and foreign keys (\<^verbatim>\<open>clash\<close>: the new row violates a unique index or the primary key
  because of an existing one). Nullable columns are options. \<open>db\<close> is the whole database:
  one list of rows per table, in an arbitrary scan order.
\<close>

record org_row =
  org_id :: uuid
  org_name :: string
  org_slug :: string
  org_plan :: string
  org_stripe_customer_id :: "string option"
  org_created_at :: timestamptz
  org_deleted_at :: "timestamptz option"

record user_row =
  user_id :: uuid
  user_tenant_id :: uuid
  user_email :: string
  user_password_hash :: string
  user_role :: role
  user_email_verified :: bool
  user_created_at :: timestamptz

record project_row =
  project_id :: uuid
  project_tenant_id :: uuid
  project_name :: string
  project_description :: "string option"
  project_status :: string
  project_created_at :: timestamptz
  project_updated_at :: timestamptz

text \<open>\<open>audit_metadata\<close> is a JSON object of string values (\<^verbatim>\<open>jsonb\<close>).\<close>

record audit_row =
  audit_id :: uuid
  audit_tenant_id :: uuid
  audit_actor_user_id :: "uuid option"
  audit_action :: string
  audit_target :: "string option"
  audit_metadata :: "(string \<times> string) list option"
  audit_created_at :: timestamptz

record refresh_token_row =
  rt_id :: uuid
  rt_tenant_id :: uuid
  rt_user_id :: uuid
  rt_hashed_token :: string
  rt_family_id :: uuid
  rt_used_at :: "timestamptz option"
  rt_revoked_at :: "timestamptz option"
  rt_expires_at :: timestamptz
  rt_created_at :: timestamptz

record invitation_row =
  inv_id :: uuid
  inv_tenant_id :: uuid
  inv_email :: string
  inv_role :: role
  inv_hashed_token :: string
  inv_expires_at :: timestamptz
  inv_consumed_at :: "timestamptz option"
  inv_created_at :: timestamptz

record auth_token_row =
  at_id :: uuid
  at_tenant_id :: uuid
  at_user_id :: uuid
  at_type :: string
  at_hashed_token :: string
  at_expires_at :: timestamptz
  at_consumed_at :: "timestamptz option"
  at_created_at :: timestamptz

record subscription_row =
  subs_id :: uuid
  subs_tenant_id :: uuid
  subs_stripe_subscription_id :: "string option"
  subs_status :: string
  subs_plan :: string
  subs_current_period_end :: "timestamptz option"
  subs_updated_at :: timestamptz

record api_key_row =
  ak_id :: uuid
  ak_tenant_id :: uuid
  ak_name :: string
  ak_hashed_key :: string
  ak_last_used_at :: "timestamptz option"
  ak_revoked_at :: "timestamptz option"
  ak_created_at :: timestamptz

record processed_webhook_row =
  pw_event_id :: string
  pw_processed_at :: timestamptz

record db =
  organizations :: "org_row list"
  users :: "user_row list"
  projects :: "project_row list"
  audit_log :: "audit_row list"
  refresh_tokens :: "refresh_token_row list"
  invitations :: "invitation_row list"
  auth_tokens :: "auth_token_row list"
  subscriptions :: "subscription_row list"
  api_keys :: "api_key_row list"
  processed_webhooks :: "processed_webhook_row list"

definition empty_db :: db where
  "empty_db = \<lparr>organizations = [], users = [], projects = [], audit_log = [],
     refresh_tokens = [], invitations = [], auth_tokens = [], subscriptions = [],
     api_keys = [], processed_webhooks = []\<rparr>"

subsection \<open>Unique indexes\<close>

text \<open>Two present values collide; NULLs are distinct.\<close>

definition same_some :: "'a option \<Rightarrow> 'a option \<Rightarrow> bool" where
  "same_some a b \<longleftrightarrow> a \<noteq> None \<and> a = b"

definition org_clash :: "org_row \<Rightarrow> org_row \<Rightarrow> bool" where
  "org_clash n r \<longleftrightarrow> org_id n = org_id r \<or> org_slug n = org_slug r
     \<or> same_some (org_stripe_customer_id n) (org_stripe_customer_id r)"

definition user_clash :: "user_row \<Rightarrow> user_row \<Rightarrow> bool" where
  "user_clash n r \<longleftrightarrow> user_id n = user_id r
     \<or> (user_tenant_id n = user_tenant_id r \<and> user_email n = user_email r)"

definition project_clash :: "project_row \<Rightarrow> project_row \<Rightarrow> bool" where
  "project_clash n r \<longleftrightarrow> project_id n = project_id r"

definition audit_clash :: "audit_row \<Rightarrow> audit_row \<Rightarrow> bool" where
  "audit_clash n r \<longleftrightarrow> audit_id n = audit_id r"

definition refresh_token_clash :: "refresh_token_row \<Rightarrow> refresh_token_row \<Rightarrow> bool" where
  "refresh_token_clash n r \<longleftrightarrow> rt_id n = rt_id r \<or> rt_hashed_token n = rt_hashed_token r"

definition invitation_clash :: "invitation_row \<Rightarrow> invitation_row \<Rightarrow> bool" where
  "invitation_clash n r \<longleftrightarrow> inv_id n = inv_id r \<or> inv_hashed_token n = inv_hashed_token r"

definition auth_token_clash :: "auth_token_row \<Rightarrow> auth_token_row \<Rightarrow> bool" where
  "auth_token_clash n r \<longleftrightarrow> at_id n = at_id r \<or> at_hashed_token n = at_hashed_token r"

definition subscription_clash :: "subscription_row \<Rightarrow> subscription_row \<Rightarrow> bool" where
  "subscription_clash n r \<longleftrightarrow> subs_id n = subs_id r
     \<or> same_some (subs_stripe_subscription_id n) (subs_stripe_subscription_id r)"

definition api_key_clash :: "api_key_row \<Rightarrow> api_key_row \<Rightarrow> bool" where
  "api_key_clash n r \<longleftrightarrow> ak_id n = ak_id r \<or> ak_hashed_key n = ak_hashed_key r"

definition webhook_clash :: "processed_webhook_row \<Rightarrow> processed_webhook_row \<Rightarrow> bool" where
  "webhook_clash n r \<longleftrightarrow> pw_event_id n = pw_event_id r"

lemmas clash_defs = same_some_def org_clash_def user_clash_def project_clash_def
  audit_clash_def refresh_token_clash_def invitation_clash_def auth_token_clash_def
  subscription_clash_def api_key_clash_def webhook_clash_def

subsection \<open>Foreign keys\<close>

definition org_exists :: "db \<Rightarrow> uuid \<Rightarrow> bool" where
  "org_exists d t \<longleftrightarrow> list_ex (\<lambda>r. org_id r = t) (organizations d)"

definition user_exists :: "db \<Rightarrow> uuid \<Rightarrow> bool" where
  "user_exists d u \<longleftrightarrow> list_ex (\<lambda>r. user_id r = u) (users d)"

lemma org_exists_iff: "org_exists d t \<longleftrightarrow> (\<exists>r\<in>set (organizations d). org_id r = t)"
  by (simp add: org_exists_def list_ex_iff)

lemma user_exists_iff: "user_exists d u \<longleftrightarrow> (\<exists>r\<in>set (users d). user_id r = u)"
  by (simp add: user_exists_def list_ex_iff)

subsection \<open>The table registry\<close>

text \<open>\<^verbatim>\<open>src/db/schema/index.ts\<close>: which tables carry a \<^verbatim>\<open>tenant_id\<close> and a policy.\<close>

definition TENANT_SCOPED_TABLES :: "string list" where
  "TENANT_SCOPED_TABLES =
     [''users'', ''projects'', ''audit_log'', ''refresh_tokens'', ''invitations'',
      ''auth_tokens'', ''subscriptions'', ''api_keys'']"

definition GLOBAL_TABLES :: "string list" where
  "GLOBAL_TABLES = [''organizations'', ''processed_webhooks'']"

end
