(* ===== verification/Effects.thy ===== *)
theory Effects
  imports AppErrors
begin

text \<open>
  The effects of the services: asynchronous code awaited in order is a function from the
  state to a result and a new state; a thrown value is \<open>Inl\<close>. \<open>bnd\<close> is \<^verbatim>\<open>await\<close> followed
  by the rest, \<open>try_catch\<close> and \<open>finally_do\<close> are the statements of the same name, and
  \<open>swallow\<close> is \<^verbatim>\<open>.catch(() => {})\<close>.
\<close>

type_synonym ('s, 'a) eff = "'s \<Rightarrow> (exn + 'a) \<times> 's"

definition ret :: "'a \<Rightarrow> ('s, 'a) eff" where
  "ret a s = (Inr a, s)"

definition throw :: "exn \<Rightarrow> ('s, 'a) eff" where
  "throw e s = (Inl e, s)"

definition bnd :: "('s, 'a) eff \<Rightarrow> ('a \<Rightarrow> ('s, 'b) eff) \<Rightarrow> ('s, 'b) eff" where
  "bnd m f s = (case m s of (Inl e, s') \<Rightarrow> (Inl e, s') | (Inr a, s') \<Rightarrow> f a s')"

definition andthen :: "('s, 'a) eff \<Rightarrow> ('s, 'b) eff \<Rightarrow> ('s, 'b) eff" where
  "andthen m n = bnd m (\<lambda>_. n)"

definition try_catch :: "('s, 'a) eff \<Rightarrow> (exn \<Rightarrow> ('s, 'a) eff) \<Rightarrow> ('s, 'a) eff" where
  "try_catch m h s = (case m s of (Inl e, s') \<Rightarrow> h e s' | (Inr a, s') \<Rightarrow> (Inr a, s'))"

definition finally_do :: "('s, 'a) eff \<Rightarrow> ('s, unit) eff \<Rightarrow> ('s, 'a) eff" where
  "finally_do m fin s =
     (case m s of (r, s') \<Rightarrow>
        (case fin s' of (Inl e, s'') \<Rightarrow> (Inl e, s'') | (Inr _, s'') \<Rightarrow> (r, s'')))"

definition swallow :: "('s, unit) eff \<Rightarrow> ('s, unit) eff" where
  "swallow m s = (case m s of (_, s') \<Rightarrow> (Inr (), s'))"

text \<open>A pure computation that may throw, run in any state.\<close>

definition lift_sum :: "exn + 'a \<Rightarrow> ('s, 'a) eff" where
  "lift_sum r s = (r, s)"

lemmas effect_defs [eff_simps] =
  ret_def throw_def bnd_def andthen_def try_catch_def finally_do_def swallow_def lift_sum_def

subsection \<open>Laws\<close>

lemma bnd_ret [simp]: "bnd (ret a) f = f a"
  by (rule ext) (simp add: bnd_def ret_def)

lemma ret_bnd [simp]: "bnd m ret = m"
  by (rule ext) (auto simp: bnd_def ret_def split: prod.splits sum.splits)

lemma bnd_throw [simp]: "bnd (throw e) f = throw e"
  by (rule ext) (simp add: bnd_def throw_def)

lemma bnd_assoc: "bnd (bnd m f) g = bnd m (\<lambda>a. bnd (f a) g)"
  by (rule ext) (auto simp: bnd_def split: prod.splits sum.splits)

lemma try_catch_ret [simp]: "try_catch (ret a) h = ret a"
  by (rule ext) (simp add: try_catch_def ret_def)

lemma try_catch_throw [simp]: "try_catch (throw e) h = h e"
  by (rule ext) (simp add: try_catch_def throw_def)

lemma swallow_never_throws: "\<exists>s'. swallow m s = (Inr (), s')"
  by (auto simp: swallow_def split: prod.splits)

text \<open>One step at a time, for evaluating a straight-line program on a given state.\<close>

lemma bnd_InrI: "m s = (Inr a, s') \<Longrightarrow> bnd m f s = f a s'"
  by (simp add: bnd_def)

lemma bnd_InlI: "m s = (Inl e, s') \<Longrightarrow> bnd m f s = (Inl e, s')"
  by (simp add: bnd_def)

text \<open>For \<open>simp only\<close>: run a program against known equations of its steps.\<close>

lemmas run_steps = bnd_def andthen_def lift_sum_def throw_def ret_def prod.case sum.case
  option.case if_True if_False

lemma bnd_InrE:
  assumes "bnd m f s = (Inr b, s'')"
  obtains a s' where "m s = (Inr a, s')" and "f a s' = (Inr b, s'')"
  using assms by (auto simp: bnd_def split: prod.splits sum.splits)

subsection \<open>State relations kept by a program\<close>

text \<open>
  \<open>tracks R m\<close>: every run of \<open>m\<close>, successful or not, relates its start to its end by
  \<open>R\<close>. For a reflexive and transitive \<open>R\<close> it composes.
\<close>

definition tracks :: "('s \<Rightarrow> 's \<Rightarrow> bool) \<Rightarrow> ('s, 'a) eff \<Rightarrow> bool" where
  "tracks R m \<longleftrightarrow> (\<forall>s. R s (snd (m s)))"

lemma tracksD: "tracks R m \<Longrightarrow> m s = (r, s') \<Longrightarrow> R s s'"
  by (metis tracks_def snd_conv)

locale state_order =
  fixes R :: "'s \<Rightarrow> 's \<Rightarrow> bool"
  assumes order_refl: "R s s"
    and order_trans: "R s t \<Longrightarrow> R t u \<Longrightarrow> R s u"
begin

lemma tracks_ret: "tracks R (ret a)"
  by (simp add: tracks_def ret_def order_refl)

lemma tracks_throw: "tracks R (throw e)"
  by (simp add: tracks_def throw_def order_refl)

lemma tracks_lift_sum: "tracks R (lift_sum r)"
  by (simp add: tracks_def lift_sum_def order_refl)

lemma tracks_bnd:
  assumes "tracks R m" and "\<And>a. tracks R (f a)"
  shows "tracks R (bnd m f)"
  unfolding tracks_def
proof
  fix s
  obtain r s' where m: "m s = (r, s')" by fastforce
  then have "R s s'" by (rule tracksD [OF assms(1)])
  then show "R s (snd (bnd m f s))"
    using m assms(2) by (cases r) (auto simp: bnd_def tracks_def intro: order_trans)
qed

lemma tracks_andthen: "tracks R m \<Longrightarrow> tracks R n \<Longrightarrow> tracks R (andthen m n)"
  by (simp add: andthen_def tracks_bnd)

lemma tracks_try_catch:
  assumes "tracks R m" and "\<And>e. tracks R (h e)"
  shows "tracks R (try_catch m h)"
  unfolding tracks_def
proof
  fix s
  obtain r s' where m: "m s = (r, s')" by fastforce
  then have "R s s'" by (rule tracksD [OF assms(1)])
  then show "R s (snd (try_catch m h s))"
    using m assms(2) by (cases r) (auto simp: try_catch_def tracks_def intro: order_trans)
qed

lemma tracks_swallow: "tracks R m \<Longrightarrow> tracks R (swallow m)"
  by (simp add: tracks_def swallow_def split: prod.splits) (metis snd_conv)

lemma tracks_finally_do:
  assumes "tracks R m" and "tracks R fin"
  shows "tracks R (finally_do m fin)"
  unfolding tracks_def
proof
  fix s
  obtain r s' where m: "m s = (r, s')" by fastforce
  obtain r' s'' where f: "fin s' = (r', s'')" by fastforce
  have "R s s'" "R s' s''"
    using tracksD [OF assms(1) m] tracksD [OF assms(2) f] by auto
  then show "R s (snd (finally_do m fin s))"
    using m f by (cases r') (auto simp: finally_do_def intro: order_trans)
qed

lemmas tracks_intros = tracks_ret tracks_throw tracks_lift_sum tracks_bnd tracks_andthen
  tracks_try_catch tracks_swallow tracks_finally_do

end

end
