(* ===== verification/Sql.thy ===== *)
theory Sql
  imports Schema Effects
begin

text \<open>
  SQL as the source uses it: connections with their role attributes, transaction state and
  the setting \<^verbatim>\<open>app.current_tenant_id\<close>; statements over the tables under the row policies
  of \<^verbatim>\<open>src/db/rls.ts\<close>; transactions. The semantics is PostgreSQL's:
  \<^item> \<^verbatim>\<open>set_config(name, value, true)\<close> lasts until the transaction ends;
  \<^item> a role with \<^verbatim>\<open>BYPASSRLS\<close> (or a superuser) is not subject to policies, every other role
    is, the table owner too (\<^verbatim>\<open>FORCE ROW LEVEL SECURITY\<close>);
  \<^item> a row is visible to SELECT, UPDATE and DELETE when its \<open>tenant_id\<close> equals the setting,
    and a written row has to satisfy the same condition, else the statement fails;
  \<^item> a failed statement aborts its transaction: every further statement fails until
    ROLLBACK, and COMMIT then rolls back.
\<close>

subsection \<open>Connections\<close>

text \<open>
  The text of a custom setting: never set, the empty text (what such a setting reads after
  a transaction-local value expired or was reset), or a tenant id.
\<close>

datatype setting = Unset | EmptyText | UuidText uuid

datatype tx_state = NoTx | InTx db | Aborted db

record conn =
  bypass_rls :: bool
  tx :: tx_state
  local_tenant :: "setting option"
  session_tenant :: setting

text \<open>\<^verbatim>\<open>NULLIF(current_setting('app.current_tenant_id', true), '')::uuid\<close>\<close>

definition current_setting :: "conn \<Rightarrow> setting" where
  "current_setting c = (case local_tenant c of Some v \<Rightarrow> v | None \<Rightarrow> session_tenant c)"

definition current_tenant :: "conn \<Rightarrow> uuid option" where
  "current_tenant c = (case current_setting c of UuidText u \<Rightarrow> Some u | _ \<Rightarrow> None)"

text \<open>The policy \<^verbatim>\<open>USING\<close>/\<^verbatim>\<open>WITH CHECK (tenant_id = ...)\<close>; NULL compares to nothing.\<close>

definition visible :: "conn \<Rightarrow> uuid \<Rightarrow> bool" where
  "visible c t \<longleftrightarrow> bypass_rls c \<or> current_tenant c = Some t"

text \<open>
  Outgoing calls to Stripe, in order: they are not undone by a ROLLBACK.
\<close>

datatype stripe_call =
    CreateCustomer string uuid
  | CreateCheckoutSession string string string string uuid
  | CreatePortalSession string string
  | GetSubscription string

text \<open>
  The state a service runs in: the database, the pooled connection it works on and the
  calls made so far.
\<close>

record state =
  st_db :: db
  st_conn :: conn
  st_calls :: "stripe_call list"

type_synonym 'a io = "(state, 'a) eff"
type_synonym 'a query = "conn \<Rightarrow> db \<Rightarrow> sql_error + 'a \<times> db"

subsection \<open>Running a statement\<close>

definition abort_tx :: "conn \<Rightarrow> conn" where
  "abort_tx c = (case tx c of InTx d \<Rightarrow> c\<lparr>tx := Aborted d\<rparr> | _ \<Rightarrow> c)"

definition exec :: "'a query \<Rightarrow> 'a io" where
  "exec q s =
     (case tx (st_conn s) of
        Aborted _ \<Rightarrow> (Inl (SqlError InFailedTransaction), s)
      | _ \<Rightarrow> (case q (st_conn s) (st_db s) of
                Inl e \<Rightarrow> (Inl (SqlError e), s\<lparr>st_conn := abort_tx (st_conn s)\<rparr>)
              | Inr (a, d) \<Rightarrow> (Inr a, s\<lparr>st_db := d\<rparr>)))"

definition begin_tx :: "unit io" where
  "begin_tx s =
     (case tx (st_conn s) of
        NoTx \<Rightarrow> (Inr (), s\<lparr>st_conn := (st_conn s)\<lparr>tx := InTx (st_db s)\<rparr>\<rparr>)
      | InTx _ \<Rightarrow> (Inr (), s)
      | Aborted _ \<Rightarrow> (Inl (SqlError InFailedTransaction), s))"

text \<open>The end of a transaction drops the transaction-local setting; it then reads empty.\<close>

definition end_tx :: "conn \<Rightarrow> conn" where
  "end_tx c =
     c\<lparr>tx := NoTx, local_tenant := None,
       session_tenant :=
         (if local_tenant c \<noteq> None \<and> session_tenant c = Unset then EmptyText else session_tenant c)\<rparr>"

definition commit_tx :: "unit io" where
  "commit_tx s =
     (case tx (st_conn s) of
        NoTx \<Rightarrow> (Inr (), s)
      | InTx _ \<Rightarrow> (Inr (), s\<lparr>st_conn := end_tx (st_conn s)\<rparr>)
      | Aborted d \<Rightarrow> (Inr (), s\<lparr>st_db := d, st_conn := end_tx (st_conn s)\<rparr>))"

definition rollback_tx :: "unit io" where
  "rollback_tx s =
     (case tx (st_conn s) of
        NoTx \<Rightarrow> (Inr (), s)
      | InTx d \<Rightarrow> (Inr (), s\<lparr>st_db := d, st_conn := end_tx (st_conn s)\<rparr>)
      | Aborted d \<Rightarrow> (Inr (), s\<lparr>st_db := d, st_conn := end_tx (st_conn s)\<rparr>))"

text \<open>
  \<^verbatim>\<open>SELECT set_config('app.current_tenant_id', $1, true)\<close>: outside a transaction the local
  value is gone as soon as the statement ends.
\<close>

definition set_config_local :: "uuid \<Rightarrow> unit io" where
  "set_config_local t s =
     (case tx (st_conn s) of
        Aborted _ \<Rightarrow> (Inl (SqlError InFailedTransaction), s)
      | NoTx \<Rightarrow> (Inr (), s)
      | InTx _ \<Rightarrow> (Inr (), s\<lparr>st_conn := (st_conn s)\<lparr>local_tenant := Some (UuidText t)\<rparr>\<rparr>))"

text \<open>\<^verbatim>\<open>RESET app.current_tenant_id\<close>: back to the empty text.\<close>

definition reset_tenant :: "unit io" where
  "reset_tenant s =
     (case tx (st_conn s) of
        Aborted _ \<Rightarrow> (Inl (SqlError InFailedTransaction), s)
      | _ \<Rightarrow> (Inr (), s\<lparr>st_conn := (st_conn s)\<lparr>local_tenant := None, session_tenant := EmptyText\<rparr>\<rparr>))"

text \<open>A gateway call is recorded; what it answers is decided by the gateway.\<close>

definition log_call :: "stripe_call \<Rightarrow> unit io" where
  "log_call c s = (Inr (), s\<lparr>st_calls := st_calls s @ [c]\<rparr>)"

subsection \<open>Statements over a tenant-scoped table\<close>

text \<open>
  \<open>get\<close> and \<open>upd\<close> read and update the table in the database, \<open>ten\<close> is its \<open>tenant_id\<close>
  column, \<open>clash\<close> its unique indexes, \<open>fk\<close> its foreign keys. Updates and deletes return the
  number of rows (\<^verbatim>\<open>rowCount\<close>). No update of a tenant-scoped table in the source writes an
  indexed unique column.
\<close>

definition q_select ::
  "(db \<Rightarrow> 'r list) \<Rightarrow> ('r \<Rightarrow> uuid) \<Rightarrow> ('r \<Rightarrow> bool) \<Rightarrow> 'r list query" where
  "q_select get ten p c d = Inr (filter (\<lambda>r. visible c (ten r) \<and> p r) (get d), d)"

definition q_insert ::
  "(db \<Rightarrow> 'r list) \<Rightarrow> (('r list \<Rightarrow> 'r list) \<Rightarrow> db \<Rightarrow> db) \<Rightarrow> ('r \<Rightarrow> uuid) \<Rightarrow>
   ('r \<Rightarrow> 'r \<Rightarrow> bool) \<Rightarrow> (db \<Rightarrow> 'r \<Rightarrow> bool) \<Rightarrow> 'r \<Rightarrow> unit query" where
  "q_insert get upd ten clash fk row c d =
     (if \<not> visible c (ten row) then Inl RlsViolation
      else if list_ex (clash row) (get d) then Inl UniqueViolation
      else if \<not> fk d row then Inl ForeignKeyViolation
      else Inr ((), upd (\<lambda>rs. rs @ [row]) d))"

definition q_update ::
  "(db \<Rightarrow> 'r list) \<Rightarrow> (('r list \<Rightarrow> 'r list) \<Rightarrow> db \<Rightarrow> db) \<Rightarrow> ('r \<Rightarrow> uuid) \<Rightarrow>
   ('r \<Rightarrow> bool) \<Rightarrow> ('r \<Rightarrow> 'r) \<Rightarrow> nat query" where
  "q_update get upd ten p f c d =
     (let hit = (\<lambda>r. visible c (ten r) \<and> p r) in
      if list_ex (\<lambda>r. hit r \<and> \<not> visible c (ten (f r))) (get d) then Inl RlsViolation
      else Inr (length (filter hit (get d)), upd (map (\<lambda>r. if hit r then f r else r)) d))"

definition q_delete ::
  "(db \<Rightarrow> 'r list) \<Rightarrow> (('r list \<Rightarrow> 'r list) \<Rightarrow> db \<Rightarrow> db) \<Rightarrow> ('r \<Rightarrow> uuid) \<Rightarrow>
   ('r \<Rightarrow> bool) \<Rightarrow> nat query" where
  "q_delete get upd ten p c d =
     (let hit = (\<lambda>r. visible c (ten r) \<and> p r) in
      Inr (length (filter hit (get d)), upd (filter (\<lambda>r. \<not> hit r)) d))"

subsection \<open>Statements over the global tables\<close>

definition q_select_orgs :: "(org_row \<Rightarrow> bool) \<Rightarrow> org_row list query" where
  "q_select_orgs p c d = Inr (filter p (organizations d), d)"

definition q_insert_org :: "org_row \<Rightarrow> unit query" where
  "q_insert_org row c d =
     (if list_ex (org_clash row) (organizations d) then Inl UniqueViolation
      else Inr ((), d\<lparr>organizations := organizations d @ [row]\<rparr>))"

text \<open>
  An update of organizations by id; the new row must not collide with another one.
\<close>

definition q_update_org :: "(org_row \<Rightarrow> bool) \<Rightarrow> (org_row \<Rightarrow> org_row) \<Rightarrow> nat query" where
  "q_update_org p f c d =
     (if list_ex (\<lambda>r. p r \<and> list_ex (\<lambda>r'. org_id r' \<noteq> org_id r \<and> org_clash (f r) r') (organizations d))
           (organizations d)
      then Inl UniqueViolation
      else Inr (length (filter p (organizations d)),
             d\<lparr>organizations := map (\<lambda>r. if p r then f r else r) (organizations d)\<rparr>))"

definition q_insert_webhook :: "processed_webhook_row \<Rightarrow> unit query" where
  "q_insert_webhook row c d =
     (if list_ex (webhook_clash row) (processed_webhooks d) then Inl UniqueViolation
      else Inr ((), d\<lparr>processed_webhooks := processed_webhooks d @ [row]\<rparr>))"

lemmas query_defs [sql_simps] = q_select_def q_insert_def q_update_def q_delete_def
  q_select_orgs_def q_insert_org_def q_update_org_def q_insert_webhook_def

end
