(* ===== verification/Transactions.thy ===== *)
theory Transactions
  imports Sql
begin

text \<open>
  The transaction discipline every owner-pool service follows (\<^verbatim>\<open>withTenantTx\<close>, repeated in
  \<^verbatim>\<open>src/auth/refresh.service.ts\<close>, \<^verbatim>\<open>src/auth/password-reset.service.ts\<close> and
  \<^verbatim>\<open>src/team/team.service.ts\<close>, and written out in signup, login and cancel):
  BEGIN, work, COMMIT; on any exception ROLLBACK and rethrow; at the end RESET and release.
  The theory shows that this protocol of statements implements an atomic update: an
  exception leaves the database as it was, and the connection always goes back to the pool
  clean.
\<close>

subsection \<open>The protocol\<close>

definition tx_block :: "'a io \<Rightarrow> 'a io" where
  "tx_block body =
     finally_do
       (try_catch
          (andthen begin_tx
            (bnd body (\<lambda>out.
             andthen commit_tx (ret out))))
          (\<lambda>e. andthen (swallow rollback_tx) (throw e)))
       (swallow reset_tenant)"

definition with_tenant_tx :: "uuid \<Rightarrow> 'a io \<Rightarrow> 'a io" where
  "with_tenant_tx tenant fn =
     finally_do
       (try_catch
          (andthen begin_tx
            (andthen (set_config_local tenant)
              (bnd fn (\<lambda>out.
               andthen commit_tx (ret out)))))
          (\<lambda>e. andthen (swallow rollback_tx) (throw e)))
       (swallow reset_tenant)"

lemma with_tenant_tx_block: "with_tenant_tx t fn = tx_block (andthen (set_config_local t) fn)"
  by (simp add: with_tenant_tx_def tx_block_def andthen_def bnd_assoc)

subsection \<open>Clean connections\<close>

text \<open>
  A connection is clean when no transaction is open on it and its setting names no tenant:
  what the pool has to hold (R6.9).
\<close>

definition clean :: "conn \<Rightarrow> bool" where
  "clean c \<longleftrightarrow> tx c = NoTx \<and> local_tenant c = None \<and>
     (case session_tenant c of UuidText _ \<Rightarrow> False | _ \<Rightarrow> True)"

lemma clean_no_tenant: "clean c \<Longrightarrow> current_tenant c = None"
  by (simp add: clean_def current_tenant_def current_setting_def split: setting.splits)

definition released :: "conn \<Rightarrow> conn" where
  "released c = c\<lparr>tx := NoTx, local_tenant := None, session_tenant := EmptyText\<rparr>"

definition fresh_conn :: "bool \<Rightarrow> conn" where
  "fresh_conn b = \<lparr>bypass_rls = b, tx = NoTx, local_tenant = None, session_tenant = Unset\<rparr>"

definition start_state :: "bool \<Rightarrow> db \<Rightarrow> state" where
  "start_state b d = \<lparr>st_db = d, st_conn = fresh_conn b, st_calls = []\<rparr>"

lemma clean_released [simp]: "clean (released c)"
  by (simp add: clean_def released_def current_tenant_def current_setting_def)

lemma clean_fresh_conn [simp]: "clean (fresh_conn b)"
  by (simp add: clean_def fresh_conn_def current_tenant_def current_setting_def)

lemma bypass_released [simp]: "bypass_rls (released c) = bypass_rls c"
  by (simp add: released_def)

lemma released_idem [simp]: "released (released c) = released c"
  by (simp add: released_def)

lemma clean_NoTx: "clean c \<Longrightarrow> tx c = NoTx"
  by (simp add: clean_def)

lemma clean_visible: "clean c \<Longrightarrow> visible c t \<longleftrightarrow> bypass_rls c"
  by (simp add: clean_no_tenant visible_def)

lemma start_state_simps [simp]:
  "st_db (start_state b d) = d" "st_conn (start_state b d) = fresh_conn b"
  "st_calls (start_state b d) = []" "bypass_rls (fresh_conn b) = b"
  by (simp_all add: start_state_def fresh_conn_def)

subsection \<open>What a transaction body does to its connection\<close>

text \<open>
  The statements of a body never end the transaction: it stays open or becomes aborted,
  with the snapshot it began from.
\<close>

definition tx_kept :: "state \<Rightarrow> state \<Rightarrow> bool" where
  "tx_kept s s' \<longleftrightarrow>
     bypass_rls (st_conn s') = bypass_rls (st_conn s) \<and>
     session_tenant (st_conn s') = session_tenant (st_conn s) \<and>
     (case tx (st_conn s) of
        NoTx \<Rightarrow> tx (st_conn s') = NoTx
      | InTx d \<Rightarrow> tx (st_conn s') = InTx d \<or> tx (st_conn s') = Aborted d
      | Aborted d \<Rightarrow> tx (st_conn s') = Aborted d \<and> st_db s' = st_db s)"

interpretation txk: state_order tx_kept
proof
  show "tx_kept s s" for s
    by (auto simp: tx_kept_def split: tx_state.splits)
  show "tx_kept s t \<Longrightarrow> tx_kept t u \<Longrightarrow> tx_kept s u" for s t u
    by (auto simp: tx_kept_def split: tx_state.splits)
qed

lemma abort_tx_simps [simp]:
  "tx c = NoTx \<Longrightarrow> abort_tx c = c"
  "tx c = InTx d \<Longrightarrow> abort_tx c = c\<lparr>tx := Aborted d\<rparr>"
  by (simp_all add: abort_tx_def)

lemma tx_kept_exec: "tracks tx_kept (exec q)"
  by (auto simp: tracks_def exec_def tx_kept_def abort_tx_def
      split: tx_state.splits sum.splits prod.splits)

lemma tx_kept_set_config: "tracks tx_kept (set_config_local t)"
  by (auto simp: tracks_def set_config_local_def tx_kept_def split: tx_state.splits)

lemma tx_kept_log_call: "tracks tx_kept (log_call c)"
  by (auto simp: tracks_def log_call_def tx_kept_def split: tx_state.splits)

lemma tracks_if: "tracks R m \<Longrightarrow> tracks R n \<Longrightarrow> tracks R (if b then m else n)"
  by simp

lemmas tx_kept_intros =
  txk.tracks_intros tx_kept_exec tx_kept_set_config tx_kept_log_call tracks_if

subsection \<open>The protocol is atomic\<close>

definition entered :: "state \<Rightarrow> state" where
  "entered s = s\<lparr>st_conn := (st_conn s)\<lparr>tx := InTx (st_db s)\<rparr>\<rparr>"

definition committed_db :: "state \<Rightarrow> db" where
  "committed_db s = (case tx (st_conn s) of Aborted d \<Rightarrow> d | _ \<Rightarrow> st_db s)"

lemma end_tx_simps [simp]:
  "tx (end_tx c) = NoTx" "local_tenant (end_tx c) = None" "bypass_rls (end_tx c) = bypass_rls c"
  by (simp_all add: end_tx_def)

lemma reset_end_tx:
  "bypass_rls c' = bypass_rls c \<Longrightarrow>
   (end_tx c')\<lparr>local_tenant := None, session_tenant := EmptyText\<rparr> = released c"
  by (simp add: end_tx_def released_def)

lemma tx_block_run:
  assumes kept: "tracks tx_kept body" and idle: "tx (st_conn s) = NoTx"
  shows "tx_block body s =
    (case body (entered s) of
       (Inr a, s1) \<Rightarrow> (Inr a, s1\<lparr>st_db := committed_db s1, st_conn := released (st_conn s)\<rparr>)
     | (Inl e, s1) \<Rightarrow> (Inl e, s1\<lparr>st_db := st_db s, st_conn := released (st_conn s)\<rparr>))"
proof -
  obtain r s1 where b: "body (entered s) = (r, s1)" by fastforce
  have k: "tx_kept (entered s) s1" by (rule tracksD [OF kept b])
  then have bp: "bypass_rls (st_conn s1) = bypass_rls (st_conn s)"
    and tx1: "tx (st_conn s1) = InTx (st_db s) \<or> tx (st_conn s1) = Aborted (st_db s)"
    by (auto simp: tx_kept_def entered_def)
  have e: "begin_tx s = (Inr (), entered s)"
    by (simp add: begin_tx_def idle entered_def)
  show ?thesis
    using b bp tx1
    by (cases r)
      (auto simp: tx_block_def eff_simps e commit_tx_def rollback_tx_def reset_tenant_def
        committed_db_def reset_end_tx [of _ "st_conn s"])
qed

lemma entered_simps [simp]:
  "st_db (entered s) = st_db s" "st_calls (entered s) = st_calls s"
  "tx (st_conn (entered s)) = InTx (st_db s)"
  "bypass_rls (st_conn (entered s)) = bypass_rls (st_conn s)"
  by (simp_all add: entered_def)

text \<open>An exception undoes everything, whatever the body did before it.\<close>

lemma tx_block_atomic:
  assumes "tracks tx_kept body" and "tx (st_conn s) = NoTx"
    and "tx_block body s = (Inl e, s')"
  shows "st_db s' = st_db s"
  using assms by (auto simp: tx_block_run split: prod.splits sum.splits)

text \<open>Success or not, the connection goes back clean and with its role.\<close>

lemma tx_block_releases:
  assumes "tracks tx_kept body" and "tx (st_conn s) = NoTx"
    and "tx_block body s = (r, s')"
  shows "st_conn s' = released (st_conn s)"
  using assms by (auto simp: tx_block_run split: prod.splits sum.splits)

subsection \<open>Inside a tenant transaction\<close>

text \<open>The state in which the body of \<^verbatim>\<open>withTenantTx\<close> starts.\<close>

definition in_tenant_tx :: "uuid \<Rightarrow> state \<Rightarrow> state" where
  "in_tenant_tx t s =
     s\<lparr>st_conn := (st_conn s)\<lparr>tx := InTx (st_db s), local_tenant := Some (UuidText t)\<rparr>\<rparr>"

lemma in_tenant_tx_simps [simp]:
  "st_db (in_tenant_tx t s) = st_db s" "st_calls (in_tenant_tx t s) = st_calls s"
  "tx (st_conn (in_tenant_tx t s)) = InTx (st_db s)"
  "bypass_rls (st_conn (in_tenant_tx t s)) = bypass_rls (st_conn s)"
  "current_tenant (st_conn (in_tenant_tx t s)) = Some t"
  by (simp_all add: in_tenant_tx_def current_tenant_def current_setting_def)

lemma visible_in_tenant_tx [simp]:
  "visible (st_conn (in_tenant_tx t s)) u \<longleftrightarrow> bypass_rls (st_conn s) \<or> u = t"
  by (auto simp: visible_def)

lemma with_tenant_tx_run:
  assumes kept: "tracks tx_kept fn" and idle: "tx (st_conn s) = NoTx"
  shows "with_tenant_tx t fn s =
    (case fn (in_tenant_tx t s) of
       (Inr a, s1) \<Rightarrow> (Inr a, s1\<lparr>st_db := committed_db s1, st_conn := released (st_conn s)\<rparr>)
     | (Inl e, s1) \<Rightarrow> (Inl e, s1\<lparr>st_db := st_db s, st_conn := released (st_conn s)\<rparr>))"
proof -
  have k: "tracks tx_kept (andthen (set_config_local t) fn)"
    by (intro tx_kept_intros kept)
  have "set_config_local t (entered s) = (Inr (), in_tenant_tx t s)"
    by (simp add: set_config_local_def entered_def in_tenant_tx_def)
  then have "andthen (set_config_local t) fn (entered s) = fn (in_tenant_tx t s)"
    by (simp add: andthen_def bnd_InrI)
  then show ?thesis
    by (simp add: with_tenant_tx_block tx_block_run [OF k idle])
qed

lemma with_tenant_tx_atomic:
  assumes "tracks tx_kept fn" and "tx (st_conn s) = NoTx"
    and "with_tenant_tx t fn s = (Inl e, s')"
  shows "st_db s' = st_db s"
  using assms by (auto simp: with_tenant_tx_run split: prod.splits sum.splits)

lemma with_tenant_tx_releases:
  assumes "tracks tx_kept fn" and "tx (st_conn s) = NoTx"
    and "with_tenant_tx t fn s = (r, s')"
  shows "st_conn s' = released (st_conn s)"
  using assms by (auto simp: with_tenant_tx_run split: prod.splits sum.splits)

subsection \<open>Evaluating a statement\<close>

text \<open>
  In an open transaction and outside one, a statement that succeeds replaces the database,
  and one that fails throws.
\<close>

definition live :: "state \<Rightarrow> bool" where
  "live s \<longleftrightarrow> (\<forall>d. tx (st_conn s) \<noteq> Aborted d)"

lemma live_in_tenant_tx [simp]: "live (in_tenant_tx t s)"
  by (simp add: live_def)

lemma live_entered [simp]: "live (entered s)"
  by (simp add: live_def)

lemma live_NoTx: "tx (st_conn s) = NoTx \<Longrightarrow> live s"
  by (simp add: live_def)

lemma live_st_db [simp]: "live (s\<lparr>st_db := d\<rparr>) \<longleftrightarrow> live s"
  by (simp add: live_def)

lemma live_st_conn [simp]: "live (s\<lparr>st_conn := c\<rparr>) \<longleftrightarrow> (\<forall>d. tx c \<noteq> Aborted d)"
  by (simp add: live_def)

lemma committed_live: "live s \<Longrightarrow> committed_db s = st_db s"
  by (auto simp: live_def committed_db_def split: tx_state.splits)

lemma exec_live:
  "live s \<Longrightarrow> exec q s =
     (case q (st_conn s) (st_db s) of
        Inl e \<Rightarrow> (Inl (SqlError e), s\<lparr>st_conn := abort_tx (st_conn s)\<rparr>)
      | Inr (a, d) \<Rightarrow> (Inr a, s\<lparr>st_db := d\<rparr>))"
  by (auto simp: live_def exec_def split: tx_state.splits)

text \<open>
  A query on the pool itself (\<^verbatim>\<open>ownerPool.query\<close>) is a statement outside any transaction, on
  a pooled connection: no tenant is set, so only a bypassing role sees tenant rows.
\<close>

lemma exec_select_clean:
  assumes "clean (st_conn s)"
  shows "exec (q_select get ten p) s =
    (Inr (if bypass_rls (st_conn s) then filter p (get (st_db s)) else []), s)"
proof -
  have l: "live s" using assms by (simp add: clean_NoTx live_NoTx)
  show ?thesis
    by (simp add: exec_live [OF l] q_select_def clean_visible [OF assms])
qed

end
