(* ===== verification/Tables.thy ===== *)
theory Tables
  imports Transactions
begin

text \<open>
  The statements of the source, table by table, and the interface of a tenant-scoped table:
  what every statement under the policies guarantees about the rows of other tenants. The
  interface is the locale \<open>tenant_table\<close>; it is interpreted on all eight tables of
  \<^verbatim>\<open>TENANT_SCOPED_TABLES\<close>.
\<close>

abbreviation "select_users \<equiv> \<lambda>p. exec (q_select users user_tenant_id p)"
abbreviation "insert_user \<equiv> \<lambda>r. exec (q_insert users users_update user_tenant_id user_clash
  (\<lambda>d r. org_exists d (user_tenant_id r)) r)"
abbreviation "update_users \<equiv> \<lambda>p f. exec (q_update users users_update user_tenant_id p f)"

abbreviation "select_projects \<equiv> \<lambda>p. exec (q_select projects project_tenant_id p)"
abbreviation "insert_project \<equiv> \<lambda>r. exec (q_insert projects projects_update project_tenant_id
  project_clash (\<lambda>d r. org_exists d (project_tenant_id r)) r)"
abbreviation "update_projects \<equiv> \<lambda>p f. exec (q_update projects projects_update project_tenant_id p f)"
abbreviation "delete_projects \<equiv> \<lambda>p. exec (q_delete projects projects_update project_tenant_id p)"

abbreviation "insert_audit \<equiv> \<lambda>r. exec (q_insert audit_log audit_log_update audit_tenant_id
  audit_clash (\<lambda>d r. org_exists d (audit_tenant_id r)) r)"

abbreviation "select_refresh_tokens \<equiv> \<lambda>p. exec (q_select refresh_tokens rt_tenant_id p)"
abbreviation "insert_refresh_token \<equiv> \<lambda>r. exec (q_insert refresh_tokens refresh_tokens_update
  rt_tenant_id refresh_token_clash
  (\<lambda>d r. org_exists d (rt_tenant_id r) \<and> user_exists d (rt_user_id r)) r)"
abbreviation "update_refresh_tokens \<equiv> \<lambda>p f. exec (q_update refresh_tokens refresh_tokens_update
  rt_tenant_id p f)"

abbreviation "select_invitations \<equiv> \<lambda>p. exec (q_select invitations inv_tenant_id p)"
abbreviation "insert_invitation \<equiv> \<lambda>r. exec (q_insert invitations invitations_update
  inv_tenant_id invitation_clash (\<lambda>d r. org_exists d (inv_tenant_id r)) r)"
abbreviation "update_invitations \<equiv> \<lambda>p f. exec (q_update invitations invitations_update
  inv_tenant_id p f)"

abbreviation "select_auth_tokens \<equiv> \<lambda>p. exec (q_select auth_tokens at_tenant_id p)"
abbreviation "insert_auth_token \<equiv> \<lambda>r. exec (q_insert auth_tokens auth_tokens_update
  at_tenant_id auth_token_clash
  (\<lambda>d r. org_exists d (at_tenant_id r) \<and> user_exists d (at_user_id r)) r)"
abbreviation "update_auth_tokens \<equiv> \<lambda>p f. exec (q_update auth_tokens auth_tokens_update
  at_tenant_id p f)"

abbreviation "select_subscriptions \<equiv> \<lambda>p. exec (q_select subscriptions subs_tenant_id p)"

abbreviation "select_api_keys \<equiv> \<lambda>p. exec (q_select api_keys ak_tenant_id p)"
abbreviation "insert_api_key \<equiv> \<lambda>r. exec (q_insert api_keys api_keys_update ak_tenant_id
  api_key_clash (\<lambda>d r. org_exists d (ak_tenant_id r)) r)"
abbreviation "update_api_keys \<equiv> \<lambda>p f. exec (q_update api_keys api_keys_update ak_tenant_id p f)"

abbreviation "select_orgs \<equiv> \<lambda>p. exec (q_select_orgs p)"

subsection \<open>What belongs to the other tenants\<close>

definition others_kept :: "uuid \<Rightarrow> db \<Rightarrow> db \<Rightarrow> bool" where
  "others_kept t d d' \<longleftrightarrow>
     organizations d' = organizations d \<and>
     processed_webhooks d' = processed_webhooks d \<and>
     filter (\<lambda>r. user_tenant_id r \<noteq> t) (users d') = filter (\<lambda>r. user_tenant_id r \<noteq> t) (users d) \<and>
     filter (\<lambda>r. project_tenant_id r \<noteq> t) (projects d') =
       filter (\<lambda>r. project_tenant_id r \<noteq> t) (projects d) \<and>
     filter (\<lambda>r. audit_tenant_id r \<noteq> t) (audit_log d') =
       filter (\<lambda>r. audit_tenant_id r \<noteq> t) (audit_log d) \<and>
     filter (\<lambda>r. rt_tenant_id r \<noteq> t) (refresh_tokens d') =
       filter (\<lambda>r. rt_tenant_id r \<noteq> t) (refresh_tokens d) \<and>
     filter (\<lambda>r. inv_tenant_id r \<noteq> t) (invitations d') =
       filter (\<lambda>r. inv_tenant_id r \<noteq> t) (invitations d) \<and>
     filter (\<lambda>r. at_tenant_id r \<noteq> t) (auth_tokens d') =
       filter (\<lambda>r. at_tenant_id r \<noteq> t) (auth_tokens d) \<and>
     filter (\<lambda>r. subs_tenant_id r \<noteq> t) (subscriptions d') =
       filter (\<lambda>r. subs_tenant_id r \<noteq> t) (subscriptions d) \<and>
     filter (\<lambda>r. ak_tenant_id r \<noteq> t) (api_keys d') =
       filter (\<lambda>r. ak_tenant_id r \<noteq> t) (api_keys d)"

text \<open>The part of the database a tenant may see: its own rows and its own organization.\<close>

definition tenant_view :: "uuid \<Rightarrow> db \<Rightarrow> db" where
  "tenant_view t d =
     \<lparr>organizations = filter (\<lambda>r. org_id r = t) (organizations d),
      users = filter (\<lambda>r. user_tenant_id r = t) (users d),
      projects = filter (\<lambda>r. project_tenant_id r = t) (projects d),
      audit_log = filter (\<lambda>r. audit_tenant_id r = t) (audit_log d),
      refresh_tokens = filter (\<lambda>r. rt_tenant_id r = t) (refresh_tokens d),
      invitations = filter (\<lambda>r. inv_tenant_id r = t) (invitations d),
      auth_tokens = filter (\<lambda>r. at_tenant_id r = t) (auth_tokens d),
      subscriptions = filter (\<lambda>r. subs_tenant_id r = t) (subscriptions d),
      api_keys = filter (\<lambda>r. ak_tenant_id r = t) (api_keys d),
      processed_webhooks = []\<rparr>"

text \<open>A session of the app role bound to a tenant: what \<^verbatim>\<open>withTenant\<close> opens.\<close>

definition bound_to :: "uuid \<Rightarrow> conn \<Rightarrow> bool" where
  "bound_to t c \<longleftrightarrow> \<not> bypass_rls c \<and> current_tenant c = Some t"

lemma visible_bound [simp]: "bound_to t c \<Longrightarrow> visible c u \<longleftrightarrow> u = t"
  by (auto simp: bound_to_def visible_def)

definition isolated :: "uuid \<Rightarrow> state \<Rightarrow> state \<Rightarrow> bool" where
  "isolated t s s' \<longleftrightarrow>
     (bound_to t (st_conn s) \<longrightarrow> bound_to t (st_conn s') \<and> others_kept t (st_db s) (st_db s'))"

interpretation iso: state_order "isolated t" for t
proof
  show "isolated t s s" for s by (simp add: isolated_def others_kept_def)
  show "isolated t s1 s2 \<Longrightarrow> isolated t s2 s3 \<Longrightarrow> isolated t s1 s3" for s1 s2 s3
    by (simp add: isolated_def others_kept_def)
qed

lemma bound_to_abort [simp]: "bound_to t (abort_tx c) \<longleftrightarrow> bound_to t c"
  by (simp add: bound_to_def abort_tx_def current_tenant_def current_setting_def
      split: tx_state.splits option.splits)

lemma isolated_exec:
  assumes "\<And>c d a d'. bound_to t c \<Longrightarrow> q c d = Inr (a, d') \<Longrightarrow> others_kept t d d'"
  shows "tracks (isolated t) (exec q)"
  using assms
  by (auto simp: tracks_def isolated_def exec_def others_kept_def split: tx_state.splits
      sum.splits prod.splits)

subsection \<open>The interface of a tenant-scoped table\<close>

locale tenant_table =
  fixes get :: "db \<Rightarrow> 'r list"
    and upd :: "('r list \<Rightarrow> 'r list) \<Rightarrow> db \<Rightarrow> db"
    and ten :: "'r \<Rightarrow> uuid"
  assumes get_upd: "get (upd f d) = f (get d)"
    and others_upd: "filter (\<lambda>r. ten r \<noteq> t) (f (get d)) = filter (\<lambda>r. ten r \<noteq> t) (get d) \<Longrightarrow>
      others_kept t d (upd f d)"
    and view_get: "filter (\<lambda>r. ten r = t) (get d) = get (tenant_view t d)"
    and view_upd: "(\<And>rs. filter (\<lambda>r. ten r = t) (f rs) = g (filter (\<lambda>r. ten r = t) rs)) \<Longrightarrow>
      tenant_view t (upd f d) = upd g (tenant_view t d)"
begin

text \<open>A query returns rows of the bound tenant only, and none without a tenant.\<close>

lemma select_only_own:
  assumes "bound_to t c" and "q_select get ten p c d = Inr (rows, d')"
  shows "\<forall>r\<in>set rows. ten r = t" and "d' = d"
  using assms by (auto simp: q_select_def)

lemma select_fail_closed:
  assumes "\<not> bypass_rls c" and "current_tenant c = None"
  shows "q_select get ten p c d = Inr ([], d)"
  using assms by (simp add: q_select_def visible_def)

text \<open>What a query returns is a function of the tenant's view.\<close>

lemma select_view:
  assumes "bound_to t c"
  shows "q_select get ten p c d = Inr (filter p (get (tenant_view t d)), d)"
  using assms by (simp add: q_select_def flip: view_get)

text \<open>A write for another tenant is refused.\<close>

lemma insert_other_refused:
  assumes "bound_to t c" and "ten row \<noteq> t"
  shows "q_insert get upd ten clash fk row c d = Inl RlsViolation"
  using assms by (simp add: q_insert_def)

lemma insert_keeps_others:
  assumes "bound_to t c" and "q_insert get upd ten clash fk row c d = Inr (a, d')"
  shows "others_kept t d d'"
  using assms by (auto simp: q_insert_def split: if_splits intro!: others_upd)

text \<open>
  A row cannot be moved to another tenant, and the rows of other tenants are not touched,
  whatever the condition and the assignment.
\<close>

lemma update_move_refused:
  assumes "bound_to t c" and "r \<in> set (get d)" and "ten r = t" and "p r" and "ten (f r) \<noteq> t"
  shows "q_update get upd ten p f c d = Inl RlsViolation"
  using assms by (auto simp: q_update_def list_ex_iff Let_def)

lemma update_keeps_others:
  assumes b: "bound_to t c" and q: "q_update get upd ten p f c d = Inr (n, d')"
  shows "others_kept t d d'"
proof -
  have own: "ten (f r) = t" if "r \<in> set (get d)" "ten r = t" "p r" for r
    using q b that by (auto simp: q_update_def list_ex_iff Let_def split: if_splits)
  have d': "d' = upd (map (\<lambda>r. if ten r = t \<and> p r then f r else r)) d"
    using q b by (auto simp: q_update_def Let_def split: if_splits)
  have "filter (\<lambda>r. ten r \<noteq> t) (map (\<lambda>r. if ten r = t \<and> p r then f r else r) rs) =
        filter (\<lambda>r. ten r \<noteq> t) rs" if "set rs \<subseteq> set (get d)" for rs
    using that by (induction rs) (auto simp: own)
  then show ?thesis unfolding d' by (intro others_upd) simp
qed

lemma delete_keeps_others:
  assumes "bound_to t c" and "q_delete get upd ten p c d = Inr (n, d')"
  shows "others_kept t d d'"
proof -
  have "d' = upd (filter (\<lambda>r. \<not> (ten r = t \<and> p r))) d"
    using assms by (simp add: q_delete_def Let_def)
  moreover have "filter (\<lambda>r. ten r \<noteq> t) (filter (\<lambda>r. \<not> (ten r = t \<and> p r)) rs) =
      filter (\<lambda>r. ten r \<noteq> t) rs" for rs
    by (induction rs) auto
  ultimately show ?thesis by (auto intro: others_upd)
qed

lemma select_keeps_others:
  assumes "q_select get ten p c d = Inr (n, d')"
  shows "others_kept t d d'"
  using assms by (auto simp: q_select_def others_kept_def)

text \<open>So every program of such statements is isolated.\<close>

lemma isolated_select: "tracks (isolated t) (exec (q_select get ten p))"
  by (rule isolated_exec) (rule select_keeps_others)

lemma isolated_insert: "tracks (isolated t) (exec (q_insert get upd ten clash fk row))"
  by (rule isolated_exec) (rule insert_keeps_others)

lemma isolated_update: "tracks (isolated t) (exec (q_update get upd ten p f))"
  by (rule isolated_exec) (rule update_keeps_others)

lemma isolated_delete: "tracks (isolated t) (exec (q_delete get upd ten p))"
  by (rule isolated_exec) (rule delete_keeps_others)

lemmas isolated_statements = isolated_select isolated_insert isolated_update isolated_delete

end

interpretation users_tab: tenant_table users users_update user_tenant_id
  by unfold_locales (auto simp: others_kept_def tenant_view_def)

interpretation projects_tab: tenant_table projects projects_update project_tenant_id
  by unfold_locales (auto simp: others_kept_def tenant_view_def)

interpretation audit_tab: tenant_table audit_log audit_log_update audit_tenant_id
  by unfold_locales (auto simp: others_kept_def tenant_view_def)

interpretation refresh_tab: tenant_table refresh_tokens refresh_tokens_update rt_tenant_id
  by unfold_locales (auto simp: others_kept_def tenant_view_def)

interpretation invitations_tab: tenant_table invitations invitations_update inv_tenant_id
  by unfold_locales (auto simp: others_kept_def tenant_view_def)

interpretation auth_tab: tenant_table auth_tokens auth_tokens_update at_tenant_id
  by unfold_locales (auto simp: others_kept_def tenant_view_def)

interpretation subs_tab: tenant_table subscriptions subscriptions_update subs_tenant_id
  by unfold_locales (auto simp: others_kept_def tenant_view_def)

interpretation keys_tab: tenant_table api_keys api_keys_update ak_tenant_id
  by unfold_locales (auto simp: others_kept_def tenant_view_def)

lemma isolated_select_orgs: "tracks (isolated t) (exec (q_select_orgs p))"
  by (rule isolated_exec) (auto simp: q_select_orgs_def others_kept_def)

lemmas isolated_intros =
  iso.tracks_intros tracks_if isolated_select_orgs
  users_tab.isolated_statements projects_tab.isolated_statements
  audit_tab.isolated_statements refresh_tab.isolated_statements
  invitations_tab.isolated_statements auth_tab.isolated_statements
  subs_tab.isolated_statements keys_tab.isolated_statements

end
