(* ===== verification/Slugs.thy ===== *)
theory Slugs
  imports Prelude
begin

text \<open>
  \<^verbatim>\<open>src/auth/slug.ts\<close>: the organization slug. The result of \<^verbatim>\<open>toLowerCase().normalize("NFKD")\<close>
  is the argument \<open>folded\<close> (Unicode tables are not modelled; on ASCII it is \<open>lower_ascii\<close>);
  the two replacements, the slice and the suffix are as in the source.
\<close>

definition lower_char :: "char \<Rightarrow> char" where
  "lower_char c =
     (let n = (of_char c :: nat) in if 65 \<le> n \<and> n \<le> 90 then char_of (n + 32) else c)"

definition lower_ascii :: "string \<Rightarrow> string" where
  "lower_ascii s = map lower_char s"

text \<open>\<^verbatim>\<open>[a-z0-9]\<close>\<close>

definition slug_char :: "char \<Rightarrow> bool" where
  "slug_char c = (let n = (of_char c :: nat) in (97 \<le> n \<and> n \<le> 122) \<or> (48 \<le> n \<and> n \<le> 57))"

text \<open>\<^verbatim>\<open>.replace(/[^a-z0-9]+/g, "-")\<close>: every maximal run of other characters becomes one hyphen.\<close>

function collapse :: "string \<Rightarrow> string" where
  "collapse [] = []"
| "collapse (c # cs) =
     (if slug_char c then c # collapse cs
      else CHR ''-'' # collapse (dropWhile (\<lambda>x. \<not> slug_char x) cs))"
  by pat_completeness auto
termination
  by (relation "measure length") (auto simp: less_Suc_eq_le length_dropWhile_le)

text \<open>\<^verbatim>\<open>.replace(/^-+|-+$/g, "")\<close>\<close>

definition trim_hyphens :: "string \<Rightarrow> string" where
  "trim_hyphens s =
     rev (dropWhile (\<lambda>c. c = CHR ''-'') (rev (dropWhile (\<lambda>c. c = CHR ''-'') s)))"

definition slug_base :: "string \<Rightarrow> string" where
  "slug_base folded = take 40 (trim_hyphens (collapse folded))"

definition slugify :: "string \<Rightarrow> string \<Rightarrow> string" where
  "slugify folded suffix =
     (let base = slug_base folded in
      if base \<noteq> [] then base @ ''-'' @ suffix else ''org-'' @ suffix)"

subsection \<open>The shape of a slug\<close>

lemma not_slug_char_hyphen [simp]: "\<not> slug_char (CHR ''-'')"
  by (simp add: slug_char_def)

lemma set_collapse: "set (collapse s) \<subseteq> {c. slug_char c} \<union> {CHR ''-''}"
proof (induction s rule: collapse.induct)
  case 1
  show ?case by simp
next
  case (2 c cs)
  then show ?case by (cases "slug_char c") simp_all
qed

lemma collapse_chars: "c \<in> set (collapse s) \<Longrightarrow> slug_char c \<or> c = CHR ''-''"
  using set_collapse [of s] by blast

lemma hd_dropWhile_hyphen:
  "dropWhile (\<lambda>c. c = CHR ''-'') s \<noteq> [] \<Longrightarrow> hd (dropWhile (\<lambda>c. c = CHR ''-'') s) \<noteq> CHR ''-''"
  by (rule hd_dropWhile [where P = "\<lambda>c. c = CHR ''-''"])

lemma trim_hyphens_prefix: "\<exists>zs. dropWhile (\<lambda>c. c = CHR ''-'') s = trim_hyphens s @ zs"
proof -
  let ?t = "dropWhile (\<lambda>c. c = CHR ''-'') s"
  have "rev ?t = takeWhile (\<lambda>c. c = CHR ''-'') (rev ?t) @ dropWhile (\<lambda>c. c = CHR ''-'') (rev ?t)"
    by simp
  then have "?t = trim_hyphens s @ rev (takeWhile (\<lambda>c. c = CHR ''-'') (rev ?t))"
    unfolding trim_hyphens_def by (metis rev_append rev_rev_ident)
  then show ?thesis ..
qed

lemma set_trim_hyphens: "set (trim_hyphens s) \<subseteq> set s"
  by (auto simp: trim_hyphens_def dest!: set_dropWhileD)

lemma slug_base_hd:
  assumes "slug_base f \<noteq> []"
  shows "slug_char (hd (slug_base f))"
proof -
  let ?s = "collapse f"
  obtain zs where z: "dropWhile (\<lambda>c. c = CHR ''-'') ?s = trim_hyphens ?s @ zs"
    using trim_hyphens_prefix by blast
  have ne: "trim_hyphens ?s \<noteq> []" using assms by (auto simp: slug_base_def)
  then have h: "hd (trim_hyphens ?s) = hd (dropWhile (\<lambda>c. c = CHR ''-'') ?s)"
    and "dropWhile (\<lambda>c. c = CHR ''-'') ?s \<noteq> []"
    using z by simp_all
  then have "hd (trim_hyphens ?s) \<noteq> CHR ''-''"
    using hd_dropWhile_hyphen by simp
  moreover have "hd (trim_hyphens ?s) \<in> set ?s"
    using ne set_trim_hyphens hd_in_set by blast
  ultimately have "slug_char (hd (trim_hyphens ?s))"
    using collapse_chars by blast
  then show ?thesis using ne by (simp add: slug_base_def hd_take)
qed

lemma slug_base_chars: "c \<in> set (slug_base f) \<Longrightarrow> slug_char c \<or> c = CHR ''-''"
  using set_trim_hyphens collapse_chars in_set_takeD unfolding slug_base_def by fastforce

lemma length_slug_base: "length (slug_base f) \<le> 40"
  by (simp add: slug_base_def)

lemma slug_char_org: "slug_char (CHR ''o'')" "slug_char (CHR ''r'')" "slug_char (CHR ''g'')"
  by (simp_all add: slug_char_def)

end
