(* ===== verification/Tokens.thy ===== *)
theory Tokens
  imports Tables Slugs
begin

text \<open>
  \<^verbatim>\<open>src/auth/token.service.ts\<close> and \<^verbatim>\<open>src/auth/password.ts\<close>, and what a request takes from
  outside: clocks, random values and the functions of third-party packages.
\<close>

subsection \<open>The outside world of one request\<close>

text \<open>
  \<open>js_now\<close> is \<^verbatim>\<open>Date.now()\<close>, \<open>db_now\<close> the transaction's \<^verbatim>\<open>now()\<close>; \<open>new_id k\<close> is the k-th uuid
  generated in the request (\<^verbatim>\<open>randomUUID()\<close> and the \<^verbatim>\<open>defaultRandom()\<close> keys, in the order of
  the code); \<open>rnd_token\<close>, \<open>rnd_key\<close> and \<open>rnd_suffix\<close> are the texts of \<^verbatim>\<open>randomBytes(32)\<close>,
  \<^verbatim>\<open>randomBytes(24)\<close> (base64url) and \<^verbatim>\<open>randomBytes(3)\<close> (hex), \<open>rnd_salt\<close> argon2's salt and
  \<open>rnd_dummy\<close> the secret behind the dummy hash.
\<close>

record env =
  js_now :: js_ms
  db_now :: timestamptz
  new_id :: "nat \<Rightarrow> uuid"
  rnd_token :: string
  rnd_key :: string
  rnd_suffix :: string
  rnd_salt :: string
  rnd_dummy :: string

record jwt_payload =
  jwt_sub :: uuid
  jwt_tenant_id :: uuid
  jwt_role :: role
  jwt_iss :: string
  jwt_aud :: string
  jwt_iat :: int
  jwt_exp :: int

text \<open>
  Third-party functions: SHA-256 (hex), Argon2id (\<^verbatim>\<open>hash\<close> takes its salt from outside;
  \<^verbatim>\<open>verify\<close> may throw on a malformed hash), and jose's signing and verification of a JWT
  (key, issuer, audience, current time in ms, token).
\<close>

record ext =
  sha256_hex :: "string \<Rightarrow> string"
  argon2_hash :: "string \<Rightarrow> string \<Rightarrow> string"
  argon2_verify :: "string \<Rightarrow> string \<Rightarrow> exn + bool"
  jwt_sign :: "string \<Rightarrow> jwt_payload \<Rightarrow> string"
  jwt_verify :: "string \<Rightarrow> string \<Rightarrow> string \<Rightarrow> js_ms \<Rightarrow> string \<Rightarrow> exn + jwt_payload"
  lower_nfkd :: "string \<Rightarrow> string"

text \<open>Documented behaviour of Argon2: a hash verifies exactly against its own plaintext.\<close>

definition argon2_ok :: "ext \<Rightarrow> bool" where
  "argon2_ok x \<longleftrightarrow> (\<forall>s p q. argon2_verify x (argon2_hash x s p) q = Inr (p = q))"

text \<open>
  Documented behaviour of jose: verification returns the payload of a token signed with the
  same key, for the expected issuer and audience, before its expiry; and it accepts only
  such tokens.
\<close>

definition jwt_ok :: "ext \<Rightarrow> bool" where
  "jwt_ok x \<longleftrightarrow>
     (\<forall>k p now. now div 1000 < jwt_exp p \<longrightarrow>
        jwt_verify x k (jwt_iss p) (jwt_aud p) now (jwt_sign x k p) = Inr p) \<and>
     (\<forall>k iss aud now t p. jwt_verify x k iss aud now t = Inr p \<longrightarrow>
        t = jwt_sign x k p \<and> jwt_iss p = iss \<and> jwt_aud p = aud \<and> now div 1000 < jwt_exp p)"

subsection \<open>Passwords\<close>

definition hash_password :: "ext \<Rightarrow> env \<Rightarrow> string \<Rightarrow> string" where
  "hash_password x v plaintext = argon2_hash x (rnd_salt v) plaintext"

definition verify_password :: "ext \<Rightarrow> string \<Rightarrow> string \<Rightarrow> exn + bool" where
  "verify_password x hash plaintext = argon2_verify x hash plaintext"

definition dummy_password_hash :: "ext \<Rightarrow> env \<Rightarrow> string" where
  "dummy_password_hash x v = hash_password x v (rnd_dummy v)"

subsection \<open>The token service\<close>

record token_config =
  signing_secret :: string
  access_ttl_seconds :: int
  refresh_ttl_seconds :: int

definition ISSUER :: string where
  "ISSUER = ''tenantforge''"

definition AUDIENCE :: string where
  "AUDIENCE = ''tenantforge-api''"

record access_claims =
  sub :: uuid
  tenant_id :: uuid
  claim_role :: role

definition sign_access_token :: "ext \<Rightarrow> token_config \<Rightarrow> env \<Rightarrow> access_claims \<Rightarrow> string" where
  "sign_access_token x cfg v cl =
     jwt_sign x (signing_secret cfg)
       \<lparr>jwt_sub = sub cl, jwt_tenant_id = tenant_id cl, jwt_role = claim_role cl,
        jwt_iss = ISSUER, jwt_aud = AUDIENCE,
        jwt_iat = js_now v div 1000,
        jwt_exp = js_now v div 1000 + access_ttl_seconds cfg\<rparr>"

definition verify_access_token ::
  "ext \<Rightarrow> token_config \<Rightarrow> env \<Rightarrow> string \<Rightarrow> exn + access_claims" where
  "verify_access_token x cfg v token =
     (case jwt_verify x (signing_secret cfg) ISSUER AUDIENCE (js_now v) token of
        Inl e \<Rightarrow> Inl e
      | Inr p \<Rightarrow> Inr \<lparr>sub = jwt_sub p, tenant_id = jwt_tenant_id p, claim_role = jwt_role p\<rparr>)"

definition hash_token :: "ext \<Rightarrow> string \<Rightarrow> string" where
  "hash_token x token = sha256_hex x token"

definition generate_refresh_token :: "ext \<Rightarrow> env \<Rightarrow> string \<times> string" where
  "generate_refresh_token x v = (rnd_token v, hash_token x (rnd_token v))"

definition refresh_expiry :: "token_config \<Rightarrow> env \<Rightarrow> js_ms" where
  "refresh_expiry cfg v = js_now v + refresh_ttl_seconds cfg * 1000"

text \<open>An access token carries exactly the claims it was issued for, until it expires.\<close>

lemma verify_sign_access_token:
  assumes "jwt_ok x" and "js_now w div 1000 < js_now v div 1000 + access_ttl_seconds cfg"
  shows "verify_access_token x cfg w (sign_access_token x cfg v cl) = Inr cl"
proof -
  define p where "p = \<lparr>jwt_sub = sub cl, jwt_tenant_id = tenant_id cl, jwt_role = claim_role cl,
        jwt_iss = ISSUER, jwt_aud = AUDIENCE, jwt_iat = js_now v div 1000,
        jwt_exp = js_now v div 1000 + access_ttl_seconds cfg\<rparr>"
  have "jwt_verify x (signing_secret cfg) (jwt_iss p) (jwt_aud p) (js_now w)
      (jwt_sign x (signing_secret cfg) p) = Inr p"
  proof -
    have "js_now w div 1000 < jwt_exp p" using assms(2) by (simp add: p_def)
    with assms(1) show ?thesis unfolding jwt_ok_def by blast
  qed
  then show ?thesis
    by (simp add: verify_access_token_def sign_access_token_def p_def)
qed

subsection \<open>Rows the services write\<close>

definition audit_entry ::
  "env \<Rightarrow> uuid \<Rightarrow> uuid \<Rightarrow> uuid option \<Rightarrow> string \<Rightarrow> string \<Rightarrow> (string \<times> string) list option \<Rightarrow> audit_row" where
  "audit_entry v i t actor action target meta =
     \<lparr>audit_id = i, audit_tenant_id = t, audit_actor_user_id = actor, audit_action = action,
      audit_target = Some target, audit_metadata = meta, audit_created_at = db_now v\<rparr>"

definition new_refresh_token :: "env \<Rightarrow> uuid \<Rightarrow> uuid \<Rightarrow> uuid \<Rightarrow> string \<Rightarrow> uuid \<Rightarrow> js_ms \<Rightarrow> refresh_token_row" where
  "new_refresh_token v i t u h family expires =
     \<lparr>rt_id = i, rt_tenant_id = t, rt_user_id = u, rt_hashed_token = h, rt_family_id = family,
      rt_used_at = None, rt_revoked_at = None, rt_expires_at = timestamptz_of_date expires,
      rt_created_at = db_now v\<rparr>"

lemma audit_entry_sel [simp]:
  "audit_id (audit_entry v i t a ac tg m) = i"
  "audit_tenant_id (audit_entry v i t a ac tg m) = t"
  "audit_actor_user_id (audit_entry v i t a ac tg m) = a"
  "audit_action (audit_entry v i t a ac tg m) = ac"
  "audit_target (audit_entry v i t a ac tg m) = Some tg"
  by (simp_all add: audit_entry_def)

lemma new_refresh_token_sel [simp]:
  "rt_id (new_refresh_token v i t u h f e) = i"
  "rt_tenant_id (new_refresh_token v i t u h f e) = t"
  "rt_user_id (new_refresh_token v i t u h f e) = u"
  "rt_hashed_token (new_refresh_token v i t u h f e) = h"
  "rt_family_id (new_refresh_token v i t u h f e) = f"
  "rt_used_at (new_refresh_token v i t u h f e) = None"
  "rt_revoked_at (new_refresh_token v i t u h f e) = None"
  "rt_expires_at (new_refresh_token v i t u h f e) = timestamptz_of_date e"
  by (simp_all add: new_refresh_token_def)

subsection \<open>Inserts that succeed\<close>

text \<open>
  An insert succeeds when the row is allowed, nothing collides and the references exist.
\<close>

lemma exec_insert_ok:
  assumes "live s" and "visible (st_conn s) (ten row)"
    and "\<not> list_ex (clash row) (get (st_db s))" and "fk (st_db s) row"
  shows "exec (q_insert get upd ten clash fk row) s =
    (Inr (), s\<lparr>st_db := upd (\<lambda>rs. rs @ [row]) (st_db s)\<rparr>)"
  using assms by (simp add: exec_live q_insert_def)

lemma exec_update_ok:
  assumes "live s" and "\<And>r. ten (f r) = ten r"
  shows "exec (q_update get upd ten p f) s =
    (Inr (length (filter (\<lambda>r. visible (st_conn s) (ten r) \<and> p r) (get (st_db s)))),
     s\<lparr>st_db := upd (map (\<lambda>r. if visible (st_conn s) (ten r) \<and> p r then f r else r)) (st_db s)\<rparr>)"
proof -
  have "\<not> list_ex (\<lambda>r. (visible (st_conn s) (ten r) \<and> p r) \<and> \<not> visible (st_conn s) (ten (f r)))
      (get (st_db s))"
    by (simp add: list_ex_iff assms(2))
  then show ?thesis using assms(1) by (simp add: exec_live q_update_def Let_def)
qed

lemma exec_select_live:
  "live s \<Longrightarrow> exec (q_select get ten p) s =
    (Inr (filter (\<lambda>r. visible (st_conn s) (ten r) \<and> p r) (get (st_db s))), s)"
  by (simp add: exec_live q_select_def)

lemma exec_select_orgs_live:
  "live s \<Longrightarrow> exec (q_select_orgs p) s = (Inr (filter p (organizations (st_db s))), s)"
  by (simp add: exec_live q_select_orgs_def)

definition audit_fresh :: "db \<Rightarrow> uuid \<Rightarrow> bool" where
  "audit_fresh d i \<longleftrightarrow> (\<forall>r\<in>set (audit_log d). audit_id r \<noteq> i)"

definition rt_fresh :: "db \<Rightarrow> uuid \<Rightarrow> string \<Rightarrow> bool" where
  "rt_fresh d i h \<longleftrightarrow> (\<forall>r\<in>set (refresh_tokens d). rt_id r \<noteq> i \<and> rt_hashed_token r \<noteq> h)"

lemma audit_fresh_clash:
  "audit_fresh d i \<Longrightarrow> \<not> list_ex (audit_clash (audit_entry v i t a ac tg m)) (audit_log d)"
  by (auto simp: audit_fresh_def list_ex_iff audit_clash_def)

lemma rt_fresh_clash:
  "rt_fresh d i h \<Longrightarrow>
   \<not> list_ex (refresh_token_clash (new_refresh_token v i t u h f e)) (refresh_tokens d)"
  by (auto simp: rt_fresh_def list_ex_iff refresh_token_clash_def)

lemma tx_kept_if_option:
  "(x = None \<Longrightarrow> tracks R m) \<Longrightarrow> (\<And>a. x = Some a \<Longrightarrow> tracks R (f a)) \<Longrightarrow>
   tracks R (case x of None \<Rightarrow> m | Some a \<Rightarrow> f a)"
  by (cases x) auto

end
