(* ===== verification/Login.thy ===== *)
theory Login
  imports Tokens
begin

text \<open>
  \<^verbatim>\<open>src/auth/login.service.ts\<close>: the user is looked up by email on the owner pool, before any
  tenant is known; the password is verified (against a dummy hash when there is no user);
  then an access token is signed and the hash of a refresh token of a fresh family stored.
\<close>

record login_result =
  lr_access_token :: string
  lr_refresh_token :: string
  lr_tenant_id :: uuid
  lr_user_id :: uuid
  lr_role :: role

text \<open>
  \<^verbatim>\<open>FROM users u JOIN organizations o ON o.id = u.tenant_id WHERE u.email = $1 AND
  o.deleted_at IS NULL LIMIT 1\<close>; the join is on the primary key.
\<close>

definition org_alive :: "db \<Rightarrow> uuid \<Rightarrow> bool" where
  "org_alive d t \<longleftrightarrow> list_ex (\<lambda>g. org_id g = t \<and> org_deleted_at g = None) (organizations d)"

definition q_user_by_email :: "string \<Rightarrow> user_row list query" where
  "q_user_by_email email c d =
     Inr (filter (\<lambda>u. visible c (user_tenant_id u) \<and> user_email u = email
            \<and> org_alive d (user_tenant_id u)) (users d), d)"

definition login_claims :: "user_row \<Rightarrow> access_claims" where
  "login_claims u = \<lparr>sub = user_id u, tenant_id = user_tenant_id u, claim_role = user_role u\<rparr>"

definition login ::
  "ext \<Rightarrow> token_config \<Rightarrow> env \<Rightarrow> string \<Rightarrow> string \<Rightarrow> login_result io" where
  "login x cfg v email password =
     bnd (exec (q_user_by_email (lower_ascii email))) (\<lambda>rows.
       let row = first_row rows;
           hash_to_check = (case row of Some u \<Rightarrow> user_password_hash u
                                      | None \<Rightarrow> dummy_password_hash x v) in
       bnd (lift_sum (verify_password x hash_to_check password)) (\<lambda>ok.
         case row of
           None \<Rightarrow> throw (AppError (unauthorized ''Invalid credentials''))
         | Some u \<Rightarrow>
             if \<not> ok then throw (AppError (unauthorized ''Invalid credentials''))
             else
               let access_token = sign_access_token x cfg v (login_claims u);
                   family_id = new_id v 0;
                   (refresh_token, hash) = generate_refresh_token x v;
                   expires_at = refresh_expiry cfg v in
               andthen
                 (finally_do
                   (try_catch
                     (andthen begin_tx
                     (andthen (set_config_local (user_tenant_id u))
                     (andthen (insert_refresh_token (new_refresh_token v (new_id v 1)
                        (user_tenant_id u) (user_id u) hash family_id expires_at))
                     (andthen (insert_audit (audit_entry v (new_id v 2) (user_tenant_id u)
                        (Some (user_id u)) ''auth.login'' (uuid_out (user_id u)) None))
                      commit_tx))))
                     (\<lambda>e. andthen (swallow rollback_tx) (throw e)))
                   (swallow reset_tenant))
                 (ret \<lparr>lr_access_token = access_token, lr_refresh_token = refresh_token,
                       lr_tenant_id = user_tenant_id u, lr_user_id = user_id u,
                       lr_role = user_role u\<rparr>)))"

definition login_store :: "ext \<Rightarrow> token_config \<Rightarrow> env \<Rightarrow> user_row \<Rightarrow> unit io" where
  "login_store x cfg v u =
     andthen (insert_refresh_token (new_refresh_token v (new_id v 1) (user_tenant_id u)
        (user_id u) (hash_token x (rnd_token v)) (new_id v 0) (refresh_expiry cfg v)))
     (insert_audit (audit_entry v (new_id v 2) (user_tenant_id u)
        (Some (user_id u)) ''auth.login'' (uuid_out (user_id u)) None))"

lemma login_store_kept: "tracks tx_kept (login_store x cfg v u)"
  unfolding login_store_def by (intro tx_kept_intros)

lemma login_tx:
  "finally_do
     (try_catch
       (andthen begin_tx
       (andthen (set_config_local (user_tenant_id u))
       (andthen (insert_refresh_token (new_refresh_token v (new_id v 1)
          (user_tenant_id u) (user_id u) (hash_token x (rnd_token v)) (new_id v 0) (refresh_expiry cfg v)))
       (andthen (insert_audit (audit_entry v (new_id v 2) (user_tenant_id u)
          (Some (user_id u)) ''auth.login'' (uuid_out (user_id u)) None))
        commit_tx))))
       (\<lambda>e. andthen (swallow rollback_tx) (throw e)))
     (swallow reset_tenant) = with_tenant_tx (user_tenant_id u) (login_store x cfg v u)"
proof -
  have "bnd commit_tx (\<lambda>_. ret ()) = commit_tx"
  proof -
    have "(\<lambda>_::unit. ret ()) = (ret :: unit \<Rightarrow> unit io)" by (rule ext) simp
    then show ?thesis by simp
  qed
  then show ?thesis
    by (simp add: with_tenant_tx_def login_store_def andthen_def bnd_assoc)
qed

subsection \<open>Outcomes\<close>

text \<open>The row the lookup finds when login runs on a clean connection.\<close>

definition login_row :: "bool \<Rightarrow> string \<Rightarrow> db \<Rightarrow> user_row option" where
  "login_row bypass email d =
     (if bypass then first_row (filter (\<lambda>u. user_email u = lower_ascii email
            \<and> org_alive d (user_tenant_id u)) (users d)) else None)"

lemma login_lookup:
  assumes "clean (st_conn s)"
  shows "\<exists>rows. exec (q_user_by_email (lower_ascii email)) s = (Inr rows, s) \<and>
     first_row rows = login_row (bypass_rls (st_conn s)) email (st_db s)"
  using assms
  by (auto simp: exec_live [OF live_NoTx [OF clean_NoTx]] q_user_by_email_def login_row_def clean_visible)

lemma login_rowD:
  assumes "login_row b email d = Some u"
  shows "b" "u \<in> set (users d)" "user_email u = lower_ascii email" "org_alive d (user_tenant_id u)"
  using assms by (auto simp: login_row_def dest!: first_row_filterD split: if_splits)

lemma login_cases:
  assumes c: "clean (st_conn s)"
  shows "login x cfg v email password s =
    (case login_row (bypass_rls (st_conn s)) email (st_db s) of
       None \<Rightarrow> (case verify_password x (dummy_password_hash x v) password of
                 Inl e \<Rightarrow> (Inl e, s)
               | Inr _ \<Rightarrow> (Inl (AppError (unauthorized ''Invalid credentials'')), s))
     | Some u \<Rightarrow> (case verify_password x (user_password_hash u) password of
                 Inl e \<Rightarrow> (Inl e, s)
               | Inr False \<Rightarrow> (Inl (AppError (unauthorized ''Invalid credentials'')), s)
               | Inr True \<Rightarrow>
                   (case with_tenant_tx (user_tenant_id u) (login_store x cfg v u) s of
                      (Inl e, s') \<Rightarrow> (Inl e, s')
                    | (Inr _, s') \<Rightarrow>
                       (Inr \<lparr>lr_access_token = sign_access_token x cfg v (login_claims u),
                             lr_refresh_token = rnd_token v, lr_tenant_id = user_tenant_id u,
                             lr_user_id = user_id u, lr_role = user_role u\<rparr>, s'))))"
proof -
  obtain rows where q: "exec (q_user_by_email (lower_ascii email)) s = (Inr rows, s)"
    and r: "first_row rows = login_row (bypass_rls (st_conn s)) email (st_db s)"
    using login_lookup [OF c] by blast
  show ?thesis
    unfolding login_def bnd_def [of "exec (q_user_by_email (lower_ascii email))"] q Let_def
      generate_refresh_token_def prod.case sum.case r login_tx
    by (auto simp: bnd_def andthen_def lift_sum_def throw_def ret_def
        split: option.splits sum.splits prod.splits bool.splits)
qed

definition login_db :: "ext \<Rightarrow> token_config \<Rightarrow> env \<Rightarrow> user_row \<Rightarrow> db \<Rightarrow> db" where
  "login_db x cfg v u d =
     d\<lparr>refresh_tokens := refresh_tokens d @ [new_refresh_token v (new_id v 1) (user_tenant_id u)
         (user_id u) (hash_token x (rnd_token v)) (new_id v 0) (refresh_expiry cfg v)],
       audit_log := audit_log d @ [audit_entry v (new_id v 2) (user_tenant_id u)
         (Some (user_id u)) ''auth.login'' (uuid_out (user_id u)) None]\<rparr>"

lemma org_alive_exists: "org_alive d t \<Longrightarrow> org_exists d t"
  by (auto simp: org_alive_def org_exists_def list_ex_iff)

lemma login_store_success:
  assumes idle: "tx (st_conn s) = NoTx"
    and u: "u \<in> set (users (st_db s))" and og: "org_exists (st_db s) (user_tenant_id u)"
    and fresh: "rt_fresh (st_db s) (new_id v 1) (hash_token x (rnd_token v))"
      "audit_fresh (st_db s) (new_id v 2)"
  shows "with_tenant_tx (user_tenant_id u) (login_store x cfg v u) s =
    (Inr (), s\<lparr>st_db := login_db x cfg v u (st_db s), st_conn := released (st_conn s)\<rparr>)"
proof -
  let ?s1 = "in_tenant_tx (user_tenant_id u) s"
  let ?r = "new_refresh_token v (new_id v 1) (user_tenant_id u)
        (user_id u) (hash_token x (rnd_token v)) (new_id v 0) (refresh_expiry cfg v)"
  let ?s2 = "?s1\<lparr>st_db := (st_db s)\<lparr>refresh_tokens := refresh_tokens (st_db s) @ [?r]\<rparr>\<rparr>"
  have ux: "user_exists (st_db s) (user_id u)" using u by (auto simp: user_exists_iff)
  have ins: "insert_refresh_token ?r ?s1 = (Inr (), ?s2)"
    using fresh og ux by (subst exec_insert_ok) (auto simp: rt_fresh_clash)
  have aud: "insert_audit (audit_entry v (new_id v 2) (user_tenant_id u)
        (Some (user_id u)) ''auth.login'' (uuid_out (user_id u)) None) ?s2 =
      (Inr (), ?s2\<lparr>st_db := login_db x cfg v u (st_db s)\<rparr>)"
    using fresh og by (subst exec_insert_ok)
      (auto simp: audit_fresh_clash login_db_def org_exists_def)
  have "login_store x cfg v u ?s1 = (Inr (), ?s2\<lparr>st_db := login_db x cfg v u (st_db s)\<rparr>)"
    by (simp only: login_store_def run_steps ins aud)
  then show ?thesis
    by (simp add: with_tenant_tx_run [OF login_store_kept idle] committed_live in_tenant_tx_def)
qed

text \<open>
  An owner pool that is subject to the policies finds no user without a tenant context: no
  one can log in.
\<close>

lemma login_needs_bypass:
  assumes "clean (st_conn s)" and "\<not> bypass_rls (st_conn s)"
    and "login x cfg v email password s = (Inr r, s')"
  shows False
  using assms by (auto simp: login_cases login_row_def split: sum.splits)

lemma login_releases:
  assumes c: "clean (st_conn s)" and r: "login x cfg v email password s = (r, s')"
  shows "st_conn s' = st_conn s \<or> st_conn s' = released (st_conn s)"
  using r with_tenant_tx_releases [OF login_store_kept clean_NoTx [OF c]]
  by (auto simp: login_cases [OF c] split: option.splits sum.splits bool.splits prod.splits)

end
