(* ===== verification/Refresh.thy ===== *)
theory Refresh
  imports Login
begin

text \<open>
  \<^verbatim>\<open>src/auth/refresh.service.ts\<close>: rotation of a refresh token with reuse detection. The
  presented token is looked up by its hash; an expired one is refused; a revoked one, or a
  used one outside the overlap window, revokes its whole family; otherwise the token is
  marked used and a new one of the same family is stored.
\<close>

definition q_refresh_by_hash :: "string \<Rightarrow> (refresh_token_row \<times> user_row) list query" where
  "q_refresh_by_hash h c d =
     Inr (concat (map (\<lambda>rt. map (\<lambda>u. (rt, u))
            (filter (\<lambda>u. visible c (user_tenant_id u) \<and> user_id u = rt_user_id rt) (users d)))
          (filter (\<lambda>rt. visible c (rt_tenant_id rt) \<and> rt_hashed_token rt = h) (refresh_tokens d))),
        d)"

text \<open>The three decisions of the code, with JavaScript's millisecond clock.\<close>

definition token_expired :: "env \<Rightarrow> refresh_token_row \<Rightarrow> bool" where
  "token_expired v rt \<longleftrightarrow> date_of_timestamptz (rt_expires_at rt) < js_now v"

definition within_overlap :: "env \<Rightarrow> int \<Rightarrow> refresh_token_row \<Rightarrow> bool" where
  "within_overlap v overlap_ms rt \<longleftrightarrow>
     (case rt_used_at rt of
        None \<Rightarrow> False
      | Some u \<Rightarrow> js_now v - date_of_timestamptz u \<le> overlap_ms)"

definition reuse_detected :: "env \<Rightarrow> int \<Rightarrow> refresh_token_row \<Rightarrow> bool" where
  "reuse_detected v overlap_ms rt \<longleftrightarrow>
     rt_revoked_at rt \<noteq> None \<or> (rt_used_at rt \<noteq> None \<and> \<not> within_overlap v overlap_ms rt)"

definition revoke_family :: "env \<Rightarrow> refresh_token_row \<Rightarrow> unit io" where
  "revoke_family v rt =
     andthen
       (update_refresh_tokens (\<lambda>r. rt_family_id r = rt_family_id rt \<and> rt_revoked_at r = None)
          (\<lambda>r. r\<lparr>rt_revoked_at := Some (db_now v)\<rparr>))
       (insert_audit (audit_entry v (new_id v 0) (rt_tenant_id rt) (Some (rt_user_id rt))
          ''auth.refresh_reuse_detected'' (uuid_out (rt_family_id rt)) None))"

definition rotate_within_family ::
  "ext \<Rightarrow> token_config \<Rightarrow> env \<Rightarrow> refresh_token_row \<Rightarrow> unit io" where
  "rotate_within_family x cfg v rt =
     andthen
       (update_refresh_tokens (\<lambda>r. rt_id r = rt_id rt \<and> rt_used_at r = None)
          (\<lambda>r. r\<lparr>rt_used_at := Some (db_now v)\<rparr>))
       (insert_refresh_token (new_refresh_token v (new_id v 0) (rt_tenant_id rt) (rt_user_id rt)
          (snd (generate_refresh_token x v)) (rt_family_id rt) (refresh_expiry cfg v)))"

definition rotate_refresh_token ::
  "ext \<Rightarrow> token_config \<Rightarrow> env \<Rightarrow> int \<Rightarrow> string \<Rightarrow> (string \<times> string) io" where
  "rotate_refresh_token x cfg v overlap_ms presented =
     bnd (exec (q_refresh_by_hash (hash_token x presented))) (\<lambda>rows.
       case first_row rows of
         None \<Rightarrow> throw (AppError (unauthorized ''Invalid refresh token''))
       | Some (rt, u) \<Rightarrow>
           if token_expired v rt then throw (AppError (unauthorized ''Refresh token expired''))
           else if reuse_detected v overlap_ms rt then
             andthen (with_tenant_tx (rt_tenant_id rt) (revoke_family v rt))
               (throw (AppError (unauthorized ''Refresh token reuse detected'')))
           else
             let access_token = sign_access_token x cfg v
                   \<lparr>sub = rt_user_id rt, tenant_id = rt_tenant_id rt, claim_role = user_role u\<rparr>;
                 refresh_token = fst (generate_refresh_token x v) in
             andthen (with_tenant_tx (rt_tenant_id rt) (rotate_within_family x cfg v rt))
               (ret (access_token, refresh_token)))"

text \<open>The default of \<^verbatim>\<open>opts.rotationOverlapMs\<close>.\<close>

definition DEFAULT_OVERLAP_MS :: int where
  "DEFAULT_OVERLAP_MS = 10000"

subsection \<open>Outcomes\<close>

lemma revoke_family_kept: "tracks tx_kept (revoke_family v rt)"
  unfolding revoke_family_def by (intro tx_kept_intros)

lemma rotate_within_family_kept: "tracks tx_kept (rotate_within_family x cfg v rt)"
  unfolding rotate_within_family_def by (intro tx_kept_intros)

definition refresh_row :: "bool \<Rightarrow> string \<Rightarrow> db \<Rightarrow> (refresh_token_row \<times> user_row) option" where
  "refresh_row bypass h d =
     (if bypass then first_row (concat (map (\<lambda>rt. map (\<lambda>u. (rt, u))
            (filter (\<lambda>u. user_id u = rt_user_id rt) (users d)))
          (filter (\<lambda>rt. rt_hashed_token rt = h) (refresh_tokens d)))) else None)"

lemma refresh_lookup:
  assumes "clean (st_conn s)"
  shows "\<exists>rows. exec (q_refresh_by_hash h) s = (Inr rows, s) \<and>
     first_row rows = refresh_row (bypass_rls (st_conn s)) h (st_db s)"
  using assms
  by (auto simp: exec_live [OF live_NoTx [OF clean_NoTx]] q_refresh_by_hash_def refresh_row_def
      clean_visible)

lemma refresh_rowD:
  assumes "refresh_row b h d = Some (rt, u)"
  shows "b" "rt \<in> set (refresh_tokens d)" "rt_hashed_token rt = h"
    "u \<in> set (users d)" "user_id u = rt_user_id rt"
  using assms by (auto simp: refresh_row_def dest!: first_row_Some_in split: if_splits)

lemma refresh_row_found:
  assumes "b" and "rt \<in> set (refresh_tokens d)" and "rt_hashed_token rt = h"
    and "u \<in> set (users d)" and "user_id u = rt_user_id rt"
  shows "\<exists>rt' u'. refresh_row b h d = Some (rt', u')"
proof -
  let ?l = "concat (map (\<lambda>rt. map (\<lambda>u. (rt, u))
            (filter (\<lambda>u. user_id u = rt_user_id rt) (users d)))
          (filter (\<lambda>rt. rt_hashed_token rt = h) (refresh_tokens d)))"
  have "(rt, u) \<in> set ?l" using assms by auto
  then have "?l \<noteq> []" by (metis empty_iff list.set(1))
  then have ne: "first_row ?l \<noteq> None" by (simp only: first_row_None not_False_eq_True)
  have "refresh_row b h d = first_row ?l"
    using assms(1) by (simp only: refresh_row_def if_True)
  with ne have "refresh_row b h d \<noteq> None" by (simp only: not_False_eq_True)
  then show ?thesis by (simp only: not_None_eq split_paired_Ex)
qed

lemma rotate_cases:
  assumes c: "clean (st_conn s)"
  shows "rotate_refresh_token x cfg v w presented s =
    (case refresh_row (bypass_rls (st_conn s)) (hash_token x presented) (st_db s) of
       None \<Rightarrow> (Inl (AppError (unauthorized ''Invalid refresh token'')), s)
     | Some (rt, u) \<Rightarrow>
         if token_expired v rt then (Inl (AppError (unauthorized ''Refresh token expired'')), s)
         else if reuse_detected v w rt then
           (case with_tenant_tx (rt_tenant_id rt) (revoke_family v rt) s of
              (Inl e, s') \<Rightarrow> (Inl e, s')
            | (Inr _, s') \<Rightarrow> (Inl (AppError (unauthorized ''Refresh token reuse detected'')), s'))
         else
           (case with_tenant_tx (rt_tenant_id rt) (rotate_within_family x cfg v rt) s of
              (Inl e, s') \<Rightarrow> (Inl e, s')
            | (Inr _, s') \<Rightarrow>
                (Inr (sign_access_token x cfg v \<lparr>sub = rt_user_id rt, tenant_id = rt_tenant_id rt,
                        claim_role = user_role u\<rparr>, rnd_token v), s')))"
proof -
  obtain rows where q: "exec (q_refresh_by_hash (hash_token x presented)) s = (Inr rows, s)"
    and r: "first_row rows =
      refresh_row (bypass_rls (st_conn s)) (hash_token x presented) (st_db s)"
    using refresh_lookup [OF c] by blast
  show ?thesis
    unfolding rotate_refresh_token_def
      bnd_def [of "exec (q_refresh_by_hash (hash_token x presented))"] q prod.case sum.case r
      generate_refresh_token_def fst_conv snd_conv Let_def
    by (auto simp: bnd_def andthen_def throw_def ret_def
        split: option.splits sum.splits prod.splits)
qed

subsection \<open>Reuse revokes the family\<close>

definition revoked_family_db :: "env \<Rightarrow> refresh_token_row \<Rightarrow> db \<Rightarrow> db" where
  "revoked_family_db v rt d =
     d\<lparr>refresh_tokens := map (\<lambda>r. if rt_family_id r = rt_family_id rt \<and> rt_revoked_at r = None
         then r\<lparr>rt_revoked_at := Some (db_now v)\<rparr> else r) (refresh_tokens d),
       audit_log := audit_log d @ [audit_entry v (new_id v 0) (rt_tenant_id rt)
          (Some (rt_user_id rt)) ''auth.refresh_reuse_detected'' (uuid_out (rt_family_id rt)) None]\<rparr>"

lemma revoke_family_run:
  assumes idle: "tx (st_conn s) = NoTx" and b: "bypass_rls (st_conn s)"
    and og: "org_exists (st_db s) (rt_tenant_id rt)" and fresh: "audit_fresh (st_db s) (new_id v 0)"
  shows "with_tenant_tx (rt_tenant_id rt) (revoke_family v rt) s =
    (Inr (), s\<lparr>st_db := revoked_family_db v rt (st_db s), st_conn := released (st_conn s)\<rparr>)"
proof -
  let ?s1 = "in_tenant_tx (rt_tenant_id rt) s"
  let ?f = "\<lambda>r. if rt_family_id r = rt_family_id rt \<and> rt_revoked_at r = None
         then r\<lparr>rt_revoked_at := Some (db_now v)\<rparr> else r"
  let ?s2 = "?s1\<lparr>st_db := (st_db s)\<lparr>refresh_tokens := map ?f (refresh_tokens (st_db s))\<rparr>\<rparr>"
  have upd: "\<exists>n. update_refresh_tokens (\<lambda>r. rt_family_id r = rt_family_id rt \<and> rt_revoked_at r = None)
          (\<lambda>r. r\<lparr>rt_revoked_at := Some (db_now v)\<rparr>) ?s1 = (Inr n, ?s2)"
    using b by (subst exec_update_ok) auto
  have aud: "insert_audit (audit_entry v (new_id v 0) (rt_tenant_id rt) (Some (rt_user_id rt))
          ''auth.refresh_reuse_detected'' (uuid_out (rt_family_id rt)) None) ?s2 =
      (Inr (), ?s2\<lparr>st_db := revoked_family_db v rt (st_db s)\<rparr>)"
    using og fresh b by (subst exec_insert_ok)
      (auto simp: audit_fresh_clash revoked_family_db_def org_exists_def)
  obtain n where n: "update_refresh_tokens
        (\<lambda>r. rt_family_id r = rt_family_id rt \<and> rt_revoked_at r = None)
          (\<lambda>r. r\<lparr>rt_revoked_at := Some (db_now v)\<rparr>) ?s1 = (Inr n, ?s2)" using upd by blast
  have "revoke_family v rt ?s1 = (Inr (), ?s2\<lparr>st_db := revoked_family_db v rt (st_db s)\<rparr>)"
    by (simp only: revoke_family_def run_steps n aud)
  then show ?thesis
    by (simp add: with_tenant_tx_run [OF revoke_family_kept idle] committed_live in_tenant_tx_def)
qed

definition rotated_db :: "ext \<Rightarrow> token_config \<Rightarrow> env \<Rightarrow> refresh_token_row \<Rightarrow> db \<Rightarrow> db" where
  "rotated_db x cfg v rt d =
     d\<lparr>refresh_tokens := map (\<lambda>r. if rt_id r = rt_id rt \<and> rt_used_at r = None
         then r\<lparr>rt_used_at := Some (db_now v)\<rparr> else r) (refresh_tokens d) @
         [new_refresh_token v (new_id v 0) (rt_tenant_id rt) (rt_user_id rt)
           (hash_token x (rnd_token v)) (rt_family_id rt) (refresh_expiry cfg v)]\<rparr>"

lemma rotate_within_family_run:
  assumes idle: "tx (st_conn s) = NoTx" and b: "bypass_rls (st_conn s)"
    and og: "org_exists (st_db s) (rt_tenant_id rt)" and us: "user_exists (st_db s) (rt_user_id rt)"
    and fresh: "rt_fresh (st_db s) (new_id v 0) (hash_token x (rnd_token v))"
  shows "with_tenant_tx (rt_tenant_id rt) (rotate_within_family x cfg v rt) s =
    (Inr (), s\<lparr>st_db := rotated_db x cfg v rt (st_db s), st_conn := released (st_conn s)\<rparr>)"
proof -
  let ?s1 = "in_tenant_tx (rt_tenant_id rt) s"
  let ?f = "\<lambda>r. if rt_id r = rt_id rt \<and> rt_used_at r = None
         then r\<lparr>rt_used_at := Some (db_now v)\<rparr> else r"
  let ?s2 = "?s1\<lparr>st_db := (st_db s)\<lparr>refresh_tokens := map ?f (refresh_tokens (st_db s))\<rparr>\<rparr>"
  have upd: "\<exists>n. update_refresh_tokens (\<lambda>r. rt_id r = rt_id rt \<and> rt_used_at r = None)
          (\<lambda>r. r\<lparr>rt_used_at := Some (db_now v)\<rparr>) ?s1 = (Inr n, ?s2)"
    using b by (subst exec_update_ok) auto
  obtain n where n: "update_refresh_tokens (\<lambda>r. rt_id r = rt_id rt \<and> rt_used_at r = None)
          (\<lambda>r. r\<lparr>rt_used_at := Some (db_now v)\<rparr>) ?s1 = (Inr n, ?s2)" using upd by blast
  have fresh': "rt_fresh (st_db ?s2) (new_id v 0) (hash_token x (rnd_token v))"
    using fresh by (auto simp: rt_fresh_def)
  have ins: "insert_refresh_token (new_refresh_token v (new_id v 0) (rt_tenant_id rt)
        (rt_user_id rt) (snd (generate_refresh_token x v)) (rt_family_id rt) (refresh_expiry cfg v)) ?s2 =
      (Inr (), ?s2\<lparr>st_db := rotated_db x cfg v rt (st_db s)\<rparr>)"
    using og us rt_fresh_clash [OF fresh'] b by (subst exec_insert_ok)
      (auto simp: rotated_db_def org_exists_def user_exists_def generate_refresh_token_def)
  have "rotate_within_family x cfg v rt ?s1 =
      (Inr (), ?s2\<lparr>st_db := rotated_db x cfg v rt (st_db s)\<rparr>)"
    by (simp only: rotate_within_family_def run_steps n ins)
  then show ?thesis
    by (simp add: with_tenant_tx_run [OF rotate_within_family_kept idle] committed_live in_tenant_tx_def)
qed

lemma rotate_releases:
  assumes c: "clean (st_conn s)" and r: "rotate_refresh_token x cfg v w presented s = (r, s')"
  shows "st_conn s' = st_conn s \<or> st_conn s' = released (st_conn s)"
  using r with_tenant_tx_releases [OF revoke_family_kept clean_NoTx [OF c]]
    with_tenant_tx_releases [OF rotate_within_family_kept clean_NoTx [OF c]]
  by (auto simp: rotate_cases [OF c] split: option.splits sum.splits prod.splits if_splits)

subsection \<open>Families\<close>

text \<open>A family is dead when each of its tokens is revoked.\<close>

definition family_dead :: "uuid \<Rightarrow> db \<Rightarrow> bool" where
  "family_dead f d \<longleftrightarrow> (\<forall>r\<in>set (refresh_tokens d). rt_family_id r = f \<longrightarrow> rt_revoked_at r \<noteq> None)"

lemma revoked_family_dead: "family_dead (rt_family_id rt) (revoked_family_db v rt d)"
  by (auto simp: family_dead_def revoked_family_db_def)

text \<open>No token of a dead family is ever exchanged, whatever the clock says.\<close>

lemma rotate_dead_family:
  assumes c: "clean (st_conn s)" and dead: "family_dead f (st_db s)"
    and r: "rotate_refresh_token x cfg v w presented s = (Inr out, s')"
    and row: "refresh_row (bypass_rls (st_conn s)) (hash_token x presented) (st_db s) = Some (rt, u)"
  shows "rt_family_id rt \<noteq> f"
proof
  assume f: "rt_family_id rt = f"
  have "rt_revoked_at rt \<noteq> None"
    using dead refresh_rowD(2) [OF row] f by (simp add: family_dead_def)
  then have "reuse_detected v w rt" by (simp add: reuse_detected_def)
  then show False
    using r by (auto simp: rotate_cases [OF c] row split: if_splits sum.splits prod.splits)
qed

end
