(* ===== verification/PasswordReset.thy ===== *)
theory PasswordReset
  imports Refresh
begin

text \<open>
  \<^verbatim>\<open>src/auth/password-reset.service.ts\<close>, and the contract of a single-use credential it
  shares with invitations: a row found by hash while it is neither consumed nor expired,
  and marked consumed when it is redeemed. The contract is the locale \<open>single_use\<close>.
\<close>

subsection \<open>Single-use credentials\<close>

definition redeemable ::
  "('r \<Rightarrow> string) \<Rightarrow> ('r \<Rightarrow> timestamptz option) \<Rightarrow> ('r \<Rightarrow> timestamptz) \<Rightarrow>
   string \<Rightarrow> timestamptz \<Rightarrow> 'r \<Rightarrow> bool" where
  "redeemable hash consumed expires h now r \<longleftrightarrow>
     hash r = h \<and> consumed r = None \<and> expires r > now"

text \<open>What the unique index on the hash and the primary key guarantee.\<close>

definition hash_identifies :: "('r \<Rightarrow> string) \<Rightarrow> ('r \<Rightarrow> uuid) \<Rightarrow> 'r list \<Rightarrow> bool" where
  "hash_identifies hash rid rs \<longleftrightarrow>
     (\<forall>r\<in>set rs. \<forall>r'\<in>set rs. hash r = hash r' \<longrightarrow> rid r = rid r')"

locale single_use =
  fixes hash :: "'r \<Rightarrow> string"
    and consumed :: "'r \<Rightarrow> timestamptz option"
    and expires :: "'r \<Rightarrow> timestamptz"
    and rid :: "'r \<Rightarrow> uuid"
    and mark :: "timestamptz \<Rightarrow> 'r \<Rightarrow> 'r"
  assumes mark_hash: "hash (mark t r) = hash r"
    and mark_rid: "rid (mark t r) = rid r"
    and mark_consumed: "consumed (mark t r) = Some t"
begin

lemma marked_not_redeemable: "\<not> redeemable hash consumed expires h now (mark t r)"
  by (simp add: redeemable_def mark_consumed)

text \<open>Once redeemed, a credential finds no row again, at any later time.\<close>

lemma redeemed_once:
  assumes ids: "hash_identifies hash rid rs" and r: "r \<in> set rs" and h: "hash r = h"
  shows "filter (redeemable hash consumed expires h now)
           (map (\<lambda>r'. if rid r' = rid r then mark t r' else r') rs) = []"
proof -
  have "\<not> redeemable hash consumed expires h now (if rid r' = rid r then mark t r' else r')"
    if "r' \<in> set rs" for r'
  proof (cases "rid r' = rid r")
    case True
    then show ?thesis by (simp add: marked_not_redeemable)
  next
    case False
    have "hash r' = hash r \<longrightarrow> rid r' = rid r"
      using ids that r unfolding hash_identifies_def by blast
    then have "hash r' \<noteq> h" using False unfolding h [symmetric] by blast
    then show ?thesis using False by (simp add: redeemable_def)
  qed
  then have "\<forall>r'\<in>set rs. \<not> redeemable hash consumed expires h now
      (if rid r' = rid r then mark t r' else r')"
    by (intro ballI)
  then show ?thesis
    by (simp only: filter_empty_conv set_map ball_simps)
qed

text \<open>Redeeming one credential leaves the others as they were.\<close>

lemma others_still_redeemable:
  assumes "rid r' \<noteq> rid r"
  shows "(if rid r' = rid r then mark t r' else r') = r'"
  using assms by simp

end

subsection \<open>The service\<close>

text \<open>
  The file has its own copies of two helpers of the refresh service, \<^verbatim>\<open>hashToken\<close> and
  \<^verbatim>\<open>withTenantTx\<close>; they read the same, so they are names for the same functions here.
\<close>

abbreviation reset_hash_token :: "ext \<Rightarrow> string \<Rightarrow> string" where
  "reset_hash_token x token \<equiv> hash_token x token"

abbreviation reset_tenant_tx :: "uuid \<Rightarrow> 'a io \<Rightarrow> 'a io" where
  "reset_tenant_tx t fn \<equiv> with_tenant_tx t fn"

definition new_auth_token :: "ext \<Rightarrow> env \<Rightarrow> int \<Rightarrow> user_row \<Rightarrow> auth_token_row" where
  "new_auth_token x v ttl_ms u =
     \<lparr>at_id = new_id v 0, at_tenant_id = user_tenant_id u, at_user_id = user_id u,
      at_type = ''password_reset'', at_hashed_token = reset_hash_token x (rnd_token v),
      at_expires_at = timestamptz_of_date (js_now v + ttl_ms), at_consumed_at = None,
      at_created_at = db_now v\<rparr>"

definition request_password_reset :: "ext \<Rightarrow> env \<Rightarrow> int \<Rightarrow> string \<Rightarrow> string option io" where
  "request_password_reset x v ttl_ms email =
     bnd (exec (q_user_by_email (lower_ascii email))) (\<lambda>rows.
       case first_row rows of
         None \<Rightarrow> ret None
       | Some u \<Rightarrow>
           andthen (reset_tenant_tx (user_tenant_id u) (insert_auth_token (new_auth_token x v ttl_ms u)))
             (ret (Some (rnd_token v))))"

definition RESET_TTL_MS :: int where
  "RESET_TTL_MS = 3600 * 1000"

definition reset_redeemable :: "string \<Rightarrow> timestamptz \<Rightarrow> auth_token_row \<Rightarrow> bool" where
  "reset_redeemable h now r \<longleftrightarrow>
     at_type r = ''password_reset'' \<and>
     redeemable at_hashed_token at_consumed_at at_expires_at h now r"

definition mark_auth_token :: "timestamptz \<Rightarrow> auth_token_row \<Rightarrow> auth_token_row" where
  "mark_auth_token t r = r\<lparr>at_consumed_at := Some t\<rparr>"

interpretation reset_token: single_use at_hashed_token at_consumed_at at_expires_at at_id
  mark_auth_token
  by unfold_locales (simp_all add: mark_auth_token_def)

definition apply_reset :: "env \<Rightarrow> auth_token_row \<Rightarrow> string \<Rightarrow> unit io" where
  "apply_reset v row password_hash =
     andthen (update_users (\<lambda>u. user_id u = at_user_id row)
        (\<lambda>u. u\<lparr>user_password_hash := password_hash\<rparr>))
    (andthen (update_auth_tokens (\<lambda>r. at_id r = at_id row) (mark_auth_token (db_now v)))
    (andthen (update_refresh_tokens (\<lambda>r. rt_user_id r = at_user_id row \<and> rt_revoked_at r = None)
        (\<lambda>r. r\<lparr>rt_revoked_at := Some (db_now v)\<rparr>))
      (insert_audit (audit_entry v (new_id v 0) (at_tenant_id row) (Some (at_user_id row))
        ''password.reset'' (uuid_out (at_user_id row)) None))))"

text \<open>The two halves of the confirmation: the lookup on the pool, then the transaction.\<close>

definition confirm_lookup :: "ext \<Rightarrow> env \<Rightarrow> string \<Rightarrow> auth_token_row option io" where
  "confirm_lookup x v token =
     bnd (select_auth_tokens (reset_redeemable (reset_hash_token x token) (db_now v)))
       (\<lambda>rows. ret (first_row rows))"

definition confirm_redeem :: "ext \<Rightarrow> env \<Rightarrow> auth_token_row option \<Rightarrow> string \<Rightarrow> unit io" where
  "confirm_redeem x v found new_password =
     (case found of
        None \<Rightarrow> throw (AppError (bad_request ''Reset token invalid or expired''))
      | Some row \<Rightarrow>
          let password_hash = hash_password x v new_password in
          reset_tenant_tx (at_tenant_id row) (apply_reset v row password_hash))"

definition confirm_password_reset :: "ext \<Rightarrow> env \<Rightarrow> string \<Rightarrow> string \<Rightarrow> unit io" where
  "confirm_password_reset x v token new_password =
     bnd (confirm_lookup x v token) (\<lambda>found. confirm_redeem x v found new_password)"

subsection \<open>Outcomes\<close>

lemma apply_reset_kept: "tracks tx_kept (apply_reset v row h)"
  unfolding apply_reset_def by (intro tx_kept_intros)

definition reset_row :: "bool \<Rightarrow> string \<Rightarrow> timestamptz \<Rightarrow> db \<Rightarrow> auth_token_row option" where
  "reset_row bypass h now d =
     (if bypass then first_row (filter (reset_redeemable h now) (auth_tokens d)) else None)"

lemma confirm_cases:
  assumes c: "clean (st_conn s)"
  shows "confirm_password_reset x v token new_password s =
    (case reset_row (bypass_rls (st_conn s)) (hash_token x token) (db_now v) (st_db s) of
       None \<Rightarrow> (Inl (AppError (bad_request ''Reset token invalid or expired'')), s)
     | Some row \<Rightarrow>
         with_tenant_tx (at_tenant_id row) (apply_reset v row (hash_password x v new_password)) s)"
  by (auto simp: confirm_password_reset_def confirm_lookup_def confirm_redeem_def bnd_def
      exec_select_clean [OF c] reset_row_def ret_def throw_def Let_def split: option.splits)

lemma confirm_lookup_run:
  assumes c: "clean (st_conn s)"
  shows "confirm_lookup x v token s =
    (Inr (reset_row (bypass_rls (st_conn s)) (hash_token x token) (db_now v) (st_db s)), s)"
  by (simp add: confirm_lookup_def bnd_def exec_select_clean [OF c] reset_row_def ret_def)

definition reset_db :: "env \<Rightarrow> auth_token_row \<Rightarrow> string \<Rightarrow> db \<Rightarrow> db" where
  "reset_db v row h d =
     d\<lparr>users := map (\<lambda>u. if user_id u = at_user_id row
          then u\<lparr>user_password_hash := h\<rparr> else u) (users d),
       auth_tokens := map (\<lambda>r. if at_id r = at_id row then mark_auth_token (db_now v) r else r)
          (auth_tokens d),
       refresh_tokens := map (\<lambda>r. if rt_user_id r = at_user_id row \<and> rt_revoked_at r = None
          then r\<lparr>rt_revoked_at := Some (db_now v)\<rparr> else r) (refresh_tokens d),
       audit_log := audit_log d @ [audit_entry v (new_id v 0) (at_tenant_id row)
          (Some (at_user_id row)) ''password.reset'' (uuid_out (at_user_id row)) None]\<rparr>"

lemma apply_reset_run:
  assumes idle: "tx (st_conn s) = NoTx" and b: "bypass_rls (st_conn s)"
    and og: "org_exists (st_db s) (at_tenant_id row)" and fresh: "audit_fresh (st_db s) (new_id v 0)"
  shows "with_tenant_tx (at_tenant_id row) (apply_reset v row h) s =
    (Inr (), s\<lparr>st_db := reset_db v row h (st_db s), st_conn := released (st_conn s)\<rparr>)"
proof -
  let ?s1 = "in_tenant_tx (at_tenant_id row) s" and ?d = "st_db s"
  let ?d1 = "?d\<lparr>users := map (\<lambda>u. if user_id u = at_user_id row
          then u\<lparr>user_password_hash := h\<rparr> else u) (users ?d)\<rparr>"
  let ?d2 = "?d1\<lparr>auth_tokens := map (\<lambda>r. if at_id r = at_id row then mark_auth_token (db_now v) r else r)
          (auth_tokens ?d)\<rparr>"
  let ?d3 = "?d2\<lparr>refresh_tokens := map (\<lambda>r. if rt_user_id r = at_user_id row \<and> rt_revoked_at r = None
          then r\<lparr>rt_revoked_at := Some (db_now v)\<rparr> else r) (refresh_tokens ?d)\<rparr>"
  have "\<exists>n. update_users (\<lambda>u. user_id u = at_user_id row) (\<lambda>u. u\<lparr>user_password_hash := h\<rparr>) ?s1 =
      (Inr n, ?s1\<lparr>st_db := ?d1\<rparr>)"
    using b by (subst exec_update_ok) auto
  then obtain n1 where u1: "update_users (\<lambda>u. user_id u = at_user_id row)
      (\<lambda>u. u\<lparr>user_password_hash := h\<rparr>) ?s1 = (Inr n1, ?s1\<lparr>st_db := ?d1\<rparr>)" by blast
  have "\<exists>n. update_auth_tokens (\<lambda>r. at_id r = at_id row) (mark_auth_token (db_now v)) (?s1\<lparr>st_db := ?d1\<rparr>) =
      (Inr n, ?s1\<lparr>st_db := ?d2\<rparr>)"
    using b by (subst exec_update_ok) (auto simp: mark_auth_token_def)
  then obtain n2 where u2: "update_auth_tokens (\<lambda>r. at_id r = at_id row) (mark_auth_token (db_now v))
      (?s1\<lparr>st_db := ?d1\<rparr>) = (Inr n2, ?s1\<lparr>st_db := ?d2\<rparr>)" by blast
  have "\<exists>n. update_refresh_tokens (\<lambda>r. rt_user_id r = at_user_id row \<and> rt_revoked_at r = None)
        (\<lambda>r. r\<lparr>rt_revoked_at := Some (db_now v)\<rparr>) (?s1\<lparr>st_db := ?d2\<rparr>) = (Inr n, ?s1\<lparr>st_db := ?d3\<rparr>)"
    using b by (subst exec_update_ok) auto
  then obtain n3 where u3: "update_refresh_tokens
      (\<lambda>r. rt_user_id r = at_user_id row \<and> rt_revoked_at r = None)
        (\<lambda>r. r\<lparr>rt_revoked_at := Some (db_now v)\<rparr>) (?s1\<lparr>st_db := ?d2\<rparr>) = (Inr n3, ?s1\<lparr>st_db := ?d3\<rparr>)"
    by blast
  have aud: "insert_audit (audit_entry v (new_id v 0) (at_tenant_id row) (Some (at_user_id row))
        ''password.reset'' (uuid_out (at_user_id row)) None) (?s1\<lparr>st_db := ?d3\<rparr>) =
      (Inr (), ?s1\<lparr>st_db := reset_db v row h ?d\<rparr>)"
    using og fresh b by (subst exec_insert_ok)
      (auto simp: audit_fresh_clash reset_db_def org_exists_def)
  have "apply_reset v row h ?s1 = (Inr (), ?s1\<lparr>st_db := reset_db v row h ?d\<rparr>)"
    by (simp only: apply_reset_def run_steps u1 u2 u3 aud)
  then show ?thesis
    by (simp add: with_tenant_tx_run [OF apply_reset_kept idle] committed_live in_tenant_tx_def)
qed

lemma reset_rowD:
  assumes "reset_row b h now d = Some row"
  shows "b" "row \<in> set (auth_tokens d)" "at_hashed_token row = h" "at_consumed_at row = None"
    "now < at_expires_at row" "at_type row = ''password_reset''"
  using assms by (auto simp: reset_row_def reset_redeemable_def redeemable_def
      dest!: first_row_filterD split: if_splits)

text \<open>The same token is refused ever after.\<close>

lemma reset_once:
  assumes ids: "hash_identifies at_hashed_token at_id (auth_tokens d)"
    and row: "reset_row b h now d = Some row"
  shows "reset_row b' h now' (reset_db v row p d) = None"
proof -
  have "filter (redeemable at_hashed_token at_consumed_at at_expires_at h now')
      (auth_tokens (reset_db v row p d)) = []"
    using reset_token.redeemed_once [OF ids reset_rowD(2,3) [OF row]] by (simp add: reset_db_def)
  then have "filter (reset_redeemable h now') (auth_tokens (reset_db v row p d)) = []"
    by (simp add: filter_empty_conv reset_redeemable_def)
  then show ?thesis by (simp add: reset_row_def)
qed

text \<open>Every session of the user ends with the reset.\<close>

definition sessions_revoked :: "uuid \<Rightarrow> db \<Rightarrow> bool" where
  "sessions_revoked u d \<longleftrightarrow> (\<forall>r\<in>set (refresh_tokens d). rt_user_id r = u \<longrightarrow> rt_revoked_at r \<noteq> None)"

lemma reset_revokes_sessions: "sessions_revoked (at_user_id row) (reset_db v row h d)"
  by (auto simp: sessions_revoked_def reset_db_def)

lemma request_reset_cases:
  assumes c: "clean (st_conn s)"
  shows "request_password_reset x v ttl email s =
    (case login_row (bypass_rls (st_conn s)) email (st_db s) of
       None \<Rightarrow> (Inr None, s)
     | Some u \<Rightarrow>
         (case with_tenant_tx (user_tenant_id u) (insert_auth_token (new_auth_token x v ttl u)) s of
            (Inl e, s') \<Rightarrow> (Inl e, s')
          | (Inr _, s') \<Rightarrow> (Inr (Some (rnd_token v)), s')))"
proof -
  obtain rows where q: "exec (q_user_by_email (lower_ascii email)) s = (Inr rows, s)"
    and r: "first_row rows = login_row (bypass_rls (st_conn s)) email (st_db s)"
    using login_lookup [OF c] by blast
  show ?thesis
    unfolding request_password_reset_def
      bnd_def [of "exec (q_user_by_email (lower_ascii email))"] q prod.case sum.case r
    by (auto simp: bnd_def andthen_def ret_def split: option.splits sum.splits prod.splits)
qed

end
