(* ===== verification/Signup.thy ===== *)
theory Signup
  imports Tokens
begin

text \<open>
  \<^verbatim>\<open>src/auth/signup.service.ts\<close>: provisioning of a tenant (organization, owner user, audit
  entry) in one transaction on the owner pool, with a unique violation mapped to 409.
\<close>

record signup_input =
  su_organization_name :: string
  su_email :: string
  su_password :: string

record signup_result =
  sr_organization_id :: uuid
  sr_owner_user_id :: uuid
  sr_slug :: string

definition signup_slug :: "ext \<Rightarrow> env \<Rightarrow> signup_input \<Rightarrow> string" where
  "signup_slug x v i = slugify (lower_nfkd x (su_organization_name i)) (rnd_suffix v)"

definition new_org :: "ext \<Rightarrow> env \<Rightarrow> signup_input \<Rightarrow> org_row" where
  "new_org x v i =
     \<lparr>org_id = new_id v 0, org_name = su_organization_name i, org_slug = signup_slug x v i,
      org_plan = ''free'', org_stripe_customer_id = None, org_created_at = db_now v,
      org_deleted_at = None\<rparr>"

definition new_user :: "env \<Rightarrow> uuid \<Rightarrow> uuid \<Rightarrow> string \<Rightarrow> string \<Rightarrow> role \<Rightarrow> user_row" where
  "new_user v uid t email hash r =
     \<lparr>user_id = uid, user_tenant_id = t, user_email = email, user_password_hash = hash,
      user_role = r, user_email_verified = False, user_created_at = db_now v\<rparr>"

definition signup :: "ext \<Rightarrow> env \<Rightarrow> signup_input \<Rightarrow> signup_result io" where
  "signup x v i =
     (let password_hash = hash_password x v (su_password i);
          organization_id = new_id v 0; owner_user_id = new_id v 1;
          slug = signup_slug x v i in
      finally_do
        (try_catch
           (andthen begin_tx
           (andthen (exec (q_insert_org (new_org x v i)))
           (andthen (set_config_local organization_id)
           (andthen (insert_user
              (new_user v owner_user_id organization_id (lower_ascii (su_email i)) password_hash Owner))
           (andthen (insert_audit
              (audit_entry v (new_id v 2) organization_id (Some owner_user_id) ''org.created''
                 (uuid_out organization_id) (Some [(''slug'', slug)])))
           (andthen commit_tx
             (ret \<lparr>sr_organization_id = organization_id, sr_owner_user_id = owner_user_id,
                   sr_slug = slug\<rparr>)))))))
           (\<lambda>e. andthen (swallow rollback_tx)
              (if is_unique_violation e then throw (AppError (conflict ''Email already registered''))
               else throw e)))
        (swallow reset_tenant))"

subsection \<open>The transaction inside signup\<close>

definition signup_body :: "ext \<Rightarrow> env \<Rightarrow> signup_input \<Rightarrow> signup_result io" where
  "signup_body x v i =
     andthen (exec (q_insert_org (new_org x v i)))
    (andthen (set_config_local (new_id v 0))
    (andthen (insert_user (new_user v (new_id v 1) (new_id v 0) (lower_ascii (su_email i))
        (hash_password x v (su_password i)) Owner))
    (andthen (insert_audit (audit_entry v (new_id v 2) (new_id v 0) (Some (new_id v 1))
        ''org.created'' (uuid_out (new_id v 0)) (Some [(''slug'', signup_slug x v i)])))
      (ret \<lparr>sr_organization_id = new_id v 0, sr_owner_user_id = new_id v 1,
            sr_slug = signup_slug x v i\<rparr>))))"

definition signup_exn :: "exn \<Rightarrow> exn" where
  "signup_exn e =
     (if is_unique_violation e then AppError (conflict ''Email already registered'') else e)"

lemma signup_body_kept: "tracks tx_kept (signup_body x v i)"
  unfolding signup_body_def by (intro tx_kept_intros)

text \<open>Signup is the transaction protocol around its statements, with one exception renamed.\<close>

lemma signup_run:
  "signup x v i s =
     (case tx_block (signup_body x v i) s of
        (Inl e, s') \<Rightarrow> (Inl (signup_exn e), s')
      | (Inr a, s') \<Rightarrow> (Inr a, s'))"
proof -
  have eq: "(andthen begin_tx
      (andthen (exec (q_insert_org (new_org x v i)))
      (andthen (set_config_local (new_id v 0))
      (andthen (insert_user (new_user v (new_id v 1) (new_id v 0) (lower_ascii (su_email i))
        (hash_password x v (su_password i)) Owner))
      (andthen (insert_audit (audit_entry v (new_id v 2) (new_id v 0) (Some (new_id v 1))
        ''org.created'' (uuid_out (new_id v 0)) (Some [(''slug'', signup_slug x v i)])))
      (andthen commit_tx (ret \<lparr>sr_organization_id = new_id v 0, sr_owner_user_id = new_id v 1,
            sr_slug = signup_slug x v i\<rparr>))))))) =
    andthen begin_tx (bnd (signup_body x v i) (\<lambda>out. andthen commit_tx (ret out)))"
    by (simp add: signup_body_def andthen_def bnd_assoc)
  show ?thesis
    unfolding signup_def Let_def tx_block_def eq
    by (auto simp: finally_do_def try_catch_def andthen_def bnd_def swallow_def throw_def
        signup_exn_def split: prod.splits sum.splits)
qed

lemma signup_atomic:
  assumes "tx (st_conn s) = NoTx" and "signup x v i s = (Inl e, s')"
  shows "st_db s' = st_db s"
  using assms tx_block_atomic [OF signup_body_kept assms(1)]
  by (auto simp: signup_run split: prod.splits sum.splits)

lemma signup_releases:
  assumes "tx (st_conn s) = NoTx" and "signup x v i s = (r, s')"
  shows "st_conn s' = released (st_conn s)"
  using assms(2) tx_block_releases [OF signup_body_kept assms(1)]
  by (auto simp: signup_run split: prod.splits sum.splits)

text \<open>The keys signup generates do not collide with what is stored.\<close>

definition signup_fresh :: "ext \<Rightarrow> env \<Rightarrow> signup_input \<Rightarrow> db \<Rightarrow> bool" where
  "signup_fresh x v i d \<longleftrightarrow>
     (\<forall>r\<in>set (organizations d). org_id r \<noteq> new_id v 0 \<and> org_slug r \<noteq> signup_slug x v i) \<and>
     (\<forall>r\<in>set (users d). user_id r \<noteq> new_id v 1 \<and> user_tenant_id r \<noteq> new_id v 0) \<and>
     audit_fresh d (new_id v 2)"

definition signup_db :: "ext \<Rightarrow> env \<Rightarrow> signup_input \<Rightarrow> db \<Rightarrow> db" where
  "signup_db x v i d =
     d\<lparr>organizations := organizations d @ [new_org x v i],
       users := users d @ [new_user v (new_id v 1) (new_id v 0) (lower_ascii (su_email i))
         (hash_password x v (su_password i)) Owner],
       audit_log := audit_log d @ [audit_entry v (new_id v 2) (new_id v 0) (Some (new_id v 1))
         ''org.created'' (uuid_out (new_id v 0)) (Some [(''slug'', signup_slug x v i)])]\<rparr>"

lemma signup_success:
  assumes fresh: "signup_fresh x v i (st_db s)" and idle: "tx (st_conn s) = NoTx"
  shows "signup x v i s =
    (Inr \<lparr>sr_organization_id = new_id v 0, sr_owner_user_id = new_id v 1,
          sr_slug = signup_slug x v i\<rparr>,
     s\<lparr>st_db := signup_db x v i (st_db s), st_conn := released (st_conn s)\<rparr>)"
proof -
  let ?s1 = "(entered s)\<lparr>st_db := (st_db s)\<lparr>organizations := organizations (st_db s) @ [new_org x v i]\<rparr>\<rparr>"
  let ?s2 = "?s1\<lparr>st_conn := (st_conn ?s1)\<lparr>local_tenant := Some (UuidText (new_id v 0))\<rparr>\<rparr>"
  have l: "live ?s1" "live ?s2" by (simp_all add: live_def entered_def)
  have vis: "visible (st_conn ?s2) (new_id v 0)"
    by (simp add: visible_def current_tenant_def current_setting_def)
  have org: "exec (q_insert_org (new_org x v i)) (entered s) = (Inr (), ?s1)"
    using fresh by (auto simp: exec_live q_insert_org_def signup_fresh_def list_ex_iff
        org_clash_def same_some_def new_org_def)
  have cfg: "set_config_local (new_id v 0) ?s1 = (Inr (), ?s2)"
    by (simp add: set_config_local_def entered_def)
  have orgx: "org_exists (st_db ?s2) (new_id v 0)"
    by (simp add: org_exists_def new_org_def)
  let ?u = "new_user v (new_id v 1) (new_id v 0) (lower_ascii (su_email i))
        (hash_password x v (su_password i)) Owner"
  have usr: "insert_user ?u ?s2 = (Inr (), ?s2\<lparr>st_db := (st_db ?s2)\<lparr>users := users (st_db s) @ [?u]\<rparr>\<rparr>)"
    using fresh orgx vis
    by (subst exec_insert_ok [OF l(2)])
      (auto simp: new_user_def signup_fresh_def list_ex_iff user_clash_def)
  let ?s3 = "?s2\<lparr>st_db := (st_db ?s2)\<lparr>users := users (st_db s) @ [?u]\<rparr>\<rparr>"
  let ?a = "audit_entry v (new_id v 2) (new_id v 0) (Some (new_id v 1))
        ''org.created'' (uuid_out (new_id v 0)) (Some [(''slug'', signup_slug x v i)])"
  have aud: "insert_audit ?a ?s3 = (Inr (), ?s3\<lparr>st_db := signup_db x v i (st_db s)\<rparr>)"
    using fresh orgx vis l(2)
    by (subst exec_insert_ok)
      (auto simp: signup_fresh_def signup_db_def audit_fresh_clash org_exists_def)
  have body: "signup_body x v i (entered s) =
      (Inr \<lparr>sr_organization_id = new_id v 0, sr_owner_user_id = new_id v 1,
          sr_slug = signup_slug x v i\<rparr>, ?s3\<lparr>st_db := signup_db x v i (st_db s)\<rparr>)"
    by (simp only: signup_body_def run_steps org cfg usr aud)
  show ?thesis
    unfolding signup_run tx_block_run [OF signup_body_kept idle] body prod.case sum.case
    by (simp add: committed_db_def entered_def)
qed

text \<open>
  A slug that is taken is answered like a taken email: the transaction's only unique
  violations are mapped to the same 409.
\<close>

lemma signup_slug_taken:
  assumes idle: "tx (st_conn s) = NoTx"
    and "r \<in> set (organizations (st_db s))" and "org_slug r = signup_slug x v i"
  shows "signup x v i s =
    (Inl (AppError (conflict ''Email already registered'')), s\<lparr>st_conn := released (st_conn s)\<rparr>)"
proof -
  have "list_ex (org_clash (new_org x v i)) (organizations (st_db s))"
    using assms(2,3) by (auto simp: list_ex_iff org_clash_def new_org_def intro!: bexI [of _ r])
  then have "exec (q_insert_org (new_org x v i)) (entered s) =
      (Inl (SqlError UniqueViolation), (entered s)\<lparr>st_conn := abort_tx (st_conn (entered s))\<rparr>)"
    by (simp add: exec_live q_insert_org_def)
  then have "signup_body x v i (entered s) =
      (Inl (SqlError UniqueViolation), (entered s)\<lparr>st_conn := abort_tx (st_conn (entered s))\<rparr>)"
    by (simp add: signup_body_def andthen_def bnd_InlI)
  then show ?thesis
    by (simp add: signup_run tx_block_run [OF signup_body_kept idle] signup_exn_def entered_def)
qed

end
