(* ===== verification/Team.thy ===== *)
theory Team
  imports PasswordReset Signup
begin

text \<open>
  \<^verbatim>\<open>src/team/team.service.ts\<close>: invitations (a single-use credential) and role changes with
  the last-owner guard.
\<close>

record actor =
  actor_tenant_id :: uuid
  actor_user_id :: uuid
  actor_role :: role

definition role_text :: "role \<Rightarrow> string" where
  "role_text r = (case r of Owner \<Rightarrow> ''owner'' | Admin \<Rightarrow> ''admin'' | Member \<Rightarrow> ''member'')"

definition INVITE_TTL_MS :: int where
  "INVITE_TTL_MS = 7 * 24 * 3600 * 1000"

text \<open>The file's own copy of the hash of a token.\<close>

abbreviation team_hash_token :: "ext \<Rightarrow> string \<Rightarrow> string" where
  "team_hash_token x token \<equiv> hash_token x token"

definition new_invitation :: "ext \<Rightarrow> env \<Rightarrow> uuid \<Rightarrow> string \<Rightarrow> role \<Rightarrow> int \<Rightarrow> invitation_row" where
  "new_invitation x v t email r ttl_ms =
     \<lparr>inv_id = new_id v 0, inv_tenant_id = t, inv_email = lower_ascii email, inv_role = r,
      inv_hashed_token = team_hash_token x (rnd_token v),
      inv_expires_at = timestamptz_of_date (js_now v + ttl_ms), inv_consumed_at = None,
      inv_created_at = db_now v\<rparr>"

definition invite_body :: "ext \<Rightarrow> env \<Rightarrow> actor \<Rightarrow> string \<Rightarrow> role \<Rightarrow> int \<Rightarrow> unit io" where
  "invite_body x v a email r ttl_ms =
     andthen (insert_invitation (new_invitation x v (actor_tenant_id a) email r ttl_ms))
       (insert_audit (audit_entry v (new_id v 1) (actor_tenant_id a) (Some (actor_user_id a))
          ''invitation.created'' (lower_ascii email) None))"

definition create_invitation ::
  "ext \<Rightarrow> env \<Rightarrow> actor \<Rightarrow> string \<Rightarrow> role \<Rightarrow> int \<Rightarrow> string io" where
  "create_invitation x v a email r ttl_ms =
     andthen (lift_sum (require_role (actor_role a) Admin))
    (andthen (with_tenant_tx (actor_tenant_id a) (invite_body x v a email r ttl_ms))
      (ret (rnd_token v)))"

definition mark_invitation :: "timestamptz \<Rightarrow> invitation_row \<Rightarrow> invitation_row" where
  "mark_invitation t r = r\<lparr>inv_consumed_at := Some t\<rparr>"

interpretation invitation_token: single_use inv_hashed_token inv_consumed_at inv_expires_at inv_id
  mark_invitation
  by unfold_locales (simp_all add: mark_invitation_def)

definition accept_body :: "env \<Rightarrow> invitation_row \<Rightarrow> string \<Rightarrow> (uuid \<times> uuid) io" where
  "accept_body v row password_hash =
     andthen (insert_user (new_user v (new_id v 0) (inv_tenant_id row) (inv_email row)
        password_hash (inv_role row)))
    (andthen (update_invitations (\<lambda>r. inv_id r = inv_id row) (mark_invitation (db_now v)))
    (andthen (insert_audit (audit_entry v (new_id v 1) (inv_tenant_id row) (Some (new_id v 0))
        ''invitation.accepted'' (inv_email row) None))
      (ret (new_id v 0, inv_tenant_id row))))"

text \<open>The result is the new user's id and the tenant's.\<close>

definition accept_invitation :: "ext \<Rightarrow> env \<Rightarrow> string \<Rightarrow> string \<Rightarrow> (uuid \<times> uuid) io" where
  "accept_invitation x v token password =
     bnd (select_invitations
           (redeemable inv_hashed_token inv_consumed_at inv_expires_at (team_hash_token x token) (db_now v)))
       (\<lambda>rows. case first_row rows of
         None \<Rightarrow> throw (AppError (gone ''Invitation invalid or expired''))
       | Some row \<Rightarrow>
           let password_hash = hash_password x v password in
           with_tenant_tx (inv_tenant_id row) (accept_body v row password_hash))"

definition change_role_body :: "env \<Rightarrow> actor \<Rightarrow> uuid \<Rightarrow> role \<Rightarrow> unit io" where
  "change_role_body v a target new_role =
     bnd (select_users (\<lambda>u. user_id u = target)) (\<lambda>rows.
       case first_row rows of
         None \<Rightarrow> throw (AppError (not_found ''User not found''))
       | Some t \<Rightarrow>
           andthen
             (if user_role t = Owner \<and> new_role \<noteq> Owner then
                bnd (select_users (\<lambda>u. user_role u = Owner)) (\<lambda>owners.
                  if length owners \<le> 1
                  then throw (AppError (conflict ''Organization must retain an owner''))
                  else ret ())
              else ret ())
          (andthen (update_users (\<lambda>u. user_id u = target) (\<lambda>u. u\<lparr>user_role := new_role\<rparr>))
            (insert_audit (audit_entry v (new_id v 0) (actor_tenant_id a) (Some (actor_user_id a))
               ''user.role_changed'' (uuid_out target) (Some [(''newRole'', role_text new_role)])))))"

definition change_role :: "env \<Rightarrow> actor \<Rightarrow> uuid \<Rightarrow> role \<Rightarrow> unit io" where
  "change_role v a target new_role =
     andthen (lift_sum (require_role (actor_role a) Admin))
       (with_tenant_tx (actor_tenant_id a) (change_role_body v a target new_role))"

subsection \<open>Invitations: outcomes\<close>

lemma invite_body_kept: "tracks tx_kept (invite_body x v a e r ttl)"
  unfolding invite_body_def by (intro tx_kept_intros)

lemma accept_body_kept: "tracks tx_kept (accept_body v row h)"
  unfolding accept_body_def by (intro tx_kept_intros)

lemma change_role_body_kept: "tracks tx_kept (change_role_body v a t r)"
  unfolding change_role_body_def by (intro tx_kept_intros tx_kept_if_option)

definition invited_db :: "ext \<Rightarrow> env \<Rightarrow> actor \<Rightarrow> string \<Rightarrow> role \<Rightarrow> int \<Rightarrow> db \<Rightarrow> db" where
  "invited_db x v a email q ttl d =
     d\<lparr>invitations := invitations d @ [new_invitation x v (actor_tenant_id a) email q ttl],
       audit_log := audit_log d @ [audit_entry v (new_id v 1) (actor_tenant_id a)
         (Some (actor_user_id a)) ''invitation.created'' (lower_ascii email) None]\<rparr>"

definition invitation_fresh :: "ext \<Rightarrow> env \<Rightarrow> db \<Rightarrow> bool" where
  "invitation_fresh x v d \<longleftrightarrow> audit_fresh d (new_id v 1) \<and>
     (\<forall>r\<in>set (invitations d). inv_id r \<noteq> new_id v 0 \<and> inv_hashed_token r \<noteq> hash_token x (rnd_token v))"

lemma create_invitation_run:
  assumes idle: "tx (st_conn s) = NoTx" and adm: "actor_role a \<noteq> Member"
    and og: "org_exists (st_db s) (actor_tenant_id a)" and fresh: "invitation_fresh x v (st_db s)"
  shows "create_invitation x v a email q ttl s =
    (Inr (rnd_token v), s\<lparr>st_db := invited_db x v a email q ttl (st_db s),
       st_conn := released (st_conn s)\<rparr>)"
proof -
  let ?s1 = "in_tenant_tx (actor_tenant_id a) s" and ?d = "st_db s"
  let ?n = "new_invitation x v (actor_tenant_id a) email q ttl"
  let ?d1 = "?d\<lparr>invitations := invitations ?d @ [?n]\<rparr>"
  have ins: "insert_invitation ?n ?s1 = (Inr (), ?s1\<lparr>st_db := ?d1\<rparr>)"
    using og fresh by (subst exec_insert_ok)
      (auto simp: new_invitation_def invitation_fresh_def list_ex_iff invitation_clash_def)
  have aud: "insert_audit (audit_entry v (new_id v 1) (actor_tenant_id a) (Some (actor_user_id a))
        ''invitation.created'' (lower_ascii email) None) (?s1\<lparr>st_db := ?d1\<rparr>) =
      (Inr (), ?s1\<lparr>st_db := invited_db x v a email q ttl ?d\<rparr>)"
    using og fresh by (subst exec_insert_ok)
      (auto simp: invitation_fresh_def audit_fresh_clash invited_db_def org_exists_def)
  have "invite_body x v a email q ttl ?s1 = (Inr (), ?s1\<lparr>st_db := invited_db x v a email q ttl ?d\<rparr>)"
    by (simp only: invite_body_def run_steps ins aud)
  then have tx: "with_tenant_tx (actor_tenant_id a) (invite_body x v a email q ttl) s =
      (Inr (), s\<lparr>st_db := invited_db x v a email q ttl ?d, st_conn := released (st_conn s)\<rparr>)"
    by (simp add: with_tenant_tx_run [OF invite_body_kept idle] committed_live in_tenant_tx_def)
  have rr: "require_role (actor_role a) Admin = Inr ()" using adm by simp
  show ?thesis
    by (simp only: create_invitation_def run_steps rr tx)
qed

definition invitation_of :: "bool \<Rightarrow> string \<Rightarrow> timestamptz \<Rightarrow> db \<Rightarrow> invitation_row option" where
  "invitation_of bypass h now d =
     (if bypass then first_row (filter
        (redeemable inv_hashed_token inv_consumed_at inv_expires_at h now) (invitations d)) else None)"

lemma accept_cases:
  assumes c: "clean (st_conn s)"
  shows "accept_invitation x v token password s =
    (case invitation_of (bypass_rls (st_conn s)) (hash_token x token) (db_now v) (st_db s) of
       None \<Rightarrow> (Inl (AppError (gone ''Invitation invalid or expired'')), s)
     | Some row \<Rightarrow>
         with_tenant_tx (inv_tenant_id row) (accept_body v row (hash_password x v password)) s)"
  by (auto simp: accept_invitation_def bnd_def exec_select_clean [OF c] invitation_of_def
      throw_def Let_def split: option.splits)

lemma invitation_ofD:
  assumes "invitation_of b h now d = Some row"
  shows "b" "row \<in> set (invitations d)" "inv_hashed_token row = h" "inv_consumed_at row = None"
    "now < inv_expires_at row"
  using assms by (auto simp: invitation_of_def redeemable_def dest!: first_row_filterD split: if_splits)

definition accepted_db :: "env \<Rightarrow> invitation_row \<Rightarrow> string \<Rightarrow> db \<Rightarrow> db" where
  "accepted_db v row h d =
     d\<lparr>users := users d @ [new_user v (new_id v 0) (inv_tenant_id row) (inv_email row) h (inv_role row)],
       invitations := map (\<lambda>r. if inv_id r = inv_id row then mark_invitation (db_now v) r else r)
          (invitations d),
       audit_log := audit_log d @ [audit_entry v (new_id v 1) (inv_tenant_id row) (Some (new_id v 0))
          ''invitation.accepted'' (inv_email row) None]\<rparr>"

lemma accept_body_run:
  assumes idle: "tx (st_conn s) = NoTx" and b: "bypass_rls (st_conn s)"
    and og: "org_exists (st_db s) (inv_tenant_id row)"
    and fresh: "audit_fresh (st_db s) (new_id v 1)"
      "\<forall>u\<in>set (users (st_db s)). user_id u \<noteq> new_id v 0
         \<and> \<not> (user_tenant_id u = inv_tenant_id row \<and> user_email u = inv_email row)"
  shows "with_tenant_tx (inv_tenant_id row) (accept_body v row h) s =
    (Inr (new_id v 0, inv_tenant_id row),
     s\<lparr>st_db := accepted_db v row h (st_db s), st_conn := released (st_conn s)\<rparr>)"
proof -
  let ?s1 = "in_tenant_tx (inv_tenant_id row) s" and ?d = "st_db s"
  let ?u = "new_user v (new_id v 0) (inv_tenant_id row) (inv_email row) h (inv_role row)"
  let ?d1 = "?d\<lparr>users := users ?d @ [?u]\<rparr>"
  let ?d2 = "?d1\<lparr>invitations := map (\<lambda>r. if inv_id r = inv_id row
        then mark_invitation (db_now v) r else r) (invitations ?d)\<rparr>"
  have ins: "insert_user ?u ?s1 = (Inr (), ?s1\<lparr>st_db := ?d1\<rparr>)"
    using b og fresh(2) by (subst exec_insert_ok)
      (auto simp: new_user_def list_ex_iff user_clash_def)
  have "\<exists>n. update_invitations (\<lambda>r. inv_id r = inv_id row) (mark_invitation (db_now v))
      (?s1\<lparr>st_db := ?d1\<rparr>) = (Inr n, ?s1\<lparr>st_db := ?d2\<rparr>)"
    using b by (subst exec_update_ok) (auto simp: mark_invitation_def)
  then obtain n where upd: "update_invitations (\<lambda>r. inv_id r = inv_id row)
      (mark_invitation (db_now v)) (?s1\<lparr>st_db := ?d1\<rparr>) = (Inr n, ?s1\<lparr>st_db := ?d2\<rparr>)" by blast
  have aud: "insert_audit (audit_entry v (new_id v 1) (inv_tenant_id row) (Some (new_id v 0))
        ''invitation.accepted'' (inv_email row) None) (?s1\<lparr>st_db := ?d2\<rparr>) =
      (Inr (), ?s1\<lparr>st_db := accepted_db v row h ?d\<rparr>)"
    using og fresh b by (subst exec_insert_ok)
      (auto simp: audit_fresh_clash accepted_db_def org_exists_def)
  have "accept_body v row h ?s1 =
      (Inr (new_id v 0, inv_tenant_id row), ?s1\<lparr>st_db := accepted_db v row h ?d\<rparr>)"
    by (simp only: accept_body_def run_steps ins upd aud)
  then show ?thesis
    by (simp add: with_tenant_tx_run [OF accept_body_kept idle] committed_live in_tenant_tx_def)
qed

lemma accept_once:
  assumes ids: "hash_identifies inv_hashed_token inv_id (invitations d)"
    and row: "invitation_of b h now d = Some row"
  shows "invitation_of b' h now' (accepted_db v row p d) = None"
  using invitation_token.redeemed_once [OF ids invitation_ofD(2,3) [OF row]]
  by (simp add: invitation_of_def accepted_db_def)

subsection \<open>Role changes: outcomes\<close>

text \<open>
  The users a statement of the role change can see: those of the actor's tenant when the
  owner pool's role is subject to the policies, all users when it bypasses them.
\<close>

definition users_seen :: "bool \<Rightarrow> uuid \<Rightarrow> db \<Rightarrow> user_row list" where
  "users_seen bypass t d = filter (\<lambda>u. bypass \<or> user_tenant_id u = t) (users d)"

definition owners_seen :: "bool \<Rightarrow> uuid \<Rightarrow> db \<Rightarrow> nat" where
  "owners_seen bypass t d = length (filter (\<lambda>u. user_role u = Owner) (users_seen bypass t d))"

definition role_changed_db :: "bool \<Rightarrow> env \<Rightarrow> actor \<Rightarrow> uuid \<Rightarrow> role \<Rightarrow> db \<Rightarrow> db" where
  "role_changed_db bypass v a target r d =
     d\<lparr>users := map (\<lambda>u. if (bypass \<or> user_tenant_id u = actor_tenant_id a) \<and> user_id u = target
          then u\<lparr>user_role := r\<rparr> else u) (users d),
       audit_log := audit_log d @ [audit_entry v (new_id v 0) (actor_tenant_id a)
          (Some (actor_user_id a)) ''user.role_changed'' (uuid_out target)
          (Some [(''newRole'', role_text r)])]\<rparr>"

definition last_owner_guard :: "bool \<Rightarrow> uuid \<Rightarrow> user_row \<Rightarrow> role \<Rightarrow> db \<Rightarrow> bool" where
  "last_owner_guard bypass t target new_role d \<longleftrightarrow>
     user_role target = Owner \<and> new_role \<noteq> Owner \<and> owners_seen bypass t d \<le> 1"

lemma change_role_cases:
  assumes idle: "tx (st_conn s) = NoTx" and og: "org_exists (st_db s) (actor_tenant_id a)"
    and fresh: "audit_fresh (st_db s) (new_id v 0)"
  shows "change_role v a target r s =
    (if actor_role a = Member then (Inl (AppError forbidden_default), s)
     else case first_row (filter (\<lambda>u. user_id u = target)
                 (users_seen (bypass_rls (st_conn s)) (actor_tenant_id a) (st_db s))) of
       None \<Rightarrow> (Inl (AppError (not_found ''User not found'')), s\<lparr>st_conn := released (st_conn s)\<rparr>)
     | Some t \<Rightarrow>
         if last_owner_guard (bypass_rls (st_conn s)) (actor_tenant_id a) t r (st_db s)
         then (Inl (AppError (conflict ''Organization must retain an owner'')),
               s\<lparr>st_conn := released (st_conn s)\<rparr>)
         else (Inr (), s\<lparr>st_db := role_changed_db (bypass_rls (st_conn s)) v a target r (st_db s),
                         st_conn := released (st_conn s)\<rparr>))"
proof -
  let ?b = "bypass_rls (st_conn s)" and ?t = "actor_tenant_id a" and ?d = "st_db s"
  let ?s1 = "in_tenant_tx ?t s"
  have sel: "select_users p ?s1 = (Inr (filter p (users_seen ?b ?t ?d)), ?s1)" for p
    by (simp add: exec_select_live users_seen_def conj_commute)
  let ?d1 = "?d\<lparr>users := map (\<lambda>u. if (?b \<or> user_tenant_id u = ?t) \<and> user_id u = target
          then u\<lparr>user_role := r\<rparr> else u) (users ?d)\<rparr>"
  have "\<exists>n. update_users (\<lambda>u. user_id u = target) (\<lambda>u. u\<lparr>user_role := r\<rparr>) ?s1 =
      (Inr n, ?s1\<lparr>st_db := ?d1\<rparr>)"
    by (subst exec_update_ok) auto
  then obtain n where upd: "update_users (\<lambda>u. user_id u = target) (\<lambda>u. u\<lparr>user_role := r\<rparr>) ?s1 =
      (Inr n, ?s1\<lparr>st_db := ?d1\<rparr>)" by blast
  have aud: "insert_audit (audit_entry v (new_id v 0) ?t (Some (actor_user_id a))
       ''user.role_changed'' (uuid_out target) (Some [(''newRole'', role_text r)]))
       (?s1\<lparr>st_db := ?d1\<rparr>) = (Inr (), ?s1\<lparr>st_db := role_changed_db ?b v a target r ?d\<rparr>)"
    using og fresh by (subst exec_insert_ok)
      (auto simp: audit_fresh_clash role_changed_db_def org_exists_def)
  have body: "change_role_body v a target r ?s1 =
    (case first_row (filter (\<lambda>u. user_id u = target) (users_seen ?b ?t ?d)) of
       None \<Rightarrow> (Inl (AppError (not_found ''User not found'')), ?s1)
     | Some t \<Rightarrow> if last_owner_guard ?b ?t t r ?d
         then (Inl (AppError (conflict ''Organization must retain an owner'')), ?s1)
         else (Inr (), ?s1\<lparr>st_db := role_changed_db ?b v a target r ?d\<rparr>))"
    unfolding change_role_body_def bnd_def [of "select_users (\<lambda>u. user_id u = target)"]
      sel prod.case sum.case
    by (cases "first_row (filter (\<lambda>u. user_id u = target) (users_seen ?b ?t ?d))")
      (simp_all add: throw_def ret_def bnd_def andthen_def sel upd aud last_owner_guard_def owners_seen_def
        del: users_update_def)
  show ?thesis
  proof (cases "actor_role a = Member")
    case True
    then show ?thesis
      by (simp add: change_role_def andthen_def bnd_def lift_sum_def require_role_def)
  next
    case False
    then have "require_role (actor_role a) Admin = Inr ()"
      by (cases "actor_role a") (simp_all add: require_role_def)
    then have "change_role v a target r s =
        with_tenant_tx ?t (change_role_body v a target r) s"
      by (simp only: change_role_def run_steps)
    then show ?thesis
      using False unfolding with_tenant_tx_run [OF change_role_body_kept idle] body
      by (cases "first_row (filter (\<lambda>u. user_id u = target) (users_seen ?b ?t ?d))")
        (simp_all add: committed_live in_tenant_tx_def)
  qed
qed

text \<open>A role change either leaves the database alone or passed the guard for the user it found.\<close>

lemma change_role_db:
  assumes "tx (st_conn s) = NoTx" and "org_exists (st_db s) (actor_tenant_id a)"
    and "audit_fresh (st_db s) (new_id v 0)" and "change_role v a target r s = (res, s')"
  shows "st_db s' = st_db s \<or>
    (\<exists>u. first_row (filter (\<lambda>u. user_id u = target)
          (users_seen (bypass_rls (st_conn s)) (actor_tenant_id a) (st_db s))) = Some u \<and>
      \<not> last_owner_guard (bypass_rls (st_conn s)) (actor_tenant_id a) u r (st_db s) \<and>
      st_db s' = role_changed_db (bypass_rls (st_conn s)) v a target r (st_db s))"
proof -
  define F where "F = first_row (filter (\<lambda>u. user_id u = target)
          (users_seen (bypass_rls (st_conn s)) (actor_tenant_id a) (st_db s)))"
  show ?thesis
    using assms(4) unfolding change_role_cases [OF assms(1-3)] F_def [symmetric]
    by (cases F) (auto split: if_splits)
qed

end
