(* ===== verification/Samples.thy ===== *)
theory Samples
  imports Tokens
begin

text \<open>
  Concrete inputs: an instance of the third-party functions that satisfies their documented
  behaviour, and request environments and databases small enough to evaluate on. The
  theorems never depend on them; they show that the hypotheses of the theorems hold
  somewhere.
\<close>

subsection \<open>Texts that can be taken apart again\<close>

definition enc_str :: "string \<Rightarrow> string" where
  "enc_str s = concat (map (\<lambda>c. [CHR ''x'', c]) s) @ ''.''"

fun dec_str :: "string \<Rightarrow> (string \<times> string) option" where
  "dec_str [] = None"
| "dec_str [c] = (if c = CHR ''.'' then Some ([], []) else None)"
| "dec_str (c # d # cs) =
     (if c = CHR ''.'' then Some ([], d # cs)
      else (case dec_str cs of None \<Rightarrow> None | Some (s, rest) \<Rightarrow> Some (d # s, rest)))"

lemma dec_enc_str: "dec_str (enc_str s @ rest) = Some (s, rest)"
proof (induction s)
  case Nil
  show ?case by (cases rest) (simp_all add: enc_str_def)
next
  case (Cons c s)
  then show ?case by (simp add: enc_str_def)
qed

lemma enc_str_cancel: "enc_str a @ u = enc_str b @ w \<longleftrightarrow> a = b \<and> u = w"
  by (metis dec_enc_str option.inject prod.inject)

definition enc_int :: "int \<Rightarrow> string" where
  "enc_int i = enc_str ((if i < 0 then ''-'' else ''+'') @ replicate (nat \<bar>i\<bar>) (CHR ''1''))"

lemma enc_int_cancel: "enc_int a @ u = enc_int b @ w \<longleftrightarrow> a = b \<and> u = w"
proof -
  have "replicate (nat \<bar>a\<bar>) (CHR ''1'') = replicate (nat \<bar>b\<bar>) (CHR ''1'') \<Longrightarrow> \<bar>a\<bar> = \<bar>b\<bar>"
    by (metis abs_ge_zero length_replicate nat_eq_iff2 nat_0_le)
  then show ?thesis
    by (auto simp: enc_int_def enc_str_cancel split: if_splits)
qed

definition enc_uuid :: "uuid \<Rightarrow> string" where
  "enc_uuid u = enc_str (uuid_out u)"

lemma enc_uuid_cancel: "enc_uuid a @ u = enc_uuid b @ w \<longleftrightarrow> a = b \<and> u = w"
  by (metis enc_uuid_def enc_str_cancel option.inject uuid_in_out)

definition enc_role :: "role \<Rightarrow> string" where
  "enc_role r = (case r of Owner \<Rightarrow> ''o'' | Admin \<Rightarrow> ''a'' | Member \<Rightarrow> ''m'')"

lemma enc_role_cancel: "enc_role a @ u = enc_role b @ w \<longleftrightarrow> a = b \<and> u = w"
  by (cases a; cases b) (simp_all add: enc_role_def)

subsection \<open>An instance of the third-party functions\<close>

definition sample_sign :: "string \<Rightarrow> jwt_payload \<Rightarrow> string" where
  "sample_sign k p =
     enc_str k @ enc_uuid (jwt_sub p) @ enc_uuid (jwt_tenant_id p) @ enc_role (jwt_role p) @
     enc_str (jwt_iss p) @ enc_str (jwt_aud p) @ enc_int (jwt_iat p) @ enc_int (jwt_exp p) @ []"

lemma sample_sign_inj: "sample_sign k p = sample_sign k' p' \<longleftrightarrow> k = k' \<and> p = p'"
  unfolding sample_sign_def enc_str_cancel enc_uuid_cancel enc_role_cancel enc_int_cancel
  by auto

definition sample_verify ::
  "string \<Rightarrow> string \<Rightarrow> string \<Rightarrow> js_ms \<Rightarrow> string \<Rightarrow> exn + jwt_payload" where
  "sample_verify k iss aud now t =
     (if \<exists>p. t = sample_sign k p \<and> jwt_iss p = iss \<and> jwt_aud p = aud \<and> now div 1000 < jwt_exp p
      then Inr (THE p. t = sample_sign k p)
      else Inl (OtherError ''signature verification failed''))"

definition sample_ext :: ext where
  "sample_ext =
     \<lparr>sha256_hex = (\<lambda>s. s), argon2_hash = (\<lambda>salt p. p), argon2_verify = (\<lambda>h p. Inr (h = p)),
      jwt_sign = sample_sign, jwt_verify = sample_verify, lower_nfkd = lower_ascii\<rparr>"

lemma sample_ext_sel [simp]:
  "sha256_hex sample_ext s = s" "argon2_hash sample_ext salt p = p"
  "argon2_verify sample_ext h p = Inr (h = p)" "lower_nfkd sample_ext s = lower_ascii s"
  by (simp_all add: sample_ext_def)

lemma argon2_ok_sample: "argon2_ok sample_ext"
  by (simp add: argon2_ok_def)

lemma jwt_ok_sample: "jwt_ok sample_ext"
proof -
  have the: "(THE q. sample_sign k p = sample_sign k q) = p" for k p
    by (rule the_equality) (simp_all add: sample_sign_inj)
  show ?thesis
    unfolding jwt_ok_def
    by (auto simp: sample_ext_def sample_verify_def the sample_sign_inj split: if_splits)
qed

text \<open>Ids and texts generated in the sample requests; \<open>k\<close> keeps requests apart.\<close>

definition sample_env :: "nat \<Rightarrow> env" where
  "sample_env k =
     \<lparr>js_now = 5000, db_now = 5000000, new_id = (\<lambda>i. of_nat (100 * (k + 1) + i)),
      rnd_token = ''tok'' @ replicate k (CHR ''k''), rnd_key = ''key'', rnd_suffix = ''ab12cd'',
      rnd_salt = ''salt'', rnd_dummy = ''dummy''\<rparr>"

lemma sample_env_sel [simp]:
  "js_now (sample_env k) = 5000" "db_now (sample_env k) = 5000000"
  "new_id (sample_env k) i = of_nat (100 * (k + 1) + i)"
  "rnd_token (sample_env k) = ''tok'' @ replicate k (CHR ''k'')" "rnd_key (sample_env k) = ''key''"
  "rnd_suffix (sample_env k) = ''ab12cd''" "rnd_salt (sample_env k) = ''salt''"
  "rnd_dummy (sample_env k) = ''dummy''"
  by (simp_all add: sample_env_def)

definition sample_config :: token_config where
  "sample_config = \<lparr>signing_secret = ''secret'', access_ttl_seconds = 900, refresh_ttl_seconds = 1000\<rparr>"

subsection \<open>Two tenants\<close>

definition sample_org :: "uuid \<Rightarrow> string \<Rightarrow> org_row" where
  "sample_org t slug =
     \<lparr>org_id = t, org_name = slug, org_slug = slug, org_plan = ''free'',
      org_stripe_customer_id = None, org_created_at = 0, org_deleted_at = None\<rparr>"

definition sample_user :: "uuid \<Rightarrow> uuid \<Rightarrow> string \<Rightarrow> role \<Rightarrow> user_row" where
  "sample_user u t email r =
     \<lparr>user_id = u, user_tenant_id = t, user_email = email, user_password_hash = ''pw'',
      user_role = r, user_email_verified = False, user_created_at = 0\<rparr>"

definition sample_token :: "uuid \<Rightarrow> uuid \<Rightarrow> uuid \<Rightarrow> string \<Rightarrow> uuid \<Rightarrow> refresh_token_row" where
  "sample_token i t u h f =
     \<lparr>rt_id = i, rt_tenant_id = t, rt_user_id = u, rt_hashed_token = h, rt_family_id = f,
      rt_used_at = None, rt_revoked_at = None, rt_expires_at = 9000000, rt_created_at = 0\<rparr>"

definition sample_reset :: "uuid \<Rightarrow> uuid \<Rightarrow> uuid \<Rightarrow> string \<Rightarrow> auth_token_row" where
  "sample_reset i t u h =
     \<lparr>at_id = i, at_tenant_id = t, at_user_id = u, at_type = ''password_reset'', at_hashed_token = h,
      at_expires_at = 9000000, at_consumed_at = None, at_created_at = 0\<rparr>"

text \<open>Tenants 1 and 2, each with its owner (11 and 21) and one session (31 and 32).\<close>

definition sample_db :: db where
  "sample_db = empty_db
     \<lparr>organizations := [sample_org 1 ''one'', sample_org 2 ''two''],
      users := [sample_user 11 1 ''a'' Owner, sample_user 21 2 ''b'' Owner],
      refresh_tokens := [sample_token 31 1 11 ''ra'' 41, sample_token 32 2 21 ''rb'' 42]\<rparr>"

lemmas sample_defs = sample_db_def sample_org_def sample_user_def sample_token_def sample_reset_def
  empty_db_def

end
