(* ===== verification/AuthProperties.thy ===== *)
theory AuthProperties
  imports Team Samples
begin

text \<open>
  What the authentication services promise to their callers: provisioning of a tenant,
  login, rotation of refresh tokens, password reset, invitations and role changes. Each
  property is read off the outcome lemmas of the service's theory.
\<close>

subsection \<open>Signup\<close>

text \<open>
  C9: Signup on fresh keys provisions the tenant in one step. The result names the new
  organization, owner and slug; the database gains exactly the organization (plan free),
  the owner with the lower-cased email and the hashed password, and the audit entry; the
  connection goes back clean.
\<close>
theorem signup_provisions:
  assumes "signup_fresh x v i (st_db s)" and "tx (st_conn s) = NoTx"
  shows "signup x v i s =
    (Inr \<lparr>sr_organization_id = new_id v 0, sr_owner_user_id = new_id v 1,
          sr_slug = slugify (lower_nfkd x (su_organization_name i)) (rnd_suffix v)\<rparr>,
     s\<lparr>st_db := (st_db s)
         \<lparr>organizations := organizations (st_db s) @
            [\<lparr>org_id = new_id v 0, org_name = su_organization_name i,
               org_slug = slugify (lower_nfkd x (su_organization_name i)) (rnd_suffix v),
               org_plan = ''free'', org_stripe_customer_id = None, org_created_at = db_now v,
               org_deleted_at = None\<rparr>],
          users := users (st_db s) @
            [\<lparr>user_id = new_id v 1, user_tenant_id = new_id v 0,
               user_email = lower_ascii (su_email i),
               user_password_hash = hash_password x v (su_password i), user_role = Owner,
               user_email_verified = False, user_created_at = db_now v\<rparr>],
          audit_log := audit_log (st_db s) @ [audit_entry v (new_id v 2) (new_id v 0)
             (Some (new_id v 1)) ''org.created'' (uuid_out (new_id v 0))
             (Some [(''slug'', slugify (lower_nfkd x (su_organization_name i)) (rnd_suffix v))])]\<rparr>,
       st_conn := released (st_conn s)\<rparr>)"
  using signup_success [OF assms]
  by (simp add: signup_db_def signup_slug_def new_org_def new_user_def)

lemma signup_provisions_witness:
  "fst (signup sample_ext (sample_env 0)
      \<lparr>su_organization_name = ''Acme Co'', su_email = ''A@b'', su_password = ''p''\<rparr>
      (start_state True empty_db)) =
   Inr \<lparr>sr_organization_id = 100, sr_owner_user_id = 101, sr_slug = ''acme-co-ab12cd''\<rparr>"
proof -
  have slug: "slugify (lower_ascii ''Acme Co'') ''ab12cd'' = ''acme-co-ab12cd''" by code_simp
  show ?thesis
    by (subst signup_provisions)
      (simp_all add: signup_fresh_def audit_fresh_def empty_db_def fresh_conn_def slug)
qed

text \<open>
  C10: Signup is all or nothing. Whatever statement fails, the caller's exception leaves the
  database exactly as it was, and the connection always returns to the pool without a
  transaction and without a tenant.
\<close>
theorem signup_all_or_nothing:
  assumes "tx (st_conn s) = NoTx" and "signup x v i s = (r, s')"
  shows "clean (st_conn s') \<and> ((\<exists>e. r = Inl e) \<longrightarrow> st_db s' = st_db s)"
  using assms signup_atomic signup_releases by fastforce

lemma signup_all_or_nothing_witness:
  "clean (st_conn (snd (signup sample_ext (sample_env 0)
      \<lparr>su_organization_name = ''Acme Co'', su_email = ''A@b'', su_password = ''p''\<rparr>
      (start_state True sample_db))))"
  using signup_all_or_nothing [of "start_state True sample_db" sample_ext "sample_env 0"
      "\<lparr>su_organization_name = ''Acme Co'', su_email = ''A@b'', su_password = ''p''\<rparr>",
      OF _ prod.collapse [symmetric]]
  by (simp add: fresh_conn_def)

text \<open>
  A collision of the generated slug is reported as a taken email: when an organization
  already has the slug, signup answers 409 with the message \<open>Email already registered\<close>
  whatever the email is, and is not retried.
\<close>
theorem signup_slug_collision:
  assumes "tx (st_conn s) = NoTx" and "r \<in> set (organizations (st_db s))"
    and "org_slug r = slugify (lower_nfkd x (su_organization_name i)) (rnd_suffix v)"
  shows "signup x v i s =
    (Inl (AppError (conflict ''Email already registered'')), s\<lparr>st_conn := released (st_conn s)\<rparr>)"
  using signup_slug_taken [OF assms(1,2)] assms(3) by (simp add: signup_slug_def)

lemma signup_slug_collision_witness:
  "fst (signup sample_ext (sample_env 0)
      \<lparr>su_organization_name = ''Acme Co'', su_email = ''new@user'', su_password = ''p''\<rparr>
      (start_state True (sample_db\<lparr>organizations := [sample_org 7 ''acme-co-ab12cd'']\<rparr>))) =
   Inl (AppError (conflict ''Email already registered''))"
proof -
  have slug: "slugify (lower_ascii ''Acme Co'') ''ab12cd'' = ''acme-co-ab12cd''" by code_simp
  show ?thesis
    by (subst signup_slug_collision [of _ "sample_org 7 ''acme-co-ab12cd''"])
      (simp_all add: sample_org_def fresh_conn_def slug)
qed

subsection \<open>Login\<close>

definition owner_row :: "ext \<Rightarrow> env \<Rightarrow> signup_input \<Rightarrow> user_row" where
  "owner_row x v i = new_user v (new_id v 1) (new_id v 0) (lower_ascii (su_email i))
     (hash_password x v (su_password i)) Owner"

lemma owner_row_sel [simp]:
  "user_id (owner_row x v i) = new_id v 1" "user_tenant_id (owner_row x v i) = new_id v 0"
  "user_role (owner_row x v i) = Owner" "user_email (owner_row x v i) = lower_ascii (su_email i)"
  by (simp_all add: owner_row_def new_user_def)

text \<open>The login that follows a signup, with the state it leaves.\<close>

lemma login_new_account:
  assumes x: "argon2_ok x" and c1: "clean (st_conn s)" and b1: "bypass_rls (st_conn s)"
    and db: "st_db s = signup_db x v i d"
    and new: "\<forall>u\<in>set (users d). user_email u \<noteq> lower_ascii (su_email i)"
    and keys: "rt_fresh d (new_id w 1) (hash_token x (rnd_token w))"
      "audit_fresh d (new_id w 2)" "new_id w 2 \<noteq> new_id v 2"
    and email: "lower_ascii email = lower_ascii (su_email i)"
  shows "login x cfg w email (su_password i) s =
    (Inr \<lparr>lr_access_token = sign_access_token x cfg w \<lparr>sub = new_id v 1, tenant_id = new_id v 0, claim_role = Owner\<rparr>,
          lr_refresh_token = rnd_token w, lr_tenant_id = new_id v 0, lr_user_id = new_id v 1, lr_role = Owner\<rparr>,
     s\<lparr>st_db := login_db x cfg w (owner_row x v i) (st_db s), st_conn := released (st_conn s)\<rparr>)"
proof -
  let ?u = "owner_row x v i"
  have alive: "org_alive (st_db s) (new_id v 0)"
    by (simp add: db org_alive_def signup_db_def new_org_def)
  have "filter (\<lambda>u. user_email u = lower_ascii email \<and> org_alive (st_db s) (user_tenant_id u)) (users d) = []"
    using new email by (auto simp: filter_empty_conv)
  then have row: "login_row True email (st_db s) = Some ?u"
    using alive email by (simp add: login_row_def db signup_db_def new_user_def owner_row_def)
  have pw: "verify_password x (user_password_hash ?u) (su_password i) = Inr True"
    using x(1) by (simp add: verify_password_def hash_password_def argon2_ok_def new_user_def owner_row_def)
  have store: "with_tenant_tx (user_tenant_id ?u) (login_store x cfg w ?u) s =
     (Inr (), s\<lparr>st_db := login_db x cfg w ?u (st_db s), st_conn := released (st_conn s)\<rparr>)"
  proof (rule login_store_success)
    show "tx (st_conn s) = NoTx" using c1 by (rule clean_NoTx)
    show "?u \<in> set (users (st_db s))" by (simp add: db signup_db_def owner_row_def)
    show "org_exists (st_db s) (user_tenant_id ?u)" using org_alive_exists [OF alive] by simp
    show "rt_fresh (st_db s) (new_id w 1) (hash_token x (rnd_token w))"
      using keys(1) by (simp add: db signup_db_def rt_fresh_def)
    show "audit_fresh (st_db s) (new_id w 2)"
      using keys(2,3) by (auto simp: db signup_db_def audit_fresh_def)
  qed
  show ?thesis
    unfolding login_cases [OF c1] b1 eqTrueI [OF b1] row option.case pw sum.case bool.case store prod.case
    by (simp add: login_claims_def)
qed

text \<open>
  The account a signup creates can be used: with the same password and any spelling of
  the email's case, login then returns the new tenant, user and role Owner, its access
  token verifies to exactly those claims until it expires, and the refresh token it hands
  out is the one whose hash it stored.
\<close>
theorem login_after_signup:
  assumes x: "argon2_ok x" "jwt_ok x"
    and s: "clean (st_conn s)" "bypass_rls (st_conn s)" "signup_fresh x v i (st_db s)"
    and new: "\<forall>u\<in>set (users (st_db s)). user_email u \<noteq> lower_ascii (su_email i)"
    and keys: "rt_fresh (st_db s) (new_id w 1) (hash_token x (rnd_token w))"
      "audit_fresh (st_db s) (new_id w 2)" "new_id w 2 \<noteq> new_id v 2"
    and email: "lower_ascii email = lower_ascii (su_email i)"
    and time: "js_now w' div 1000 < js_now w div 1000 + access_ttl_seconds cfg"
    and up: "signup x v i s = (r, s1)"
  shows "\<exists>out s2. login x cfg w email (su_password i) s1 = (Inr out, s2) \<and>
    lr_tenant_id out = new_id v 0 \<and> lr_user_id out = new_id v 1 \<and> lr_role out = Owner \<and>
    verify_access_token x cfg w' (lr_access_token out) =
      Inr \<lparr>sub = new_id v 1, tenant_id = new_id v 0, claim_role = Owner\<rparr> \<and>
    (\<exists>rt\<in>set (refresh_tokens (st_db s2)). rt_hashed_token rt = hash_token x (lr_refresh_token out)
       \<and> rt_user_id rt = new_id v 1 \<and> rt_used_at rt = None \<and> rt_revoked_at rt = None)"
proof -
  have s1: "s1 = s\<lparr>st_db := signup_db x v i (st_db s), st_conn := released (st_conn s)\<rparr>"
    using up signup_success [OF s(3) clean_NoTx [OF s(1)]] by simp
  have c1: "clean (st_conn s1)" "bypass_rls (st_conn s1)" "st_db s1 = signup_db x v i (st_db s)"
    using s(2) by (simp_all add: s1)
  show ?thesis
    unfolding login_new_account [OF x(1) c1 new keys email]
    using verify_sign_access_token [OF x(2) time] by (auto simp: login_db_def)
qed

lemma login_after_signup_witness:
  "\<exists>out s2. login sample_ext sample_config (sample_env 1) ''a@B'' ''p''
      (snd (signup sample_ext (sample_env 0)
        \<lparr>su_organization_name = ''Acme Co'', su_email = ''A@b'', su_password = ''p''\<rparr>
        (start_state True empty_db))) = (Inr out, s2) \<and> lr_role out = Owner"
proof -
  let ?i = "\<lparr>su_organization_name = ''Acme Co'', su_email = ''A@b'', su_password = ''p''\<rparr>"
  have email: "lower_ascii ''a@B'' = lower_ascii (su_email ?i)" by code_simp
  show ?thesis
    using login_after_signup [of sample_ext "start_state True empty_db" "sample_env 0" ?i
        "sample_env 1" "''a@B''" "sample_env 2" sample_config,
        OF argon2_ok_sample jwt_ok_sample _ _ _ _ _ _ _ email _ prod.collapse [symmetric]]
    by (force simp: signup_fresh_def audit_fresh_def rt_fresh_def empty_db_def sample_config_def)
qed

text \<open>A signup leaves the lookup of a known email as it was: the first match is the older account.\<close>

lemma login_row_after_signup:
  assumes "signup_fresh x v i d" and "login_row True email d = Some u"
  shows "login_row True email (signup_db x v i d) = Some u"
proof -
  have "filter (\<lambda>u. user_email u = lower_ascii email \<and> org_alive (signup_db x v i d) (user_tenant_id u)) (users d) =
      filter (\<lambda>u. user_email u = lower_ascii email \<and> org_alive d (user_tenant_id u)) (users d)"
    using assms(1) by (intro filter_cong) (auto simp: signup_fresh_def org_alive_def signup_db_def new_org_def)
  moreover have "users (signup_db x v i d) = users d @ [owner_row x v i]"
    by (simp add: signup_db_def owner_row_def)
  ultimately show ?thesis
    using assms(2)
    by (cases "filter (\<lambda>u. user_email u = lower_ascii email \<and> org_alive d (user_tenant_id u)) (users d)")
      (auto simp: login_row_def)
qed

text \<open>
  An email that already belongs to a live account can sign up again, but the account this
  provisions cannot be used: the signup succeeds, and a login with its own password is
  refused, because the lookup stops at the older account.
\<close>
theorem second_account_unreachable:
  assumes x: "argon2_ok x"
    and s: "clean (st_conn s)" "bypass_rls (st_conn s)" "signup_fresh x v i (st_db s)"
    and old: "login_row True email (st_db s) = Some u" "user_password_hash u = argon2_hash x salt secret"
    and new: "lower_ascii (su_email i) = lower_ascii email" "su_password i \<noteq> secret"
    and up: "signup x v i s = (r, s1)"
  shows "r = Inr \<lparr>sr_organization_id = new_id v 0, sr_owner_user_id = new_id v 1, sr_slug = signup_slug x v i\<rparr>
    \<and> owner_row x v i \<in> set (users (st_db s1))
    \<and> login x cfg w email (su_password i) s1 = (Inl (AppError (unauthorized ''Invalid credentials'')), s1)"
proof -
  note ok = signup_success [OF s(3) clean_NoTx [OF s(1)]]
  have s1: "s1 = s\<lparr>st_db := signup_db x v i (st_db s), st_conn := released (st_conn s)\<rparr>"
    using up ok by simp
  have c1: "clean (st_conn s1)" "bypass_rls (st_conn s1)" "st_db s1 = signup_db x v i (st_db s)"
    using s(2) by (simp_all add: s1)
  have "verify_password x (user_password_hash u) (su_password i) = Inr False"
    using x old(2) new(2) by (auto simp: verify_password_def argon2_ok_def)
  then have "login x cfg w email (su_password i) s1 = (Inl (AppError (unauthorized ''Invalid credentials'')), s1)"
    by (simp add: login_cases [OF c1(1)] c1(2,3) login_row_after_signup [OF s(3) old(1)])
  then show ?thesis
    using up ok by (simp add: c1(3)) (simp add: signup_db_def owner_row_def)
qed

lemma second_account_unreachable_witness:
  "\<exists>out s1. signup sample_ext (sample_env 0)
      \<lparr>su_organization_name = ''Acme Co'', su_email = ''A'', su_password = ''mine''\<rparr>
      (start_state True sample_db) = (Inr out, s1)
    \<and> login sample_ext sample_config (sample_env 1) ''a'' ''mine'' s1 =
      (Inl (AppError (unauthorized ''Invalid credentials'')), s1)"
proof -
  let ?i = "\<lparr>su_organization_name = ''Acme Co'', su_email = ''A'', su_password = ''mine''\<rparr>"
  have email: "lower_ascii (su_email ?i) = lower_ascii ''a''" by code_simp
  have "slugify (lower_ascii ''Acme Co'') ''ab12cd'' = ''acme-co-ab12cd''" by code_simp
  then have slug: "signup_slug sample_ext (sample_env 0) ?i = ''acme-co-ab12cd''"
    by (simp add: signup_slug_def)
  have fresh: "signup_fresh sample_ext (sample_env 0) ?i (st_db (start_state True sample_db))"
    by (simp add: signup_fresh_def slug audit_fresh_def sample_defs)
  show ?thesis
    using second_account_unreachable [of sample_ext "start_state True sample_db" "sample_env 0" ?i "''a''"
        "sample_user 11 1 ''a'' Owner" "''s''" "''pw''", OF argon2_ok_sample _ _ fresh _ _ email _ prod.collapse [symmetric],
        of sample_config "sample_env 1"]
    by (force simp: login_row_def sample_defs lower_ascii_def lower_char_def org_alive_def intro: prod_eqI)
qed

text \<open>
  Login does not tell an unknown email from a wrong password: on the same state both
  give the same exception and change nothing. (Without a user the password is still
  verified, against a hash of a secret that is not the password.)
\<close>
theorem login_uniform_failure:
  assumes "argon2_ok x" and "clean (st_conn s)"
    and "login_row (bypass_rls (st_conn s)) unknown (st_db s) = None"
    and "login_row (bypass_rls (st_conn s)) known (st_db s) = Some u"
    and "user_password_hash u = argon2_hash x salt secret" and "password \<noteq> secret"
  shows "login x cfg v unknown password' s = login x cfg v known password s \<and>
    login x cfg v known password s = (Inl (AppError (unauthorized ''Invalid credentials'')), s)"
proof -
  have "verify_password x (user_password_hash u) password = Inr False"
    using assms(1,5,6) by (auto simp: verify_password_def argon2_ok_def)
  moreover have "verify_password x (dummy_password_hash x v) password' = Inr (rnd_dummy v = password')"
    using assms(1) by (simp add: verify_password_def dummy_password_hash_def hash_password_def argon2_ok_def)
  ultimately show ?thesis by (simp add: login_cases [OF assms(2)] assms(3,4))
qed

lemma login_uniform_failure_witness:
  "fst (login sample_ext sample_config (sample_env 0) ''a'' ''wrong'' (start_state True sample_db)) =
   Inl (AppError (unauthorized ''Invalid credentials''))"
  using login_uniform_failure [OF argon2_ok_sample, of "start_state True sample_db" "''zz''" "''a''"
      "sample_user 11 1 ''a'' Owner" "''s''" "''pw''" "''wrong''" sample_config "sample_env 0" "''q''"]
  by (simp add: login_row_def sample_defs lower_ascii_def lower_char_def org_alive_def)

text \<open>
  The login lookup runs on the owner pool before a tenant is known. If that pool's role
  is subject to the row policies (they are FORCEd), no login ever succeeds, whoever asks.
\<close>
theorem login_fails_under_policies:
  assumes "clean (st_conn s)" and "\<not> bypass_rls (st_conn s)"
  shows "\<exists>e. login x cfg v email password s = (Inl e, s)"
  using assms by (auto simp: login_cases login_row_def split: sum.splits)

lemma login_fails_under_policies_witness:
  "\<exists>e. login sample_ext sample_config (sample_env 0) ''a'' ''pw'' (start_state False sample_db) =
    (Inl e, start_state False sample_db)"
  by (rule login_fails_under_policies) simp_all

end
