(* ===== verification/Integrity.thy ===== *)
theory Integrity
  imports PasswordReset
begin

text \<open>
  The integrity of the database: its unique indexes and foreign keys hold in every state a
  service can reach. The interface is the locale \<open>stored_table\<close> (what an insert and an
  update of one table guarantee), interpreted on the eight tenant tables; statements and
  transactions then keep integrity, and with them every service built from them.
\<close>

subsection \<open>Unique indexes over a table\<close>

definition no_dups :: "('r \<Rightarrow> 'r \<Rightarrow> bool) \<Rightarrow> 'r list \<Rightarrow> bool" where
  "no_dups clash rs \<longleftrightarrow> sorted_wrt (\<lambda>a b. \<not> clash b a) rs"

lemma no_dups_Nil [simp]: "no_dups clash []"
  by (simp add: no_dups_def)

lemma no_dups_append [simp]:
  "no_dups clash (rs @ [r]) \<longleftrightarrow> no_dups clash rs \<and> \<not> list_ex (clash r) rs"
  by (auto simp: no_dups_def sorted_wrt_append list_ex_iff)

lemma no_dups_filter: "no_dups clash rs \<Longrightarrow> no_dups clash (filter p rs)"
  by (simp add: no_dups_def sorted_wrt_filter)

lemma no_dups_map:
  assumes "\<And>a b. a \<in> set rs \<Longrightarrow> b \<in> set rs \<Longrightarrow> clash (g a) (g b) \<Longrightarrow> clash a b"
  shows "no_dups clash rs \<Longrightarrow> no_dups clash (map g rs)"
  using assms unfolding no_dups_def
  by (induction rs) (simp_all, blast)

text \<open>Two stored rows that collide are the same row.\<close>

lemma no_dups_eq:
  assumes nd: "no_dups clash rs" and ab: "a \<in> set rs" "b \<in> set rs"
    and c: "clash a b" "clash b a"
  shows "a = b"
proof -
  obtain i j where ij: "i < length rs" "a = rs ! i" "j < length rs" "b = rs ! j"
    using ab by (metis in_set_conv_nth)
  have "\<not> i < j" "\<not> j < i"
    using nd c ij unfolding no_dups_def sorted_wrt_iff_nth_less by blast+
  then show ?thesis using ij by simp
qed

subsection \<open>The integrity invariant\<close>

definition db_unique :: "db \<Rightarrow> bool" where
  "db_unique d \<longleftrightarrow>
     no_dups org_clash (organizations d) \<and> no_dups user_clash (users d) \<and>
     no_dups project_clash (projects d) \<and> no_dups audit_clash (audit_log d) \<and>
     no_dups refresh_token_clash (refresh_tokens d) \<and> no_dups invitation_clash (invitations d) \<and>
     no_dups auth_token_clash (auth_tokens d) \<and> no_dups subscription_clash (subscriptions d) \<and>
     no_dups api_key_clash (api_keys d) \<and> no_dups webhook_clash (processed_webhooks d)"

definition db_refs :: "db \<Rightarrow> bool" where
  "db_refs d \<longleftrightarrow>
     (\<forall>r\<in>set (users d). org_exists d (user_tenant_id r)) \<and>
     (\<forall>r\<in>set (projects d). org_exists d (project_tenant_id r)) \<and>
     (\<forall>r\<in>set (audit_log d). org_exists d (audit_tenant_id r)) \<and>
     (\<forall>r\<in>set (refresh_tokens d). org_exists d (rt_tenant_id r) \<and> user_exists d (rt_user_id r)) \<and>
     (\<forall>r\<in>set (invitations d). org_exists d (inv_tenant_id r)) \<and>
     (\<forall>r\<in>set (auth_tokens d). org_exists d (at_tenant_id r) \<and> user_exists d (at_user_id r)) \<and>
     (\<forall>r\<in>set (subscriptions d). org_exists d (subs_tenant_id r)) \<and>
     (\<forall>r\<in>set (api_keys d). org_exists d (ak_tenant_id r))"

definition db_ok :: "db \<Rightarrow> bool" where
  "db_ok d \<longleftrightarrow> db_unique d \<and> db_refs d"

lemma db_ok_empty: "db_ok empty_db"
  by (simp add: db_ok_def db_unique_def db_refs_def empty_db_def)

definition intact :: "state \<Rightarrow> bool" where
  "intact s \<longleftrightarrow> db_ok (st_db s) \<and>
     (case tx (st_conn s) of NoTx \<Rightarrow> True | InTx d \<Rightarrow> db_ok d | Aborted d \<Rightarrow> db_ok d)"

definition keeps_intact :: "state \<Rightarrow> state \<Rightarrow> bool" where
  "keeps_intact s s' \<longleftrightarrow> (intact s \<longrightarrow> intact s')"

interpretation intg: state_order keeps_intact
  by unfold_locales (simp_all add: keeps_intact_def)

lemma intact_exec:
  assumes "\<And>c d a d'. db_ok d \<Longrightarrow> q c d = Inr (a, d') \<Longrightarrow> db_ok d'"
  shows "tracks keeps_intact (exec q)"
  using assms
  by (auto simp: tracks_def keeps_intact_def intact_def exec_def abort_tx_def
      split: tx_state.splits sum.splits prod.splits)

lemma intact_tx:
  "tracks keeps_intact begin_tx" "tracks keeps_intact commit_tx" "tracks keeps_intact rollback_tx"
  "tracks keeps_intact (set_config_local t)" "tracks keeps_intact reset_tenant"
  "tracks keeps_intact (log_call c)"
  by (auto simp: tracks_def keeps_intact_def intact_def begin_tx_def commit_tx_def rollback_tx_def
      set_config_local_def reset_tenant_def log_call_def end_tx_def split: tx_state.splits)

subsection \<open>The interface of a stored table\<close>

locale stored_table =
  fixes get :: "db \<Rightarrow> 'r list"
    and upd :: "('r list \<Rightarrow> 'r list) \<Rightarrow> db \<Rightarrow> db"
    and clash :: "'r \<Rightarrow> 'r \<Rightarrow> bool"
    and fk :: "db \<Rightarrow> 'r \<Rightarrow> bool"
    and key :: "'r \<Rightarrow> 'k"
  assumes ok_insert: "db_ok d \<Longrightarrow> \<not> list_ex (clash row) (get d) \<Longrightarrow> fk d row \<Longrightarrow>
      db_ok (upd (\<lambda>rs. rs @ [row]) d)"
    and ok_update: "db_ok d \<Longrightarrow> (\<And>r. key (f r) = key r) \<Longrightarrow>
      db_ok (upd (map (\<lambda>r. if h r then f r else r)) d)"
begin

lemma intact_insert: "tracks keeps_intact (exec (q_insert get upd ten clash fk row))"
  by (rule intact_exec) (auto simp: q_insert_def ok_insert split: if_splits)

lemma intact_update:
  assumes "\<And>r. key (f r) = key r"
  shows "tracks keeps_intact (exec (q_update get upd ten p f))"
  by (rule intact_exec) (auto simp: q_update_def Let_def split: if_splits intro!: ok_update assms)

end

lemma intact_select: "tracks keeps_intact (exec (q_select get ten p))"
  by (rule intact_exec) (simp add: q_select_def)

lemma list_ex_map_if:
  assumes "\<And>r. P (f r) = P r"
  shows "list_ex P (map (\<lambda>r. if h r then f r else r) rs) = list_ex P rs"
  by (induction rs) (auto simp: assms)

lemma no_dups_map_if:
  assumes "\<And>a b. clash (f a) b = clash a b" and "\<And>a b. clash a (f b) = clash a b"
  shows "no_dups clash rs \<Longrightarrow> no_dups clash (map (\<lambda>r. if h r then f r else r) rs)"
  by (rule no_dups_map) (auto simp: assms split: if_splits)

lemma exists_upd [simp]:
  "org_exists (users_update f0 d) t = org_exists d t"
  "org_exists (projects_update f1 d) t = org_exists d t"
  "org_exists (audit_log_update f2 d) t = org_exists d t"
  "org_exists (refresh_tokens_update f3 d) t = org_exists d t"
  "org_exists (invitations_update f4 d) t = org_exists d t"
  "org_exists (auth_tokens_update f5 d) t = org_exists d t"
  "org_exists (subscriptions_update f6 d) t = org_exists d t"
  "org_exists (api_keys_update f7 d) t = org_exists d t"
  "org_exists (processed_webhooks_update f8 d) t = org_exists d t"
  "user_exists (organizations_update f9 d) u = user_exists d u"
  "user_exists (projects_update f1 d) u = user_exists d u"
  "user_exists (audit_log_update f2 d) u = user_exists d u"
  "user_exists (refresh_tokens_update f3 d) u = user_exists d u"
  "user_exists (invitations_update f4 d) u = user_exists d u"
  "user_exists (auth_tokens_update f5 d) u = user_exists d u"
  "user_exists (subscriptions_update f6 d) u = user_exists d u"
  "user_exists (api_keys_update f7 d) u = user_exists d u"
  "user_exists (processed_webhooks_update f8 d) u = user_exists d u"
  by (simp_all add: org_exists_def user_exists_def)

lemma exists_own_upd:
  "user_exists (users_update f d) u = list_ex (\<lambda>r. user_id r = u) (f (users d))"
  "org_exists (organizations_update h d) t = list_ex (\<lambda>r. org_id r = t) (h (organizations d))"
  by (simp_all add: user_exists_def org_exists_def)

lemma user_exists_append:
  "list_ex (\<lambda>r. user_id r = u) (users d @ [r]) \<longleftrightarrow> user_exists d u \<or> user_id r = u"
  by (auto simp: user_exists_def)

lemma user_exists_map:
  "(\<And>r. user_id (f r) = user_id r) \<Longrightarrow>
   list_ex (\<lambda>r. user_id r = u) (map (\<lambda>r. if h r then f r else r) (users d)) = user_exists d u"
  by (simp add: user_exists_def list_ex_map_if)

text \<open>A row may only be replaced by one with the same indexed and referenced columns.\<close>

definition user_key :: "user_row \<Rightarrow> uuid \<times> uuid \<times> string" where
  "user_key r = (user_id r, user_tenant_id r, user_email r)"

definition project_key :: "project_row \<Rightarrow> uuid \<times> uuid" where
  "project_key r = (project_id r, project_tenant_id r)"

definition audit_key :: "audit_row \<Rightarrow> uuid \<times> uuid" where
  "audit_key r = (audit_id r, audit_tenant_id r)"

definition rt_key :: "refresh_token_row \<Rightarrow> uuid \<times> uuid \<times> uuid \<times> string" where
  "rt_key r = (rt_id r, rt_tenant_id r, rt_user_id r, rt_hashed_token r)"

definition inv_key :: "invitation_row \<Rightarrow> uuid \<times> uuid \<times> string" where
  "inv_key r = (inv_id r, inv_tenant_id r, inv_hashed_token r)"

definition at_key :: "auth_token_row \<Rightarrow> uuid \<times> uuid \<times> uuid \<times> string" where
  "at_key r = (at_id r, at_tenant_id r, at_user_id r, at_hashed_token r)"

definition subs_key :: "subscription_row \<Rightarrow> uuid \<times> uuid \<times> string option" where
  "subs_key r = (subs_id r, subs_tenant_id r, subs_stripe_subscription_id r)"

definition ak_key :: "api_key_row \<Rightarrow> uuid \<times> uuid \<times> string" where
  "ak_key r = (ak_id r, ak_tenant_id r, ak_hashed_key r)"

lemmas key_defs = user_key_def project_key_def audit_key_def rt_key_def inv_key_def at_key_def
  subs_key_def ak_key_def

lemmas db_ok_defs = db_ok_def db_unique_def db_refs_def

interpretation users_st: stored_table users users_update user_clash
  "\<lambda>d r. org_exists d (user_tenant_id r)" user_key
proof
  fix d row
  assume "db_ok d" and "\<not> list_ex (user_clash row) (users d)" and "org_exists d (user_tenant_id row)"
  then show "db_ok (users_update (\<lambda>rs. rs @ [row]) d)"
    by (simp add: db_ok_defs exists_own_upd user_exists_append del: list_ex_append)
next
  fix d h and f :: "user_row \<Rightarrow> user_row"
  assume d: "db_ok d" and k: "\<And>r. user_key (f r) = user_key r"
  have f: "user_id (f r) = user_id r" "user_tenant_id (f r) = user_tenant_id r"
      "user_email (f r) = user_email r" for r
    using k [of r] by (simp_all add: user_key_def)
  show "db_ok (users_update (map (\<lambda>r. if h r then f r else r)) d)"
    using d by (simp add: db_ok_defs exists_own_upd user_exists_map f no_dups_map_if user_clash_def
        del: if_image_distrib)
qed

interpretation projects_st: stored_table projects projects_update project_clash
  "\<lambda>d r. org_exists d (project_tenant_id r)" project_key
  by unfold_locales
    (simp_all add: db_ok_defs key_defs clash_defs no_dups_map_if del: if_image_distrib)

interpretation audit_st: stored_table audit_log audit_log_update audit_clash
  "\<lambda>d r. org_exists d (audit_tenant_id r)" audit_key
  by unfold_locales
    (simp_all add: db_ok_defs key_defs clash_defs no_dups_map_if del: if_image_distrib)

interpretation refresh_st: stored_table refresh_tokens refresh_tokens_update refresh_token_clash
  "\<lambda>d r. org_exists d (rt_tenant_id r) \<and> user_exists d (rt_user_id r)" rt_key
  by unfold_locales
    (simp_all add: db_ok_defs key_defs clash_defs no_dups_map_if del: if_image_distrib)

interpretation invitations_st: stored_table invitations invitations_update invitation_clash
  "\<lambda>d r. org_exists d (inv_tenant_id r)" inv_key
  by unfold_locales
    (simp_all add: db_ok_defs key_defs clash_defs no_dups_map_if del: if_image_distrib)

interpretation auth_st: stored_table auth_tokens auth_tokens_update auth_token_clash
  "\<lambda>d r. org_exists d (at_tenant_id r) \<and> user_exists d (at_user_id r)" at_key
  by unfold_locales
    (simp_all add: db_ok_defs key_defs clash_defs no_dups_map_if del: if_image_distrib)

interpretation subs_st: stored_table subscriptions subscriptions_update subscription_clash
  "\<lambda>d r. org_exists d (subs_tenant_id r)" subs_key
  by unfold_locales
    (simp_all add: db_ok_defs key_defs clash_defs no_dups_map_if del: if_image_distrib)

interpretation keys_st: stored_table api_keys api_keys_update api_key_clash
  "\<lambda>d r. org_exists d (ak_tenant_id r)" ak_key
  by unfold_locales
    (simp_all add: db_ok_defs key_defs clash_defs no_dups_map_if del: if_image_distrib)

subsection \<open>The global tables\<close>

definition org_key :: "org_row \<Rightarrow> uuid \<times> string \<times> string option" where
  "org_key g = (org_id g, org_slug g, org_stripe_customer_id g)"

lemma org_keyD:
  assumes "org_key g = org_key g'"
  shows "org_id g = org_id g'" "org_slug g = org_slug g'"
    "org_stripe_customer_id g = org_stripe_customer_id g'"
  using assms by (simp_all add: org_key_def)

lemma org_clash_sym: "org_clash a b \<longleftrightarrow> org_clash b a"
  by (cases "org_stripe_customer_id a"; cases "org_stripe_customer_id b")
    (auto simp: org_clash_def same_some_def)

lemma org_exists_map:
  "(\<And>r. org_id (f r) = org_id r) \<Longrightarrow>
   list_ex (\<lambda>r. org_id r = t) (map (\<lambda>r. if h r then f r else r) (organizations d)) = org_exists d t"
  by (simp add: org_exists_def list_ex_map_if)

lemma org_exists_append:
  "list_ex (\<lambda>r. org_id r = t) (organizations d @ [r]) \<longleftrightarrow> org_exists d t \<or> org_id r = t"
  by (auto simp: org_exists_def)

lemma intact_insert_org: "tracks keeps_intact (exec (q_insert_org g))"
  by (rule intact_exec)
    (auto simp: q_insert_org_def db_ok_defs exists_own_upd org_exists_append
      simp del: list_ex_append split: if_splits)

lemma intact_update_org:
  assumes k: "\<And>g. org_key (f g) = org_key g"
  shows "tracks keeps_intact (exec (q_update_org p f))"
proof (rule intact_exec)
  fix c d a d'
  assume d: "db_ok d" and q: "q_update_org p f c d = Inr (a, d')"
  have c: "org_clash (f a) b = org_clash a b" "org_clash a (f b) = org_clash a b" for a b
    using org_keyD [OF k [of a]] org_keyD [OF k [of b]] by (simp_all add: org_clash_def)
  have i: "org_id (f g) = org_id g" for g by (rule org_keyD [OF k])
  have "d' = organizations_update (\<lambda>_. map (\<lambda>r. if p r then f r else r) (organizations d)) d"
    using q by (simp add: q_update_org_def split: if_splits)
  then show "db_ok d'"
    using d by (simp add: db_ok_defs exists_own_upd org_exists_map i no_dups_map_if c)
qed

lemma intact_insert_webhook: "tracks keeps_intact (exec (q_insert_webhook w))"
  by (rule intact_exec) (auto simp: q_insert_webhook_def db_ok_defs split: if_splits)

lemma intact_select_orgs: "tracks keeps_intact (exec (q_select_orgs p))"
  by (rule intact_exec) (simp add: q_select_orgs_def)

lemmas intact_intros = intg.tracks_intros tracks_if tx_kept_if_option intact_tx intact_select
  intact_select_orgs intact_insert_org intact_update_org intact_insert_webhook
  users_st.intact_insert users_st.intact_update projects_st.intact_insert projects_st.intact_update
  audit_st.intact_insert refresh_st.intact_insert refresh_st.intact_update
  invitations_st.intact_insert invitations_st.intact_update
  auth_st.intact_insert auth_st.intact_update subs_st.intact_insert subs_st.intact_update
  keys_st.intact_insert keys_st.intact_update

lemma intact_with_tenant_tx: "tracks keeps_intact fn \<Longrightarrow> tracks keeps_intact (with_tenant_tx t fn)"
  unfolding with_tenant_tx_def by (intro intact_intros)

lemma intact_clean: "clean (st_conn s) \<Longrightarrow> intact s \<longleftrightarrow> db_ok (st_db s)"
  by (simp add: intact_def clean_def)

end
