(* ===== verification/Lifecycle.thy ===== *)
theory Lifecycle
  imports Integrity Team
begin

text \<open>
  \<^verbatim>\<open>src/tenants/lifecycle.service.ts\<close>: the soft deletion of an organization. The statement
  that revokes the sessions has no condition on the tenant; it relies on the row policies.
\<close>

definition cancel_body :: "env \<Rightarrow> actor \<Rightarrow> unit io" where
  "cancel_body v a =
     andthen (exec (q_update_org (\<lambda>g. org_id g = actor_tenant_id a)
        (\<lambda>g. g\<lparr>org_deleted_at := Some (db_now v)\<rparr>)))
    (andthen (update_refresh_tokens (\<lambda>r. rt_revoked_at r = None)
        (\<lambda>r. r\<lparr>rt_revoked_at := Some (db_now v)\<rparr>))
      (insert_audit (audit_entry v (new_id v 0) (actor_tenant_id a) (Some (actor_user_id a))
        ''org.cancelled'' (uuid_out (actor_tenant_id a)) None)))"

definition cancel_tenant :: "env \<Rightarrow> actor \<Rightarrow> unit io" where
  "cancel_tenant v a = with_tenant_tx (actor_tenant_id a) (cancel_body v a)"

definition is_tenant_deleted :: "uuid \<Rightarrow> bool io" where
  "is_tenant_deleted t =
     bnd (exec (q_select_orgs (\<lambda>g. org_id g = t))) (\<lambda>rows.
       ret (case first_row rows of None \<Rightarrow> False | Some g \<Rightarrow> org_deleted_at g \<noteq> None))"

subsection \<open>Updates of organizations\<close>

lemma exec_update_org_ok:
  assumes l: "live s" and u: "no_dups org_clash (organizations (st_db s))"
    and k: "\<And>g. org_key (f g) = org_key g"
  shows "exec (q_update_org p f) s =
    (Inr (length (filter p (organizations (st_db s)))),
     s\<lparr>st_db := (st_db s)\<lparr>organizations := map (\<lambda>r. if p r then f r else r) (organizations (st_db s))\<rparr>\<rparr>)"
proof -
  have "r = r'" if "r \<in> set (organizations (st_db s))" "r' \<in> set (organizations (st_db s))"
      "org_clash (f r) r'" for r r'
  proof -
    have "org_clash r r'" using that(3) org_keyD [OF k [of r]] by (simp add: org_clash_def)
    then show ?thesis
      using no_dups_eq [OF u that(1,2)] org_clash_sym by blast
  qed
  then have "\<not> list_ex (\<lambda>r. p r \<and> list_ex (\<lambda>r'. org_id r' \<noteq> org_id r \<and> org_clash (f r) r')
      (organizations (st_db s))) (organizations (st_db s))"
    unfolding list_ex_iff by blast
  then show ?thesis by (simp add: exec_live [OF l] q_update_org_def)
qed

subsection \<open>Outcomes\<close>

lemma cancel_body_kept: "tracks tx_kept (cancel_body v a)"
  unfolding cancel_body_def by (intro tx_kept_intros)

definition cancelled_db :: "bool \<Rightarrow> env \<Rightarrow> actor \<Rightarrow> db \<Rightarrow> db" where
  "cancelled_db bypass v a d =
     d\<lparr>organizations := map (\<lambda>g. if org_id g = actor_tenant_id a
         then g\<lparr>org_deleted_at := Some (db_now v)\<rparr> else g) (organizations d),
       refresh_tokens := map (\<lambda>r. if (bypass \<or> rt_tenant_id r = actor_tenant_id a)
           \<and> rt_revoked_at r = None then r\<lparr>rt_revoked_at := Some (db_now v)\<rparr> else r)
         (refresh_tokens d),
       audit_log := audit_log d @ [audit_entry v (new_id v 0) (actor_tenant_id a)
         (Some (actor_user_id a)) ''org.cancelled'' (uuid_out (actor_tenant_id a)) None]\<rparr>"

lemma cancel_tenant_run:
  assumes idle: "tx (st_conn s) = NoTx" and d: "db_ok (st_db s)"
    and og: "org_exists (st_db s) (actor_tenant_id a)" and fresh: "audit_fresh (st_db s) (new_id v 0)"
  shows "cancel_tenant v a s =
    (Inr (), s\<lparr>st_db := cancelled_db (bypass_rls (st_conn s)) v a (st_db s),
               st_conn := released (st_conn s)\<rparr>)"
proof -
  let ?t = "actor_tenant_id a" and ?d = "st_db s" and ?b = "bypass_rls (st_conn s)"
  let ?s1 = "in_tenant_tx ?t s"
  let ?d1 = "?d\<lparr>organizations := map (\<lambda>g. if org_id g = ?t
         then g\<lparr>org_deleted_at := Some (db_now v)\<rparr> else g) (organizations ?d)\<rparr>"
  let ?d2 = "?d1\<lparr>refresh_tokens := map (\<lambda>r. if (?b \<or> rt_tenant_id r = ?t)
           \<and> rt_revoked_at r = None then r\<lparr>rt_revoked_at := Some (db_now v)\<rparr> else r)
         (refresh_tokens ?d)\<rparr>"
  have u: "no_dups org_clash (organizations (st_db ?s1))" using d by (simp add: db_ok_defs)
  have org: "exec (q_update_org (\<lambda>g. org_id g = ?t) (\<lambda>g. g\<lparr>org_deleted_at := Some (db_now v)\<rparr>)) ?s1 =
      (Inr (length (filter (\<lambda>g. org_id g = ?t) (organizations ?d))), ?s1\<lparr>st_db := ?d1\<rparr>)"
    by (subst exec_update_org_ok [OF live_in_tenant_tx u]) (simp_all add: org_key_def)
  have "\<exists>n. update_refresh_tokens (\<lambda>r. rt_revoked_at r = None)
        (\<lambda>r. r\<lparr>rt_revoked_at := Some (db_now v)\<rparr>) (?s1\<lparr>st_db := ?d1\<rparr>) = (Inr n, ?s1\<lparr>st_db := ?d2\<rparr>)"
    by (subst exec_update_ok) auto
  then obtain n where upd: "update_refresh_tokens (\<lambda>r. rt_revoked_at r = None)
        (\<lambda>r. r\<lparr>rt_revoked_at := Some (db_now v)\<rparr>) (?s1\<lparr>st_db := ?d1\<rparr>) = (Inr n, ?s1\<lparr>st_db := ?d2\<rparr>)"
    by blast
  have og2: "org_exists ?d2 ?t"
    using og by (simp add: exists_own_upd org_exists_map)
  have aud: "insert_audit (audit_entry v (new_id v 0) ?t (Some (actor_user_id a))
        ''org.cancelled'' (uuid_out ?t) None) (?s1\<lparr>st_db := ?d2\<rparr>) =
      (Inr (), ?s1\<lparr>st_db := cancelled_db ?b v a ?d\<rparr>)"
    using og2 fresh by (subst exec_insert_ok)
      (simp_all add: audit_fresh_clash cancelled_db_def)
  have "cancel_body v a ?s1 = (Inr (), ?s1\<lparr>st_db := cancelled_db ?b v a ?d\<rparr>)"
    by (simp only: cancel_body_def run_steps org upd aud)
  then show ?thesis
    unfolding cancel_tenant_def with_tenant_tx_run [OF cancel_body_kept idle]
    by (simp add: committed_live in_tenant_tx_def)
qed

lemma cancelled_not_alive: "\<not> org_alive (cancelled_db b v a d) (actor_tenant_id a)"
  by (auto simp: org_alive_def cancelled_db_def list_ex_iff)

text \<open>What the tenant's own sessions look like afterwards, under either kind of role.\<close>

lemma cancelled_sessions:
  assumes "r \<in> set (refresh_tokens (cancelled_db b v a d))" and "b \<or> rt_tenant_id r = actor_tenant_id a"
  shows "rt_revoked_at r \<noteq> None"
  using assms by (auto simp: cancelled_db_def)

end
