(* ===== verification/Sessions.thy ===== *)
theory Sessions
  imports Lifecycle
begin

text \<open>
  The life of sessions under all the services that touch them, in any order: a step
  relation whose steps are runs of the services, with the histories of refresh tokens it
  allows. The contract a history has to satisfy is the locale \<open>token_history\<close>; it is
  interpreted for "revocation is permanent" and for "a dead family stays dead".
\<close>

subsection \<open>Histories of the token table\<close>

text \<open>What an update may do to a token: identity kept, used and revoked marks never cleared.\<close>

definition aged :: "refresh_token_row \<Rightarrow> refresh_token_row \<Rightarrow> bool" where
  "aged r r' \<longleftrightarrow> rt_key r' = rt_key r \<and> rt_family_id r' = rt_family_id r \<and>
     rt_expires_at r' = rt_expires_at r \<and>
     (rt_used_at r \<noteq> None \<longrightarrow> rt_used_at r' \<noteq> None) \<and>
     (rt_revoked_at r \<noteq> None \<longrightarrow> rt_revoked_at r' \<noteq> None)"

lemma aged_refl [simp]: "aged r r"
  by (simp add: aged_def)

lemma aged_trans: "aged r s \<Longrightarrow> aged s t \<Longrightarrow> aged r t"
  by (simp add: aged_def)

definition tokens_of :: "state \<Rightarrow> refresh_token_row list" where
  "tokens_of s = refresh_tokens (st_db s)"

definition rt_rel :: "(refresh_token_row list \<Rightarrow> refresh_token_row list \<Rightarrow> bool) \<Rightarrow> state \<Rightarrow> state \<Rightarrow> bool" where
  "rt_rel P s s' \<longleftrightarrow> P (tokens_of s) (tokens_of s')"

locale token_history =
  fixes P :: "refresh_token_row list \<Rightarrow> refresh_token_row list \<Rightarrow> bool"
    and admissible :: "refresh_token_row \<Rightarrow> bool"
  assumes hist_refl: "P rs rs"
    and hist_trans: "P rs ss \<Longrightarrow> P ss ts \<Longrightarrow> P rs ts"
    and hist_update: "(\<And>r. aged r (g r)) \<Longrightarrow> P rs (map (\<lambda>r. if h r then g r else r) rs)"
    and hist_insert: "admissible row \<Longrightarrow> P rs (rs @ [row])"

sublocale token_history \<subseteq> st: state_order "rt_rel P"
  by unfold_locales (auto simp: rt_rel_def intro: hist_refl hist_trans)

context token_history
begin

lemma hist_exec:
  assumes "\<And>c d a d'. q c d = Inr (a, d') \<Longrightarrow> P (refresh_tokens d) (refresh_tokens d')"
  shows "tracks (rt_rel P) (exec q)"
  using assms
  by (auto simp: tracks_def rt_rel_def tokens_of_def exec_def hist_refl split: tx_state.splits
      sum.splits prod.splits)

lemma hist_other:
  assumes "\<And>f d. refresh_tokens (upd f d) = refresh_tokens d"
  shows "tracks (rt_rel P) (exec (q_insert get upd ten clash fk row))"
    "tracks (rt_rel P) (exec (q_update get upd ten p f))"
  by (auto intro!: hist_exec simp: q_insert_def q_update_def Let_def assms hist_refl split: if_splits)

lemma hist_tables:
  "tracks (rt_rel P) (exec (q_insert users users_update ten1 clash1 fk1 row1))"
  "tracks (rt_rel P) (exec (q_update users users_update ten1 p1 f1))"
  "tracks (rt_rel P) (exec (q_insert audit_log audit_log_update ten2 clash2 fk2 row2))"
  "tracks (rt_rel P) (exec (q_insert invitations invitations_update ten3 clash3 fk3 row3))"
  "tracks (rt_rel P) (exec (q_update invitations invitations_update ten3 p3 f3))"
  "tracks (rt_rel P) (exec (q_insert auth_tokens auth_tokens_update ten4 clash4 fk4 row4))"
  "tracks (rt_rel P) (exec (q_update auth_tokens auth_tokens_update ten4 p4 f4))"
  by (rule hist_other; simp)+

lemma hist_misc:
  "tracks (rt_rel P) (exec (q_select get ten p))"
  "tracks (rt_rel P) (exec (q_select_orgs po))"
  "tracks (rt_rel P) (exec (q_insert_org g))"
  "tracks (rt_rel P) (exec (q_update_org po fo))"
  by (auto intro!: hist_exec simp: query_defs hist_refl split: if_splits)

lemma hist_set_config: "tracks (rt_rel P) (set_config_local t)"
  by (auto simp: tracks_def rt_rel_def tokens_of_def set_config_local_def hist_refl split: tx_state.splits)

lemma hist_tokens_update:
  assumes "\<And>r. aged r (f r)"
  shows "tracks (rt_rel P) (update_refresh_tokens p f)"
  by (rule hist_exec)
    (auto simp: q_update_def Let_def split: if_splits intro!: hist_update assms)

lemma hist_tokens_insert: "admissible row \<Longrightarrow> tracks (rt_rel P) (insert_refresh_token row)"
  by (rule hist_exec) (auto simp: q_insert_def split: if_splits intro!: hist_insert)

lemmas hist_intros = st.tracks_intros tracks_if tx_kept_if_option hist_tables hist_misc hist_set_config
  hist_tokens_update hist_tokens_insert

text \<open>A transaction follows the history its body follows, committed or rolled back.\<close>

lemma hist_tx_block:
  assumes "tracks tx_kept body" and "tracks (rt_rel P) body" and idle: "tx (st_conn s) = NoTx"
    and run: "tx_block body s = (r, s')"
  shows "P (tokens_of s) (tokens_of s')"
proof -
  obtain r1 s1 where b: "body (entered s) = (r1, s1)" by fastforce
  have k: "tx_kept (entered s) s1" and h: "rt_rel P (entered s) s1"
    using tracksD [OF assms(1) b] tracksD [OF assms(2) b] by simp_all
  have "st_db s' = st_db s \<or> st_db s' = st_db s1"
    using run b k unfolding tx_block_run [OF assms(1) idle]
    by (auto simp: committed_db_def tx_kept_def split: sum.splits tx_state.splits)
  then show ?thesis using h by (auto simp: rt_rel_def tokens_of_def hist_refl)
qed

lemma hist_tenant_tx:
  assumes "tracks tx_kept fn" and "tracks (rt_rel P) fn" and "tx (st_conn s) = NoTx"
    and "with_tenant_tx t fn s = (r, s')"
  shows "P (tokens_of s) (tokens_of s')"
proof (rule hist_tx_block)
  show "tracks tx_kept (andthen (set_config_local t) fn)" by (intro tx_kept_intros assms(1))
  show "tracks (rt_rel P) (andthen (set_config_local t) fn)" by (intro hist_intros assms(2))
  show "tx_block (andthen (set_config_local t) fn) s = (r, s')"
    using assms(4) by (simp add: with_tenant_tx_block)
qed (rule assms(3))

end

subsection \<open>Every service follows a history\<close>

text \<open>The tokens a request may insert: of a fresh family at login, of the row's family at rotation.\<close>

definition login_token :: "ext \<Rightarrow> token_config \<Rightarrow> env \<Rightarrow> user_row \<Rightarrow> refresh_token_row" where
  "login_token x cfg v u = new_refresh_token v (new_id v 1) (user_tenant_id u) (user_id u)
     (hash_token x (rnd_token v)) (new_id v 0) (refresh_expiry cfg v)"

definition rotated_token :: "ext \<Rightarrow> token_config \<Rightarrow> env \<Rightarrow> refresh_token_row \<Rightarrow> refresh_token_row" where
  "rotated_token x cfg v rt = new_refresh_token v (new_id v 0) (rt_tenant_id rt) (rt_user_id rt)
     (snd (generate_refresh_token x v)) (rt_family_id rt) (refresh_expiry cfg v)"

lemma aged_used: "aged r (r\<lparr>rt_used_at := Some t\<rparr>)"
  by (simp add: aged_def rt_key_def)

lemma aged_revoked: "aged r (r\<lparr>rt_revoked_at := Some t\<rparr>)"
  by (simp add: aged_def rt_key_def)

context token_history
begin

lemma hist_signup:
  assumes idle: "tx (st_conn s) = NoTx" and run: "signup x v i s = (r, s')"
  shows "P (tokens_of s) (tokens_of s')"
proof -
  obtain r1 where "tx_block (signup_body x v i) s = (r1, s')"
    using run by (auto simp: signup_run split: prod.splits sum.splits)
  moreover have "tracks (rt_rel P) (signup_body x v i)"
    unfolding signup_body_def by (intro hist_intros)
  ultimately show ?thesis using hist_tx_block [OF signup_body_kept _ idle] by blast
qed

lemma hist_login:
  assumes c: "clean (st_conn s)" and run: "login x cfg v email pw s = (r, s')"
    and adm: "\<And>u. admissible (login_token x cfg v u)"
  shows "P (tokens_of s) (tokens_of s')"
proof -
  have "tracks (rt_rel P) (login_store x cfg v u)" for u
    unfolding login_store_def
    by (intro hist_intros) (use adm [of u] in \<open>simp add: login_token_def\<close>)
  note h = hist_tenant_tx [OF login_store_kept this clean_NoTx [OF c]]
  show ?thesis
    using run unfolding login_cases [OF c]
    by (auto split: option.splits sum.splits prod.splits bool.splits intro: h hist_refl)
qed

lemma hist_rotate:
  assumes c: "clean (st_conn s)" and run: "rotate_refresh_token x cfg v w presented s = (r, s')"
    and adm: "\<And>rt. rt \<in> set (tokens_of s) \<Longrightarrow> \<not> reuse_detected v w rt \<Longrightarrow>
        admissible (rotated_token x cfg v rt)"
  shows "P (tokens_of s) (tokens_of s')"
proof (cases "refresh_row (bypass_rls (st_conn s)) (hash_token x presented) (st_db s)")
  case None
  then show ?thesis using run by (simp add: rotate_cases [OF c] hist_refl)
next
  case (Some p)
  obtain rt u where p: "p = (rt, u)" by fastforce
  note row = Some [unfolded p]
  have rev: "tracks (rt_rel P) (revoke_family v rt)"
    unfolding revoke_family_def by (intro hist_intros aged_revoked)
  have rot: "tracks (rt_rel P) (rotate_within_family x cfg v rt)" if "\<not> reuse_detected v w rt"
    unfolding rotate_within_family_def
    using adm [OF _ that] refresh_rowD(2) [OF row]
    by (intro hist_intros aged_used) (simp add: rotated_token_def tokens_of_def)
  show ?thesis
    using run hist_tenant_tx [OF revoke_family_kept rev clean_NoTx [OF c]]
      hist_tenant_tx [OF rotate_within_family_kept rot clean_NoTx [OF c]]
    unfolding rotate_cases [OF c] row option.case prod.case
    by (auto split: if_splits sum.splits prod.splits intro: hist_refl)
qed

lemma hist_request_reset:
  assumes c: "clean (st_conn s)" and run: "request_password_reset x v ttl email s = (r, s')"
  shows "P (tokens_of s) (tokens_of s')"
proof -
  have k: "tracks tx_kept (insert_auth_token a)" for a by (intro tx_kept_intros)
  have h: "tracks (rt_rel P) (insert_auth_token a)" for a by (intro hist_intros)
  show ?thesis
    using run hist_tenant_tx [OF k h clean_NoTx [OF c]] unfolding request_reset_cases [OF c]
    by (auto split: option.splits sum.splits prod.splits intro: hist_refl)
qed

lemma hist_confirm_reset:
  assumes c: "clean (st_conn s)" and run: "confirm_password_reset x v token pw s = (r, s')"
  shows "P (tokens_of s) (tokens_of s')"
proof -
  have h: "tracks (rt_rel P) (apply_reset v row p)" for row p
    unfolding apply_reset_def by (intro hist_intros aged_revoked)
  show ?thesis
    using run hist_tenant_tx [OF apply_reset_kept h clean_NoTx [OF c]] unfolding confirm_cases [OF c]
    by (auto split: option.splits intro: hist_refl)
qed

lemma hist_invite:
  assumes c: "clean (st_conn s)" and run: "create_invitation x v a email q ttl s = (r, s')"
  shows "P (tokens_of s) (tokens_of s')"
proof -
  have h: "tracks (rt_rel P) (invite_body x v a email q ttl)"
    unfolding invite_body_def by (intro hist_intros)
  show ?thesis
    using run hist_tenant_tx [OF invite_body_kept h clean_NoTx [OF c]]
    by (auto simp: create_invitation_def andthen_def bnd_def lift_sum_def ret_def
        split: sum.splits prod.splits intro: hist_refl)
qed

lemma hist_accept:
  assumes c: "clean (st_conn s)" and run: "accept_invitation x v token pw s = (r, s')"
  shows "P (tokens_of s) (tokens_of s')"
proof -
  have h: "tracks (rt_rel P) (accept_body v row p)" for row p
    unfolding accept_body_def by (intro hist_intros)
  show ?thesis
    using run hist_tenant_tx [OF accept_body_kept h clean_NoTx [OF c]] unfolding accept_cases [OF c]
    by (auto split: option.splits intro: hist_refl)
qed

lemma hist_change_role:
  assumes c: "clean (st_conn s)" and run: "change_role v a target q s = (r, s')"
  shows "P (tokens_of s) (tokens_of s')"
proof -
  have h: "tracks (rt_rel P) (change_role_body v a target q)"
    unfolding change_role_body_def by (intro hist_intros)
  show ?thesis
    using run hist_tenant_tx [OF change_role_body_kept h clean_NoTx [OF c]]
    by (auto simp: change_role_def andthen_def bnd_def lift_sum_def
        split: sum.splits prod.splits intro: hist_refl)
qed

lemma hist_cancel:
  assumes c: "clean (st_conn s)" and run: "cancel_tenant v a s = (r, s')"
  shows "P (tokens_of s) (tokens_of s')"
proof -
  have h: "tracks (rt_rel P) (cancel_body v a)"
    unfolding cancel_body_def by (intro hist_intros aged_revoked)
  show ?thesis
    using run hist_tenant_tx [OF cancel_body_kept h clean_NoTx [OF c]] by (simp add: cancel_tenant_def)
qed

end

subsection \<open>Every service keeps integrity and returns its connection\<close>

lemma intact_reads:
  "tracks keeps_intact (exec (q_user_by_email e))" "tracks keeps_intact (exec (q_refresh_by_hash h))"
  by (rule intact_exec, simp add: q_user_by_email_def q_refresh_by_hash_def)+

lemma intact_signup: "tracks keeps_intact (signup x v i)"
  unfolding signup_def Let_def by (intro intact_intros)

lemma intact_login: "tracks keeps_intact (login x cfg v email pw)"
  unfolding login_def Let_def generate_refresh_token_def prod.case
  by (intro intact_intros intact_reads)

lemma intact_rotate: "tracks keeps_intact (rotate_refresh_token x cfg v w presented)"
proof -
  have "tracks keeps_intact (revoke_family v rt)" for rt
    unfolding revoke_family_def by (intro intact_intros) (simp add: rt_key_def)
  moreover have "tracks keeps_intact (rotate_within_family x cfg v rt)" for rt
    unfolding rotate_within_family_def by (intro intact_intros) (simp add: rt_key_def)
  ultimately show ?thesis
    unfolding rotate_refresh_token_def Let_def
    by (auto intro!: intact_intros intact_reads intact_with_tenant_tx split: option.splits)
qed

lemma intact_request_reset: "tracks keeps_intact (request_password_reset x v ttl email)"
  unfolding request_password_reset_def
  by (intro intact_intros intact_reads intact_with_tenant_tx)

lemma intact_confirm_reset: "tracks keeps_intact (confirm_password_reset x v token pw)"
proof -
  have "tracks keeps_intact (apply_reset v row h)" for row h
    unfolding apply_reset_def
    by (intro intact_intros) (simp_all add: key_defs mark_auth_token_def)
  then show ?thesis
    unfolding confirm_password_reset_def confirm_lookup_def confirm_redeem_def Let_def
    by (intro intact_intros intact_with_tenant_tx)
qed

lemma intact_invite: "tracks keeps_intact (create_invitation x v a email q ttl)"
  unfolding create_invitation_def invite_body_def by (intro intact_intros intact_with_tenant_tx)

lemma intact_accept: "tracks keeps_intact (accept_invitation x v token pw)"
proof -
  have "tracks keeps_intact (accept_body v row h)" for row h
    unfolding accept_body_def by (intro intact_intros) (simp add: inv_key_def mark_invitation_def)
  then show ?thesis
    unfolding accept_invitation_def Let_def by (intro intact_intros intact_with_tenant_tx)
qed

lemma intact_change_role: "tracks keeps_intact (change_role v a target q)"
proof -
  have "tracks keeps_intact (change_role_body v a target q)"
    unfolding change_role_body_def by (intro intact_intros) (simp add: user_key_def)
  then show ?thesis unfolding change_role_def by (intro intact_intros intact_with_tenant_tx)
qed

lemma intact_cancel: "tracks keeps_intact (cancel_tenant v a)"
  unfolding cancel_tenant_def cancel_body_def
  by (intro intact_intros intact_with_tenant_tx) (simp_all add: org_key_def rt_key_def)

text \<open>The connection a service leaves: as it was, or released.\<close>

definition pooled :: "state \<Rightarrow> state \<Rightarrow> bool" where
  "pooled s s' \<longleftrightarrow> st_conn s' = st_conn s \<or> st_conn s' = released (st_conn s)"

lemma pooled_clean: "pooled s s' \<Longrightarrow> clean (st_conn s) \<Longrightarrow> clean (st_conn s')"
  by (auto simp: pooled_def)

lemma pooled_refl [simp]: "pooled s s"
  by (simp add: pooled_def)

lemma pooled_tenant_tx:
  assumes "tracks tx_kept fn" and "clean (st_conn s)" and "with_tenant_tx t fn s = (r, s')"
  shows "pooled s s'"
  using with_tenant_tx_releases [OF assms(1) clean_NoTx [OF assms(2)] assms(3)]
  by (simp add: pooled_def)

lemma service_pooled:
  assumes c: "clean (st_conn s)"
  shows "signup x v i s = (r1, s') \<Longrightarrow> pooled s s'"
    and "login x cfg v email pw s = (r2, s') \<Longrightarrow> pooled s s'"
    and "rotate_refresh_token x cfg v w presented s = (r3, s') \<Longrightarrow> pooled s s'"
    and "request_password_reset x v ttl email s = (r4, s') \<Longrightarrow> pooled s s'"
    and "confirm_password_reset x v token pw s = (r5, s') \<Longrightarrow> pooled s s'"
    and "create_invitation x v a email q ttl s = (r6, s') \<Longrightarrow> pooled s s'"
    and "accept_invitation x v token pw s = (r7, s') \<Longrightarrow> pooled s s'"
    and "change_role v a target q s = (r8, s') \<Longrightarrow> pooled s s'"
    and "cancel_tenant v a s = (r9, s') \<Longrightarrow> pooled s s'"
proof -
  have k: "tracks tx_kept (insert_auth_token at)" for at by (intro tx_kept_intros)
  show "signup x v i s = (r1, s') \<Longrightarrow> pooled s s'"
    using signup_releases [OF clean_NoTx [OF c]] by (simp add: pooled_def)
  show "login x cfg v email pw s = (r2, s') \<Longrightarrow> pooled s s'"
    using login_releases [OF c] by (simp add: pooled_def)
  show "rotate_refresh_token x cfg v w presented s = (r3, s') \<Longrightarrow> pooled s s'"
    using rotate_releases [OF c] by (simp add: pooled_def)
  show "request_password_reset x v ttl email s = (r4, s') \<Longrightarrow> pooled s s'"
    using pooled_tenant_tx [OF k c] unfolding request_reset_cases [OF c]
    by (auto split: option.splits sum.splits prod.splits)
  show "confirm_password_reset x v token pw s = (r5, s') \<Longrightarrow> pooled s s'"
    using pooled_tenant_tx [OF apply_reset_kept c] unfolding confirm_cases [OF c]
    by (auto split: option.splits)
  show "create_invitation x v a email q ttl s = (r6, s') \<Longrightarrow> pooled s s'"
    using pooled_tenant_tx [OF invite_body_kept c]
    by (auto simp: create_invitation_def andthen_def bnd_def lift_sum_def ret_def
        split: sum.splits prod.splits)
  show "accept_invitation x v token pw s = (r7, s') \<Longrightarrow> pooled s s'"
    using pooled_tenant_tx [OF accept_body_kept c] unfolding accept_cases [OF c]
    by (auto split: option.splits)
  show "change_role v a target q s = (r8, s') \<Longrightarrow> pooled s s'"
    using pooled_tenant_tx [OF change_role_body_kept c]
    by (auto simp: change_role_def andthen_def bnd_def lift_sum_def split: sum.splits prod.splits)
  show "cancel_tenant v a s = (r9, s') \<Longrightarrow> pooled s s'"
    using pooled_tenant_tx [OF cancel_body_kept c] by (simp add: cancel_tenant_def)
qed

subsection \<open>Runs of the services\<close>

text \<open>
  One step is a whole request of one service, successful or not, on a pooled connection of
  the owner pool, with arbitrary inputs and clocks; the family id minted at login is new.
\<close>

inductive auth_step :: "ext \<Rightarrow> token_config \<Rightarrow> state \<Rightarrow> state \<Rightarrow> bool" for x cfg where
  step_signup: "signup x v i s = (r1, s') \<Longrightarrow> auth_step x cfg s s'"
| step_login: "login x cfg v email pw s = (r2, s') \<Longrightarrow>
    \<forall>rt\<in>set (tokens_of s). rt_family_id rt \<noteq> new_id v 0 \<Longrightarrow> auth_step x cfg s s'"
| step_rotate: "rotate_refresh_token x cfg v w presented s = (r3, s') \<Longrightarrow> auth_step x cfg s s'"
| step_request: "request_password_reset x v ttl email s = (r4, s') \<Longrightarrow> auth_step x cfg s s'"
| step_confirm: "confirm_password_reset x v token pw s = (r5, s') \<Longrightarrow> auth_step x cfg s s'"
| step_invite: "create_invitation x v a email q ttl s = (r6, s') \<Longrightarrow> auth_step x cfg s s'"
| step_accept: "accept_invitation x v token pw s = (r7, s') \<Longrightarrow> auth_step x cfg s s'"
| step_role: "change_role v a target q s = (r8, s') \<Longrightarrow> auth_step x cfg s s'"
| step_cancel: "cancel_tenant v a s = (r9, s') \<Longrightarrow> auth_step x cfg s s'"

inductive auth_run :: "ext \<Rightarrow> token_config \<Rightarrow> state \<Rightarrow> state \<Rightarrow> bool" for x cfg where
  run_refl: "auth_run x cfg s s"
| run_step: "auth_run x cfg s t \<Longrightarrow> auth_step x cfg t u \<Longrightarrow> auth_run x cfg s u"

inductive_cases auth_runE: "auth_run x cfg s s'"

lemma auth_step_pooled: "auth_step x cfg s s' \<Longrightarrow> clean (st_conn s) \<Longrightarrow> pooled s s'"
  by (induction rule: auth_step.induct) (blast intro: service_pooled)+

lemma auth_step_intact: "auth_step x cfg s s' \<Longrightarrow> intact s \<Longrightarrow> intact s'"
proof (induction rule: auth_step.induct)
  case step_signup
  then show ?case using tracksD [OF intact_signup] by (auto simp: keeps_intact_def)
next
  case step_login
  then show ?case using tracksD [OF intact_login] by (auto simp: keeps_intact_def)
next
  case step_rotate
  then show ?case using tracksD [OF intact_rotate] by (auto simp: keeps_intact_def)
next
  case step_request
  then show ?case using tracksD [OF intact_request_reset] by (auto simp: keeps_intact_def)
next
  case step_confirm
  then show ?case using tracksD [OF intact_confirm_reset] by (auto simp: keeps_intact_def)
next
  case step_invite
  then show ?case using tracksD [OF intact_invite] by (auto simp: keeps_intact_def)
next
  case step_accept
  then show ?case using tracksD [OF intact_accept] by (auto simp: keeps_intact_def)
next
  case step_role
  then show ?case using tracksD [OF intact_change_role] by (auto simp: keeps_intact_def)
next
  case step_cancel
  then show ?case using tracksD [OF intact_cancel] by (auto simp: keeps_intact_def)
qed

text \<open>A step follows every history that admits the tokens it may mint.\<close>

definition mintable :: "refresh_token_row list \<Rightarrow> refresh_token_row \<Rightarrow> bool" where
  "mintable rs n \<longleftrightarrow> (\<forall>r\<in>set rs. rt_family_id r \<noteq> rt_family_id n) \<or>
     (\<exists>r\<in>set rs. rt_family_id r = rt_family_id n \<and> rt_revoked_at r = None)"

context token_history
begin

lemma hist_step:
  assumes step: "auth_step x cfg s s'" and c: "clean (st_conn s)"
    and adm: "\<And>n. mintable (tokens_of s) n \<Longrightarrow> admissible n"
  shows "P (tokens_of s) (tokens_of s')"
  using step c adm
proof (induction rule: auth_step.induct)
  case (step_signup v i s r1 s')
  then show ?case using hist_signup [OF clean_NoTx] by blast
next
  case (step_login v email pw s r2 s')
  then have "admissible (login_token x cfg v u)" for u
    by (auto simp: mintable_def login_token_def)
  with step_login show ?case using hist_login by blast
next
  case (step_rotate v w presented s r3 s')
  have "admissible (rotated_token x cfg v rt)"
    if "rt \<in> set (tokens_of s)" "\<not> reuse_detected v w rt" for rt
  proof (rule step_rotate.prems(2))
    show "mintable (tokens_of s) (rotated_token x cfg v rt)"
      using that by (auto simp: mintable_def rotated_token_def reuse_detected_def)
  qed
  with step_rotate show ?case using hist_rotate by blast
qed (blast intro: hist_request_reset hist_confirm_reset hist_invite hist_accept hist_change_role
    hist_cancel)+

end

subsection \<open>Revocation is permanent\<close>

definition keeps_tokens :: "refresh_token_row list \<Rightarrow> refresh_token_row list \<Rightarrow> bool" where
  "keeps_tokens rs rs' \<longleftrightarrow> (\<forall>r\<in>set rs. \<exists>r'\<in>set rs'. aged r r')"

interpretation kept: token_history keeps_tokens "\<lambda>_. True"
proof
  show "keeps_tokens rs rs" for rs by (auto simp: keeps_tokens_def intro: aged_refl)
  show "keeps_tokens rs ss \<Longrightarrow> keeps_tokens ss ts \<Longrightarrow> keeps_tokens rs ts" for rs ss ts
    unfolding keeps_tokens_def by (meson aged_trans)
  show "keeps_tokens rs (map (\<lambda>r. if h r then g r else r) rs)" if "\<And>r. aged r (g r)" for g h rs
  proof -
    have "aged r (if h r then g r else r)" for r using that by simp
    then show ?thesis unfolding keeps_tokens_def set_map by blast
  qed
  show "keeps_tokens rs (rs @ [row])" for row rs by (auto simp: keeps_tokens_def intro: aged_refl)
qed

text \<open>A family some token of which exists, all of them revoked.\<close>

definition dead_in :: "uuid \<Rightarrow> refresh_token_row list \<Rightarrow> bool" where
  "dead_in f rs \<longleftrightarrow> (\<exists>r\<in>set rs. rt_family_id r = f) \<and>
     (\<forall>r\<in>set rs. rt_family_id r = f \<longrightarrow> rt_revoked_at r \<noteq> None)"

definition stays_dead :: "uuid \<Rightarrow> refresh_token_row list \<Rightarrow> refresh_token_row list \<Rightarrow> bool" where
  "stays_dead f rs rs' \<longleftrightarrow> (dead_in f rs \<longrightarrow> dead_in f rs')"

interpretation dead: token_history "stays_dead f" "\<lambda>n. rt_family_id n \<noteq> f" for f
proof
  show "stays_dead f rs rs" for rs by (simp add: stays_dead_def)
  show "stays_dead f rs ss \<Longrightarrow> stays_dead f ss ts \<Longrightarrow> stays_dead f rs ts" for rs ss ts
    by (simp add: stays_dead_def)
  show "stays_dead f rs (map (\<lambda>r. if h r then g r else r) rs)" if "\<And>r. aged r (g r)" for g h rs
    using that by (auto simp: stays_dead_def dead_in_def aged_def simp del: if_image_distrib)
  show "stays_dead f rs (rs @ [row])" if "rt_family_id row \<noteq> f" for row rs
    using that by (auto simp: stays_dead_def dead_in_def)
qed

lemma auth_run_invariant:
  assumes "auth_run x cfg s s'" and "clean (st_conn s)" and "intact s"
  shows "clean (st_conn s') \<and> intact s' \<and> keeps_tokens (tokens_of s) (tokens_of s')"
  using assms
proof (induction rule: auth_run.induct)
  case (run_refl s)
  then show ?case by (simp add: kept.hist_refl)
next
  case (run_step s t u)
  then have t: "clean (st_conn t)" "intact t" "keeps_tokens (tokens_of s) (tokens_of t)" by auto
  moreover have "keeps_tokens (tokens_of t) (tokens_of u)"
    using kept.hist_step [OF run_step.hyps(2) t(1)] by blast
  ultimately show ?case
    using auth_step_pooled [OF run_step.hyps(2) t(1)] auth_step_intact [OF run_step.hyps(2) t(2)]
      pooled_clean kept.hist_trans by blast
qed

lemma auth_run_ok:
  assumes "auth_run x cfg s s'" and "clean (st_conn s)" and "db_ok (st_db s)"
  shows "clean (st_conn s')" and "db_ok (st_db s')"
proof -
  have i: "intact s" using assms(2,3) by (simp add: intact_clean)
  show "clean (st_conn s')" "db_ok (st_db s')"
    using auth_run_invariant [OF assms(1,2) i] by (simp_all add: intact_def)
qed

lemma auth_run_dead:
  assumes "auth_run x cfg s s'" and "clean (st_conn s)" and "intact s" and "dead_in f (tokens_of s)"
  shows "dead_in f (tokens_of s')"
  using assms
proof (induction rule: auth_run.induct)
  case (run_refl s)
  then show ?case by blast
next
  case (run_step s t u)
  then have t: "clean (st_conn t)" "dead_in f (tokens_of t)" using auth_run_invariant by auto
  have "rt_family_id n \<noteq> f" if "mintable (tokens_of t) n" for n
    using that t(2) unfolding mintable_def dead_in_def by metis
  then show ?case
    using dead.hist_step [OF run_step.hyps(2) t(1), of f] t(2) by (simp add: stays_dead_def)
qed

text \<open>A presented token whose row is revoked is refused.\<close>

lemma rotate_refused:
  assumes c: "clean (st_conn s)"
    and rev: "\<And>rt u. refresh_row (bypass_rls (st_conn s)) (hash_token x presented) (st_db s) = Some (rt, u)
        \<Longrightarrow> rt_revoked_at rt \<noteq> None"
  shows "\<exists>e. fst (rotate_refresh_token x cfg v w presented s) = Inl e"
  using rev unfolding rotate_cases [OF c]
  by (auto simp: reuse_detected_def split: option.splits sum.splits prod.splits)

end
