(* ===== verification/SessionProperties.thy ===== *)
theory SessionProperties
  imports Sessions Samples
begin

text \<open>
  What the services promise about sessions over time, whatever requests come in between:
  rotation, theft detection, password reset, cancellation, and the integrity of the
  database.
\<close>

lemma db_ok_tokens:
  assumes "db_ok d" and "r \<in> set (refresh_tokens d)" "r' \<in> set (refresh_tokens d)"
    and "rt_hashed_token r = rt_hashed_token r'"
  shows "r = r'"
  using assms by (intro no_dups_eq [of refresh_token_clash "refresh_tokens d"])
    (auto simp: db_ok_defs refresh_token_clash_def)

lemma db_ok_hash_identifies:
  assumes "db_ok d"
  shows "hash_identifies at_hashed_token at_id (auth_tokens d)"
    and "hash_identifies inv_hashed_token inv_id (invitations d)"
proof -
  have "no_dups auth_token_clash (auth_tokens d)" "no_dups invitation_clash (invitations d)"
    using assms by (simp_all add: db_ok_defs)
  from no_dups_eq [OF this(1)] no_dups_eq [OF this(2)]
  show "hash_identifies at_hashed_token at_id (auth_tokens d)"
    "hash_identifies inv_hashed_token inv_id (invitations d)"
    unfolding hash_identifies_def auth_token_clash_def invitation_clash_def by metis+
qed

lemma db_ok_token_refs:
  assumes "db_ok d" and "rt \<in> set (refresh_tokens d)"
  shows "org_exists d (rt_tenant_id rt)" "user_exists d (rt_user_id rt)"
  using assms by (auto simp: db_ok_defs)

lemma db_ok_auth_refs:
  assumes "db_ok d" and "r \<in> set (auth_tokens d)"
  shows "org_exists d (at_tenant_id r)"
  using assms by (auto simp: db_ok_defs)

lemma sample_db_ok: "db_ok sample_db"
  by (simp add: db_ok_defs sample_defs clash_defs no_dups_def org_exists_def user_exists_def)

subsection \<open>Integrity\<close>

text \<open>
  Every run of the authentication, team and lifecycle services, in any order and with
  any inputs, failing requests included, keeps the unique indexes and the foreign keys of
  the whole database and hands its connection back without a transaction and without a
  tenant.
\<close>
theorem services_keep_integrity:
  assumes "auth_run x cfg s s'" and "clean (st_conn s)" and "db_ok (st_db s)"
  shows "clean (st_conn s') \<and> db_ok (st_db s')"
  using auth_run_ok [OF assms] by simp

lemma services_keep_integrity_witness:
  "db_ok (st_db (snd (cancel_tenant (sample_env 0) \<lparr>actor_tenant_id = 1, actor_user_id = 11, actor_role = Owner\<rparr>
      (start_state True sample_db))))"
  using services_keep_integrity [OF run_step [OF run_refl step_cancel [OF prod.collapse [symmetric]]],
      of "start_state True sample_db" "sample_env 0"
        "\<lparr>actor_tenant_id = 1, actor_user_id = 11, actor_role = Owner\<rparr>"]
    sample_db_ok by simp

subsection \<open>Rotation\<close>

text \<open>
  C6: Rotating a valid refresh token continues the session: the caller gets an access token
  for exactly the row's user and tenant with the user's current role, and a refresh token
  whose hash is stored, unused, in the same family; the presented token is now marked used
  and every other token is as it was.
\<close>
theorem rotation_continues_session:
  assumes "jwt_ok x" and "clean (st_conn s)" and "db_ok (st_db s)"
    and row: "refresh_row (bypass_rls (st_conn s)) (hash_token x presented) (st_db s) = Some (rt, u)"
    and "\<not> token_expired v rt" and "\<not> reuse_detected v w rt"
    and fresh: "rt_fresh (st_db s) (new_id v 0) (hash_token x (rnd_token v))"
    and time: "js_now v' div 1000 < js_now v div 1000 + access_ttl_seconds cfg"
  shows "\<exists>access s'. rotate_refresh_token x cfg v w presented s = (Inr (access, rnd_token v), s') \<and>
    verify_access_token x cfg v' access =
      Inr \<lparr>sub = rt_user_id rt, tenant_id = rt_tenant_id rt, claim_role = user_role u\<rparr> \<and>
    refresh_tokens (st_db s') =
      map (\<lambda>r. if rt_id r = rt_id rt \<and> rt_used_at r = None then r\<lparr>rt_used_at := Some (db_now v)\<rparr> else r)
        (refresh_tokens (st_db s)) @
      [new_refresh_token v (new_id v 0) (rt_tenant_id rt) (rt_user_id rt)
        (hash_token x (rnd_token v)) (rt_family_id rt) (refresh_expiry cfg v)]"
proof -
  have b: "bypass_rls (st_conn s)" and mem: "rt \<in> set (refresh_tokens (st_db s))"
    using refresh_rowD [OF row] by auto
  note run = rotate_within_family_run [OF clean_NoTx [OF assms(2)] b
      db_ok_token_refs [OF assms(3) mem] fresh]
  have "rotate_refresh_token x cfg v w presented s =
      (Inr (sign_access_token x cfg v \<lparr>sub = rt_user_id rt, tenant_id = rt_tenant_id rt,
              claim_role = user_role u\<rparr>, rnd_token v),
       s\<lparr>st_db := rotated_db x cfg v rt (st_db s), st_conn := released (st_conn s)\<rparr>)"
    using assms(5,6) by (simp add: rotate_cases [OF assms(2)] row run)
  then show ?thesis
    using verify_sign_access_token [OF assms(1) time] by (simp add: rotated_db_def)
qed

lemma rotation_continues_session_witness:
  "\<exists>access s'. rotate_refresh_token sample_ext sample_config (sample_env 1) 10000 ''ra''
      (start_state True sample_db) = (Inr (access, ''tokk''), s') \<and>
    verify_access_token sample_ext sample_config (sample_env 2) access =
      Inr \<lparr>sub = 11, tenant_id = 1, claim_role = Owner\<rparr>"
  using rotation_continues_session [OF jwt_ok_sample _ _, of "start_state True sample_db" "''ra''"
      "sample_token 31 1 11 ''ra'' 41" "sample_user 11 1 ''a'' Owner" "sample_env 1" 10000
      "sample_env 2" sample_config] sample_db_ok
  by (force simp: refresh_row_def sample_defs hash_token_def token_expired_def reuse_detected_def
      date_of_timestamptz_def rt_fresh_def sample_config_def)

lemma reuse_kills_family:
  assumes c: "clean (st_conn s)" and d: "db_ok (st_db s)"
    and row: "refresh_row (bypass_rls (st_conn s)) (hash_token x presented) (st_db s) = Some (rt, u)"
    and exp: "\<not> token_expired v rt" and reuse: "reuse_detected v w rt"
    and fresh: "audit_fresh (st_db s) (new_id v 0)"
    and rot: "rotate_refresh_token x cfg v w presented s = (r, s1)"
  shows "r = Inl (AppError (unauthorized ''Refresh token reuse detected''))"
    and "dead_in (rt_family_id rt) (tokens_of s1)" and "clean (st_conn s1)" and "intact s1"
proof -
  have b: "bypass_rls (st_conn s)" and mem: "rt \<in> set (refresh_tokens (st_db s))"
    using refresh_rowD [OF row] by auto
  have og: "org_exists (st_db s) (rt_tenant_id rt)" by (rule db_ok_token_refs [OF d mem])
  note run = revoke_family_run [OF clean_NoTx [OF c] b og fresh]
  show "r = Inl (AppError (unauthorized ''Refresh token reuse detected''))"
    using rot exp reuse by (auto simp: rotate_cases [OF c] row run)
  have s1: "s1 = s\<lparr>st_db := revoked_family_db v rt (st_db s), st_conn := released (st_conn s)\<rparr>"
    using rot exp reuse by (auto simp: rotate_cases [OF c] row run)
  show "dead_in (rt_family_id rt) (tokens_of s1)"
    unfolding dead_in_def tokens_of_def
  proof
    show "\<exists>r\<in>set (refresh_tokens (st_db s1)). rt_family_id r = rt_family_id rt"
      using mem by (auto simp: s1 revoked_family_db_def simp del: if_image_distrib)
    show "\<forall>r\<in>set (refresh_tokens (st_db s1)). rt_family_id r = rt_family_id rt \<longrightarrow> rt_revoked_at r \<noteq> None"
      using revoked_family_dead [of rt v "st_db s"] by (simp add: s1 family_dead_def)
  qed
  show "intact s1" using tracksD [OF intact_rotate rot] d c by (simp add: keeps_intact_def intact_clean)
  show "clean (st_conn s1)" by (simp add: s1)
qed

text \<open>
  Presenting a revoked token, or a used one after the overlap window, answers 401, and after any
  further runs of the services no token of the whole family is exchanged again.
\<close>
theorem reuse_ends_family:
  assumes c: "clean (st_conn s)" and d: "db_ok (st_db s)"
    and row: "refresh_row (bypass_rls (st_conn s)) (hash_token x presented) (st_db s) = Some (rt, u)"
    and exp: "\<not> token_expired v rt" and reuse: "reuse_detected v w rt"
    and fresh: "audit_fresh (st_db s) (new_id v 0)"
    and rot: "rotate_refresh_token x cfg v w presented s = (r, s1)"
    and later: "auth_run x cfg s1 s2"
    and tok: "rt2 \<in> set (refresh_tokens (st_db s2))" "rt_family_id rt2 = rt_family_id rt"
      "rt_hashed_token rt2 = hash_token x replayed"
  shows "r = Inl (AppError (unauthorized ''Refresh token reuse detected'')) \<and>
    (\<exists>e. fst (rotate_refresh_token x cfg v' w' replayed s2) = Inl e)"
proof -
  note kill = reuse_kills_family [OF c d row exp reuse fresh rot]
  have inv: "clean (st_conn s2)" "db_ok (st_db s2)"
    using auth_run_ok [OF later kill(3)] kill(4) by (simp_all add: intact_def)
  have dead2: "dead_in (rt_family_id rt) (tokens_of s2)" by (rule auth_run_dead [OF later kill(3,4,2)])
  have "rt_revoked_at rt' \<noteq> None"
    if "refresh_row (bypass_rls (st_conn s2)) (hash_token x replayed) (st_db s2) = Some (rt', u')" for rt' u'
    using refresh_rowD [OF that] db_ok_tokens [OF inv(2) _ tok(1)] tok(2,3) dead2
    by (auto simp: dead_in_def tokens_of_def)
  then show ?thesis using rotate_refused [OF inv(1)] kill(1) by blast
qed

lemma revoked_never_exchanged:
  assumes c: "clean (st_conn s)" and d: "db_ok (st_db s)"
    and r: "rt \<in> set (refresh_tokens (st_db s))" "rt_revoked_at rt \<noteq> None"
    and later: "auth_run x cfg s s'" and h: "hash_token x presented = rt_hashed_token rt"
  shows "\<exists>e. fst (rotate_refresh_token x cfg v w presented s') = Inl e"
proof -
  have "keeps_tokens (tokens_of s) (tokens_of s')"
    using auth_run_invariant [OF later c] c d by (simp add: intact_clean)
  then obtain r' where r': "r' \<in> set (refresh_tokens (st_db s'))" "aged rt r'"
    using r(1) unfolding keeps_tokens_def tokens_of_def by blast
  note ok = auth_run_ok [OF later c d]
  have "rt_revoked_at q \<noteq> None"
    if "refresh_row (bypass_rls (st_conn s')) (hash_token x presented) (st_db s') = Some (q, u')" for q u'
    using refresh_rowD [OF that] db_ok_tokens [OF ok(2) _ r'(1)] r' r(2) h
    by (auto simp: aged_def rt_key_def)
  then show ?thesis by (rule rotate_refused [OF ok(1)])
qed

text \<open>
  Revocation is permanent. Whatever requests follow, a refresh token that is revoked
  is never exchanged again.
\<close>
theorem revocation_is_permanent:
  assumes "clean (st_conn s)" and "db_ok (st_db s)"
    and "rt \<in> set (refresh_tokens (st_db s))" and "rt_revoked_at rt \<noteq> None"
    and "auth_run x cfg s s'" and "hash_token x presented = rt_hashed_token rt"
  shows "\<exists>e. fst (rotate_refresh_token x cfg v w presented s') = Inl e"
  by (rule revoked_never_exchanged [OF assms])

lemma revocation_is_permanent_witness:
  "\<exists>e. fst (rotate_refresh_token sample_ext sample_config (sample_env 1) 10000 ''ra''
      (start_state True (sample_db\<lparr>refresh_tokens :=
          [(sample_token 31 1 11 ''ra'' 41)\<lparr>rt_revoked_at := Some 1\<rparr>]\<rparr>))) = Inl e"
  by (rule revocation_is_permanent [OF _ _ _ _ run_refl,
        where rt = "(sample_token 31 1 11 ''ra'' 41)\<lparr>rt_revoked_at := Some 1\<rparr>"])
    (simp_all add: db_ok_defs sample_defs clash_defs no_dups_def org_exists_def user_exists_def
      hash_token_def)

subsection \<open>Password reset\<close>

lemma first_row_eq_Some: "first_row xs = Some a \<longleftrightarrow> (\<exists>ys. xs = a # ys)"
  by (cases xs) auto

lemma confirm_run:
  assumes c: "clean (st_conn s)" and d: "db_ok (st_db s)"
    and row: "reset_row (bypass_rls (st_conn s)) (hash_token x token) (db_now v) (st_db s) = Some row"
    and fresh: "audit_fresh (st_db s) (new_id v 0)"
  shows "confirm_password_reset x v token pw s =
    (Inr (), s\<lparr>st_db := reset_db v row (hash_password x v pw) (st_db s), st_conn := released (st_conn s)\<rparr>)"
  unfolding confirm_cases [OF c] row option.case
  by (rule apply_reset_run [OF clean_NoTx [OF c] reset_rowD(1) [OF row]
        db_ok_auth_refs [OF d reset_rowD(2) [OF row]] fresh])

text \<open>
  C8: Confirming a reset with a valid token sets the password of exactly that user, ends
  every session the user has (no refresh token it holds is exchanged again, whatever
  follows), and uses the token up: the same token is refused with 400 at any later time.
\<close>
theorem reset_ends_sessions:
  assumes c: "clean (st_conn s)" and d: "db_ok (st_db s)"
    and row: "reset_row (bypass_rls (st_conn s)) (hash_token x token) (db_now v) (st_db s) = Some row"
    and fresh: "audit_fresh (st_db s) (new_id v 0)"
    and run: "confirm_password_reset x v token pw s = (r, s1)"
  shows "r = Inr () \<and>
    (\<forall>u\<in>set (users (st_db s1)). user_id u = at_user_id row \<longrightarrow>
      user_password_hash u = hash_password x v pw) \<and>
    filter (\<lambda>u. user_id u \<noteq> at_user_id row) (users (st_db s1)) =
      filter (\<lambda>u. user_id u \<noteq> at_user_id row) (users (st_db s)) \<and>
    confirm_password_reset x v' token pw' s1 =
      (Inl (AppError (bad_request ''Reset token invalid or expired'')), s1) \<and>
    (\<forall>s2 rt presented. auth_run x cfg s1 s2 \<longrightarrow> rt \<in> set (refresh_tokens (st_db s1)) \<longrightarrow>
      rt_user_id rt = at_user_id row \<longrightarrow> hash_token x presented = rt_hashed_token rt \<longrightarrow>
      (\<exists>e. fst (rotate_refresh_token x cfg w k presented s2) = Inl e))"
proof -
  have eqs: "r = Inr ()" "s1 = s\<lparr>st_db := reset_db v row (hash_password x v pw) (st_db s),
      st_conn := released (st_conn s)\<rparr>"
    using run confirm_run [OF c d row fresh] by simp_all
  have pass: "\<forall>u\<in>set (users (st_db s1)). user_id u = at_user_id row \<longrightarrow> user_password_hash u = hash_password x v pw"
    by (auto simp: eqs reset_db_def)
  have others: "filter (\<lambda>u. user_id u \<noteq> k) (map (\<lambda>u. if user_id u = k then u\<lparr>user_password_hash := h\<rparr> else u) us) =
      filter (\<lambda>u. user_id u \<noteq> k) us" for us h k
    by (induction us) auto
  have c1: "clean (st_conn s1)" by (simp add: eqs)
  have "reset_row (bypass_rls (st_conn s1)) (hash_token x token) (db_now v') (st_db s1) = None"
    using reset_once [OF db_ok_hash_identifies(1) [OF d] row] by (simp add: eqs)
  then have again: "confirm_password_reset x v' token pw' s1 =
      (Inl (AppError (bad_request ''Reset token invalid or expired'')), s1)"
    by (simp add: confirm_cases [OF c1])
  have d1: "db_ok (st_db s1)"
    using auth_run_ok(2) [OF run_step [OF run_refl step_confirm [OF run]] c d] .
  have dead: "\<exists>e. fst (rotate_refresh_token x cfg w k presented s2) = Inl e"
    if later: "auth_run x cfg s1 s2" "rt \<in> set (refresh_tokens (st_db s1))"
      "rt_user_id rt = at_user_id row" "hash_token x presented = rt_hashed_token rt" for s2 rt presented
  proof (rule revoked_never_exchanged [OF c1 d1 later(2) _ later(1,4)])
    show "rt_revoked_at rt \<noteq> None"
      using reset_revokes_sessions [of row v] later(2,3) by (simp add: eqs sessions_revoked_def)
  qed
  have oth: "filter (\<lambda>u. user_id u \<noteq> at_user_id row) (users (st_db s1)) =
      filter (\<lambda>u. user_id u \<noteq> at_user_id row) (users (st_db s))"
    by (simp add: eqs(2) reset_db_def others)
  show ?thesis
    by (intro conjI allI impI; (rule eqs(1) pass oth again | (rule dead; assumption)))
qed

lemma reset_ends_sessions_witness:
  "fst (confirm_password_reset sample_ext (sample_env 0) ''rt'' ''new''
      (start_state True (sample_db\<lparr>auth_tokens := [sample_reset 51 1 11 ''rt'']\<rparr>))) = Inr ()"
proof -
  let ?s = "start_state True (sample_db\<lparr>auth_tokens := [sample_reset 51 1 11 ''rt'']\<rparr>)"
  have row: "reset_row (bypass_rls (st_conn ?s)) (hash_token sample_ext ''rt'') (db_now (sample_env 0)) (st_db ?s) =
      Some (sample_reset 51 1 11 ''rt'')"
    by (simp add: reset_row_def reset_redeemable_def redeemable_def sample_defs hash_token_def)
  have "db_ok (st_db ?s)"
    by (simp add: db_ok_defs sample_defs clash_defs no_dups_def org_exists_def user_exists_def)
  then show ?thesis
    using reset_ends_sessions [OF _ _ row _ prod.collapse [symmetric]]
    by (simp add: audit_fresh_def sample_defs)
qed

text \<open>
  C39: The reset token is single-use only one request at a time. The lookup runs outside the
  transaction and the update that consumes the token does not check that it is still
  unconsumed, so two confirmations that both looked the token up before either redeemed it
  both succeed, and the password of the second one stays.
\<close>
theorem reset_race:
  assumes c: "clean (st_conn s)" and d: "db_ok (st_db s)"
    and row: "reset_row (bypass_rls (st_conn s)) (hash_token x token) (db_now v) (st_db s) = Some row"
    and still: "db_now v' < at_expires_at row"
    and fresh: "audit_fresh (st_db s) (new_id v 0)" "audit_fresh (st_db s) (new_id v' 0)"
      "new_id v 0 \<noteq> new_id v' 0"
  shows "\<exists>s2. bnd (confirm_lookup x v token) (\<lambda>f.
      bnd (confirm_lookup x v' token) (\<lambda>f'.
        andthen (confirm_redeem x v f pw) (confirm_redeem x v' f' pw'))) s = (Inr (), s2) \<and>
    (\<forall>u\<in>set (users (st_db s2)). user_id u = at_user_id row \<longrightarrow>
      user_password_hash u = hash_password x v' pw')"
proof -
  let ?b = "bypass_rls (st_conn s)" and ?h = "hash_token x token"
  let ?s1 = "s\<lparr>st_db := reset_db v row (hash_password x v pw) (st_db s), st_conn := released (st_conn s)\<rparr>"
  let ?d2 = "reset_db v' row (hash_password x v' pw') (st_db ?s1)"
  have red: "reset_redeemable ?h t r \<longleftrightarrow> r = row"
    if "r \<in> set (auth_tokens (st_db s))" "t < at_expires_at row" for r t
  proof
    assume "reset_redeemable ?h t r"
    then have h: "at_hashed_token r = at_hashed_token row"
      using reset_rowD(3) [OF row] by (simp add: reset_redeemable_def redeemable_def)
    show "r = row"
      using no_dups_eq [of auth_token_clash "auth_tokens (st_db s)" r row] d that(1)
        reset_rowD(2) [OF row] h by (simp add: db_ok_defs auth_token_clash_def)
  qed (use reset_rowD [OF row] that(2) in \<open>simp add: reset_redeemable_def redeemable_def\<close>)
  have "filter (reset_redeemable ?h (db_now v')) (auth_tokens (st_db s)) =
      filter (reset_redeemable ?h (db_now v)) (auth_tokens (st_db s))"
    using red still reset_rowD(5) [OF row] by (intro filter_cong) auto
  then have row': "reset_row ?b ?h (db_now v') (st_db s) = Some row"
    using row by (simp add: reset_row_def split: if_splits)
  have og: "org_exists (st_db s) (at_tenant_id row)"
    by (rule db_ok_auth_refs [OF d reset_rowD(2) [OF row]])
  have r1: "confirm_redeem x v (Some row) pw s = (Inr (), ?s1)"
    using apply_reset_run [OF clean_NoTx [OF c] reset_rowD(1) [OF row] og fresh(1)]
    by (simp add: confirm_redeem_def)
  have fresh2: "audit_fresh (st_db ?s1) (new_id v' 0)"
    using fresh by (auto simp: audit_fresh_def reset_db_def)
  have "org_exists (st_db ?s1) (at_tenant_id row)"
    using og by (simp add: reset_db_def org_exists_def)
  then have r2: "confirm_redeem x v' (Some row) pw' ?s1 =
      (Inr (), ?s1\<lparr>st_db := ?d2, st_conn := released (st_conn ?s1)\<rparr>)"
    using apply_reset_run [of ?s1 row v'] fresh2 reset_rowD(1) [OF row]
    by (simp add: confirm_redeem_def released_def)
  have "\<forall>u\<in>set (users ?d2). user_id u = at_user_id row \<longrightarrow> user_password_hash u = hash_password x v' pw'"
    by (auto simp: reset_db_def)
  moreover have "bnd (confirm_lookup x v token) (\<lambda>f. bnd (confirm_lookup x v' token) (\<lambda>f'.
        andthen (confirm_redeem x v f pw) (confirm_redeem x v' f' pw'))) s =
      (Inr (), ?s1\<lparr>st_db := ?d2, st_conn := released (st_conn ?s1)\<rparr>)"
    by (simp only: run_steps confirm_lookup_run [OF c] row row' r1 r2)
  ultimately show ?thesis by auto
qed

lemma reset_race_witness:
  "\<exists>s2. bnd (confirm_lookup sample_ext (sample_env 0) ''rt'') (\<lambda>f.
      bnd (confirm_lookup sample_ext (sample_env 1) ''rt'') (\<lambda>f'.
        andthen (confirm_redeem sample_ext (sample_env 0) f ''first'')
          (confirm_redeem sample_ext (sample_env 1) f' ''second'')))
      (start_state True (sample_db\<lparr>auth_tokens := [sample_reset 51 1 11 ''rt'']\<rparr>)) = (Inr (), s2)"
proof -
  let ?s = "start_state True (sample_db\<lparr>auth_tokens := [sample_reset 51 1 11 ''rt'']\<rparr>)"
  have row: "reset_row (bypass_rls (st_conn ?s)) (hash_token sample_ext ''rt'') (db_now (sample_env 0)) (st_db ?s) =
      Some (sample_reset 51 1 11 ''rt'')"
    by (simp add: reset_row_def reset_redeemable_def redeemable_def sample_defs hash_token_def)
  have "db_ok (st_db ?s)"
    by (simp add: db_ok_defs sample_defs clash_defs no_dups_def org_exists_def user_exists_def)
  then have "\<exists>s2. bnd (confirm_lookup sample_ext (sample_env 0) ''rt'') (\<lambda>f.
      bnd (confirm_lookup sample_ext (sample_env 1) ''rt'') (\<lambda>f'.
        andthen (confirm_redeem sample_ext (sample_env 0) f ''first'')
          (confirm_redeem sample_ext (sample_env 1) f' ''second''))) ?s = (Inr (), s2) \<and>
      (\<forall>u\<in>set (users (st_db s2)). user_id u = at_user_id (sample_reset 51 1 11 ''rt'') \<longrightarrow>
        user_password_hash u = hash_password sample_ext (sample_env 1) ''second'')"
    by (intro reset_race [OF _ _ row]) (simp_all add: audit_fresh_def sample_defs)
  then show ?thesis by blast
qed

end
