(* ===== verification/TeamProperties.thy ===== *)
theory TeamProperties
  imports SessionProperties
begin

text \<open>
  What cancellation, invitations and role changes promise, under a role that is subject to
  the row policies and under one that bypasses them.
\<close>

lemma db_ok_user_ids:
  assumes "db_ok d" and "u \<in> set (users d)" "u' \<in> set (users d)" and "user_id u = user_id u'"
  shows "u = u'"
  using assms by (intro no_dups_eq [of user_clash "users d"]) (auto simp: db_ok_defs user_clash_def)

abbreviation sample_actor :: "uuid \<Rightarrow> uuid \<Rightarrow> role \<Rightarrow> actor" where
  "sample_actor t u r \<equiv> \<lparr>actor_tenant_id = t, actor_user_id = u, actor_role = r\<rparr>"

subsection \<open>Cancellation\<close>

text \<open>
  Under a role that is subject to the policies, cancelling deletes (softly) exactly the
  actor's organization and revokes exactly its sessions: the tokens of other tenants are
  untouched, and so are all other organizations.
\<close>
theorem cancel_under_policies:
  assumes "clean (st_conn s)" and "\<not> bypass_rls (st_conn s)" and "db_ok (st_db s)"
    and "org_exists (st_db s) (actor_tenant_id a)" and "audit_fresh (st_db s) (new_id v 0)"
    and "cancel_tenant v a s = (r, s')"
  shows "r = Inr () \<and> \<not> org_alive (st_db s') (actor_tenant_id a) \<and>
    filter (\<lambda>g. org_id g \<noteq> actor_tenant_id a) (organizations (st_db s')) =
      filter (\<lambda>g. org_id g \<noteq> actor_tenant_id a) (organizations (st_db s)) \<and>
    (\<forall>rt\<in>set (refresh_tokens (st_db s')). rt_tenant_id rt = actor_tenant_id a \<longrightarrow> rt_revoked_at rt \<noteq> None) \<and>
    filter (\<lambda>rt. rt_tenant_id rt \<noteq> actor_tenant_id a) (refresh_tokens (st_db s')) =
      filter (\<lambda>rt. rt_tenant_id rt \<noteq> actor_tenant_id a) (refresh_tokens (st_db s))"
proof -
  let ?t = "actor_tenant_id a"
  have eqs: "r = Inr ()" "st_db s' = cancelled_db False v a (st_db s)"
    using cancel_tenant_run [OF clean_NoTx [OF assms(1)] assms(3,4,5)] assms(2,6) by auto
  have o: "filter (\<lambda>g. org_id g \<noteq> ?t) (map (\<lambda>g. if org_id g = ?t then g\<lparr>org_deleted_at := k\<rparr> else g) gs) =
      filter (\<lambda>g. org_id g \<noteq> ?t) gs" for gs k
    by (induction gs) auto
  have tk: "filter (\<lambda>q. rt_tenant_id q \<noteq> ?t) (map (\<lambda>q. if rt_tenant_id q = ?t \<and> rt_revoked_at q = None
      then q\<lparr>rt_revoked_at := k\<rparr> else q) qs) = filter (\<lambda>q. rt_tenant_id q \<noteq> ?t) qs" for qs k
    by (induction qs) auto
  have "\<forall>rt\<in>set (refresh_tokens (st_db s')). rt_tenant_id rt = ?t \<longrightarrow> rt_revoked_at rt \<noteq> None"
    using cancelled_sessions [of _ False v a "st_db s"] by (simp only: eqs(2)) blast
  moreover have "\<not> org_alive (st_db s') ?t" by (simp only: eqs(2) cancelled_not_alive not_False_eq_True)
  moreover have "filter (\<lambda>g. org_id g \<noteq> ?t) (organizations (st_db s')) =
      filter (\<lambda>g. org_id g \<noteq> ?t) (organizations (st_db s))"
    by (simp add: eqs(2) cancelled_db_def o)
  moreover have "filter (\<lambda>rt. rt_tenant_id rt \<noteq> ?t) (refresh_tokens (st_db s')) =
      filter (\<lambda>rt. rt_tenant_id rt \<noteq> ?t) (refresh_tokens (st_db s))"
    by (simp add: eqs(2) cancelled_db_def tk)
  ultimately show ?thesis using eqs(1) by blast
qed

lemma cancel_under_policies_witness:
  "fst (cancel_tenant (sample_env 0) (sample_actor 1 11 Owner) (start_state False sample_db)) = Inr ()"
  using cancel_under_policies [of "start_state False sample_db" "sample_actor 1 11 Owner" "sample_env 0",
      OF _ _ _ _ _ prod.collapse [symmetric]] sample_db_ok
  by (simp add: sample_defs org_exists_def audit_fresh_def)

text \<open>
  C36: The owner pool has to bypass the policies for login to work, and under such a role the
  cancellation of one tenant ends the sessions of every tenant: no refresh token of anyone
  that exists at that moment is exchanged again, whatever requests follow.
\<close>
theorem cancel_ends_all_sessions:
  assumes c: "clean (st_conn s)" and b: "bypass_rls (st_conn s)" and d: "db_ok (st_db s)"
    and og: "org_exists (st_db s) (actor_tenant_id a)" and fresh: "audit_fresh (st_db s) (new_id v 0)"
    and run: "cancel_tenant v a s = (r, s1)"
    and rt: "rt \<in> set (refresh_tokens (st_db s))"
    and later: "auth_run x cfg s1 s2" and h: "hash_token x presented = rt_hashed_token rt"
  shows "\<exists>e. fst (rotate_refresh_token x cfg w k presented s2) = Inl e"
proof -
  have s1: "s1 = s\<lparr>st_db := cancelled_db True v a (st_db s), st_conn := released (st_conn s)\<rparr>"
    using cancel_tenant_run [OF clean_NoTx [OF c] d og fresh] b run by simp
  have c1: "clean (st_conn s1)" by (simp add: s1)
  have d1: "db_ok (st_db s1)" using auth_run_ok(2) [OF run_step [OF run_refl step_cancel [OF run]] c d] .
  let ?rt = "if rt_revoked_at rt = None then rt\<lparr>rt_revoked_at := Some (db_now v)\<rparr> else rt"
  have "?rt \<in> set (refresh_tokens (st_db s1))"
    using rt by (auto simp: s1 cancelled_db_def)
  then show ?thesis
    by (rule revoked_never_exchanged [OF c1 d1 _ _ later]) (simp_all add: h)
qed

lemma cancel_ends_all_sessions_witness:
  "\<exists>e. fst (rotate_refresh_token sample_ext sample_config (sample_env 1) 10000 ''rb''
      (snd (cancel_tenant (sample_env 0) (sample_actor 1 11 Owner) (start_state True sample_db)))) = Inl e"
  by (rule cancel_ends_all_sessions [OF _ _ _ _ _ prod.collapse [symmetric] _ run_refl,
        where rt = "sample_token 32 2 21 ''rb'' 42"])
    (use sample_db_ok in \<open>simp_all add: sample_defs org_exists_def audit_fresh_def hash_token_def\<close>)

subsection \<open>Role changes\<close>

definition owners_of :: "uuid \<Rightarrow> db \<Rightarrow> user_row list" where
  "owners_of t d = filter (\<lambda>u. user_tenant_id u = t \<and> user_role u = Owner) (users d)"

lemma owners_seen_policies: "owners_seen False t d = length (owners_of t d)"
  by (simp add: owners_seen_def users_seen_def owners_of_def conj_commute)

lemma second_member:
  assumes "length xs > 1" and "distinct xs"
  obtains y where "y \<in> set xs" and "y \<noteq> a"
proof -
  have "\<not> set xs \<subseteq> {a}"
  proof
    assume "set xs \<subseteq> {a}"
    then have "card (set xs) \<le> 1" using card_mono [of "{a}" "set xs"] by simp
    then show False using assms by (simp add: distinct_card)
  qed
  then show ?thesis using that by blast
qed

lemma no_dups_distinct: "(\<And>r. clash r r) \<Longrightarrow> no_dups clash rs \<Longrightarrow> distinct rs"
  unfolding no_dups_def by (induction rs) auto

lemma owners_distinct: "db_ok d \<Longrightarrow> distinct (owners_of t d)"
  unfolding owners_of_def
  by (intro distinct_filter no_dups_distinct [of user_clash])
    (simp_all add: db_ok_defs user_clash_def)

text \<open>
  C30: Under the policies a role change, by whomever and whatever it sets, never leaves an
  organization without an owner: every tenant that has an owner before has one afterwards.
\<close>
theorem role_change_keeps_an_owner:
  assumes c: "clean (st_conn s)" and b: "\<not> bypass_rls (st_conn s)" and d: "db_ok (st_db s)"
    and og: "org_exists (st_db s) (actor_tenant_id a)" and fresh: "audit_fresh (st_db s) (new_id v 0)"
    and run: "change_role v a target r s = (res, s')" and t: "owners_of t (st_db s) \<noteq> []"
  shows "owners_of t (st_db s') \<noteq> []"
proof (cases "st_db s' = st_db s")
  case True
  then show ?thesis using t by simp
next
  case False
  let ?t = "actor_tenant_id a" and ?d = "st_db s"
  have b': "bypass_rls (st_conn s) = False" using b by simp
  from run False obtain u where u: "first_row (filter (\<lambda>u. user_id u = target) (users_seen False ?t ?d)) = Some u"
    and g: "\<not> last_owner_guard False ?t u r ?d"
    and s': "st_db s' = role_changed_db False v a target r ?d"
    using change_role_db [OF clean_NoTx [OF c] og fresh run] b' by metis
  have um: "u \<in> set (users ?d)" "user_tenant_id u = ?t" "user_id u = target"
    using first_row_filterD [OF u] by (auto simp: users_seen_def)
  have keep: "o' \<in> set (owners_of (user_tenant_id o') (st_db s'))"
    if "o' \<in> set (users ?d)" "user_role o' = Owner" "user_id o' \<noteq> target" for o'
    using that by (force simp: owners_of_def s' role_changed_db_def)
  obtain o1 where o1: "o1 \<in> set (users ?d)" "user_tenant_id o1 = t" "user_role o1 = Owner"
    using t by (auto simp: owners_of_def filter_empty_conv)
  show ?thesis
  proof (cases "user_id o1 = target")
    case ne: False
    then show ?thesis using keep [OF o1(1,3)] o1(2) by force
  next
    case True
    then have o1u: "o1 = u" using db_ok_user_ids [OF d o1(1) um(1)] um(3) by simp
    show ?thesis
    proof (cases "r = Owner")
      case ro: True
      have "u\<lparr>user_role := Owner\<rparr> \<in> set (owners_of t (st_db s'))"
        using um o1 o1u ro by (force simp: owners_of_def s' role_changed_db_def)
      then show ?thesis by force
    next
      case nr: False
      have "length (owners_of ?t ?d) > 1"
        using g nr o1(3) o1u by (simp add: last_owner_guard_def owners_seen_policies)
      then obtain o2 where o2: "o2 \<in> set (owners_of ?t ?d)" "o2 \<noteq> u"
        by (rule second_member [OF _ owners_distinct [OF d]])
      then have "user_id o2 \<noteq> target"
        using db_ok_user_ids [OF d _ um(1)] um(3) by (auto simp: owners_of_def)
      moreover have "o2 \<in> set (users ?d)" "user_role o2 = Owner" "user_tenant_id o2 = t"
        using o2(1) o1(2) um(2) unfolding o1u by (auto simp: owners_of_def)
      ultimately have "o2 \<in> set (owners_of t (st_db s'))" using keep [of o2] by simp
      then show ?thesis by force
    qed
  qed
qed

lemma role_change_keeps_an_owner_witness:
  "owners_of 1 (st_db (snd (change_role (sample_env 0) (sample_actor 1 11 Owner) 11 Member
      (start_state False sample_db)))) \<noteq> []"
  by (rule role_change_keeps_an_owner [OF _ _ _ _ _ prod.collapse [symmetric]])
    (use sample_db_ok in \<open>simp_all add: sample_defs org_exists_def audit_fresh_def owners_of_def\<close>)

text \<open>
  Under a bypassing role the guard counts the owners of all tenants and the statements
  reach users of all tenants: as soon as another organization has an owner, an admin of any
  tenant demotes the only owner of any organization, which is left without one.
\<close>
theorem last_owner_guard_defeated:
  assumes c: "clean (st_conn s)" and b: "bypass_rls (st_conn s)" and d: "db_ok (st_db s)"
    and og: "org_exists (st_db s) (actor_tenant_id a)" and fresh: "audit_fresh (st_db s) (new_id v 0)"
    and adm: "actor_role a \<noteq> Member"
    and only: "owners_of t (st_db s) = [u]" and other: "owners_of t' (st_db s) \<noteq> []" "t' \<noteq> t"
    and r: "r \<noteq> Owner"
  shows "\<exists>s'. change_role v a (user_id u) r s = (Inr (), s') \<and> owners_of t (st_db s') = []"
proof -
  let ?d = "st_db s"
  have u: "u \<in> set (users ?d)" "user_tenant_id u = t" "user_role u = Owner"
    using arg_cong [OF only, of set] by (auto simp: owners_of_def)
  obtain w where w: "w \<in> set (users ?d)" "user_tenant_id w = t'" "user_role w = Owner"
    using other(1) by (auto simp: owners_of_def filter_empty_conv)
  have uniq: "u' = u" if "u' \<in> set (users ?d)" "user_id u' = user_id u" for u'
    using db_ok_user_ids [OF d that(1) u(1) that(2)] .
  have seen: "users_seen True k ?d = users ?d" for k by (simp add: users_seen_def)
  obtain x where x: "first_row (filter (\<lambda>q. user_id q = user_id u) (users ?d)) = Some x"
    using u(1) by (cases "first_row (filter (\<lambda>q. user_id q = user_id u) (users ?d))")
      (auto simp: filter_empty_conv)
  have "x = u" using first_row_filterD [OF x] uniq by blast
  note x = x [unfolded this]
  have "\<not> last_owner_guard True (actor_tenant_id a) u r ?d"
  proof -
    have "distinct (users ?d)"
      using d by (intro no_dups_distinct [of user_clash]) (simp_all add: db_ok_defs user_clash_def)
    then have dis: "distinct (filter (\<lambda>q. user_role q = Owner) (users ?d))" by simp
    have "{u, w} \<subseteq> set (filter (\<lambda>q. user_role q = Owner) (users ?d))" using u w by simp
    then have "card {u, w} \<le> length (filter (\<lambda>q. user_role q = Owner) (users ?d))"
      using card_mono [OF finite_set] distinct_card [OF dis] by metis
    moreover have "u \<noteq> w" using u w other(2) by auto
    ultimately show ?thesis by (simp add: last_owner_guard_def owners_seen_def seen)
  qed
  then have run: "change_role v a (user_id u) r s =
      (Inr (), s\<lparr>st_db := role_changed_db True v a (user_id u) r ?d, st_conn := released (st_conn s)\<rparr>)"
    using adm b by (simp add: change_role_cases [OF clean_NoTx [OF c] og fresh] seen x)
  have "q \<notin> set (owners_of t (role_changed_db True v a (user_id u) r ?d))" for q
  proof
    assume "q \<in> set (owners_of t (role_changed_db True v a (user_id u) r ?d))"
    then obtain q0 where q: "q0 \<in> set (users ?d)" "user_tenant_id q = t" "user_role q = Owner"
      "q = (if user_id q0 = user_id u then q0\<lparr>user_role := r\<rparr> else q0)"
      by (auto simp: owners_of_def role_changed_db_def simp del: if_image_distrib)
    then have "q0 \<in> set (owners_of t ?d)" "user_id q0 \<noteq> user_id u"
      using r by (auto simp: owners_of_def split: if_splits)
    then show False by (simp add: only)
  qed
  then have "owners_of t (role_changed_db True v a (user_id u) r ?d) = []"
    by (metis last_in_set)
  with run show ?thesis by auto
qed

lemma last_owner_guard_defeated_witness:
  "\<exists>s'. change_role (sample_env 0) (sample_actor 2 21 Admin) 11 Member (start_state True sample_db) =
      (Inr (), s') \<and> owners_of 1 (st_db s') = []"
  using last_owner_guard_defeated [of "start_state True sample_db" "sample_actor 2 21 Admin" "sample_env 0"
      1 "sample_user 11 1 ''a'' Owner" 2 Member] sample_db_ok
  by (simp add: sample_defs org_exists_def audit_fresh_def owners_of_def)

text \<open>A role change is what the next rotation of the user's session reads.\<close>

lemma refresh_row_role_changed:
  assumes row: "refresh_row b h d = Some (rt, u)" and t: "user_tenant_id u = actor_tenant_id a"
  shows "refresh_row b h (role_changed_db b v a (user_id u) q d) = Some (rt, u\<lparr>user_role := q\<rparr>)"
proof -
  let ?g = "\<lambda>w. if (b \<or> user_tenant_id w = actor_tenant_id a) \<and> user_id w = user_id u then w\<lparr>user_role := q\<rparr> else w"
  have b: b using row by (simp add: refresh_row_def split: if_splits)
  have tabs: "users (role_changed_db b v a (user_id u) q d) = map ?g (users d)"
    "refresh_tokens (role_changed_db b v a (user_id u) q d) = refresh_tokens d"
    by (simp_all add: role_changed_db_def)
  have f: "filter (\<lambda>w. user_id w = k) (map ?g us) = map ?g (filter (\<lambda>w. user_id w = k) us)" for k us
    by (induction us) auto
  have m: "concat (map (\<lambda>r. map (Pair r) (map ?g (F r))) rs) =
      map (\<lambda>(r, w). (r, ?g w)) (concat (map (\<lambda>r. map (Pair r) (F r)) rs))" for F and rs :: "refresh_token_row list"
    by (induction rs) simp_all
  have fr: "first_row (map k xs) = map_option k (first_row xs)" for k :: "refresh_token_row \<times> user_row \<Rightarrow> _" and xs
    by (cases xs) simp_all
  have "refresh_row b h (role_changed_db b v a (user_id u) q d) = map_option (\<lambda>(r, w). (r, ?g w)) (refresh_row b h d)"
    unfolding refresh_row_def tabs if_P [OF b] by (simp only: f m fr)
  then show ?thesis using row b by simp
qed

text \<open>
  C37: The last-owner guard is not a guard of ownership. An administrator who names itself as
  the target becomes an owner: the change succeeds, and when it then rotates the refresh token of its
  session (live and not expired), it gets an access token that is verified with its user, its
  tenant and the role of an owner. R20.5 speaks of another user's role, and no invitation can
  offer that role.
\<close>
theorem admin_takes_ownership:
  assumes c: "clean (st_conn s)" and d: "db_ok (st_db s)" and jwt: "jwt_ok x"
    and og: "org_exists (st_db s) (actor_tenant_id a)" and fresh: "audit_fresh (st_db s) (new_id v 0)"
    and adm: "actor_role a = Admin"
    and session: "refresh_row (bypass_rls (st_conn s)) (hash_token x presented) (st_db s) = Some (rt, u)"
    and me: "user_id u = actor_user_id a" "user_tenant_id u = actor_tenant_id a"
      "rt_user_id rt = actor_user_id a" "rt_tenant_id rt = actor_tenant_id a"
    and live: "\<not> token_expired v2 rt" "\<not> reuse_detected v2 w rt"
    and new: "rt_fresh (st_db s) (new_id v2 0) (hash_token x (rnd_token v2))"
    and time: "js_now v3 div 1000 < js_now v2 div 1000 + access_ttl_seconds cfg"
  shows "\<exists>s' access s2. change_role v a (actor_user_id a) Owner s = (Inr (), s') \<and>
    rotate_refresh_token x cfg v2 w presented s' = (Inr (access, rnd_token v2), s2) \<and>
    verify_access_token x cfg v3 access =
      Inr \<lparr>sub = actor_user_id a, tenant_id = actor_tenant_id a, claim_role = Owner\<rparr>"
proof -
  have b: "bypass_rls (st_conn s)" and mem: "u \<in> set (users (st_db s))"
    using session by (auto simp: refresh_row_def dest!: first_row_Some_in split: if_splits)
  have rt: "rt \<in> set (refresh_tokens (st_db s))" using refresh_rowD [OF session] by simp
  obtain q where q: "first_row (filter (\<lambda>q. user_id q = actor_user_id a) (users (st_db s))) = Some q"
    using mem me(1) by (cases "first_row (filter (\<lambda>q. user_id q = actor_user_id a) (users (st_db s)))")
      (auto simp: filter_empty_conv)
  let ?d = "role_changed_db True v a (actor_user_id a) Owner (st_db s)"
  let ?s' = "s\<lparr>st_db := ?d, st_conn := released (st_conn s)\<rparr>"
  have change: "change_role v a (actor_user_id a) Owner s = (Inr (), ?s')"
    using adm b q by (simp add: change_role_cases [OF clean_NoTx [OF c] og fresh] users_seen_def last_owner_guard_def)
  have "refresh_row True (hash_token x presented) (role_changed_db True v a (user_id u) Owner (st_db s)) =
      Some (rt, u\<lparr>user_role := Owner\<rparr>)"
    by (rule refresh_row_role_changed) (use session b me in simp_all)
  then have row: "refresh_row (bypass_rls (st_conn ?s')) (hash_token x presented) (st_db ?s') =
      Some (rt, u\<lparr>user_role := Owner\<rparr>)"
    using b me(1) by simp
  have c': "clean (st_conn ?s')" and b': "bypass_rls (st_conn ?s')" using b by simp_all
  have refs: "org_exists (st_db ?s') (rt_tenant_id rt)" "user_exists (st_db ?s') (rt_user_id rt)"
    "rt_fresh (st_db ?s') (new_id v2 0) (hash_token x (rnd_token v2))"
    using db_ok_token_refs [OF d rt] new
    by (simp_all add: role_changed_db_def org_exists_def user_exists_def rt_fresh_def list_ex_map_if)
  let ?access = "sign_access_token x cfg v2 \<lparr>sub = rt_user_id rt, tenant_id = rt_tenant_id rt, claim_role = Owner\<rparr>"
  have "rotate_refresh_token x cfg v2 w presented ?s' = (Inr (?access, rnd_token v2),
      ?s'\<lparr>st_db := rotated_db x cfg v2 rt (st_db ?s'), st_conn := released (st_conn ?s')\<rparr>)"
    unfolding rotate_cases [OF c'] row option.case prod.case rotate_within_family_run [OF clean_NoTx [OF c'] b' refs]
    using live by simp
  moreover have "verify_access_token x cfg v3 ?access =
      Inr \<lparr>sub = actor_user_id a, tenant_id = actor_tenant_id a, claim_role = Owner\<rparr>"
    using verify_sign_access_token [OF jwt time] me(3,4) by simp
  ultimately show ?thesis using change by blast
qed

lemma admin_takes_ownership_witness:
  "\<exists>s' access s2. change_role (sample_env 0) (sample_actor 1 11 Admin) 11 Owner
      (start_state True (sample_db\<lparr>users := [sample_user 11 1 ''a'' Admin, sample_user 21 2 ''b'' Owner]\<rparr>)) = (Inr (), s') \<and>
    rotate_refresh_token sample_ext sample_config (sample_env 1) 10000 ''ra'' s' = (Inr (access, ''tokk''), s2) \<and>
    verify_access_token sample_ext sample_config (sample_env 2) access =
      Inr \<lparr>sub = 11, tenant_id = 1, claim_role = Owner\<rparr>"
  using admin_takes_ownership [of "start_state True (sample_db\<lparr>users := [sample_user 11 1 ''a'' Admin, sample_user 21 2 ''b'' Owner]\<rparr>)"
      sample_ext "sample_actor 1 11 Admin" "sample_env 0" "''ra''" "sample_token 31 1 11 ''ra'' 41" "sample_user 11 1 ''a'' Admin"
      "sample_env 1" 10000 "sample_env 2" sample_config] jwt_ok_sample
  by (simp add: sample_defs org_exists_def audit_fresh_def refresh_row_def db_ok_defs clash_defs
      no_dups_def user_exists_def hash_token_def token_expired_def reuse_detected_def
       date_of_timestamptz_def rt_fresh_def sample_config_def)

subsection \<open>Invitations\<close>

text \<open>
  C29: An invitation an admin or owner creates can be accepted with the returned token until
  it expires: this adds exactly one user, with the invited email (lower-cased), the invited
  role and the inviting tenant, and uses the invitation up: accepting it again answers 410
  at any later time.
\<close>
theorem invitation_roundtrip:
  assumes c: "clean (st_conn s)" and b: "bypass_rls (st_conn s)" and d: "db_ok (st_db s)"
    and adm: "actor_role a \<noteq> Member" and og: "org_exists (st_db s) (actor_tenant_id a)"
    and fresh: "invitation_fresh x v (st_db s)"
    and inv: "create_invitation x v a email q ttl s = (Inr token, s1)"
    and time: "db_now w < timestamptz_of_date (js_now v + ttl)"
    and new: "audit_fresh (st_db s1) (new_id w 1)"
      "\<forall>u\<in>set (users (st_db s)). user_id u \<noteq> new_id w 0 \<and>
         \<not> (user_tenant_id u = actor_tenant_id a \<and> user_email u = lower_ascii email)"
    and acc: "accept_invitation x w token password s1 = (r, s2)"
  shows "r = Inr (new_id w 0, actor_tenant_id a) \<and>
    users (st_db s2) = users (st_db s) @
      [new_user w (new_id w 0) (actor_tenant_id a) (lower_ascii email) (hash_password x w password) q] \<and>
    accept_invitation x w' token password' s2 =
      (Inl (AppError (gone ''Invitation invalid or expired'')), s2)"
proof -
  let ?n = "new_invitation x v (actor_tenant_id a) email q ttl"
  have tok: "token = rnd_token v"
    and s1: "s1 = s\<lparr>st_db := invited_db x v a email q ttl (st_db s), st_conn := released (st_conn s)\<rparr>"
    using inv create_invitation_run [OF clean_NoTx [OF c] adm og fresh] by simp_all
  have c1: "clean (st_conn s1)" and b1: "bypass_rls (st_conn s1)" using b by (simp_all add: s1)
  have d1: "db_ok (st_db s1)" using auth_run_ok(2) [OF run_step [OF run_refl step_invite [OF inv]] c d] .
  have "filter (redeemable inv_hashed_token inv_consumed_at inv_expires_at (hash_token x token) (db_now w))
      (invitations (st_db s)) = []"
    using fresh by (auto simp: filter_empty_conv invitation_fresh_def redeemable_def tok)
  then have row: "invitation_of True (hash_token x token) (db_now w) (st_db s1) = Some ?n"
    using time by (simp add: invitation_of_def s1 invited_db_def redeemable_def new_invitation_def tok)
  have nf: "inv_tenant_id ?n = actor_tenant_id a" "inv_email ?n = lower_ascii email" "inv_role ?n = q"
    by (simp_all add: new_invitation_def)
  have og1: "org_exists (st_db s1) (inv_tenant_id ?n)"
    using og by (simp add: nf s1 invited_db_def org_exists_def)
  have new1: "\<forall>u\<in>set (users (st_db s1)). user_id u \<noteq> new_id w 0 \<and>
         \<not> (user_tenant_id u = inv_tenant_id ?n \<and> user_email u = inv_email ?n)"
    using new(2) by (simp add: nf s1 invited_db_def)
  let ?s2 = "s1\<lparr>st_db := accepted_db w ?n (hash_password x w password) (st_db s1),
      st_conn := released (st_conn s1)\<rparr>"
  have run: "accept_invitation x w token password s1 = (Inr (new_id w 0, inv_tenant_id ?n), ?s2)"
    unfolding accept_cases [OF c1] eqTrueI [OF b1] row option.case
    by (rule accept_body_run [OF clean_NoTx [OF c1] b1 og1 new(1) new1])
  then have eqs: "r = Inr (new_id w 0, actor_tenant_id a)" "s2 = ?s2" using acc nf by simp_all
  have c2: "clean (st_conn s2)" by (simp add: eqs(2))
  have "invitation_of (bypass_rls (st_conn s2)) (hash_token x token) (db_now w') (st_db s2) = None"
    using accept_once [OF db_ok_hash_identifies(2) [OF d1] row] by (simp add: eqs(2))
  then have again: "accept_invitation x w' token password' s2 =
      (Inl (AppError (gone ''Invitation invalid or expired'')), s2)"
    by (simp add: accept_cases [OF c2])
  have "users (st_db s2) = users (st_db s) @
      [new_user w (new_id w 0) (actor_tenant_id a) (lower_ascii email) (hash_password x w password) q]"
    by (simp add: eqs(2) accepted_db_def nf s1 invited_db_def)
  then show ?thesis using eqs(1) again by blast
qed

lemma invitation_roundtrip_witness:
  "fst (accept_invitation sample_ext (sample_env 1) ''tok'' ''pw''
      (snd (create_invitation sample_ext (sample_env 0) (sample_actor 1 11 Owner) ''n'' Member 1000
        (start_state True sample_db)))) = Inr (200, 1)"
proof -
  let ?s = "start_state True sample_db"
  let ?s1 = "snd (create_invitation sample_ext (sample_env 0) (sample_actor 1 11 Owner) ''n'' Member 1000 ?s)"
  have og: "org_exists (st_db ?s) (actor_tenant_id (sample_actor 1 11 Owner))"
    by (simp add: sample_defs org_exists_def)
  have fr: "invitation_fresh sample_ext (sample_env 0) (st_db ?s)"
    by (simp add: invitation_fresh_def audit_fresh_def sample_defs)
  have run: "create_invitation sample_ext (sample_env 0) (sample_actor 1 11 Owner) ''n'' Member 1000 ?s =
      (Inr ''tok'', ?s\<lparr>st_db := invited_db sample_ext (sample_env 0) (sample_actor 1 11 Owner) ''n'' Member 1000 sample_db,
         st_conn := released (st_conn ?s)\<rparr>)"
    using create_invitation_run [OF _ _ og fr, of "''n''" Member 1000] by (simp add: fresh_conn_def)
  have low: "lower_ascii ''n'' = ''n''" by code_simp
  show ?thesis
    using invitation_roundtrip [OF _ _ _ _ og fr run _ _ _ prod.collapse [symmetric], of "sample_env 1"]
      sample_db_ok run low
    by (simp add: audit_fresh_def invited_db_def sample_defs timestamptz_of_date_def)
qed

end
