(* ===== verification/Base64Url.thy ===== *)
theory Base64Url
  imports Prelude
begin

text \<open>
  Node's \<^verbatim>\<open>base64url\<close> codec, as \<^verbatim>\<open>Buffer.from(s, "base64url")\<close> and
  \<^verbatim>\<open>buf.toString("base64url")\<close> in \<^verbatim>\<open>src/projects/projects.service.ts\<close> use it: no padding;
  the decoder accepts both alphabets, skips every other character and never throws. Bytes
  are \<^typ>\<open>nat\<close>s below 256.
\<close>

text \<open>\<^verbatim>\<open>A-Za-z0-9-_\<close>\<close>

definition b64_char :: "nat \<Rightarrow> char" where
  "b64_char n = char_of (if n < 26 then n + 65 else if n < 52 then n + 71
     else if n < 62 then n - 4 else if n = 62 then 45 else 95)"

definition b64_val :: "char \<Rightarrow> nat option" where
  "b64_val c =
     (let n = (of_char c :: nat) in
      if 65 \<le> n \<and> n \<le> 90 then Some (n - 65)
      else if 97 \<le> n \<and> n \<le> 122 then Some (n - 71)
      else if 48 \<le> n \<and> n \<le> 57 then Some (n + 4)
      else if n = 45 \<or> n = 43 then Some 62
      else if n = 95 \<or> n = 47 then Some 63
      else None)"

fun b64_groups :: "nat list \<Rightarrow> nat list" where
  "b64_groups (a # b # c # rest) =
     a div 4 # ((a mod 4) * 16 + b div 16) # ((b mod 16) * 4 + c div 64) # (c mod 64) #
       b64_groups rest"
| "b64_groups [a, b] = [a div 4, (a mod 4) * 16 + b div 16, (b mod 16) * 4]"
| "b64_groups [a] = [a div 4, (a mod 4) * 16]"
| "b64_groups [] = []"

fun b64_bytes :: "nat list \<Rightarrow> nat list" where
  "b64_bytes (p # q # r # s # rest) =
     (p * 4 + q div 16) # ((q mod 16) * 16 + r div 4) # ((r mod 4) * 64 + s) # b64_bytes rest"
| "b64_bytes [p, q, r] = [p * 4 + q div 16, (q mod 16) * 16 + r div 4]"
| "b64_bytes [p, q] = [p * 4 + q div 16]"
| "b64_bytes [p] = []"
| "b64_bytes [] = []"

definition base64url_encode :: "string \<Rightarrow> string" where
  "base64url_encode s = map b64_char (b64_groups (map of_char s))"

definition base64url_decode :: "string \<Rightarrow> string" where
  "base64url_decode s = map char_of (b64_bytes (List.map_filter b64_val s))"

subsection \<open>Round trip\<close>

lemma b64_val_char: "n < 64 \<Longrightarrow> b64_val (b64_char n) = Some n"
  unfolding b64_val_def b64_char_def Let_def of_char_of by auto

lemma byte_parts:
  fixes b :: nat
  shows "b < 256 \<Longrightarrow> b div 16 < 16" "b < 256 \<Longrightarrow> b div 64 < 4" "b < 256 \<Longrightarrow> b div 4 < 64"
    "b mod 4 < 4" "b mod 16 < 16" "b mod 64 < 64"
  by (simp_all add: less_mult_imp_div_less)

lemma six_bits:
  fixes p q :: nat
  shows "p < 4 \<Longrightarrow> q < 16 \<Longrightarrow> p * 16 + q < 64" "p < 16 \<Longrightarrow> q < 4 \<Longrightarrow> p * 4 + q < 64"
    "p < 4 \<Longrightarrow> p * 16 < 64" "p < 16 \<Longrightarrow> p * 4 < 64"
  by linarith+

lemma groups_small: "\<forall>b\<in>set bs. b < 256 \<Longrightarrow> \<forall>n\<in>set (b64_groups bs). n < 64"
proof (induction bs rule: b64_groups.induct)
  case (1 a b c rest)
  then have "a < 256" "b < 256" "c < 256" by simp_all
  then show ?case using 1 by (simp add: six_bits byte_parts)
next
  case (2 a b)
  then have "a < 256" "b < 256" by simp_all
  then show ?case by (simp add: six_bits byte_parts)
next
  case (3 a)
  then show ?case by (simp add: six_bits byte_parts)
qed simp

lemma byte_again:
  fixes a b q r :: nat
  shows "a div 4 * 4 + a mod 4 = a" "b div 16 * 16 + b mod 16 = b"
    "q < 16 \<Longrightarrow> (r * 16 + q) div 16 = r" "q < 16 \<Longrightarrow> (r * 16 + q) mod 16 = q"
    "q < 4 \<Longrightarrow> (r * 4 + q) div 4 = r" "q < 4 \<Longrightarrow> (r * 4 + q) mod 4 = q"
    "q div 64 * 64 + q mod 64 = q"
  by simp_all

lemma bytes_groups: "\<forall>b\<in>set bs. b < 256 \<Longrightarrow> b64_bytes (b64_groups bs) = bs"
proof (induction bs rule: b64_groups.induct)
  case (1 a b c rest)
  then have "b < 256" "c < 256" by simp_all
  note parts = this [THEN byte_parts(1)] this [THEN byte_parts(2)]
  have "b64_bytes (b64_groups rest) = rest" using 1 by simp
  then show ?case by (simp add: byte_again parts)
next
  case (2 a b)
  then have "b < 256" by simp
  note parts = byte_parts(1) [OF this]
  show ?case by (simp add: byte_again parts)
qed (simp_all add: byte_again)

lemma map_filter_b64: "\<forall>n\<in>set ns. n < 64 \<Longrightarrow> List.map_filter b64_val (map b64_char ns) = ns"
  by (induction ns) (simp_all add: b64_val_char List.map_filter_simps)

lemma base64url_roundtrip: "base64url_decode (base64url_encode s) = s"
proof -
  have small: "\<forall>b\<in>set (map of_char s). b < (256::nat)" by (auto simp: of_char_def)
  show ?thesis
    unfolding base64url_decode_def base64url_encode_def
      map_filter_b64 [OF groups_small [OF small]] bytes_groups [OF small]
    by (simp add: comp_def)
qed

end
