(* ===== verification/Projects.thy ===== *)
theory Projects
  imports Team Base64Url "HOL-Library.Product_Lexorder"
begin

text \<open>
  \<^verbatim>\<open>src/projects/projects.service.ts\<close>: the CRUD operations of the tenant resource and its
  cursor pagination. Every statement runs on the request's tenant connection.

  Timestamps travel as text between the driver, JavaScript and PostgreSQL: \<open>codec\<close> holds the
  three functions the code relies on and does not define (\<open>render_ts\<close>: what
  \<^verbatim>\<open>`${last.created_at}`\<close> gives for the value the driver returns; \<open>date_parse_ok\<close>: \<^verbatim>\<open>Date.parse\<close>
  is not NaN; \<open>cast_ts\<close>: the cast \<^verbatim>\<open>::timestamptz\<close>).
\<close>

record codec =
  render_ts :: "timestamptz \<Rightarrow> string"
  date_parse_ok :: "string \<Rightarrow> bool"
  cast_ts :: "string \<Rightarrow> timestamptz option"

record project_view =
  pv_id :: uuid
  pv_name :: string
  pv_description :: "string option"
  pv_status :: string
  pv_created_at :: timestamptz

definition project_view_of :: "project_row \<Rightarrow> project_view" where
  "project_view_of r =
     \<lparr>pv_id = project_id r, pv_name = project_name r, pv_description = project_description r,
      pv_status = project_status r, pv_created_at = project_created_at r\<rparr>"

definition audit :: "env \<Rightarrow> uuid \<Rightarrow> actor \<Rightarrow> string \<Rightarrow> string \<Rightarrow> unit io" where
  "audit v i a action target =
     insert_audit (audit_entry v i (actor_tenant_id a) (Some (actor_user_id a)) action target None)"

subsection \<open>Create and read\<close>

definition new_project :: "env \<Rightarrow> actor \<Rightarrow> string \<Rightarrow> string option \<Rightarrow> project_row" where
  "new_project v a name description =
     \<lparr>project_id = new_id v 0, project_tenant_id = actor_tenant_id a, project_name = name,
      project_description = description, project_status = ''active'',
      project_created_at = db_now v, project_updated_at = db_now v\<rparr>"

definition create_project :: "env \<Rightarrow> actor \<Rightarrow> string \<Rightarrow> string option \<Rightarrow> project_view io" where
  "create_project v a name description =
     (let row = new_project v a name description in
      andthen (insert_project row)
     (andthen (audit v (new_id v 1) a ''project.created'' (uuid_out (project_id row)))
       (ret (project_view_of row))))"

definition get_project :: "uuid \<Rightarrow> project_view io" where
  "get_project i =
     bnd (select_projects (\<lambda>r. project_id r = i)) (\<lambda>rows.
       case first_row rows of
         None \<Rightarrow> throw (AppError (not_found ''Project not found''))
       | Some row \<Rightarrow> ret (project_view_of row))"

subsection \<open>The cursor\<close>

text \<open>\<^verbatim>\<open>lastIndexOf("|")\<close> and the two slices around it; \<open>None\<close> when there is no bar.\<close>

definition split_last_bar :: "string \<Rightarrow> (string \<times> string) option" where
  "split_last_bar s =
     (if CHR ''|'' \<in> set s then
        (let i = rev (takeWhile (\<lambda>c. c \<noteq> CHR ''|'') (rev s)) in
         Some (take (length s - length i - 1) s, i))
      else None)"

text \<open>\<^verbatim>\<open>/^[0-9a-f-]{36}$/i\<close>\<close>

definition id_shape :: "string \<Rightarrow> bool" where
  "id_shape s \<longleftrightarrow> length s = 36 \<and> list_all (\<lambda>c. hex_val c \<noteq> None \<or> c = CHR ''-'') s"

definition decode_cursor :: "codec \<Rightarrow> string \<Rightarrow> exn + string \<times> string" where
  "decode_cursor cod cursor =
     (case split_last_bar (base64url_decode cursor) of
        None \<Rightarrow> Inl (AppError (bad_request ''Invalid cursor''))
      | Some (created_at, i) \<Rightarrow>
          if created_at = [] then Inl (AppError (bad_request ''Invalid cursor''))
          else if \<not> id_shape i \<or> \<not> date_parse_ok cod created_at
          then Inl (AppError (bad_request ''Invalid cursor''))
          else Inr (created_at, i))"

definition encode_cursor :: "codec \<Rightarrow> project_view \<Rightarrow> string" where
  "encode_cursor cod r =
     base64url_encode (render_ts cod (pv_created_at r) @ ''|'' @ uuid_out (pv_id r))"

subsection \<open>List\<close>

definition project_order :: "project_row \<Rightarrow> timestamptz \<times> uuid" where
  "project_order r = (project_created_at r, project_id r)"

text \<open>\<^verbatim>\<open>ORDER BY created_at DESC, id DESC\<close>\<close>

definition newest_first :: "project_row list \<Rightarrow> project_row list" where
  "newest_first rs = rev (sort_key project_order rs)"

text \<open>
  The parameters are cast when they are bound, so an ill-formed one fails whatever rows
  there are.
\<close>

definition q_list_projects ::
  "codec \<Rightarrow> (string \<times> string) option \<Rightarrow> nat \<Rightarrow> project_row list query" where
  "q_list_projects cod bound lim c d =
     (case bound of
        None \<Rightarrow>
          Inr (take lim (newest_first (filter (\<lambda>r. visible c (project_tenant_id r)) (projects d))), d)
      | Some (created_at, i) \<Rightarrow>
          (case (cast_ts cod created_at, uuid_in i) of
             (Some t, Some u) \<Rightarrow>
               Inr (take lim (newest_first (filter (\<lambda>r. visible c (project_tenant_id r)
                 \<and> project_order r < (t, u)) (projects d))), d)
           | _ \<Rightarrow> Inl InvalidText))"

record list_result =
  lr_data :: "project_view list"
  lr_next_cursor :: "string option"

text \<open>An absent and an empty cursor both mean the first page.\<close>

definition list_projects :: "codec \<Rightarrow> string option \<Rightarrow> nat \<Rightarrow> list_result io" where
  "list_projects cod cursor limit =
     bnd (lift_sum (case cursor of
            None \<Rightarrow> Inr None
          | Some cur \<Rightarrow> if cur = [] then Inr None
              else (case decode_cursor cod cur of Inl e \<Rightarrow> Inl e | Inr p \<Rightarrow> Inr (Some p)))) (\<lambda>bound.
     bnd (exec (q_list_projects cod bound (limit + 1))) (\<lambda>rows.
       let views = map project_view_of rows in
       if length views > limit then
         (if limit = 0 then throw (OtherError ''Cannot read properties of undefined'')
          else ret \<lparr>lr_data = take limit views,
                    lr_next_cursor = Some (encode_cursor cod (views ! (limit - 1)))\<rparr>)
       else ret \<lparr>lr_data = views, lr_next_cursor = None\<rparr>))"

subsection \<open>Update and delete\<close>

text \<open>\<^verbatim>\<open>undefined\<close> is \<open>None\<close>; a description can be set to NULL.\<close>

record project_patch =
  pp_name :: "string option"
  pp_description :: "string option option"
  pp_status :: "string option"

definition empty_patch :: "project_patch \<Rightarrow> bool" where
  "empty_patch p \<longleftrightarrow> pp_name p = None \<and> pp_description p = None \<and> pp_status p = None"

definition apply_patch :: "env \<Rightarrow> project_patch \<Rightarrow> project_row \<Rightarrow> project_row" where
  "apply_patch v p r =
     r\<lparr>project_name := (case pp_name p of Some n \<Rightarrow> n | None \<Rightarrow> project_name r),
       project_description := (case pp_description p of Some x \<Rightarrow> x | None \<Rightarrow> project_description r),
       project_status := (case pp_status p of Some x \<Rightarrow> x | None \<Rightarrow> project_status r),
       project_updated_at := db_now v\<rparr>"

text \<open>\<^verbatim>\<open>UPDATE ... RETURNING\<close>: the rows as updated.\<close>

definition q_update_returning ::
  "(project_row \<Rightarrow> bool) \<Rightarrow> (project_row \<Rightarrow> project_row) \<Rightarrow> project_row list query" where
  "q_update_returning p f c d =
     (case q_update projects projects_update project_tenant_id p f c d of
        Inl e \<Rightarrow> Inl e
      | Inr (_, d') \<Rightarrow>
          Inr (map f (filter (\<lambda>r. visible c (project_tenant_id r) \<and> p r) (projects d)), d'))"

definition update_project :: "env \<Rightarrow> actor \<Rightarrow> uuid \<Rightarrow> project_patch \<Rightarrow> project_view io" where
  "update_project v a i patch =
     (if empty_patch patch then get_project i
      else
        bnd (exec (q_update_returning (\<lambda>r. project_id r = i) (apply_patch v patch))) (\<lambda>rows.
          case first_row rows of
            None \<Rightarrow> throw (AppError (not_found ''Project not found''))
          | Some row \<Rightarrow>
              andthen (audit v (new_id v 0) a ''project.updated'' (uuid_out i))
                (ret (project_view_of row))))"

definition delete_project :: "env \<Rightarrow> actor \<Rightarrow> uuid \<Rightarrow> unit io" where
  "delete_project v a i =
     bnd (delete_projects (\<lambda>r. project_id r = i)) (\<lambda>row_count.
       if row_count = 0 then throw (AppError (not_found ''Project not found''))
       else audit v (new_id v 0) a ''project.deleted'' (uuid_out i))"

subsection \<open>The cursor round trip\<close>

lemma split_last_bar_append:
  assumes "CHR ''|'' \<notin> set i"
  shows "split_last_bar (t @ ''|'' @ i) = Some (t, i)"
proof -
  have "takeWhile (\<lambda>c. c \<noteq> CHR ''|'') (rev i @ CHR ''|'' # rev t) = rev i"
    using assms by (subst takeWhile_append2) auto
  then show ?thesis by (simp add: split_last_bar_def Let_def)
qed

lemma uuid_out_chars: "c \<in> set (uuid_out u) \<Longrightarrow> hex_val c \<noteq> None \<or> c = CHR ''-''"
proof -
  define ds where "ds = to_hex 32 (unat u)"
  have ds: "c \<in> set ds \<Longrightarrow> hex_val c \<noteq> None" for c
    using set_to_hex [of c 32 "unat u"] by (auto simp: ds_def)
  assume "c \<in> set (uuid_out u)"
  then have "c \<in> set ds \<or> c = CHR ''-''"
    by (auto simp: uuid_out_def Let_def ds_def dest!: in_set_takeD in_set_dropD)
  then show ?thesis using ds by blast
qed

lemma uuid_out_shape: "id_shape (uuid_out u)"
  using uuid_out_chars by (auto simp: id_shape_def length_uuid_out list_all_iff)

lemma bar_not_in_uuid_out: "CHR ''|'' \<notin> set (uuid_out u)"
proof
  assume "CHR ''|'' \<in> set (uuid_out u)"
  from uuid_out_chars [OF this] show False by (simp add: hex_val_def)
qed

text \<open>The codec carries a timestamp exactly: what the driver renders, the cast reads back.\<close>

definition exact_on :: "codec \<Rightarrow> timestamptz \<Rightarrow> bool" where
  "exact_on cod t \<longleftrightarrow> render_ts cod t \<noteq> [] \<and> date_parse_ok cod (render_ts cod t) \<and>
     cast_ts cod (render_ts cod t) = Some t"

lemma decode_encode_cursor:
  assumes "render_ts cod (pv_created_at r) \<noteq> []" and "date_parse_ok cod (render_ts cod (pv_created_at r))"
  shows "decode_cursor cod (encode_cursor cod r) =
    Inr (render_ts cod (pv_created_at r), uuid_out (pv_id r))"
  using assms by (simp add: decode_cursor_def encode_cursor_def base64url_roundtrip
      split_last_bar_append [OF bar_not_in_uuid_out] uuid_out_shape [unfolded append.simps]
      split_last_bar_append [OF bar_not_in_uuid_out, simplified] uuid_out_shape)

lemma encode_cursor_ne: "encode_cursor cod r \<noteq> []"
  using base64url_roundtrip [of "render_ts cod (pv_created_at r) @ ''|'' @ uuid_out (pv_id r)"]
  by (auto simp: encode_cursor_def base64url_decode_def List.map_filter_simps)

end
