(* ===== verification/Enforcement.thy ===== *)
theory Enforcement
  imports Projects
begin

text \<open>
  \<^verbatim>\<open>src/billing/enforcement.service.ts\<close>: the plan quotas and the degraded-access rule, and
  the state they are decided on.
\<close>

subsection \<open>Quotas\<close>

text \<open>
  Keys that \<^verbatim>\<open>plan in PROJECT_QUOTA\<close> finds on the prototype of an object literal.
\<close>

definition OBJECT_PROTOTYPE_KEYS :: "string list" where
  "OBJECT_PROTOTYPE_KEYS =
     [''constructor'', ''__defineGetter__'', ''__defineSetter__'', ''hasOwnProperty'',
      ''__lookupGetter__'', ''__lookupSetter__'', ''isPrototypeOf'', ''propertyIsEnumerable'',
      ''toString'', ''valueOf'', ''__proto__'', ''toLocaleString'']"

text \<open>
  What \<^verbatim>\<open>PROJECT_QUOTA[plan]\<close> reads: a number, \<^verbatim>\<open>null\<close>, or an inherited object, which is
  NaN in a comparison.
\<close>

datatype quota = Cap nat | Unlimited | NotANumber

definition PROJECT_QUOTA :: "string \<Rightarrow> quota option" where
  "PROJECT_QUOTA plan =
     (if plan = ''free'' then Some (Cap 3)
      else if plan = ''starter'' then Some (Cap 25)
      else if plan = ''pro'' then Some Unlimited
      else if plan \<in> set OBJECT_PROTOTYPE_KEYS then Some NotANumber
      else None)"

definition plan_quota :: "string \<Rightarrow> quota" where
  "plan_quota plan = (case PROJECT_QUOTA plan of Some q \<Rightarrow> q | None \<Rightarrow> Cap 3)"

fun show_nat :: "nat \<Rightarrow> string" where
  "show_nat n =
     (if n < 10 then [char_of (48 + n)] else show_nat (n div 10) @ [char_of (48 + n mod 10)])"

declare show_nat.simps [simp del]

definition quota_message :: "string \<Rightarrow> nat \<Rightarrow> string" where
  "quota_message plan cap =
     ''Plan '' @ [CHR 0x27] @ plan @ [CHR 0x27] @ '' allows at most '' @ show_nat cap @
     '' active projects''"

definition assert_project_quota :: "string \<Rightarrow> unit io" where
  "assert_project_quota plan =
     (case plan_quota plan of
        Unlimited \<Rightarrow> ret ()
      | NotANumber \<Rightarrow> andthen (select_projects (\<lambda>r. project_status r \<noteq> ''archived'')) (ret ())
      | Cap cap \<Rightarrow>
          bnd (select_projects (\<lambda>r. project_status r \<noteq> ''archived'')) (\<lambda>rows.
            if length rows \<ge> cap then throw (AppError (quota_exceeded (quota_message plan cap)))
            else ret ()))"

subsection \<open>Billing state\<close>

record billing_state =
  bs_status :: string
  bs_plan :: string

text \<open>\<^verbatim>\<open>ORDER BY updated_at DESC LIMIT 1\<close>\<close>

definition latest_subscription :: "subscription_row list \<Rightarrow> subscription_row option" where
  "latest_subscription rows = first_row (sort_key (\<lambda>r. - subs_updated_at r) rows)"

definition get_billing_state :: "uuid \<Rightarrow> billing_state io" where
  "get_billing_state t =
     bnd (select_orgs (\<lambda>g. org_id g = t)) (\<lambda>orgs.
     bnd (select_subscriptions (\<lambda>r. subs_tenant_id r = t)) (\<lambda>subs.
       ret \<lparr>bs_status = (case latest_subscription subs of Some r \<Rightarrow> subs_status r | None \<Rightarrow> ''active''),
            bs_plan = (case first_row orgs of Some g \<Rightarrow> org_plan g | None \<Rightarrow> ''free'')\<rparr>))"

definition assert_write_allowed :: "string \<Rightarrow> exn + unit" where
  "assert_write_allowed status =
     (if status = ''past_due'' \<or> status = ''canceled''
      then Inl (AppError (payment_required (''Writes are disabled while the subscription is '' @ status)))
      else Inr ())"

subsection \<open>Outcomes\<close>

definition active_projects :: "uuid \<Rightarrow> db \<Rightarrow> project_row list" where
  "active_projects t d =
     filter (\<lambda>r. project_tenant_id r = t \<and> project_status r \<noteq> ''archived'') (projects d)"

lemma quota_check:
  assumes l: "live s" and b: "bound_to t (st_conn s)"
  shows "assert_project_quota plan s =
    (case plan_quota plan of
       Cap cap \<Rightarrow> if length (active_projects t (st_db s)) \<ge> cap
                  then (Inl (AppError (quota_exceeded (quota_message plan cap))), s) else (Inr (), s)
     | _ \<Rightarrow> (Inr (), s))"
proof -
  have sel: "select_projects (\<lambda>r. project_status r \<noteq> ''archived'') s =
      (Inr (active_projects t (st_db s)), s)"
    using b by (simp add: exec_select_live [OF l] active_projects_def)
  show ?thesis
    by (cases "plan_quota plan")
      (simp_all add: assert_project_quota_def ret_def bnd_def andthen_def throw_def sel)
qed

definition billing_state_of :: "bool \<Rightarrow> uuid \<Rightarrow> db \<Rightarrow> billing_state" where
  "billing_state_of bypass t d =
     \<lparr>bs_status = (case latest_subscription
          (if bypass then filter (\<lambda>r. subs_tenant_id r = t) (subscriptions d) else []) of
        Some r \<Rightarrow> subs_status r | None \<Rightarrow> ''active''),
      bs_plan = (case first_row (filter (\<lambda>g. org_id g = t) (organizations d)) of
        Some g \<Rightarrow> org_plan g | None \<Rightarrow> ''free'')\<rparr>"

lemma get_billing_state_run:
  assumes c: "clean (st_conn s)"
  shows "get_billing_state t s = (Inr (billing_state_of (bypass_rls (st_conn s)) t (st_db s)), s)"
proof -
  have l: "live s" by (rule live_NoTx [OF clean_NoTx [OF c]])
  show ?thesis
    by (simp only: get_billing_state_def run_steps exec_select_orgs_live [OF l] exec_select_clean [OF c]
        billing_state_of_def)
qed

end
