(* ===== verification/RateLimit.thy ===== *)
theory RateLimit
  imports Enforcement Complex_Main
begin

text \<open>
  \<^verbatim>\<open>src/ratelimit/limiter.ts\<close> with its Lua script, \<^verbatim>\<open>plans.ts\<close> and \<^verbatim>\<open>middleware.ts\<close>. The numbers
  of the script are rationals (its doubles without their rounding). A bucket is the hash of
  one key with its time to live; the script reads the clock of the calling server, the time
  to live runs on the clock of Redis.
\<close>

subsection \<open>The script\<close>

record bucket =
  bk_tokens :: rat
  bk_ts :: int
  bk_expires :: int

record bucket_config =
  bc_capacity :: rat
  bc_refill :: rat

text \<open>The two clocks of a call, in milliseconds.\<close>

record clocks =
  ck_now :: int
  ck_redis :: int

definition refilled :: "bucket_config \<Rightarrow> int \<Rightarrow> bucket option \<Rightarrow> rat" where
  "refilled cfg now b =
     (case b of
        None \<Rightarrow> min (bc_capacity cfg) (bc_capacity cfg)
      | Some k \<Rightarrow>
          min (bc_capacity cfg) (bk_tokens k + of_int (max 0 (now - bk_ts k)) / 1000 * bc_refill cfg))"

definition ttl_seconds :: "bucket_config \<Rightarrow> int" where
  "ttl_seconds cfg = \<lceil>bc_capacity cfg / bc_refill cfg * 2\<rceil> + 1"

text \<open>What the script answers (allowed, remaining, retry after) and the bucket it stores.\<close>

definition token_bucket ::
  "bucket_config \<Rightarrow> clocks \<Rightarrow> rat \<Rightarrow> bucket option \<Rightarrow> (bool \<times> int \<times> int) \<times> bucket" where
  "token_bucket cfg ck requested b =
     (let tokens = refilled cfg (ck_now ck) b;
          allowed = (requested \<le> tokens);
          left = (if allowed then tokens - requested else tokens);
          retry = (if allowed then 0 else \<lceil>(requested - tokens) / bc_refill cfg * 1000\<rceil>)
      in ((allowed, \<lfloor>left\<rfloor>, retry),
          \<lparr>bk_tokens = left, bk_ts = ck_now ck, bk_expires = ck_redis ck + 1000 * ttl_seconds cfg\<rparr>))"

subsection \<open>The client\<close>

text \<open>
  \<open>ls_up\<close>: Redis answers; \<open>ls_script\<close>: the script is in its cache (a restart empties it);
  \<open>ls_sha\<close>: the client has loaded it.
\<close>

record limiter_state =
  ls_sha :: bool
  ls_up :: bool
  ls_script :: bool
  ls_store :: "string \<Rightarrow> bucket option"

type_synonym 'a lim = "(limiter_state, 'a) eff"

record limit_result =
  lm_allowed :: bool
  lm_remaining :: int
  lm_limit :: rat
  lm_retry_after_ms :: int
  lm_reset_ms :: int

definition connection_error :: exn where
  "connection_error = OtherError ''Connection is closed.''"

definition noscript_error :: exn where
  "noscript_error = OtherError ''NOSCRIPT No matching script.''"

definition script_error :: exn where
  "script_error = OtherError ''ERR Error running script''"

definition ensure_loaded :: "unit lim" where
  "ensure_loaded s =
     (if ls_sha s then (Inr (), s)
      else if \<not> ls_up s then (Inl connection_error, s)
      else (Inr (), s\<lparr>ls_sha := True, ls_script := True\<rparr>))"

definition live_bucket :: "clocks \<Rightarrow> bucket option \<Rightarrow> bucket option" where
  "live_bucket ck b =
     (case b of None \<Rightarrow> None | Some k \<Rightarrow> if ck_redis ck < bk_expires k then Some k else None)"

text \<open>
  A configuration that is no bucket (an inherited property of the table object) makes the
  script fail: its arguments are not numbers.
\<close>

definition evalsha :: "clocks \<Rightarrow> string \<Rightarrow> bucket_config option \<Rightarrow> rat \<Rightarrow> (bool \<times> int \<times> int) lim" where
  "evalsha ck key cfg requested s =
     (if \<not> ls_up s then (Inl connection_error, s)
      else if \<not> ls_script s then (Inl noscript_error, s)
      else
        case cfg of
          None \<Rightarrow> (Inl script_error, s)
        | Some c \<Rightarrow>
            (case token_bucket c ck requested (live_bucket ck (ls_store s key)) of
               (answer, b) \<Rightarrow> (Inr answer, s\<lparr>ls_store := (ls_store s)(key := Some b)\<rparr>)))"

definition limit_result_of :: "bucket_config option \<Rightarrow> bool \<times> int \<times> int \<Rightarrow> limit_result" where
  "limit_result_of cfg raw =
     (case (cfg, raw) of
        (Some c, (allowed, remaining, retry)) \<Rightarrow>
          \<lparr>lm_allowed = allowed, lm_remaining = remaining, lm_limit = bc_capacity c,
           lm_retry_after_ms = retry,
           lm_reset_ms = \<lceil>(bc_capacity c - of_int remaining) / bc_refill c * 1000\<rceil>\<rparr>
      | (None, (allowed, remaining, retry)) \<Rightarrow>
          \<lparr>lm_allowed = allowed, lm_remaining = remaining, lm_limit = 0, lm_retry_after_ms = retry,
           lm_reset_ms = 0\<rparr>)"

lemma noscript_after_load:
  assumes "ensure_loaded s = (Inr u, s1)" and "evalsha ck key cfg q s1 = (Inl e, s2)"
    and "e = noscript_error"
  shows "ls_sha s"
  using assms
  by (auto simp: ensure_loaded_def evalsha_def noscript_error_def connection_error_def script_error_def
      split: if_splits option.splits prod.splits)

text \<open>After NOSCRIPT the client forgets the script and starts over.\<close>

function consume :: "clocks \<Rightarrow> string \<Rightarrow> bucket_config option \<Rightarrow> rat \<Rightarrow> limit_result lim" where
  "consume ck key cfg requested s =
     (case ensure_loaded s of
        (Inl e, s1) \<Rightarrow> (Inl e, s1)
      | (Inr u, s1) \<Rightarrow>
          (case evalsha ck key cfg requested s1 of
             (Inl e, s2) \<Rightarrow>
               if e = noscript_error then consume ck key cfg requested (s2\<lparr>ls_sha := False\<rparr>)
               else (Inl e, s2)
           | (Inr raw, s2) \<Rightarrow> (Inr (limit_result_of cfg raw), s2)))"
  by pat_completeness auto

termination consume
  by (relation "measure (\<lambda>(ck, key, cfg, q, s). if ls_sha s then 1 else 0)")
    (auto dest!: noscript_after_load [OF sym sym])

declare consume.simps [simp del]

subsection \<open>Buckets\<close>

definition PLAN_BUCKETS :: "string \<Rightarrow> bucket_config option option" where
  "PLAN_BUCKETS plan =
     (if plan = ''free'' then Some (Some \<lparr>bc_capacity = 60, bc_refill = 1\<rparr>)
      else if plan = ''starter'' then Some (Some \<lparr>bc_capacity = 300, bc_refill = 5\<rparr>)
      else if plan = ''pro'' then Some (Some \<lparr>bc_capacity = 1000, bc_refill = 1000 / 60\<rparr>)
      else if plan \<in> set OBJECT_PROTOTYPE_KEYS then Some None
      else None)"

definition FREE_BUCKET :: bucket_config where
  "FREE_BUCKET = \<lparr>bc_capacity = 60, bc_refill = 1\<rparr>"

definition bucket_for_plan :: "string \<Rightarrow> bucket_config option" where
  "bucket_for_plan plan = (case PLAN_BUCKETS plan of Some b \<Rightarrow> b | None \<Rightarrow> Some FREE_BUCKET)"

datatype route_class = Credential | General

fun IP_BUCKETS :: "route_class \<Rightarrow> bucket_config" where
  "IP_BUCKETS Credential = \<lparr>bc_capacity = 10, bc_refill = 10 / 60\<rparr>"
| "IP_BUCKETS General = \<lparr>bc_capacity = 30, bc_refill = 30 / 60\<rparr>"

subsection \<open>The pre-handlers\<close>

text \<open>The headers set on the reply: limit, remaining, reset and, on a 429, Retry-After.\<close>

record rate_headers =
  rh_limit :: rat
  rh_remaining :: int
  rh_reset :: int
  rh_retry_after :: "int option"

definition ceil_seconds :: "int \<Rightarrow> int" where
  "ceil_seconds ms = \<lceil>(of_int ms :: rat) / 1000\<rceil>"

definition set_headers :: "limit_result \<Rightarrow> rate_headers" where
  "set_headers r =
     \<lparr>rh_limit = lm_limit r, rh_remaining = max 0 (lm_remaining r), rh_reset = ceil_seconds (lm_reset_ms r),
      rh_retry_after = (if lm_allowed r then None else Some (ceil_seconds (lm_retry_after_ms r)))\<rparr>"

definition too_many :: app_error where
  "too_many = app_error 429 RATE_LIMITED ''Too Many Requests''"

definition unavailable :: app_error where
  "unavailable = app_error 503 INTERNAL ''Service temporarily unavailable''"

text \<open>
  The result of a limiter that lets the request pass: the headers, or none when it failed
  open. \<open>plan\<close> is the outcome of the plan lookup.
\<close>

definition spend :: "clocks \<Rightarrow> string \<Rightarrow> bucket_config option \<Rightarrow> rate_headers option lim" where
  "spend ck key cfg =
     bnd (consume ck key cfg 1) (\<lambda>r.
       if lm_allowed r then ret (Some (set_headers r)) else throw (AppError too_many))"

definition fail_policy :: "bool \<Rightarrow> exn \<Rightarrow> rate_headers option lim" where
  "fail_policy fail_closed e =
     (case e of
        AppError a \<Rightarrow> throw (AppError a)
      | _ \<Rightarrow> if fail_closed then throw (AppError unavailable) else ret None)"

definition tenant_rate_limit ::
  "clocks \<Rightarrow> bool \<Rightarrow> uuid \<Rightarrow> exn + string \<Rightarrow> rate_headers option lim" where
  "tenant_rate_limit ck is_read t plan =
     try_catch
       (bnd (lift_sum plan) (\<lambda>p. spend ck (''ratelimit:'' @ uuid_out t) (bucket_for_plan p)))
       (fail_policy (\<not> is_read))"

fun route_class_text :: "route_class \<Rightarrow> string" where
  "route_class_text Credential = ''credential''"
| "route_class_text General = ''general''"

definition ip_rate_limit :: "clocks \<Rightarrow> route_class \<Rightarrow> string \<Rightarrow> rate_headers option lim" where
  "ip_rate_limit ck c ip =
     try_catch
       (spend ck (''ratelimit:ip:'' @ ip @ '':'' @ route_class_text c) (Some (IP_BUCKETS c)))
       (fail_policy (c = Credential))"

subsection \<open>The client against a running Redis\<close>

definition answered :: "bucket_config \<Rightarrow> clocks \<Rightarrow> string \<Rightarrow> rat \<Rightarrow> limiter_state \<Rightarrow> (bool \<times> int \<times> int) \<times> bucket" where
  "answered c ck key q s = token_bucket c ck q (live_bucket ck (ls_store s key))"

text \<open>Whether or not the script has to be loaded, or loaded again, the answer is the script's.\<close>

lemma consume_up:
  assumes "ls_up s"
  shows "consume ck key (Some c) q s =
    (Inr (limit_result_of (Some c) (fst (answered c ck key q s))),
     s\<lparr>ls_sha := True, ls_script := True, ls_store := (ls_store s)(key := Some (snd (answered c ck key q s)))\<rparr>)"
proof -
  have loaded: "consume ck key (Some c) q t =
      (Inr (limit_result_of (Some c) (fst (answered c ck key q t))),
       t\<lparr>ls_sha := True, ls_script := True, ls_store := (ls_store t)(key := Some (snd (answered c ck key q t)))\<rparr>)"
    if "ls_up t" "ls_script t \<or> \<not> ls_sha t" for t
    using that by (subst consume.simps, cases t)
      (auto simp: ensure_loaded_def evalsha_def answered_def split: prod.splits)
  show ?thesis
  proof (cases "ls_script s \<or> \<not> ls_sha s")
    case True
    then show ?thesis by (rule loaded [OF assms])
  next
    case False
    let ?t = "s\<lparr>ls_sha := False\<rparr>"
    have "consume ck key (Some c) q s = consume ck key (Some c) q ?t"
      using False assms by (subst consume.simps) (simp add: ensure_loaded_def evalsha_def)
    also have "\<dots> = (Inr (limit_result_of (Some c) (fst (answered c ck key q s))),
       s\<lparr>ls_sha := True, ls_script := True, ls_store := (ls_store s)(key := Some (snd (answered c ck key q s)))\<rparr>)"
      by (subst loaded) (simp_all add: assms answered_def)
    finally show ?thesis .
  qed
qed

lemma consume_down:
  assumes "\<not> ls_up s"
  shows "consume ck key cfg q s = (Inl connection_error, s)"
  using assms by (subst consume.simps)
    (simp add: ensure_loaded_def evalsha_def connection_error_def noscript_error_def)

text \<open>
  A sequence of single-token requests to one bucket at the given clocks: which of them are
  allowed. A failing call counts as refused.
\<close>

fun admitted :: "string \<Rightarrow> bucket_config option \<Rightarrow> clocks list \<Rightarrow> limiter_state \<Rightarrow> bool list" where
  "admitted key cfg [] s = []"
| "admitted key cfg (ck # cks) s =
     (case consume ck key cfg 1 s of
        (Inl e, s') \<Rightarrow> False # admitted key cfg cks s'
      | (Inr r, s') \<Rightarrow> lm_allowed r # admitted key cfg cks s')"

fun admits :: "bucket_config \<Rightarrow> bucket option \<Rightarrow> clocks list \<Rightarrow> bool list" where
  "admits c b [] = []"
| "admits c b (ck # cks) =
     (case token_bucket c ck 1 (live_bucket ck b) of
        ((ok, _), b') \<Rightarrow> ok # admits c (Some b') cks)"

lemma admitted_up: "ls_up s \<Longrightarrow> admitted key (Some c) cks s = admits c (ls_store s key) cks"
  by (induction cks arbitrary: s)
    (auto simp: consume_up answered_def limit_result_of_def split: prod.splits)

subsection \<open>The bucket\<close>

definition sane :: "bucket_config \<Rightarrow> bool" where
  "sane c \<longleftrightarrow> 1 \<le> bc_capacity c \<and> 0 < bc_refill c"

lemma sane_buckets: "bucket_for_plan plan = Some c \<Longrightarrow> sane c" "sane (IP_BUCKETS k)"
  by (auto simp: bucket_for_plan_def PLAN_BUCKETS_def FREE_BUCKET_def sane_def split: if_splits option.splits)
    (cases k; simp)+

definition bucket_ok :: "bucket_config \<Rightarrow> int \<Rightarrow> bucket option \<Rightarrow> bool" where
  "bucket_ok c d b \<longleftrightarrow>
     (case b of None \<Rightarrow> True
      | Some k \<Rightarrow> 0 \<le> bk_tokens k \<and> bk_tokens k \<le> bc_capacity c \<and>
          bk_expires k = bk_ts k + d + 1000 * ttl_seconds c)"

lemma ttl_enough:
  assumes "sane c"
  shows "bc_capacity c \<le> of_int (ttl_seconds c) * bc_refill c"
proof -
  let ?q = "bc_capacity c / bc_refill c"
  have "0 \<le> ?q" using assms by (simp add: sane_def)
  moreover have "0 \<le> x \<Longrightarrow> x \<le> x * 2" for x :: rat by simp
  ultimately have "?q \<le> ?q * 2" by blast
  also have "\<dots> \<le> of_int \<lceil>?q * 2\<rceil>" by (rule le_of_int_ceiling)
  also have "\<dots> \<le> of_int (ttl_seconds c)" by (simp add: ttl_seconds_def)
  finally show ?thesis using assms by (simp add: sane_def pos_divide_le_eq)
qed

text \<open>A bucket that Redis has dropped would be full anyway.\<close>

lemma refilled_live:
  assumes "sane c" and "bucket_ok c d b" and "ck_redis ck = ck_now ck + d"
  shows "refilled c (ck_now ck) (live_bucket ck b) = refilled c (ck_now ck) b"
proof (cases b)
  case None
  then show ?thesis by (simp add: live_bucket_def)
next
  case (Some k)
  show ?thesis
  proof (cases "ck_redis ck < bk_expires k")
    case True
    then show ?thesis using Some by (simp add: live_bucket_def)
  next
    case False
    let ?e = "ck_now ck - bk_ts k"
    have k: "0 \<le> bk_tokens k" "bk_expires k = bk_ts k + d + 1000 * ttl_seconds c"
      using assms(2) Some by (simp_all add: bucket_ok_def)
    have "1000 * ttl_seconds c \<le> ?e" using False assms(3) k(2) by simp
    then have "1000 * ttl_seconds c \<le> max 0 ?e" by simp
    then have "(of_int (1000 * ttl_seconds c) :: rat) \<le> of_int (max 0 ?e)" by (simp only: of_int_le_iff)
    then have "(of_int (ttl_seconds c) :: rat) \<le> of_int (max 0 ?e) / 1000" by simp
    then have "of_int (ttl_seconds c) * bc_refill c \<le> of_int (max 0 ?e) / 1000 * bc_refill c"
      using assms(1) by (intro mult_right_mono) (simp_all add: sane_def)
    then have "bc_capacity c \<le> bk_tokens k + of_int (max 0 ?e) / 1000 * bc_refill c"
      using ttl_enough [OF assms(1)] k(1) by linarith
    then show ?thesis using Some False by (simp add: live_bucket_def refilled_def del: of_int_max)
  qed
qed

lemma refilled_bounds:
  assumes "sane c" and "bucket_ok c d b"
  shows "0 \<le> refilled c now b" "refilled c now b \<le> bc_capacity c"
proof -
  have "0 \<le> of_int (max 0 (now - bk_ts k)) / 1000 * bc_refill c" for k
    using assms(1) by (intro mult_nonneg_nonneg) (simp_all add: sane_def)
  then have "0 \<le> bk_tokens k + of_int (max 0 (now - bk_ts k)) / 1000 * bc_refill c" if "0 \<le> bk_tokens k" for k
    using that by (meson add_nonneg_nonneg)
  then show "0 \<le> refilled c now b"
    using assms by (auto simp: refilled_def sane_def bucket_ok_def split: option.splits)
  show "refilled c now b \<le> bc_capacity c"
    by (simp add: refilled_def split: option.splits)
qed

end
