(* ===== verification/LimitProperties.thy ===== *)
theory LimitProperties
  imports RateLimit Samples
begin

text \<open>
  What the rate limiter promises: how many requests pass, when a refused one may come back,
  and what happens when Redis restarts, forgets a bucket or is gone.
\<close>

subsection \<open>Expiry\<close>

text \<open>The reference: buckets that never expire.\<close>

fun admits_forever :: "bucket_config \<Rightarrow> bucket option \<Rightarrow> clocks list \<Rightarrow> bool list" where
  "admits_forever c b [] = []"
| "admits_forever c b (ck # cks) =
     (case token_bucket c ck 1 b of ((ok, _), b') \<Rightarrow> ok # admits_forever c (Some b') cks)"

definition in_step :: "int \<Rightarrow> clocks list \<Rightarrow> bool" where
  "in_step d cks \<longleftrightarrow> list_all (\<lambda>ck. ck_redis ck = ck_now ck + d) cks"

lemma token_bucket_live:
  assumes "sane c" and "bucket_ok c d b" and "ck_redis ck = ck_now ck + d"
  shows "token_bucket c ck q (live_bucket ck b) = token_bucket c ck q b"
  by (simp add: token_bucket_def refilled_live [OF assms])

lemma token_bucket_next:
  assumes "sane c" and "bucket_ok c d b" and "ck_redis ck = ck_now ck + d" and "0 \<le> q"
    and "token_bucket c ck q b = (ans, k)"
  shows "bucket_ok c d (Some k)" "bk_ts k = ck_now ck"
    "bk_tokens k = refilled c (ck_now ck) b - (if fst ans then q else 0)"
  using refilled_bounds [OF assms(1,2), of "ck_now ck"] assms(3,4,5)
  by (auto simp: token_bucket_def Let_def bucket_ok_def split: if_splits)

lemma admits_forever_eq:
  assumes "sane c" and "bucket_ok c d b" and "in_step d cks"
  shows "admits c b cks = admits_forever c b cks"
  using assms(2,3)
proof (induction cks arbitrary: b)
  case (Cons ck cks)
  have step: "ck_redis ck = ck_now ck + d" "in_step d cks" using Cons.prems(2) by (simp_all add: in_step_def)
  obtain ok r k where t: "token_bucket c ck 1 b = ((ok, r), k)" by (metis prod.exhaust)
  then have "bucket_ok c d (Some k)"
    using token_bucket_next [OF assms(1) Cons.prems(1) step(1) _ t] by simp
  then show ?case
    using Cons.IH [OF _ step(2)] token_bucket_live [OF assms(1) Cons.prems(1) step(1), of 1] t by simp
qed simp

text \<open>
  C33: The time to live of a bucket is long enough: with the clocks in step, the answers are
  exactly those of buckets that never expire.
\<close>
theorem expiry_is_harmless:
  assumes "ls_up s" and "sane c" and "ls_store s key = None" and "in_step d cks"
  shows "admitted key (Some c) cks s = admits_forever c None cks"
  using admits_forever_eq [OF assms(2) _ assms(4), of None] assms
  by (simp add: admitted_up bucket_ok_def)

definition redis_up :: limiter_state where
  "redis_up = \<lparr>ls_sha = False, ls_up = True, ls_script = False, ls_store = (\<lambda>_. None)\<rparr>"

definition at_times :: "int list \<Rightarrow> clocks list" where
  "at_times ts = map (\<lambda>t. \<lparr>ck_now = t, ck_redis = t\<rparr>) ts"

lemma in_step_at_times [simp]: "in_step 0 (at_times ts)"
  by (simp add: in_step_def at_times_def list_all_iff)

lemma sane_free [simp]: "sane FREE_BUCKET"
  by (simp add: sane_def FREE_BUCKET_def)

lemma expiry_is_harmless_witness:
  "admitted ''k'' (Some FREE_BUCKET) (at_times [0, 500000]) redis_up =
   admits_forever FREE_BUCKET None (at_times [0, 500000])"
  by (rule expiry_is_harmless [where d = 0]) (simp_all add: redis_up_def)

subsection \<open>How many requests pass\<close>

definition passed :: "bool list \<Rightarrow> nat" where
  "passed bs = length (filter id bs)"

lemma admits_forever_bound:
  assumes c: "sane c"
  shows "bucket_ok c d (Some k) \<Longrightarrow> in_step d cks \<Longrightarrow> sorted (bk_ts k # map ck_now cks) \<Longrightarrow>
    of_nat (passed (admits_forever c (Some k) cks)) \<le>
      bk_tokens k + of_int (last (bk_ts k # map ck_now cks) - bk_ts k) / 1000 * bc_refill c"
proof (induction cks arbitrary: k)
  case Nil
  then show ?case by (simp add: passed_def bucket_ok_def)
next
  case (Cons ck cks)
  have step: "ck_redis ck = ck_now ck + d" "in_step d cks" using Cons.prems(2) by (simp_all add: in_step_def)
  obtain ok r k' where t: "token_bucket c ck 1 (Some k) = ((ok, r), k')" by (metis prod.exhaust)
  note nx = token_bucket_next [OF c Cons.prems(1) step(1) _ t]
  have srt: "bk_ts k \<le> ck_now ck" "sorted (bk_ts k' # map ck_now cks)"
    using Cons.prems(3) nx(2) by auto
  let ?l = "last (ck_now ck # map ck_now cks)"
  have "of_nat (passed (admits_forever c (Some k') cks)) \<le>
      bk_tokens k' + of_int (?l - ck_now ck) / 1000 * bc_refill c"
    using Cons.IH [OF nx(1) step(2) srt(2)] nx(2) by simp
  moreover have "bk_tokens k' + (if ok then 1 else 0) \<le>
      bk_tokens k + of_int (ck_now ck - bk_ts k) / 1000 * bc_refill c"
    using nx(3) srt(1) by (simp add: refilled_def)
  moreover have "of_int (?l - ck_now ck) / 1000 * bc_refill c + of_int (ck_now ck - bk_ts k) / 1000 * bc_refill c =
      of_int (?l - bk_ts k) / 1000 * bc_refill c"
    by (simp add: diff_divide_distrib left_diff_distrib)
  moreover have "passed (admits_forever c (Some k) (ck # cks)) =
      (if ok then 1 else 0) + passed (admits_forever c (Some k') cks)"
    using t by (simp add: passed_def)
  ultimately show ?case by (auto split: if_splits)
qed

text \<open>
  C21: The limit holds. When the clocks are in step and do not run backwards, the number of
  requests of one bucket that pass is at most its capacity plus what is refilled between the
  first and the last of them, however they are spread and however often Redis drops the
  bucket.
\<close>
theorem limiter_bound:
  assumes up: "ls_up s" and c: "sane c" and new: "ls_store s key = None"
    and st: "in_step d (ck # cks)" and srt: "sorted (map ck_now (ck # cks))"
  shows "of_nat (passed (admitted key (Some c) (ck # cks) s)) \<le>
    bc_capacity c + of_int (last (map ck_now (ck # cks)) - ck_now ck) / 1000 * bc_refill c"
proof -
  have step: "ck_redis ck = ck_now ck + d" "in_step d cks" using st by (simp_all add: in_step_def)
  have ok: "bucket_ok c d None" by (simp add: bucket_ok_def)
  obtain p r k where t: "token_bucket c ck 1 None = ((p, r), k)" by (metis prod.exhaust)
  note nx = token_bucket_next [OF c ok step(1) _ t]
  have "of_nat (passed (admits_forever c (Some k) cks)) \<le>
      bk_tokens k + of_int (last (ck_now ck # map ck_now cks) - ck_now ck) / 1000 * bc_refill c"
    using admits_forever_bound [OF c nx(1) step(2)] nx(2) srt by simp
  moreover have "bk_tokens k + (if p then 1 else 0) = bc_capacity c"
    using nx(3) by (simp add: refilled_def)
  moreover have "passed (admitted key (Some c) (ck # cks) s) =
      (if p then 1 else 0) + passed (admits_forever c (Some k) cks)"
    using t admits_forever_eq [OF c ok st] new by (simp add: admitted_up [OF up] passed_def del: admits.simps admitted.simps)
  ultimately show ?thesis by (auto split: if_splits)
qed

lemma limiter_bound_witness:
  "of_nat (passed (admitted ''k'' (Some FREE_BUCKET) (at_times [0, 7, 500]) redis_up)) \<le> (60 + 1 / 2 :: rat)"
  using limiter_bound [of redis_up FREE_BUCKET "''k''" 0 "\<lparr>ck_now = 0, ck_redis = 0\<rparr>" "at_times [7, 500]"]
  by (simp add: redis_up_def FREE_BUCKET_def at_times_def in_step_def sane_def)

subsection \<open>Clocks out of step\<close>

text \<open>Two servers, the second \<open>skew\<close> milliseconds ahead, take turns at one instant.\<close>

fun taking_turns :: "int \<Rightarrow> nat \<Rightarrow> clocks list" where
  "taking_turns skew 0 = []"
| "taking_turns skew (Suc n) =
     \<lparr>ck_now = 0, ck_redis = 0\<rparr> # \<lparr>ck_now = skew, ck_redis = 0\<rparr> # taking_turns skew n"

lemma ttl_positive: "sane c \<Longrightarrow> 0 < ttl_seconds c"
proof -
  assume "sane c"
  then have "0 \<le> bc_capacity c / bc_refill c * 2" by (simp add: sane_def)
  then have "0 \<le> \<lceil>bc_capacity c / bc_refill c * 2\<rceil>" by (simp add: ceiling_mono order.trans less_le_trans)
  then show ?thesis by (simp add: ttl_seconds_def)
qed

lemma turns_admitted:
  assumes c: "sane c" and cap: "2 \<le> bc_capacity c" and skew: "2 \<le> of_int skew / 1000 * bc_refill c"
  shows "case b of None \<Rightarrow> True
      | Some k \<Rightarrow> bk_tokens k = bc_capacity c - 1 \<and> 0 \<le> bk_ts k \<and> 0 < bk_expires k \<Longrightarrow>
    admits c b (taking_turns skew n) = replicate (2 * n) True"
proof (induction n arbitrary: b)
  case 0
  show ?case by simp
next
  case (Suc n)
  let ?ck1 = "\<lparr>ck_now = 0, ck_redis = 0\<rparr>" and ?ck2 = "\<lparr>ck_now = skew, ck_redis = 0\<rparr>"
  have sk: "0 \<le> skew"
  proof (rule ccontr)
    assume "\<not> 0 \<le> skew"
    then have "of_int skew / 1000 * bc_refill c \<le> 0"
      using c by (simp add: sane_def mult_nonpos_nonneg divide_nonpos_pos)
    then show False using skew by simp
  qed
  obtain r1 k1 where t1: "token_bucket c ?ck1 1 (live_bucket ?ck1 b) = ((True, r1), k1)"
    and k1: "bk_tokens k1 \<ge> bc_capacity c - 2" "bk_ts k1 = 0" "0 < bk_expires k1"
    using Suc.prems cap ttl_positive [OF c]
    by (cases b) (auto simp: token_bucket_def Let_def live_bucket_def refilled_def)
  have "bc_capacity c \<le> bk_tokens k1 + of_int skew / 1000 * bc_refill c"
    using k1(1) skew by linarith
  then obtain r2 k2 where t2: "token_bucket c ?ck2 1 (live_bucket ?ck2 (Some k1)) = ((True, r2), k2)"
    and k2: "bk_tokens k2 = bc_capacity c - 1" "bk_ts k2 = skew" "0 < bk_expires k2"
    using k1 cap sk ttl_positive [OF c]
    by (auto simp: token_bucket_def Let_def live_bucket_def refilled_def)
  have "admits c (Some k2) (taking_turns skew n) = replicate (2 * n) True"
    by (rule Suc.IH) (use k2 sk in simp)
  then show ?case using t1 t2 by simp
qed

text \<open>
  The limit does not hold across servers whose clocks differ. The script stores the clock
  of the server that called last, even when it is behind, so the same interval is refilled
  again and again: two servers whose clocks differ by the time of two tokens, taking turns,
  pass any number of requests at one instant.
\<close>
theorem skewed_clocks_defeat_limiter:
  assumes "ls_up s" and "sane c" and "ls_store s key = None" and "2 \<le> bc_capacity c"
    and "2 \<le> of_int skew / 1000 * bc_refill c"
  shows "passed (admitted key (Some c) (taking_turns skew n) s) = 2 * n"
  using turns_admitted [OF assms(2,4,5), of None n] assms(1,3)
  by (simp add: admitted_up passed_def)

text \<open>Two seconds of skew are enough on the free plan: sixty requests a minute become 2000 at once.\<close>

lemma skewed_clocks_defeat_limiter_witness:
  "passed (admitted ''k'' (Some FREE_BUCKET) (taking_turns 2000 1000) redis_up) = 2000"
  using skewed_clocks_defeat_limiter [of redis_up FREE_BUCKET "''k''" 2000 1000]
  by (simp add: redis_up_def FREE_BUCKET_def sane_def)

subsection \<open>Retry-After\<close>

text \<open>
  Retry-After is exact. A refused request that is repeated (nothing else coming in
  between) passes if and only if at least the announced number of milliseconds has gone by;
  so it passes eventually.
\<close>
theorem retry_after_exact:
  assumes c: "sane c" and ok: "bucket_ok c d b" and q: "0 \<le> q" "q \<le> bc_capacity c"
    and step: "ck_redis ck = ck_now ck + d" "ck_redis ck' = ck_now ck' + d" "ck_now ck \<le> ck_now ck'"
    and refused: "token_bucket c ck q (live_bucket ck b) = ((False, remaining, retry), k)"
  shows "fst (fst (token_bucket c ck' q (live_bucket ck' (Some k)))) \<longleftrightarrow> ck_now ck + retry \<le> ck_now ck'"
proof -
  have r: "token_bucket c ck q b = ((False, remaining, retry), k)"
    using refused token_bucket_live [OF c ok step(1)] by simp
  note nx = token_bucket_next [OF c ok step(1) q(1) r]
  let ?dt = "ck_now ck' - ck_now ck" and ?f = "bc_refill c"
  have f: "0 < ?f" using c by (simp add: sane_def)
  have "fst (fst (token_bucket c ck' q (live_bucket ck' (Some k)))) \<longleftrightarrow> q \<le> refilled c (ck_now ck') (Some k)"
    by (simp add: token_bucket_live [OF c nx(1) step(2)]) (simp add: token_bucket_def Let_def)
  also have "\<dots> \<longleftrightarrow> q \<le> bk_tokens k + of_int ?dt / 1000 * ?f"
    using q(2) nx(2) step(3) by (simp add: refilled_def)
  also have "\<dots> \<longleftrightarrow> (q - bk_tokens k) / ?f * 1000 \<le> of_int ?dt"
    using f by (auto simp: field_simps)
  also have "\<dots> \<longleftrightarrow> \<lceil>(q - bk_tokens k) / ?f * 1000\<rceil> \<le> ?dt" by (simp add: ceiling_le_iff)
  also have "\<lceil>(q - bk_tokens k) / ?f * 1000\<rceil> = retry"
    using r by (auto simp: token_bucket_def Let_def split: if_splits)
  finally show ?thesis by linarith
qed

lemma retry_after_exact_witness:
  "fst (fst (token_bucket FREE_BUCKET \<lparr>ck_now = 1000, ck_redis = 1000\<rparr> 1
     (live_bucket \<lparr>ck_now = 1000, ck_redis = 1000\<rparr>
       (Some \<lparr>bk_tokens = 1 / 2, bk_ts = 0, bk_expires = 121000\<rparr>))))"
  using retry_after_exact [of FREE_BUCKET 0 "Some \<lparr>bk_tokens = 1 / 2, bk_ts = 0, bk_expires = 121000\<rparr>" 1
      "\<lparr>ck_now = 0, ck_redis = 0\<rparr>" "\<lparr>ck_now = 1000, ck_redis = 1000\<rparr>" 0 500
      "\<lparr>bk_tokens = 1 / 2, bk_ts = 0, bk_expires = 121000\<rparr>"]
  by (simp add: FREE_BUCKET_def sane_def bucket_ok_def ttl_seconds_def token_bucket_def Let_def
      live_bucket_def refilled_def)

subsection \<open>Restarts and outages\<close>

text \<open>
  A restart of Redis that empties its script cache is invisible: whatever the client
  believes and whatever the cache holds, the call returns the same result and leaves the
  same buckets.
\<close>
theorem script_reload_is_transparent:
  assumes "ls_up s"
  shows "fst (consume ck key (Some c) q (s\<lparr>ls_sha := sha, ls_script := script\<rparr>)) =
      fst (consume ck key (Some c) q (s\<lparr>ls_sha := True, ls_script := True\<rparr>)) \<and>
    snd (consume ck key (Some c) q (s\<lparr>ls_sha := sha, ls_script := script\<rparr>)) =
      snd (consume ck key (Some c) q (s\<lparr>ls_sha := True, ls_script := True\<rparr>)) \<and>
    (\<exists>r. fst (consume ck key (Some c) q s) = Inr r \<and> lm_limit r = bc_capacity c)"
  using assms by (cases s) (auto simp: consume_up answered_def limit_result_of_def split: prod.splits)

lemma script_reload_is_transparent_witness:
  "fst (consume \<lparr>ck_now = 0, ck_redis = 0\<rparr> ''k'' (Some FREE_BUCKET) 1
     (redis_up\<lparr>ls_sha := True, ls_script := False\<rparr>)) =
   fst (consume \<lparr>ck_now = 0, ck_redis = 0\<rparr> ''k'' (Some FREE_BUCKET) 1
     (redis_up\<lparr>ls_sha := True, ls_script := True\<rparr>))"
  using script_reload_is_transparent [of redis_up] by (simp add: redis_up_def)

text \<open>
  While Redis is gone, reads pass without headers and writes are answered 503; credential
  routes are answered 503 and other unauthenticated routes pass. Nothing else changes.
\<close>
theorem outage_policy:
  assumes "\<not> ls_up s"
  shows "tenant_rate_limit ck is_read t (Inr plan) s =
      (if is_read then Inr None else Inl (AppError unavailable), s) \<and>
    ip_rate_limit ck c ip s = (if c = Credential then Inl (AppError unavailable) else Inr None, s)"
  using consume_down [OF assms]
  by (simp add: tenant_rate_limit_def ip_rate_limit_def try_catch_def spend_def bnd_def lift_sum_def
      fail_policy_def connection_error_def throw_def ret_def)

lemma outage_policy_witness:
  "ip_rate_limit \<lparr>ck_now = 0, ck_redis = 0\<rparr> Credential ''10.0.0.1'' (redis_up\<lparr>ls_up := False\<rparr>) =
   (Inl (AppError unavailable), redis_up\<lparr>ls_up := False\<rparr>)"
  using outage_policy [of "redis_up\<lparr>ls_up := False\<rparr>" "\<lparr>ck_now = 0, ck_redis = 0\<rparr>" True 0 "''free''" Credential "''10.0.0.1''"]
  by simp

end
