(* ===== verification/ApiKeys.thy ===== *)
theory ApiKeys
  imports Team
begin

text \<open>
  \<^verbatim>\<open>src/apikeys/apikey.service.ts\<close>: keys are created, listed and revoked on the request's
  tenant connection, and resolved by their hash on the owner pool.
\<close>

record api_key_view =
  kv_id :: uuid
  kv_name :: string
  kv_last_used_at :: "timestamptz option"
  kv_revoked_at :: "timestamptz option"
  kv_created_at :: timestamptz

definition hash_key :: "ext \<Rightarrow> string \<Rightarrow> string" where
  "hash_key x key = sha256_hex x key"

definition new_api_key :: "ext \<Rightarrow> env \<Rightarrow> uuid \<Rightarrow> string \<Rightarrow> string \<Rightarrow> api_key_row" where
  "new_api_key x v t name key =
     \<lparr>ak_id = new_id v 0, ak_tenant_id = t, ak_name = name, ak_hashed_key = hash_key x key,
      ak_last_used_at = None, ak_revoked_at = None, ak_created_at = db_now v\<rparr>"

text \<open>The result is the key's id and its plaintext.\<close>

definition create_api_key :: "ext \<Rightarrow> env \<Rightarrow> actor \<Rightarrow> string \<Rightarrow> (uuid \<times> string) io" where
  "create_api_key x v a name =
     (let key = ''tf_'' @ rnd_key v in
      andthen (insert_api_key (new_api_key x v (actor_tenant_id a) name key))
     (andthen (insert_audit (audit_entry v (new_id v 1) (actor_tenant_id a) (Some (actor_user_id a))
        ''apikey.created'' (uuid_out (new_id v 0)) None))
       (ret (new_id v 0, key))))"

definition key_view :: "api_key_row \<Rightarrow> api_key_view" where
  "key_view r =
     \<lparr>kv_id = ak_id r, kv_name = ak_name r, kv_last_used_at = ak_last_used_at r,
      kv_revoked_at = ak_revoked_at r, kv_created_at = ak_created_at r\<rparr>"

text \<open>\<^verbatim>\<open>ORDER BY created_at DESC\<close>; rows of the same instant keep their scan order.\<close>

definition list_api_keys :: "api_key_view list io" where
  "list_api_keys =
     bnd (select_api_keys (\<lambda>_. True)) (\<lambda>rows.
       ret (map key_view (sort_key (\<lambda>r. - ak_created_at r) rows)))"

definition revoke_api_key :: "env \<Rightarrow> actor \<Rightarrow> uuid \<Rightarrow> unit io" where
  "revoke_api_key v a i =
     bnd (update_api_keys (\<lambda>r. ak_id r = i \<and> ak_revoked_at r = None)
           (\<lambda>r. r\<lparr>ak_revoked_at := Some (db_now v)\<rparr>)) (\<lambda>row_count.
       if row_count = 0 then throw (AppError (not_found ''API key not found''))
       else insert_audit (audit_entry v (new_id v 0) (actor_tenant_id a) (Some (actor_user_id a))
              ''apikey.revoked'' (uuid_out i) None))"

record api_key_principal =
  kp_tenant_id :: uuid
  kp_key_id :: uuid

text \<open>
  The update of \<open>last_used_at\<close> is not awaited and its errors are dropped; it is placed where
  it is issued.
\<close>

definition authenticate_api_key :: "ext \<Rightarrow> env \<Rightarrow> string \<Rightarrow> api_key_principal io" where
  "authenticate_api_key x v presented =
     bnd (select_api_keys (\<lambda>r. ak_hashed_key r = hash_key x presented)) (\<lambda>rows.
       case first_row rows of
         None \<Rightarrow> throw (AppError (unauthorized ''Invalid API key''))
       | Some row \<Rightarrow>
           if ak_revoked_at row \<noteq> None then throw (AppError (unauthorized ''Invalid API key''))
           else
             andthen (swallow (andthen (update_api_keys (\<lambda>r. ak_id r = ak_id row)
                 (\<lambda>r. r\<lparr>ak_last_used_at := Some (db_now v)\<rparr>)) (ret ())))
               (ret \<lparr>kp_tenant_id = ak_tenant_id row, kp_key_id = ak_id row\<rparr>))"

subsection \<open>Outcomes\<close>

definition key_row :: "bool \<Rightarrow> string \<Rightarrow> db \<Rightarrow> api_key_row option" where
  "key_row bypass h d =
     (if bypass then first_row (filter (\<lambda>r. ak_hashed_key r = h) (api_keys d)) else None)"

lemma key_rowD:
  assumes "key_row b h d = Some r"
  shows "b" "r \<in> set (api_keys d)" "ak_hashed_key r = h"
  using assms by (auto simp: key_row_def dest!: first_row_filterD split: if_splits)

definition key_used_db :: "env \<Rightarrow> api_key_row \<Rightarrow> db \<Rightarrow> db" where
  "key_used_db v row d =
     d\<lparr>api_keys := map (\<lambda>r. if ak_id r = ak_id row then r\<lparr>ak_last_used_at := Some (db_now v)\<rparr> else r)
         (api_keys d)\<rparr>"

lemma authenticate_api_key_cases:
  assumes c: "clean (st_conn s)"
  shows "authenticate_api_key x v presented s =
    (case key_row (bypass_rls (st_conn s)) (hash_key x presented) (st_db s) of
       None \<Rightarrow> (Inl (AppError (unauthorized ''Invalid API key'')), s)
     | Some row \<Rightarrow>
         if ak_revoked_at row \<noteq> None then (Inl (AppError (unauthorized ''Invalid API key'')), s)
         else (Inr \<lparr>kp_tenant_id = ak_tenant_id row, kp_key_id = ak_id row\<rparr>,
               s\<lparr>st_db := key_used_db v row (st_db s)\<rparr>))"
proof -
  let ?b = "bypass_rls (st_conn s)" and ?h = "hash_key x presented"
  have l: "live s" by (rule live_NoTx [OF clean_NoTx [OF c]])
  have sel: "select_api_keys (\<lambda>r. ak_hashed_key r = ?h) s =
      (Inr (if ?b then filter (\<lambda>r. ak_hashed_key r = ?h) (api_keys (st_db s)) else []), s)"
    by (rule exec_select_clean [OF c])
  show ?thesis
  proof (cases ?b)
    case False
    then show ?thesis
      by (simp add: authenticate_api_key_def bnd_def sel key_row_def throw_def)
  next
    case True
    define F where "F = first_row (filter (\<lambda>r. ak_hashed_key r = ?h) (api_keys (st_db s)))"
    have upd: "\<exists>n. update_api_keys (\<lambda>r. ak_id r = ak_id row)
        (\<lambda>r. r\<lparr>ak_last_used_at := Some (db_now v)\<rparr>) s = (Inr n, s\<lparr>st_db := key_used_db v row (st_db s)\<rparr>)"
      for row using True by (subst exec_update_ok [OF l]) (auto simp: key_used_db_def clean_visible [OF c])
    show ?thesis
    proof (cases F)
      case None
      then show ?thesis
        unfolding authenticate_api_key_def bnd_def [of "select_api_keys (\<lambda>r. ak_hashed_key r = ?h)"] sel
          eqTrueI [OF True] if_True prod.case sum.case key_row_def F_def [symmetric]
        by (simp add: throw_def)
    next
      case (Some row)
      obtain n where n: "update_api_keys (\<lambda>r. ak_id r = ak_id row)
        (\<lambda>r. r\<lparr>ak_last_used_at := Some (db_now v)\<rparr>) s = (Inr n, s\<lparr>st_db := key_used_db v row (st_db s)\<rparr>)"
        using upd by blast
      show ?thesis
        unfolding authenticate_api_key_def bnd_def [of "select_api_keys (\<lambda>r. ak_hashed_key r = ?h)"] sel
          eqTrueI [OF True] if_True prod.case sum.case key_row_def F_def [symmetric] Some option.case
        by (simp add: throw_def andthen_def bnd_def swallow_def n ret_def)
    qed
  qed
qed

lemma create_api_key_run:
  assumes l: "live s" and vis: "visible (st_conn s) (actor_tenant_id a)"
    and og: "org_exists (st_db s) (actor_tenant_id a)" and fresh: "audit_fresh (st_db s) (new_id v 1)"
      "\<forall>r\<in>set (api_keys (st_db s)). ak_id r \<noteq> new_id v 0 \<and> ak_hashed_key r \<noteq> hash_key x (''tf_'' @ rnd_key v)"
  shows "create_api_key x v a name s =
    (Inr (new_id v 0, ''tf_'' @ rnd_key v), s\<lparr>st_db := (st_db s)
       \<lparr>api_keys := api_keys (st_db s) @ [new_api_key x v (actor_tenant_id a) name (''tf_'' @ rnd_key v)],
        audit_log := audit_log (st_db s) @ [audit_entry v (new_id v 1) (actor_tenant_id a)
          (Some (actor_user_id a)) ''apikey.created'' (uuid_out (new_id v 0)) None]\<rparr>\<rparr>)"
proof -
  let ?k = "new_api_key x v (actor_tenant_id a) name (''tf_'' @ rnd_key v)"
  let ?d1 = "(st_db s)\<lparr>api_keys := api_keys (st_db s) @ [?k]\<rparr>"
  have ins: "insert_api_key ?k s = (Inr (), s\<lparr>st_db := ?d1\<rparr>)"
    using l vis og fresh(2) by (subst exec_insert_ok)
      (auto simp: new_api_key_def list_ex_iff api_key_clash_def)
  have aud: "insert_audit (audit_entry v (new_id v 1) (actor_tenant_id a) (Some (actor_user_id a))
        ''apikey.created'' (uuid_out (new_id v 0)) None) (s\<lparr>st_db := ?d1\<rparr>) =
      (Inr (), s\<lparr>st_db := ?d1\<lparr>audit_log := audit_log (st_db s) @ [audit_entry v (new_id v 1)
        (actor_tenant_id a) (Some (actor_user_id a)) ''apikey.created'' (uuid_out (new_id v 0)) None]\<rparr>\<rparr>)"
    using l vis og fresh(1) by (subst exec_insert_ok) (auto simp: audit_fresh_clash org_exists_def)
  show ?thesis
    by (simp only: create_api_key_def Let_def run_steps ins aud)
qed

end
