(* ===== verification/Middleware.thy ===== *)
theory Middleware
  imports ApiKeys
begin

text \<open>
  \<^verbatim>\<open>src/middleware/tenant.ts\<close> and the life of a request on a tenant route as Fastify runs
  it: validation, the pre-handlers (\<^verbatim>\<open>authenticate\<close>, the rate limiter, \<^verbatim>\<open>withTenant.open\<close>), the
  handler, then \<^verbatim>\<open>onSend\<close> (commit) or \<^verbatim>\<open>onError\<close> and the error handler.

  The request holds one connection of the app-role pool; what runs on the owner pool runs on
  a connection of its own (\<open>on_pool\<close>).
\<close>

definition on_pool :: "conn \<Rightarrow> 'a io \<Rightarrow> 'a io" where
  "on_pool owner m s =
     (case m (s\<lparr>st_conn := owner\<rparr>) of (r, s') \<Rightarrow> (r, s'\<lparr>st_conn := st_conn s\<rparr>))"

record headers =
  hd_api_key :: "string option"
  hd_authorization :: "string option"

definition bearer_prefix :: string where
  "bearer_prefix = ''Bearer ''"

definition authenticate_bearer :: "ext \<Rightarrow> token_config \<Rightarrow> env \<Rightarrow> string option \<Rightarrow> actor io" where
  "authenticate_bearer x cfg v header =
     (case header of
        None \<Rightarrow> throw (AppError (unauthorized ''Missing bearer token''))
      | Some h \<Rightarrow>
          if take 7 h \<noteq> bearer_prefix then throw (AppError (unauthorized ''Missing bearer token''))
          else
            (case verify_access_token x cfg v (drop 7 h) of
               Inl _ \<Rightarrow> throw (AppError (unauthorized ''Invalid or expired token''))
             | Inr cl \<Rightarrow> ret \<lparr>actor_tenant_id = tenant_id cl, actor_user_id = sub cl,
                              actor_role = claim_role cl\<rparr>))"

text \<open>\<open>keys\<close>: an owner pool was passed to \<^verbatim>\<open>makeAuthenticate\<close>. It runs on the owner pool.\<close>

definition authenticate :: "ext \<Rightarrow> token_config \<Rightarrow> env \<Rightarrow> bool \<Rightarrow> headers \<Rightarrow> actor io" where
  "authenticate x cfg v keys h =
     (case hd_api_key h of
        None \<Rightarrow> authenticate_bearer x cfg v (hd_authorization h)
      | Some key \<Rightarrow>
          if key = [] then authenticate_bearer x cfg v (hd_authorization h)
          else if \<not> keys then throw (AppError (unauthorized ''API keys not enabled''))
          else bnd (authenticate_api_key x v key) (\<lambda>p.
            ret \<lparr>actor_tenant_id = kp_tenant_id p, actor_user_id = kp_key_id p, actor_role = Member\<rparr>))"

subsection \<open>The tenant connection\<close>

definition with_tenant_open :: "actor option \<Rightarrow> unit io" where
  "with_tenant_open auth =
     (case auth of
        None \<Rightarrow> throw (AppError no_tenant_default)
      | Some a \<Rightarrow>
          try_catch
            (andthen begin_tx
            (andthen (set_config_local (actor_tenant_id a))
            (bnd (select_orgs (\<lambda>g. org_id g = actor_tenant_id a)) (\<lambda>rows.
              case first_row rows of
                None \<Rightarrow> ret ()
              | Some g \<Rightarrow>
                  if org_deleted_at g \<noteq> None
                  then throw (AppError (forbidden ''Organization is cancelled''))
                  else ret ()))))
            (\<lambda>e. andthen (swallow rollback_tx) (throw e)))"

text \<open>
  \<^verbatim>\<open>onSend\<close>. \<open>commit_fails\<close>: the server refuses the COMMIT (a lost connection, a deferred
  failure); the exception is swallowed and the payload is sent unchanged.
\<close>

definition commit_tenant :: "nat \<Rightarrow> bool \<Rightarrow> unit io" where
  "commit_tenant status commit_fails =
     finally_do
       (try_catch
          (if status < 400
           then (if commit_fails then throw (OtherError ''COMMIT failed'') else commit_tx)
           else rollback_tx)
          (\<lambda>e. swallow rollback_tx))
       (swallow reset_tenant)"

definition rollback_tenant :: "unit io" where
  "rollback_tenant = finally_do rollback_tx (swallow reset_tenant)"

subsection \<open>A whole request\<close>

type_synonym 'a reply = "nat \<times> (error_envelope + 'a)"

definition error_reply :: "string \<Rightarrow> thrown \<Rightarrow> 'a reply" where
  "error_reply rid t = (case error_handler rid t of (status, envelope) \<Rightarrow> (status, Inl envelope))"

definition tenant_request ::
  "string \<Rightarrow> bool \<Rightarrow> conn \<Rightarrow> bool \<Rightarrow> actor io \<Rightarrow> (actor \<Rightarrow> unit io) \<Rightarrow> (actor \<Rightarrow> (nat \<times> 'a) io) \<Rightarrow>
   state \<Rightarrow> 'a reply \<times> state" where
  "tenant_request rid commit_fails owner valid auth limit handler s =
     (if \<not> valid then (error_reply rid ThrownValidation, s)
      else
        case bnd (on_pool owner auth) (\<lambda>a.
               andthen (on_pool owner (limit a)) (andthen (with_tenant_open (Some a)) (ret a))) s of
          (Inl e, s1) \<Rightarrow> (error_reply rid (ThrownExn e), s1)
        | (Inr a, s1) \<Rightarrow>
            (case handler a s1 of
               (Inr (status, out), s2) \<Rightarrow>
                 ((status, Inr out), snd (commit_tenant status commit_fails s2))
             | (Inl e, s2) \<Rightarrow> (error_reply rid (ThrownExn e), snd (rollback_tenant s2))))"

subsection \<open>Opening\<close>

definition org_deleted :: "db \<Rightarrow> uuid \<Rightarrow> bool" where
  "org_deleted d t \<longleftrightarrow>
     (case first_row (filter (\<lambda>g. org_id g = t) (organizations d)) of
        None \<Rightarrow> False | Some g \<Rightarrow> org_deleted_at g \<noteq> None)"

lemma rollback_open:
  assumes "clean (st_conn s)"
  shows "clean (st_conn (snd (rollback_tx (in_tenant_tx t s))))"
    "st_db (snd (rollback_tx (in_tenant_tx t s))) = st_db s"
  using assms
  by (auto simp: rollback_tx_def clean_def end_tx_def current_tenant_def current_setting_def
      split: setting.splits option.splits)
    (auto simp: in_tenant_tx_def)

lemma open_cases:
  assumes c: "clean (st_conn s)"
  shows "with_tenant_open (Some a) s =
    (if org_deleted (st_db s) (actor_tenant_id a)
     then (Inl (AppError (forbidden ''Organization is cancelled'')),
           snd (rollback_tx (in_tenant_tx (actor_tenant_id a) s)))
     else (Inr (), in_tenant_tx (actor_tenant_id a) s))"
proof -
  let ?t = "actor_tenant_id a" and ?F = "first_row (filter (\<lambda>g. org_id g = actor_tenant_id a) (organizations (st_db s)))"
  have b: "begin_tx s = (Inr (), entered s)"
    using c by (simp add: begin_tx_def clean_def entered_def)
  have cfg: "set_config_local ?t (entered s) = (Inr (), in_tenant_tx ?t s)"
    by (simp add: set_config_local_def entered_def in_tenant_tx_def)
  have sel: "select_orgs (\<lambda>g. org_id g = ?t) (in_tenant_tx ?t s) =
      (Inr (filter (\<lambda>g. org_id g = ?t) (organizations (st_db s))), in_tenant_tx ?t s)"
    by (simp add: exec_select_orgs_live)
  show ?thesis
  proof (cases "?F")
    case None
    then show ?thesis
      by (simp add: with_tenant_open_def try_catch_def andthen_def bnd_def b cfg sel org_deleted_def ret_def)
  next
    case (Some g)
    have "andthen begin_tx (andthen (set_config_local ?t)
        (bnd (select_orgs (\<lambda>g. org_id g = ?t)) (\<lambda>rows. case first_row rows of None \<Rightarrow> ret ()
          | Some g \<Rightarrow> if org_deleted_at g \<noteq> None
              then throw (AppError (forbidden ''Organization is cancelled'')) else ret ()))) s =
      (if org_deleted_at g \<noteq> None then Inl (AppError (forbidden ''Organization is cancelled'')) else Inr (),
       in_tenant_tx ?t s)"
      by (simp only: run_steps b cfg sel Some) (simp add: run_steps)
    then show ?thesis
      by (simp add: with_tenant_open_def try_catch_def org_deleted_def Some andthen_def bnd_def swallow_def
          throw_def split: prod.splits)
  qed
qed

subsection \<open>Closing\<close>

text \<open>What the handler's database becomes, and the state of the connection.\<close>

definition kept_db :: "state \<Rightarrow> nat \<Rightarrow> bool \<Rightarrow> state \<Rightarrow> db" where
  "kept_db s status commit_fails s2 =
     (if status < 400 \<and> \<not> commit_fails then committed_db s2 else st_db s)"

lemma commit_run:
  assumes k: "tx_kept (in_tenant_tx t s) s2"
  shows "snd (commit_tenant status commit_fails s2) =
    s2\<lparr>st_db := kept_db s status commit_fails s2, st_conn := released (st_conn s)\<rparr>"
proof -
  have bp: "bypass_rls (st_conn s2) = bypass_rls (st_conn s)"
    and tx2: "tx (st_conn s2) = InTx (st_db s) \<or> tx (st_conn s2) = Aborted (st_db s)"
    using k by (auto simp: tx_kept_def)
  show ?thesis
    using bp tx2
    by (auto simp: commit_tenant_def kept_db_def eff_simps commit_tx_def rollback_tx_def
        reset_tenant_def committed_db_def reset_end_tx [of _ "st_conn s"])
qed

lemma rollback_run:
  assumes k: "tx_kept (in_tenant_tx t s) s2"
  shows "snd (rollback_tenant s2) = s2\<lparr>st_db := st_db s, st_conn := released (st_conn s)\<rparr>"
proof -
  have bp: "bypass_rls (st_conn s2) = bypass_rls (st_conn s)"
    and tx2: "tx (st_conn s2) = InTx (st_db s) \<or> tx (st_conn s2) = Aborted (st_db s)"
    using k by (auto simp: tx_kept_def)
  show ?thesis
    using bp tx2
    by (auto simp: rollback_tenant_def eff_simps rollback_tx_def reset_tenant_def
        reset_end_tx [of _ "st_conn s"])
qed

subsection \<open>Requests\<close>

lemma on_pool_conn [simp]: "st_conn (snd (on_pool owner m s)) = st_conn s"
  by (simp add: on_pool_def split: prod.splits)

lemma on_pool_ret [simp]: "on_pool owner (ret a) s = (Inr a, s)"
  by (simp add: on_pool_def ret_def)

lemma tenant_request_cases:
  assumes c: "clean (st_conn s)" and kept: "\<And>a. tracks tx_kept (handler a)"
  shows "tenant_request rid cf owner valid auth limit handler s =
    (if \<not> valid then (error_reply rid ThrownValidation, s)
     else case on_pool owner auth s of
       (Inl e, s1) \<Rightarrow> (error_reply rid (ThrownExn e), s1)
     | (Inr a, s1) \<Rightarrow>
        (case on_pool owner (limit a) s1 of
           (Inl e, s2) \<Rightarrow> (error_reply rid (ThrownExn e), s2)
         | (Inr _, s2) \<Rightarrow>
            if org_deleted (st_db s2) (actor_tenant_id a)
            then (error_reply rid (ThrownExn (AppError (forbidden ''Organization is cancelled''))),
                  snd (rollback_tx (in_tenant_tx (actor_tenant_id a) s2)))
            else
              (case handler a (in_tenant_tx (actor_tenant_id a) s2) of
                 (Inr (status, out), s3) \<Rightarrow>
                   ((status, Inr out),
                    s3\<lparr>st_db := kept_db s2 status cf s3, st_conn := released (st_conn s2)\<rparr>)
               | (Inl e, s3) \<Rightarrow>
                   (error_reply rid (ThrownExn e),
                    s3\<lparr>st_db := st_db s2, st_conn := released (st_conn s2)\<rparr>))))"
proof (cases valid)
  case False
  then show ?thesis by (simp add: tenant_request_def)
next
  case valid: True
  obtain r1 s1 where a: "on_pool owner auth s = (r1, s1)" by fastforce
  have c1: "clean (st_conn s1)" using on_pool_conn [of owner auth s] a c by simp
  show ?thesis
  proof (cases r1)
    case (Inl e)
    then show ?thesis using valid a by (simp add: tenant_request_def bnd_def)
  next
    case (Inr act)
    obtain r2 s2 where l: "on_pool owner (limit act) s1 = (r2, s2)" by fastforce
    have c2: "clean (st_conn s2)" using on_pool_conn [of owner "limit act" s1] l c1 by simp
    show ?thesis
    proof (cases r2)
      case inl: (Inl e)
      then show ?thesis using valid a Inr l by (simp add: tenant_request_def bnd_def andthen_def)
    next
      case inr: (Inr u)
      let ?in = "in_tenant_tx (actor_tenant_id act) s2"
      obtain r3 s3 where h: "handler act ?in = (r3, s3)" by fastforce
      have k: "tx_kept ?in s3" by (rule tracksD [OF kept h])
      show ?thesis
        using valid a Inr l inr h
        by (cases r3)
          (auto simp: tenant_request_def bnd_def andthen_def open_cases [OF c2] commit_run [OF k]
            rollback_run [OF k] ret_def split: prod.splits)
    qed
  qed
qed

end
