(* ===== verification/Pagination.thy ===== *)
theory Pagination
  imports Projects
begin

text \<open>
  Cursor pagination as a client sees it: following the cursors from the first page. The
  pages put together are projects of the tenant, newest first, none twice; a project can be
  missing only where the cursor's timestamp, which carries no more than the text of a
  JavaScript date, no longer separates it from the last project of a page.
\<close>

subsection \<open>The sorted table\<close>

lemma filter_newest_first: "filter p (newest_first rs) = newest_first (filter p rs)"
  by (simp add: newest_first_def filter_sort flip: rev_filter)

lemma set_newest_first [simp]: "set (newest_first rs) = set rs"
  by (simp add: newest_first_def)

lemma length_newest_first [simp]: "length (newest_first rs) = length rs"
  by (simp add: newest_first_def)

definition newest_order :: "project_row list \<Rightarrow> bool" where
  "newest_order rs \<longleftrightarrow> sorted_wrt (\<lambda>a b. project_order b < project_order a) rs"

lemma newest_first_strict:
  assumes "distinct (map project_order rs)"
  shows "newest_order (newest_first rs)"
proof -
  have "sorted (map project_order (sort_key project_order rs))" by simp
  moreover have "distinct (map project_order (sort_key project_order rs))"
    using assms by (metis distinct_map distinct_sort set_sort)
  ultimately have "sorted_wrt (<) (map project_order (sort_key project_order rs))"
    by (simp add: strict_sorted_iff)
  then show ?thesis
    by (simp add: newest_order_def newest_first_def sorted_wrt_rev sorted_wrt_map)
qed

text \<open>The rows after the j-th are exactly those below its key.\<close>

lemma below_is_drop:
  assumes "newest_order xs" and "0 < j" and "j \<le> length xs"
  shows "filter (\<lambda>r. project_order r < project_order (xs ! (j - 1))) xs = drop j xs"
proof -
  let ?k = "project_order (xs ! (j - 1))"
  have lt: "project_order (xs ! q) < project_order (xs ! p)" if "p < q" "q < length xs" for p q
    using assms(1) that by (simp add: newest_order_def sorted_wrt_iff_nth_less)
  have "\<not> project_order r < ?k" if mem: "r \<in> set (take j xs)" for r
  proof -
    obtain p where "p < length (take j xs)" "take j xs ! p = r"
      using mem unfolding in_set_conv_nth by blast
    then have p: "p < j" "p < length xs" "r = xs ! p" by simp_all
    show ?thesis
    proof (cases "p = j - 1")
      case True
      then show ?thesis by (simp add: p)
    next
      case False
      then have "?k < project_order r" using p assms lt [of p "j - 1"] by simp
      then show ?thesis by simp
    qed
  qed
  moreover have "project_order r < ?k" if mem: "r \<in> set (drop j xs)" for r
  proof -
    obtain q where "q < length (drop j xs)" "drop j xs ! q = r"
      using mem unfolding in_set_conv_nth by blast
    then have q: "j + q < length xs" "r = xs ! (j + q)" using assms(3) by auto
    show ?thesis using lt [of "j - 1" "j + q"] q assms by simp
  qed
  ultimately have "filter (\<lambda>r. project_order r < ?k) (take j xs @ drop j xs) = drop j xs"
    unfolding filter_append by (simp add: filter_False filter_True)
  then show ?thesis by simp
qed

text \<open>The rows below any key are the end of the list, not before those after a row above it.\<close>

lemma below_is_suffix:
  assumes "newest_order xs"
  shows "\<exists>j\<le>length xs. filter (\<lambda>r. project_order r < k) xs = drop j xs"
  using assms
proof (induction xs)
  case Nil
  then show ?case by simp
next
  case (Cons a xs)
  show ?case
  proof (cases "project_order a < k")
    case True
    then have "filter (\<lambda>r. project_order r < k) (a # xs) = drop 0 (a # xs)"
      using Cons.prems unfolding newest_order_def by (auto intro!: filter_True)
    then show ?thesis by blast
  next
    case False
    obtain j where "j \<le> length xs" "filter (\<lambda>r. project_order r < k) xs = drop j xs"
      using Cons unfolding newest_order_def by auto
    then show ?thesis using False by (intro exI [of _ "Suc j"]) simp
  qed
qed

lemma below_starts_after:
  assumes ord: "newest_order xs" and j: "0 < j" "j \<le> length xs"
    and k: "k \<le> project_order (xs ! (j - 1))"
  shows "\<exists>i\<le>length xs. j \<le> i \<and> filter (\<lambda>r. project_order r < k) xs = drop i xs"
proof -
  have "filter (\<lambda>r. project_order r < k) xs = filter (\<lambda>r. project_order r < k)
      (filter (\<lambda>r. project_order r < project_order (xs ! (j - 1))) xs)"
    using k by (auto intro!: filter_cong)
  also have "\<dots> = filter (\<lambda>r. project_order r < k) (drop j xs)"
    by (simp only: below_is_drop [OF ord j])
  finally have f: "filter (\<lambda>r. project_order r < k) xs = filter (\<lambda>r. project_order r < k) (drop j xs)" .
  have "newest_order (drop j xs)"
    using ord unfolding newest_order_def by (rule sorted_wrt_drop)
  then obtain i where "i \<le> length (drop j xs)" "filter (\<lambda>r. project_order r < k) (drop j xs) = drop i (drop j xs)"
    using below_is_suffix by blast
  then show ?thesis using f j(2) by (intro exI [of _ "i + j"]) auto
qed

subsection \<open>One page\<close>

definition tenant_projects :: "state \<Rightarrow> project_row list" where
  "tenant_projects s = newest_first (filter (\<lambda>r. visible (st_conn s) (project_tenant_id r)) (projects (st_db s)))"

definition page_of :: "codec \<Rightarrow> nat \<Rightarrow> project_row list \<Rightarrow> list_result" where
  "page_of cod limit rows =
     (if length rows > limit
      then \<lparr>lr_data = map project_view_of (take limit rows),
            lr_next_cursor = Some (encode_cursor cod (project_view_of (rows ! (limit - 1))))\<rparr>
      else \<lparr>lr_data = map project_view_of rows, lr_next_cursor = None\<rparr>)"

lemma page_run:
  assumes "0 < limit"
  shows "(let views = map project_view_of (take (limit + 1) rows) in
       if length views > limit then
         (if limit = 0 then throw (OtherError m)
          else ret \<lparr>lr_data = take limit views,
                    lr_next_cursor = Some (encode_cursor cod (views ! (limit - 1)))\<rparr>)
       else ret \<lparr>lr_data = views, lr_next_cursor = None\<rparr>) = ret (page_of cod limit rows)"
  using assms by (auto simp: page_of_def take_map Let_def min_def)

lemma list_first_page:
  assumes "live s" and "0 < limit"
  shows "list_projects cod None limit s = (Inr (page_of cod limit (tenant_projects s)), s)"
proof -
  have "exec (q_list_projects cod None (limit + 1)) s = (Inr (take (limit + 1) (tenant_projects s)), s)"
    using assms(1) by (simp add: exec_live q_list_projects_def tenant_projects_def)
  then show ?thesis
    by (simp only: list_projects_def lift_sum_def bnd_def option.case prod.case sum.case
        page_run [OF assms(2)] ret_def)
qed

text \<open>What a cursor asks for: the rows below the key it was made of, as the cast reads it.\<close>

lemma list_next_page:
  assumes l: "live s" and lim: "0 < limit"
    and cod: "render_ts cod (pv_created_at r) \<noteq> []" "date_parse_ok cod (render_ts cod (pv_created_at r))"
      "cast_ts cod (render_ts cod (pv_created_at r)) = Some t"
  shows "list_projects cod (Some (encode_cursor cod r)) limit s =
    (Inr (page_of cod limit (filter (\<lambda>q. project_order q < (t, pv_id r)) (tenant_projects s))), s)"
proof -
  let ?b = "(render_ts cod (pv_created_at r), uuid_out (pv_id r))"
  have "exec (q_list_projects cod (Some ?b) (limit + 1)) s =
      (Inr (take (limit + 1) (filter (\<lambda>q. project_order q < (t, pv_id r)) (tenant_projects s))), s)"
    using l by (simp add: exec_live q_list_projects_def tenant_projects_def uuid_in_out cod
        filter_newest_first conj_commute)
  then show ?thesis
    by (simp only: list_projects_def lift_sum_def bnd_def option.case prod.case sum.case
        encode_cursor_ne if_False decode_encode_cursor [OF cod(1,2)] page_run [OF lim] ret_def)
qed

lemma list_cast_fails:
  assumes l: "live s"
    and cod: "render_ts cod (pv_created_at r) \<noteq> []" "date_parse_ok cod (render_ts cod (pv_created_at r))"
      "cast_ts cod (render_ts cod (pv_created_at r)) = None"
  shows "list_projects cod (Some (encode_cursor cod r)) limit s =
    (Inl (SqlError InvalidText), s\<lparr>st_conn := abort_tx (st_conn s)\<rparr>)"
  using l by (simp add: list_projects_def lift_sum_def bnd_def encode_cursor_ne
      decode_encode_cursor [OF cod(1,2)] exec_live q_list_projects_def cod(3))

lemma newest_order_append:
  "newest_order (xs @ ys) \<longleftrightarrow> newest_order xs \<and> newest_order ys \<and>
    (\<forall>a\<in>set xs. \<forall>b\<in>set ys. project_order b < project_order a)"
  by (simp add: newest_order_def sorted_wrt_append)

lemma newest_order_drop: "newest_order xs \<Longrightarrow> newest_order (drop j xs)"
  unfolding newest_order_def by (rule sorted_wrt_drop)

subsection \<open>Following the cursors\<close>

text \<open>The client's loop, with a bound on the number of requests.\<close>

fun collect_pages :: "codec \<Rightarrow> nat \<Rightarrow> string option \<Rightarrow> nat \<Rightarrow> project_view list io" where
  "collect_pages cod 0 cursor limit = ret []"
| "collect_pages cod (Suc n) cursor limit =
     bnd (list_projects cod cursor limit) (\<lambda>p.
       case lr_next_cursor p of
         None \<Rightarrow> ret (lr_data p)
       | Some c \<Rightarrow> bnd (collect_pages cod n (Some c) limit) (\<lambda>rest. ret (lr_data p @ rest)))"

text \<open>
  What the driver, the JavaScript date and the cast do to a timestamp: the text is never empty
  and always a date, and where the cast reads it, it reads the last full unit (one microsecond
  for a text that carries the column exactly, a thousand for ISO text, a million for the text
  of a date).
\<close>

definition carries_units :: "codec \<Rightarrow> int \<Rightarrow> bool" where
  "carries_units cod u \<longleftrightarrow> 0 < u \<and> (\<forall>t. render_ts cod t \<noteq> [] \<and> date_parse_ok cod (render_ts cod t) \<and>
     (case cast_ts cod (render_ts cod t) of None \<Rightarrow> True | Some t' \<Rightarrow> t' = t div u * u))"

text \<open>A project at or above the key that the cursor of an earlier project is read as.\<close>

definition cursor_passes :: "int \<Rightarrow> project_row \<Rightarrow> project_row \<Rightarrow> bool" where
  "cursor_passes u r q \<longleftrightarrow> project_order q < project_order r \<and>
     \<not> project_order q < (project_created_at r div u * u, project_id r)"

lemma cursor_passes_unit: "cursor_passes u r q \<Longrightarrow> 0 < u \<Longrightarrow> project_created_at q div u = project_created_at r div u"
proof -
  assume c: "cursor_passes u r q" and u: "0 < u"
  have le: "project_created_at r div u * u \<le> project_created_at q" "project_created_at q \<le> project_created_at r"
    using c by (auto simp: cursor_passes_def project_order_def not_less)
  have "project_created_at r div u \<le> project_created_at q div u"
    using le(1) zdiv_mono1 [OF le(1) u] u by simp
  then show ?thesis using zdiv_mono1 [OF le(2) u] by simp
qed

lemma cursor_passes_exact [simp]: "\<not> cursor_passes 1 r q"
  by (auto simp: cursor_passes_def project_order_def)

text \<open>One page and the rest: what the loop returns, by induction on the bound.\<close>

definition pages_ok :: "codec \<Rightarrow> int \<Rightarrow> state \<Rightarrow> project_row list \<Rightarrow> (exn + project_view list) \<times> state \<Rightarrow> bool" where
  "pages_ok cod u s L res \<longleftrightarrow> (case res of
       (Inl e, s') \<Rightarrow> e = SqlError InvalidText \<and> st_db s' = st_db s \<and>
         (\<exists>r\<in>set L. cast_ts cod (render_ts cod (project_created_at r)) = None)
     | (Inr views, s') \<Rightarrow> s' = s \<and> (\<exists>rows. views = map project_view_of rows \<and> newest_order rows \<and> set rows \<subseteq> set L \<and>
         (\<forall>q\<in>set L - set rows. \<exists>r\<in>set rows. cursor_passes u r q)))"

lemma pages_ok_last: "newest_order L \<Longrightarrow> pages_ok cod u s L (Inr (map project_view_of L), s)"
  by (auto simp: pages_ok_def)

lemma pages_ok_more:
  assumes ok: "pages_ok cod u s (drop i L) (res, s')"
    and M: "newest_order M" "M = front @ back" "set (drop i L) \<subseteq> set back" and r: "r \<in> set front"
    and gap: "\<And>q. q \<in> set M \<Longrightarrow> q \<notin> set front \<Longrightarrow> q \<notin> set (drop i L) \<Longrightarrow> cursor_passes u r q"
  shows "pages_ok cod u s M (case res of Inl e \<Rightarrow> Inl e | Inr vs \<Rightarrow> Inr (map project_view_of front @ vs), s')"
proof (cases res)
  case (Inl e)
  then show ?thesis using ok M by (auto simp: pages_ok_def)
next
  case (Inr vs)
  obtain rows where rows: "vs = map project_view_of rows" "newest_order rows" "set rows \<subseteq> set (drop i L)" "s' = s"
      "\<forall>q\<in>set (drop i L) - set rows. \<exists>r\<in>set rows. cursor_passes u r q"
    using ok Inr by (auto simp: pages_ok_def)
  have "\<exists>r\<in>set (front @ rows). cursor_passes u r q" if "q \<in> set M - set (front @ rows)" for q
    using that rows(5) r gap [of q] by (cases "q \<in> set (drop i L)") auto
  moreover have "newest_order (front @ rows)" "set (front @ rows) \<subseteq> set M"
    using M rows(2,3) by (auto simp: newest_order_append)
  ultimately show ?thesis
    using Inr rows(1,4) unfolding pages_ok_def by (auto intro!: exI [of _ "front @ rows"])
qed

lemma collect_from:
  assumes l: "live s" and lim: "0 < limit" and ord: "newest_order (tenant_projects s)"
    and cod: "carries_units cod u"
    and j: "j \<le> length (tenant_projects s)" and n: "length (tenant_projects s) - j < n"
    and page: "list_projects cod cursor limit s = (Inr (page_of cod limit (drop j (tenant_projects s))), s)"
  shows "pages_ok cod u s (drop j (tenant_projects s)) (collect_pages cod n cursor limit s)"
  using j n page
proof (induction n arbitrary: j cursor)
  case 0
  then show ?case by simp
next
  case (Suc n)
  let ?L = "tenant_projects s"
  show ?case
  proof (cases "length (drop j ?L) > limit")
    case False
    then have "collect_pages cod (Suc n) cursor limit s = (Inr (map project_view_of (drop j ?L)), s)"
      using Suc.prems(3) by (simp add: bnd_def page_of_def ret_def)
    then show ?thesis using newest_order_drop [OF ord] by (simp only: pages_ok_last)
  next
    case True
    let ?k = "j + limit" and ?r = "drop j ?L ! (limit - 1)" and ?front = "take limit (drop j ?L)"
    let ?c = "encode_cursor cod (project_view_of ?r)"
    have k: "0 < ?k" "?k \<le> length ?L" using True lim by simp_all
    have r: "?r = ?L ! (?k - 1)" using True lim by (simp add: add.commute)
    have front: "?front ! (limit - 1) = ?r" "limit - 1 < length ?front" using True lim by simp_all
    then have rf: "?r \<in> set ?front" by (metis nth_mem)
    then have rL: "?r \<in> set (drop j ?L)" by (rule in_set_takeD)
    have parts: "drop j ?L = ?front @ drop ?k ?L"
      by (metis add.commute append_take_drop_id drop_drop)
    have step: "collect_pages cod (Suc n) cursor limit s =
        (case collect_pages cod n (Some ?c) limit s of (res, s') \<Rightarrow>
          (case res of Inl e \<Rightarrow> Inl e | Inr vs \<Rightarrow> Inr (map project_view_of ?front @ vs), s'))"
      using Suc.prems(3) True by (simp add: bnd_def page_of_def ret_def split: prod.split sum.split)
    have words: "render_ts cod (pv_created_at (project_view_of ?r)) \<noteq> []"
      "date_parse_ok cod (render_ts cod (pv_created_at (project_view_of ?r)))"
      using cod by (simp_all add: carries_units_def)
    show ?thesis
    proof (cases "cast_ts cod (render_ts cod (pv_created_at (project_view_of ?r)))")
      case None
      obtain m where m: "n = Suc m" using Suc.prems(2) True by (cases n) simp_all
      have "collect_pages cod n (Some ?c) limit s = (Inl (SqlError InvalidText), s\<lparr>st_conn := abort_tx (st_conn s)\<rparr>)"
        using list_cast_fails [OF l words None] by (simp add: m bnd_def)
      then show ?thesis
        unfolding step using None rL by (auto simp: pages_ok_def project_view_of_def)
    next
      case (Some t)
      let ?t = "project_created_at ?r div u * u"
      have t: "t = ?t" using cod Some by (auto simp: carries_units_def project_view_of_def split: option.splits)
      have u: "0 < u" using cod by (simp add: carries_units_def)
      have "(?t, project_id ?r) \<le> project_order ?r"
        using u by (auto simp: project_order_def less_eq_prod_def less_le minus_mod_eq_div_mult [symmetric])
      then obtain i where i: "i \<le> length ?L" "?k \<le> i"
          "filter (\<lambda>q. project_order q < (?t, project_id ?r)) ?L = drop i ?L"
        using below_starts_after [OF ord k] unfolding r by blast
      have "list_projects cod (Some ?c) limit s = (Inr (page_of cod limit (drop i ?L)), s)"
        using list_next_page [OF l lim words Some] i(3) by (simp add: t project_view_of_def)
      then have ih: "pages_ok cod u s (drop i ?L) (collect_pages cod n (Some ?c) limit s)"
        using Suc.IH [of i] i(1,2) Suc.prems(1,2) lim True by simp
      obtain res s' where run: "collect_pages cod n (Some ?c) limit s = (res, s')" by force
      have tail: "set (drop i ?L) \<subseteq> set (drop ?k ?L)" by (rule set_drop_subset_set_drop) (use i(2) in simp)
      show ?thesis
        unfolding step run prod.case
      proof (rule pages_ok_more [OF ih [unfolded run] newest_order_drop [OF ord] parts tail rf])
        show "cursor_passes u ?r q" if q: "q \<in> set (drop j ?L)" "q \<notin> set ?front" "q \<notin> set (drop i ?L)" for q
        proof -
          have "q \<in> set (drop ?k ?L)" using q(1,2) parts by (metis Un_iff set_append)
          then have "q \<in> set (filter (\<lambda>q. project_order q < project_order ?r) ?L)"
            unfolding r by (simp only: below_is_drop [OF ord k])
          then have "project_order q < project_order ?r" "q \<in> set ?L" by simp_all
          moreover have "\<not> project_order q < (?t, project_id ?r)"
            using q(3) \<open>q \<in> set ?L\<close> unfolding i(3) [symmetric] by simp
          ultimately show ?thesis by (simp add: cursor_passes_def)
        qed
      qed
    qed
  qed
qed

text \<open>
  A codec that is exact everywhere (the sign and the length of the rendered text carry the
  value), for the examples.
\<close>

definition sample_codec :: codec where
  "sample_codec =
     \<lparr>render_ts = (\<lambda>t. (if t < 0 then CHR ''-'' else CHR ''+'') # replicate (nat \<bar>t\<bar>) (CHR ''1'')),
      date_parse_ok = (\<lambda>s. s \<noteq> []),
      cast_ts = (\<lambda>s. case s of [] \<Rightarrow> None
        | c # ds \<Rightarrow> Some (if c = CHR ''-'' then - int (length ds) else int (length ds)))\<rparr>"

lemma sample_codec_exact [simp]: "exact_on sample_codec t"
  by (simp add: exact_on_def sample_codec_def)

end
