(* ===== verification/Exports.thy ===== *)
theory Exports
  imports Team
begin

text \<open>
  \<^verbatim>\<open>src/exports/export.service.ts\<close>: all rows of every tenant-scoped table, as the request's
  tenant connection sees them, without the columns that hold secrets.
\<close>

datatype col_value =
    CUuid uuid | CText string | CTime timestamptz | CBool bool | CRole role
  | CJson "(string \<times> string) list" | CNull

type_synonym row_object = "(string \<times> col_value) list"

definition opt_col :: "('a \<Rightarrow> col_value) \<Rightarrow> 'a option \<Rightarrow> col_value" where
  "opt_col f x = (case x of None \<Rightarrow> CNull | Some a \<Rightarrow> f a)"

text \<open>\<^verbatim>\<open>SELECT *\<close>: the columns of each table, in the order of the schema.\<close>

definition user_columns :: "user_row \<Rightarrow> row_object" where
  "user_columns r = [(''id'', CUuid (user_id r)), (''tenant_id'', CUuid (user_tenant_id r)),
     (''email'', CText (user_email r)), (''password_hash'', CText (user_password_hash r)),
     (''role'', CRole (user_role r)), (''email_verified'', CBool (user_email_verified r)),
     (''created_at'', CTime (user_created_at r))]"

definition project_columns :: "project_row \<Rightarrow> row_object" where
  "project_columns r = [(''id'', CUuid (project_id r)), (''tenant_id'', CUuid (project_tenant_id r)),
     (''name'', CText (project_name r)), (''description'', opt_col CText (project_description r)),
     (''status'', CText (project_status r)), (''created_at'', CTime (project_created_at r)),
     (''updated_at'', CTime (project_updated_at r))]"

definition audit_columns :: "audit_row \<Rightarrow> row_object" where
  "audit_columns r = [(''id'', CUuid (audit_id r)), (''tenant_id'', CUuid (audit_tenant_id r)),
     (''actor_user_id'', opt_col CUuid (audit_actor_user_id r)), (''action'', CText (audit_action r)),
     (''target'', opt_col CText (audit_target r)), (''metadata'', opt_col CJson (audit_metadata r)),
     (''created_at'', CTime (audit_created_at r))]"

definition refresh_token_columns :: "refresh_token_row \<Rightarrow> row_object" where
  "refresh_token_columns r = [(''id'', CUuid (rt_id r)), (''tenant_id'', CUuid (rt_tenant_id r)),
     (''user_id'', CUuid (rt_user_id r)), (''hashed_token'', CText (rt_hashed_token r)),
     (''family_id'', CUuid (rt_family_id r)), (''used_at'', opt_col CTime (rt_used_at r)),
     (''revoked_at'', opt_col CTime (rt_revoked_at r)), (''expires_at'', CTime (rt_expires_at r)),
     (''created_at'', CTime (rt_created_at r))]"

definition invitation_columns :: "invitation_row \<Rightarrow> row_object" where
  "invitation_columns r = [(''id'', CUuid (inv_id r)), (''tenant_id'', CUuid (inv_tenant_id r)),
     (''email'', CText (inv_email r)), (''role'', CRole (inv_role r)),
     (''hashed_token'', CText (inv_hashed_token r)), (''expires_at'', CTime (inv_expires_at r)),
     (''consumed_at'', opt_col CTime (inv_consumed_at r)), (''created_at'', CTime (inv_created_at r))]"

definition auth_token_columns :: "auth_token_row \<Rightarrow> row_object" where
  "auth_token_columns r = [(''id'', CUuid (at_id r)), (''tenant_id'', CUuid (at_tenant_id r)),
     (''user_id'', CUuid (at_user_id r)), (''type'', CText (at_type r)),
     (''hashed_token'', CText (at_hashed_token r)), (''expires_at'', CTime (at_expires_at r)),
     (''consumed_at'', opt_col CTime (at_consumed_at r)), (''created_at'', CTime (at_created_at r))]"

definition subscription_columns :: "subscription_row \<Rightarrow> row_object" where
  "subscription_columns r = [(''id'', CUuid (subs_id r)), (''tenant_id'', CUuid (subs_tenant_id r)),
     (''stripe_subscription_id'', opt_col CText (subs_stripe_subscription_id r)),
     (''status'', CText (subs_status r)), (''plan'', CText (subs_plan r)),
     (''current_period_end'', opt_col CTime (subs_current_period_end r)),
     (''updated_at'', CTime (subs_updated_at r))]"

definition api_key_columns :: "api_key_row \<Rightarrow> row_object" where
  "api_key_columns r = [(''id'', CUuid (ak_id r)), (''tenant_id'', CUuid (ak_tenant_id r)),
     (''name'', CText (ak_name r)), (''hashed_key'', CText (ak_hashed_key r)),
     (''last_used_at'', opt_col CTime (ak_last_used_at r)),
     (''revoked_at'', opt_col CTime (ak_revoked_at r)), (''created_at'', CTime (ak_created_at r))]"

text \<open>\<^verbatim>\<open>SELECT * FROM ${table}\<close> for the names of the registry.\<close>

definition select_all :: "string \<Rightarrow> row_object list io" where
  "select_all table =
     (if table = ''users'' then bnd (select_users (\<lambda>_. True)) (\<lambda>rs. ret (map user_columns rs))
      else if table = ''projects'' then bnd (select_projects (\<lambda>_. True)) (\<lambda>rs. ret (map project_columns rs))
      else if table = ''audit_log'' then
        bnd (exec (q_select audit_log audit_tenant_id (\<lambda>_. True))) (\<lambda>rs. ret (map audit_columns rs))
      else if table = ''refresh_tokens'' then
        bnd (select_refresh_tokens (\<lambda>_. True)) (\<lambda>rs. ret (map refresh_token_columns rs))
      else if table = ''invitations'' then
        bnd (select_invitations (\<lambda>_. True)) (\<lambda>rs. ret (map invitation_columns rs))
      else if table = ''auth_tokens'' then
        bnd (select_auth_tokens (\<lambda>_. True)) (\<lambda>rs. ret (map auth_token_columns rs))
      else if table = ''subscriptions'' then
        bnd (select_subscriptions (\<lambda>_. True)) (\<lambda>rs. ret (map subscription_columns rs))
      else if table = ''api_keys'' then
        bnd (select_api_keys (\<lambda>_. True)) (\<lambda>rs. ret (map api_key_columns rs))
      else throw (OtherError ''relation does not exist''))"

definition SECRET_COLUMNS :: "string list" where
  "SECRET_COLUMNS = [''password_hash'', ''hashed_token'', ''hashed_key'']"

definition strip_secrets :: "row_object \<Rightarrow> row_object" where
  "strip_secrets row = filter (\<lambda>(col, val). col \<notin> set SECRET_COLUMNS) row"

fun export_tables :: "string list \<Rightarrow> (string \<times> row_object list) list io" where
  "export_tables [] = ret []"
| "export_tables (table # tables) =
     bnd (select_all table) (\<lambda>rows.
     bnd (export_tables tables) (\<lambda>rest.
       ret ((table, map strip_secrets rows) # rest)))"

record tenant_export =
  te_generated_at :: js_ms
  te_tables :: "(string \<times> row_object list) list"

definition build_tenant_export :: "env \<Rightarrow> tenant_export io" where
  "build_tenant_export v =
     bnd (export_tables TENANT_SCOPED_TABLES) (\<lambda>tables.
       ret \<lparr>te_generated_at = js_now v, te_tables = tables\<rparr>)"

subsection \<open>What an export holds\<close>

text \<open>The rows of one table, all of them of one tenant, with their secrets removed.\<close>

definition rows_of :: "string \<Rightarrow> db \<Rightarrow> row_object list" where
  "rows_of table d =
     (if table = ''users'' then map user_columns (users d)
      else if table = ''projects'' then map project_columns (projects d)
      else if table = ''audit_log'' then map audit_columns (audit_log d)
      else if table = ''refresh_tokens'' then map refresh_token_columns (refresh_tokens d)
      else if table = ''invitations'' then map invitation_columns (invitations d)
      else if table = ''auth_tokens'' then map auth_token_columns (auth_tokens d)
      else if table = ''subscriptions'' then map subscription_columns (subscriptions d)
      else map api_key_columns (api_keys d))"

lemma select_all_simps:
  "select_all ''users'' = bnd (select_users (\<lambda>_. True)) (\<lambda>rs. ret (map user_columns rs))"
  "select_all ''projects'' = bnd (select_projects (\<lambda>_. True)) (\<lambda>rs. ret (map project_columns rs))"
  "select_all ''audit_log'' = bnd (exec (q_select audit_log audit_tenant_id (\<lambda>_. True))) (\<lambda>rs. ret (map audit_columns rs))"
  "select_all ''refresh_tokens'' = bnd (select_refresh_tokens (\<lambda>_. True)) (\<lambda>rs. ret (map refresh_token_columns rs))"
  "select_all ''invitations'' = bnd (select_invitations (\<lambda>_. True)) (\<lambda>rs. ret (map invitation_columns rs))"
  "select_all ''auth_tokens'' = bnd (select_auth_tokens (\<lambda>_. True)) (\<lambda>rs. ret (map auth_token_columns rs))"
  "select_all ''subscriptions'' = bnd (select_subscriptions (\<lambda>_. True)) (\<lambda>rs. ret (map subscription_columns rs))"
  "select_all ''api_keys'' = bnd (select_api_keys (\<lambda>_. True)) (\<lambda>rs. ret (map api_key_columns rs))"
  by (simp_all add: select_all_def)

lemma rows_of_simps:
  "rows_of ''users'' d = map user_columns (users d)"
  "rows_of ''projects'' d = map project_columns (projects d)"
  "rows_of ''audit_log'' d = map audit_columns (audit_log d)"
  "rows_of ''refresh_tokens'' d = map refresh_token_columns (refresh_tokens d)"
  "rows_of ''invitations'' d = map invitation_columns (invitations d)"
  "rows_of ''auth_tokens'' d = map auth_token_columns (auth_tokens d)"
  "rows_of ''subscriptions'' d = map subscription_columns (subscriptions d)"
  "rows_of ''api_keys'' d = map api_key_columns (api_keys d)"
  by (simp_all add: rows_of_def)

lemma select_own:
  assumes "live s" and "bound_to t (st_conn s)"
  shows "exec (q_select get ten (\<lambda>_. True)) s = (Inr (filter (\<lambda>r. ten r = t) (get (st_db s))), s)"
  using assms by (simp add: exec_select_live)

lemma tenant_view_sel:
  "users (tenant_view t d) = filter (\<lambda>r. user_tenant_id r = t) (users d)"
  "projects (tenant_view t d) = filter (\<lambda>r. project_tenant_id r = t) (projects d)"
  "audit_log (tenant_view t d) = filter (\<lambda>r. audit_tenant_id r = t) (audit_log d)"
  "refresh_tokens (tenant_view t d) = filter (\<lambda>r. rt_tenant_id r = t) (refresh_tokens d)"
  "invitations (tenant_view t d) = filter (\<lambda>r. inv_tenant_id r = t) (invitations d)"
  "auth_tokens (tenant_view t d) = filter (\<lambda>r. at_tenant_id r = t) (auth_tokens d)"
  "subscriptions (tenant_view t d) = filter (\<lambda>r. subs_tenant_id r = t) (subscriptions d)"
  "api_keys (tenant_view t d) = filter (\<lambda>r. ak_tenant_id r = t) (api_keys d)"
  by (simp_all add: tenant_view_def)

lemma select_all_view:
  assumes "live s" and "bound_to t (st_conn s)" and "table \<in> set TENANT_SCOPED_TABLES"
  shows "select_all table s = (Inr (rows_of table (tenant_view t (st_db s))), s)"
proof -
  note run = select_all_simps rows_of_simps bnd_def select_own [OF assms(1,2)] prod.case sum.case
    ret_def tenant_view_sel
  from assms(3) consider "table = ''users''" | "table = ''projects''" | "table = ''audit_log''"
    | "table = ''refresh_tokens''" | "table = ''invitations''" | "table = ''auth_tokens''"
    | "table = ''subscriptions''" | "table = ''api_keys''"
    unfolding TENANT_SCOPED_TABLES_def by force
  then show ?thesis
    by cases (simp_all only: run)
qed

lemma export_tables_view:
  assumes l: "live s" and b: "bound_to t (st_conn s)" and tabs: "set tabs \<subseteq> set TENANT_SCOPED_TABLES"
  shows "export_tables tabs s =
    (Inr (map (\<lambda>table. (table, map strip_secrets (rows_of table (tenant_view t (st_db s))))) tabs), s)"
  using tabs
proof (induction tabs)
  case Nil
  show ?case by (simp add: ret_def)
next
  case (Cons table tabs)
  have one: "select_all table s = (Inr (rows_of table (tenant_view t (st_db s))), s)"
    by (rule select_all_view [OF l b]) (use Cons.prems in simp)
  have rest: "export_tables tabs s =
    (Inr (map (\<lambda>table. (table, map strip_secrets (rows_of table (tenant_view t (st_db s))))) tabs), s)"
    by (rule Cons.IH) (use Cons.prems in simp)
  show ?case by (simp only: export_tables.simps run_steps one rest list.map)
qed

lemma build_tenant_export_run:
  assumes "live s" and "bound_to t (st_conn s)"
  shows "build_tenant_export v s =
    (Inr \<lparr>te_generated_at = js_now v,
          te_tables = map (\<lambda>table. (table, map strip_secrets (rows_of table (tenant_view t (st_db s)))))
            TENANT_SCOPED_TABLES\<rparr>, s)"
  by (simp add: build_tenant_export_def bnd_def export_tables_view [OF assms] ret_def)

lemma strip_secrets_no_secret: "(c, x) \<in> set (strip_secrets row) \<Longrightarrow> c \<notin> set SECRET_COLUMNS"
  by (auto simp: strip_secrets_def)

text \<open>Nothing else is dropped.\<close>

lemma strip_secrets_keeps: "(c, x) \<in> set row \<Longrightarrow> c \<notin> set SECRET_COLUMNS \<Longrightarrow> (c, x) \<in> set (strip_secrets row)"
  by (auto simp: strip_secrets_def)

end
