(* ===== verification/Routes.thy ===== *)
theory Routes
  imports Middleware Pagination Enforcement Exports
begin

text \<open>
  The tenant-scoped routes: \<^verbatim>\<open>src/routes/v1/projects.routes.ts\<close>, \<^verbatim>\<open>src/routes/v2/projects.routes.ts\<close>,
  \<^verbatim>\<open>src/routes/v1/apikey.routes.ts\<close> and \<^verbatim>\<open>src/routes/v1/export.routes.ts\<close>, with their body
  schemas. A call is the validated content of a request; ids are already parsed.
\<close>

datatype tenant_call =
    CreateProject string "string option"
  | ListProjects "string option" nat
  | GetProject uuid
  | UpdateProject uuid project_patch
  | DeleteProject uuid
  | V2Create string "string option"
  | V2List "string option" nat
  | V2Get uuid
  | CreateKey string
  | ListKeys
  | RevokeKey uuid
  | Export

text \<open>The v2 contract renames \<^verbatim>\<open>created_at\<close> to \<^verbatim>\<open>createdAt\<close> and wraps the page.\<close>

record project_v2 =
  v2_id :: uuid
  v2_name :: string
  v2_description :: "string option"
  v2_status :: string
  v2_createdAt :: timestamptz

record page_v2 =
  v2_items :: "project_v2 list"
  v2_next_cursor :: "string option"
  v2_limit :: nat

definition to_v2 :: "project_view \<Rightarrow> project_v2" where
  "to_v2 r = \<lparr>v2_id = pv_id r, v2_name = pv_name r, v2_description = pv_description r,
     v2_status = pv_status r, v2_createdAt = pv_created_at r\<rparr>"

datatype payload =
    PProject project_view
  | PProjects list_result
  | PProjectV2 project_v2
  | PProjectsV2 page_v2
  | PKey uuid string
  | PKeys "api_key_view list"
  | PExport tenant_export
  | PNone

subsection \<open>Body schemas\<close>

text \<open>\<^verbatim>\<open>src/routes/v1/projects.schemas.ts\<close> and \<^verbatim>\<open>createBody\<close> of the key routes.\<close>

definition valid_name :: "nat \<Rightarrow> string \<Rightarrow> bool" where
  "valid_name m s \<longleftrightarrow> 1 \<le> length s \<and> length s \<le> m"

definition valid_description :: "string option \<Rightarrow> bool" where
  "valid_description x = (case x of None \<Rightarrow> True | Some s \<Rightarrow> length s \<le> 2000)"

definition valid_patch :: "project_patch \<Rightarrow> bool" where
  "valid_patch p \<longleftrightarrow>
     (case pp_name p of None \<Rightarrow> True | Some n \<Rightarrow> valid_name 200 n) \<and>
     (case pp_description p of None \<Rightarrow> True | Some x \<Rightarrow> valid_description x) \<and>
     (case pp_status p of None \<Rightarrow> True | Some st \<Rightarrow> st = ''active'' \<or> st = ''archived'')"

abbreviation create_key_body :: "string \<Rightarrow> bool" where
  "create_key_body n \<equiv> valid_name 120 n"

fun valid_call :: "tenant_call \<Rightarrow> bool" where
  "valid_call (CreateProject n d) = (valid_name 200 n \<and> valid_description d)"
| "valid_call (ListProjects c l) = (1 \<le> l \<and> l \<le> 100)"
| "valid_call (GetProject i) = True"
| "valid_call (UpdateProject i p) = valid_patch p"
| "valid_call (DeleteProject i) = True"
| "valid_call (V2Create n d) = (valid_name 200 n \<and> valid_description d)"
| "valid_call (V2List c l) = (1 \<le> l \<and> l \<le> 100)"
| "valid_call (V2Get i) = True"
| "valid_call (CreateKey n) = create_key_body n"
| "valid_call ListKeys = True"
| "valid_call (RevokeKey i) = True"
| "valid_call Export = True"

subsection \<open>Handlers\<close>

text \<open>
  The write guard of the v1 project routes: the billing state is read on the owner pool; the
  plan is handed on for the quota check.
\<close>

definition enforce_write :: "conn \<Rightarrow> actor \<Rightarrow> string io" where
  "enforce_write owner a =
     bnd (on_pool owner (get_billing_state (actor_tenant_id a))) (\<lambda>billing.
     andthen (lift_sum (assert_write_allowed (bs_status billing))) (ret (bs_plan billing)))"

definition require_admin :: "actor \<Rightarrow> unit io" where
  "require_admin a = lift_sum (require_role (actor_role a) Admin)"

text \<open>\<^verbatim>\<open>/v1/projects\<close>\<close>

definition v1_create :: "conn \<Rightarrow> env \<Rightarrow> string \<Rightarrow> string option \<Rightarrow> actor \<Rightarrow> (nat \<times> payload) io" where
  "v1_create owner v n d a =
     bnd (enforce_write owner a) (\<lambda>plan.
     andthen (assert_project_quota plan)
    (bnd (create_project v a n d) (\<lambda>row. ret (201, PProject row))))"

definition v1_list :: "codec \<Rightarrow> string option \<Rightarrow> nat \<Rightarrow> (nat \<times> payload) io" where
  "v1_list cod c l = bnd (list_projects cod c l) (\<lambda>p. ret (200, PProjects p))"

definition v1_get :: "uuid \<Rightarrow> (nat \<times> payload) io" where
  "v1_get i = bnd (get_project i) (\<lambda>row. ret (200, PProject row))"

definition v1_update :: "conn \<Rightarrow> env \<Rightarrow> uuid \<Rightarrow> project_patch \<Rightarrow> actor \<Rightarrow> (nat \<times> payload) io" where
  "v1_update owner v i p a =
     andthen (enforce_write owner a)
    (bnd (update_project v a i p) (\<lambda>row. ret (200, PProject row)))"

definition v1_delete :: "conn \<Rightarrow> env \<Rightarrow> uuid \<Rightarrow> actor \<Rightarrow> (nat \<times> payload) io" where
  "v1_delete owner v i a =
     andthen (enforce_write owner a) (andthen (delete_project v a i) (ret (204, PNone)))"

text \<open>\<^verbatim>\<open>/v2/projects\<close>: the same services, no enforcement.\<close>

definition v2_create :: "env \<Rightarrow> string \<Rightarrow> string option \<Rightarrow> actor \<Rightarrow> (nat \<times> payload) io" where
  "v2_create v n d a = bnd (create_project v a n d) (\<lambda>row. ret (201, PProjectV2 (to_v2 row)))"

definition v2_list :: "codec \<Rightarrow> string option \<Rightarrow> nat \<Rightarrow> (nat \<times> payload) io" where
  "v2_list cod c l =
     bnd (list_projects cod c l) (\<lambda>p.
       ret (200, PProjectsV2 \<lparr>v2_items = map to_v2 (lr_data p), v2_next_cursor = lr_next_cursor p,
                              v2_limit = l\<rparr>))"

definition v2_get :: "uuid \<Rightarrow> (nat \<times> payload) io" where
  "v2_get i = bnd (get_project i) (\<lambda>row. ret (200, PProjectV2 (to_v2 row)))"

text \<open>\<^verbatim>\<open>/v1/api-keys\<close>: the list takes any role.\<close>

definition key_create :: "ext \<Rightarrow> env \<Rightarrow> string \<Rightarrow> actor \<Rightarrow> (nat \<times> payload) io" where
  "key_create x v n a =
     andthen (require_admin a)
    (bnd (create_api_key x v a n) (\<lambda>(i, key). ret (201, PKey i key)))"

definition key_list :: "(nat \<times> payload) io" where
  "key_list = bnd list_api_keys (\<lambda>ks. ret (200, PKeys ks))"

definition key_revoke :: "env \<Rightarrow> uuid \<Rightarrow> actor \<Rightarrow> (nat \<times> payload) io" where
  "key_revoke v i a =
     andthen (require_admin a) (andthen (revoke_api_key v a i) (ret (204, PNone)))"

text \<open>\<^verbatim>\<open>/v1/exports\<close>\<close>

definition export_create :: "env \<Rightarrow> actor \<Rightarrow> (nat \<times> payload) io" where
  "export_create v a =
     andthen (require_admin a)
    (bnd (build_tenant_export v) (\<lambda>archive.
     andthen (insert_audit (audit_entry v (new_id v 0) (actor_tenant_id a) (Some (actor_user_id a))
        ''tenant.exported'' (uuid_out (actor_tenant_id a)) None))
       (ret (200, PExport archive))))"

lemmas route_defs = v1_create_def v1_list_def v1_get_def v1_update_def v1_delete_def
  v2_create_def v2_list_def v2_get_def key_create_def key_list_def key_revoke_def export_create_def

fun route_handler ::
  "ext \<Rightarrow> codec \<Rightarrow> conn \<Rightarrow> env \<Rightarrow> tenant_call \<Rightarrow> actor \<Rightarrow> (nat \<times> payload) io" where
  "route_handler x cod owner v (CreateProject n d) a = v1_create owner v n d a"
| "route_handler x cod owner v (ListProjects c l) a = v1_list cod c l"
| "route_handler x cod owner v (GetProject i) a = v1_get i"
| "route_handler x cod owner v (UpdateProject i p) a = v1_update owner v i p a"
| "route_handler x cod owner v (DeleteProject i) a = v1_delete owner v i a"
| "route_handler x cod owner v (V2Create n d) a = v2_create v n d a"
| "route_handler x cod owner v (V2List c l) a = v2_list cod c l"
| "route_handler x cod owner v (V2Get i) a = v2_get i"
| "route_handler x cod owner v (CreateKey n) a = key_create x v n a"
| "route_handler x cod owner v ListKeys a = key_list"
| "route_handler x cod owner v (RevokeKey i) a = key_revoke v i a"
| "route_handler x cod owner v Export a = export_create v a"

text \<open>A request on one of these routes by an authenticated actor that the limiter admits.\<close>

definition serve ::
  "ext \<Rightarrow> codec \<Rightarrow> conn \<Rightarrow> env \<Rightarrow> string \<Rightarrow> bool \<Rightarrow> actor \<Rightarrow> tenant_call \<Rightarrow> state \<Rightarrow>
   payload reply \<times> state" where
  "serve x cod owner v rid commit_fails a call =
     tenant_request rid commit_fails owner (valid_call call) (ret a) (\<lambda>_. ret ())
       (route_handler x cod owner v call)"

end
