(* ===== verification/Isolation.thy ===== *)
theory Isolation
  imports Routes Integrity
begin

text \<open>
  Tenant isolation. Integrity: what a tenant's request leaves of the other tenants' rows.
  Confidentiality: two databases that agree on what a tenant may see give the same replies.
  Both are composed along the handlers; the interface of the tables extends
  \<open>tenant_table\<close> by what an insert needs.
\<close>

subsection \<open>What the routes are built from\<close>

text \<open>
  The statements the tenant routes run, as an interface: a preorder on states that each of
  them respects is respected by every handler. Inserted rows take their ids from \<open>ids\<close> and
  their key hashes from \<open>hashes\<close>.
\<close>

definition own_ids :: "env \<Rightarrow> uuid set" where
  "own_ids v = {new_id v 0, new_id v 1}"

locale route_statements = state_order R
  for R :: "state \<Rightarrow> state \<Rightarrow> bool" +
  fixes ids :: "uuid set" and hashes :: "string set"
  assumes st_select_projects: "tracks R (select_projects pp)"
    and st_insert_project: "project_id row \<in> ids \<Longrightarrow> tracks R (insert_project row)"
    and st_update_projects: "(\<And>r. project_key (f r) = project_key r) \<Longrightarrow>
      tracks R (exec (q_update_returning pp f))"
    and st_delete_projects: "tracks R (delete_projects pp)"
    and st_list_projects: "tracks R (exec (q_list_projects cod bound lim))"
    and st_insert_audit: "audit_id arow \<in> ids \<Longrightarrow> tracks R (insert_audit arow)"
    and st_select_keys: "tracks R (select_api_keys pk)"
    and st_insert_key: "ak_id krow \<in> ids \<Longrightarrow> ak_hashed_key krow \<in> hashes \<Longrightarrow> tracks R (insert_api_key krow)"
    and st_update_keys: "(\<And>r. ak_key (g r) = ak_key r) \<Longrightarrow> tracks R (update_api_keys pk g)"
    and st_select_all: "tracks R (select_all table)"
    and st_enforce: "tracks R (enforce_write owner a)"
begin

lemma tr_audit: "i \<in> ids \<Longrightarrow> tracks R (audit v i a ac target)"
  by (simp add: audit_def st_insert_audit)

lemma tr_create:
  assumes "own_ids v \<subseteq> ids"
  shows "tracks R (create_project v a n d)"
proof -
  have "new_id v 0 \<in> ids" "new_id v 1 \<in> ids" using assms by (auto simp: own_ids_def)
  then show ?thesis
    unfolding create_project_def Let_def
    by (intro tracks_intros st_insert_project tr_audit) (simp_all add: new_project_def)
qed

lemma tr_get: "tracks R (get_project i)"
  unfolding get_project_def by (intro tracks_intros st_select_projects tx_kept_if_option)

lemma tr_list: "tracks R (list_projects cod c l)"
  unfolding list_projects_def Let_def by (intro tracks_intros st_list_projects tracks_if)

lemma patch_key: "project_key (apply_patch v p r) = project_key r"
  by (simp add: project_key_def apply_patch_def)

lemma tr_update:
  assumes "own_ids v \<subseteq> ids"
  shows "tracks R (update_project v a i p)"
proof -
  have "new_id v 0 \<in> ids" "new_id v 1 \<in> ids" using assms by (auto simp: own_ids_def)
  then show ?thesis
    unfolding update_project_def
    by (intro tracks_intros st_update_projects tr_get tracks_if tx_kept_if_option tr_audit patch_key)
qed

lemma tr_delete:
  assumes "own_ids v \<subseteq> ids"
  shows "tracks R (delete_project v a i)"
proof -
  have "new_id v 0 \<in> ids" "new_id v 1 \<in> ids" using assms by (auto simp: own_ids_def)
  then show ?thesis
    unfolding delete_project_def by (intro tracks_intros st_delete_projects tracks_if tr_audit)
qed

lemma tr_quota: "tracks R (assert_project_quota plan)"
  by (cases "plan_quota plan")
    (simp_all add: assert_project_quota_def tracks_intros st_select_projects)

lemma tr_create_key:
  assumes "own_ids v \<subseteq> ids" and "hash_key x (''tf_'' @ rnd_key v) \<in> hashes"
  shows "tracks R (create_api_key x v a n)"
proof -
  have "new_id v 0 \<in> ids" "new_id v 1 \<in> ids" using assms by (auto simp: own_ids_def)
  then show ?thesis
    unfolding create_api_key_def Let_def using assms(2)
    by (intro tracks_intros st_insert_key st_insert_audit) (simp_all add: new_api_key_def)
qed

lemma tr_list_keys: "tracks R list_api_keys"
  unfolding list_api_keys_def by (intro tracks_intros st_select_keys)

lemma tr_revoke:
  assumes "own_ids v \<subseteq> ids"
  shows "tracks R (revoke_api_key v a i)"
proof -
  have "new_id v 0 \<in> ids" "new_id v 1 \<in> ids" using assms by (auto simp: own_ids_def)
  then show ?thesis
    unfolding revoke_api_key_def
    by (intro tracks_intros st_update_keys tracks_if st_insert_audit) (simp_all add: ak_key_def)
qed

lemma tr_export_tables: "tracks R (export_tables tabs)"
  by (induction tabs) (auto intro!: tracks_intros st_select_all)

lemma tr_export: "tracks R (build_tenant_export v)"
  unfolding build_tenant_export_def by (intro tracks_intros tr_export_tables)

lemma tr_admin: "tracks R (require_admin a)"
  by (simp add: require_admin_def tracks_lift_sum)

lemma tr_pair: "(\<And>a b. tracks R (f a b)) \<Longrightarrow> tracks R (case p of (a, b) \<Rightarrow> f a b)"
  by (cases p) simp

lemma tr_handler:
  assumes "own_ids v \<subseteq> ids" and "hash_key x (''tf_'' @ rnd_key v) \<in> hashes"
  shows "tracks R (route_handler x cod owner v call a)"
proof -
  have "audit_id (audit_entry v (new_id v 0) t ac act tg m) \<in> ids" for t ac act tg m
    using assms(1) by (simp add: own_ids_def)
  then show ?thesis
    by (cases call; simp only: route_handler.simps route_defs)
      (intro tracks_intros tr_create [OF assms(1)] tr_get tr_list tr_update [OF assms(1)]
        tr_delete [OF assms(1)] tr_quota tr_create_key [OF assms] tr_list_keys
        tr_revoke [OF assms(1)] tr_export tr_admin tr_pair st_enforce st_insert_audit)+
qed

end

subsection \<open>Handlers stay inside their transaction and their tenant\<close>

lemma on_pool_read:
  assumes "\<And>s. st_db (snd (m s)) = st_db s \<and> st_calls (snd (m s)) = st_calls s"
  shows "snd (on_pool owner m s) = s"
proof -
  obtain r s' where m: "m (s\<lparr>st_conn := owner\<rparr>) = (r, s')" by fastforce
  have "st_db s' = st_db s" "st_calls s' = st_calls s"
    using assms [of "s\<lparr>st_conn := owner\<rparr>"] m by simp_all
  then show ?thesis using m by (cases s, cases s') (simp add: on_pool_def)
qed

lemma billing_read:
  "st_db (snd (get_billing_state t s)) = st_db s \<and> st_calls (snd (get_billing_state t s)) = st_calls s"
  by (auto simp: get_billing_state_def bnd_def exec_def q_select_orgs_def q_select_def ret_def
      split: tx_state.splits)

lemma enforce_read: "snd (enforce_write owner a s) = s"
proof -
  obtain r s' where b: "on_pool owner (get_billing_state (actor_tenant_id a)) s = (r, s')" by fastforce
  have "s' = s" using on_pool_read [of "get_billing_state (actor_tenant_id a)" owner s, OF billing_read] b by simp
  then show ?thesis
    using b by (cases r) (auto simp: enforce_write_def bnd_def andthen_def lift_sum_def ret_def split: sum.splits)
qed

lemma iso_update_returning: "tracks (isolated t) (exec (q_update_returning p f))"
proof (rule isolated_exec)
  fix c d a d'
  assume b: "bound_to t c" and q: "q_update_returning p f c d = Inr (a, d')"
  then obtain n where "q_update projects projects_update project_tenant_id p f c d = Inr (n, d')"
    by (auto simp: q_update_returning_def split: sum.splits)
  then show "others_kept t d d'" by (rule projects_tab.update_keeps_others [OF b])
qed

lemma iso_list_query: "tracks (isolated t) (exec (q_list_projects cod bound lim))"
  by (rule isolated_exec)
    (auto simp: q_list_projects_def others_kept_def split: option.splits prod.splits)

interpretation kept_routes: route_statements tx_kept UNIV UNIV
proof
  show "tracks tx_kept (select_all table)" for table
    unfolding select_all_def by (intro tx_kept_intros)
  show "tracks tx_kept (enforce_write owner a)" for owner a
    by (simp add: tracks_def enforce_read txk.order_refl)
qed (intro tx_kept_intros)+

interpretation isolated_routes: route_statements "isolated t" UNIV UNIV for t
proof
  show "tracks (isolated t) (select_all table)" for table
    unfolding select_all_def by (intro isolated_intros)
  show "tracks (isolated t) (enforce_write owner a)" for owner a
    by (simp add: tracks_def enforce_read iso.order_refl)
qed (intro isolated_intros iso_list_query iso_update_returning)+

lemma handler_kept: "tracks tx_kept (route_handler x cod owner v call a)"
  by (rule kept_routes.tr_handler) simp_all

lemma handler_isolated: "tracks (isolated t) (route_handler x cod owner v call a)"
  by (rule isolated_routes.tr_handler) simp_all

subsection \<open>Two runs that a tenant cannot tell apart\<close>

text \<open>
  Ids and key hashes that no row of another tenant uses: unique indexes span all tenants, so
  a collision with a foreign row would be visible as an error. Generated ids and keys are
  fresh.
\<close>

definition avoids :: "uuid \<Rightarrow> uuid set \<Rightarrow> string set \<Rightarrow> db \<Rightarrow> bool" where
  "avoids t ids hashes d \<longleftrightarrow>
     (\<forall>r\<in>set (filter (\<lambda>r. project_tenant_id r \<noteq> t) (projects d)). project_id r \<notin> ids) \<and>
     (\<forall>r\<in>set (filter (\<lambda>r. audit_tenant_id r \<noteq> t) (audit_log d)). audit_id r \<notin> ids) \<and>
     (\<forall>r\<in>set (filter (\<lambda>r. ak_tenant_id r \<noteq> t) (api_keys d)). ak_id r \<notin> ids \<and> ak_hashed_key r \<notin> hashes)"

lemma avoids_others_kept: "others_kept t d d' \<Longrightarrow> avoids t ids hashes d' = avoids t ids hashes d"
  by (simp only: avoids_def others_kept_def)

fun tx_shape :: "tx_state \<Rightarrow> nat" where
  "tx_shape NoTx = 0"
| "tx_shape (InTx d) = 1"
| "tx_shape (Aborted d) = 2"

definition same_view :: "uuid \<Rightarrow> uuid set \<Rightarrow> string set \<Rightarrow> state \<Rightarrow> state \<Rightarrow> bool" where
  "same_view t ids hashes s1 s2 \<longleftrightarrow>
     bound_to t (st_conn s1) \<and> bound_to t (st_conn s2) \<and>
     tx_shape (tx (st_conn s1)) = tx_shape (tx (st_conn s2)) \<and>
     tenant_view t (st_db s1) = tenant_view t (st_db s2) \<and>
     avoids t ids hashes (st_db s1) \<and> avoids t ids hashes (st_db s2)"

definition confined :: "uuid \<Rightarrow> uuid set \<Rightarrow> string set \<Rightarrow> 'a io \<Rightarrow> bool" where
  "confined t ids hashes m \<longleftrightarrow> (\<forall>s1 s2. same_view t ids hashes s1 s2 \<longrightarrow>
     fst (m s1) = fst (m s2) \<and> same_view t ids hashes (snd (m s1)) (snd (m s2)))"

lemma conf_ret: "confined t ids hashes (ret a)"
  by (simp add: confined_def ret_def)

lemma conf_throw: "confined t ids hashes (throw e)"
  by (simp add: confined_def throw_def)

lemma conf_lift_sum: "confined t ids hashes (lift_sum r)"
  by (simp add: confined_def lift_sum_def)

lemma conf_bnd:
  assumes m: "confined t ids hashes m" and f: "\<And>a. confined t ids hashes (f a)"
  shows "confined t ids hashes (bnd m f)"
  unfolding confined_def
proof (intro allI impI)
  fix s1 s2
  assume s: "same_view t ids hashes s1 s2"
  obtain r1 s1' r2 s2' where r: "m s1 = (r1, s1')" "m s2 = (r2, s2')" by fastforce
  have eq: "r1 = r2" and s': "same_view t ids hashes s1' s2'"
    using m s r by (auto simp: confined_def dest!: spec)
  show "fst (bnd m f s1) = fst (bnd m f s2) \<and>
      same_view t ids hashes (snd (bnd m f s1)) (snd (bnd m f s2))"
    using f s' by (cases r2) (simp_all add: bnd_def r eq confined_def)
qed

lemma conf_andthen: "confined t ids hashes m \<Longrightarrow> confined t ids hashes n \<Longrightarrow> confined t ids hashes (andthen m n)"
  by (simp add: andthen_def conf_bnd)

lemma conf_if: "confined t ids hashes m \<Longrightarrow> confined t ids hashes n \<Longrightarrow>
    confined t ids hashes (if b then m else n)"
  by simp

lemma conf_option: "(x = None \<Longrightarrow> confined t ids hashes m) \<Longrightarrow> (\<And>a. x = Some a \<Longrightarrow> confined t ids hashes (f a)) \<Longrightarrow>
    confined t ids hashes (case x of None \<Rightarrow> m | Some a \<Rightarrow> f a)"
  by (cases x) simp_all

lemma conf_pair: "(\<And>a b. confined t ids hashes (f a b)) \<Longrightarrow> confined t ids hashes (case p of (a, b) \<Rightarrow> f a b)"
  by (cases p) simp

text \<open>A statement is confined when its outcome on a database is its outcome on the view.\<close>

lemma conf_exec:
  assumes "\<And>c1 c2 d1 d2. bound_to t c1 \<Longrightarrow> bound_to t c2 \<Longrightarrow> tenant_view t d1 = tenant_view t d2 \<Longrightarrow>
      avoids t ids hashes d1 \<Longrightarrow> avoids t ids hashes d2 \<Longrightarrow>
      (case q c1 d1 of
         Inl e \<Rightarrow> q c2 d2 = Inl e
       | Inr (a, d1') \<Rightarrow> \<exists>d2'. q c2 d2 = Inr (a, d2') \<and> tenant_view t d1' = tenant_view t d2')"
    and iso: "\<And>c d a d'. bound_to t c \<Longrightarrow> q c d = Inr (a, d') \<Longrightarrow> others_kept t d d'"
  shows "confined t ids hashes (exec q)"
  unfolding confined_def
proof (intro allI impI)
  fix s1 s2
  assume s: "same_view t ids hashes s1 s2"
  have b: "bound_to t (st_conn s1)" "bound_to t (st_conn s2)" using s by (simp_all add: same_view_def)
  have q: "case q (st_conn s1) (st_db s1) of
         Inl e \<Rightarrow> q (st_conn s2) (st_db s2) = Inl e
       | Inr (a, d1') \<Rightarrow> \<exists>d2'. q (st_conn s2) (st_db s2) = Inr (a, d2') \<and> tenant_view t d1' = tenant_view t d2'"
    using s by (intro assms(1)) (simp_all add: same_view_def)
  show "fst (exec q s1) = fst (exec q s2) \<and> same_view t ids hashes (snd (exec q s1)) (snd (exec q s2))"
  proof (cases "tx_shape (tx (st_conn s1)) = 2")
    case True
    then obtain d1 d2 where "tx (st_conn s1) = Aborted d1" "tx (st_conn s2) = Aborted d2"
      using s by (cases "tx (st_conn s1)"; cases "tx (st_conn s2)") (auto simp: same_view_def)
    then show ?thesis using s by (simp add: exec_def)
  next
    case False
    then have l: "live s1" "live s2"
      using s by (cases "tx (st_conn s1)"; cases "tx (st_conn s2)"; simp add: live_def same_view_def)+
    show ?thesis
    proof (cases "q (st_conn s1) (st_db s1)")
      case (Inl e)
      have "tx_shape (tx (abort_tx (st_conn s1))) = tx_shape (tx (abort_tx (st_conn s2)))"
        using s by (cases "tx (st_conn s1)"; cases "tx (st_conn s2)")
          (simp_all add: same_view_def abort_tx_def)
      then show ?thesis using Inl q s by (simp add: exec_live [OF l(1)] exec_live [OF l(2)] same_view_def)
    next
      case (Inr p)
      obtain a d1' where p: "p = (a, d1')" by fastforce
      obtain d2' where q2: "q (st_conn s2) (st_db s2) = Inr (a, d2')" "tenant_view t d1' = tenant_view t d2'"
        using q Inr p by auto
      have "others_kept t (st_db s1) d1'" "others_kept t (st_db s2) d2'"
        using iso [OF b(1)] iso [OF b(2)] Inr p q2(1) by auto
      then show ?thesis
        using Inr p q2 s by (simp add: exec_live [OF l(1)] exec_live [OF l(2)] same_view_def
            avoids_others_kept)
    qed
  qed
qed

locale confined_table = tenant_table get upd ten
  for get :: "db \<Rightarrow> 'r list" and upd :: "('r list \<Rightarrow> 'r list) \<Rightarrow> db \<Rightarrow> db" and ten :: "'r \<Rightarrow> uuid" +
  fixes clash :: "'r \<Rightarrow> 'r \<Rightarrow> bool" and fk :: "db \<Rightarrow> 'r \<Rightarrow> bool"
  assumes view_fk: "ten row = t \<Longrightarrow> fk (tenant_view t d) row \<longleftrightarrow> fk d row"
begin

lemma conf_select: "confined t ids hashes (exec (q_select get ten p))"
proof (rule conf_exec)
  fix c1 c2 d1 d2
  assume "bound_to t c1" "bound_to t c2" and v: "tenant_view t d1 = tenant_view t d2"
  then show "case q_select get ten p c1 d1 of Inl e \<Rightarrow> q_select get ten p c2 d2 = Inl e
       | Inr (a, d1') \<Rightarrow> \<exists>d2'. q_select get ten p c2 d2 = Inr (a, d2') \<and> tenant_view t d1' = tenant_view t d2'"
    by (simp add: select_view)
qed (rule select_keeps_others)

lemma insert_view:
  assumes row: "ten row = t" and fresh: "\<forall>r\<in>set (filter (\<lambda>r. ten r \<noteq> t) (get d)). \<not> clash row r"
    and b: "bound_to t c"
  shows "q_insert get upd ten clash fk row c d =
    (if list_ex (clash row) (get (tenant_view t d)) then Inl UniqueViolation
     else if \<not> fk (tenant_view t d) row then Inl ForeignKeyViolation
     else Inr ((), upd (\<lambda>rs. rs @ [row]) d))"
    "tenant_view t (upd (\<lambda>rs. rs @ [row]) d) = upd (\<lambda>rs. rs @ [row]) (tenant_view t d)"
proof -
  have "list_ex (clash row) (get d) = list_ex (clash row) (filter (\<lambda>r. ten r = t) (get d))"
    using fresh by (auto simp: list_ex_iff)
  then show "q_insert get upd ten clash fk row c d =
    (if list_ex (clash row) (get (tenant_view t d)) then Inl UniqueViolation
     else if \<not> fk (tenant_view t d) row then Inl ForeignKeyViolation
     else Inr ((), upd (\<lambda>rs. rs @ [row]) d))"
    using b row by (simp add: q_insert_def view_fk view_get)
  show "tenant_view t (upd (\<lambda>rs. rs @ [row]) d) = upd (\<lambda>rs. rs @ [row]) (tenant_view t d)"
    using row by (intro view_upd) simp
qed

lemma conf_insert:
  assumes fresh: "\<And>d r. avoids t ids hashes d \<Longrightarrow> r \<in> set (get d) \<Longrightarrow> ten r \<noteq> t \<Longrightarrow> \<not> clash row r"
  shows "confined t ids hashes (exec (q_insert get upd ten clash fk row))"
proof (rule conf_exec)
  fix c1 c2 d1 d2
  assume b: "bound_to t c1" "bound_to t c2" and v: "tenant_view t d1 = tenant_view t d2"
    and av: "avoids t ids hashes d1" "avoids t ids hashes d2"
  show "case q_insert get upd ten clash fk row c1 d1 of
         Inl e \<Rightarrow> q_insert get upd ten clash fk row c2 d2 = Inl e
       | Inr (a, d1') \<Rightarrow> \<exists>d2'. q_insert get upd ten clash fk row c2 d2 = Inr (a, d2') \<and>
           tenant_view t d1' = tenant_view t d2'"
  proof (cases "ten row = t")
    case False
    then show ?thesis using insert_other_refused [OF b(1)] insert_other_refused [OF b(2)] by simp
  next
    case True
    have f: "\<forall>r\<in>set (filter (\<lambda>r. ten r \<noteq> t) (get d1)). \<not> clash row r"
      "\<forall>r\<in>set (filter (\<lambda>r. ten r \<noteq> t) (get d2)). \<not> clash row r"
      using fresh av by auto
    show ?thesis
      using insert_view(2) [OF True f(1) b(1)] insert_view(2) [OF True f(2) b(2)]
      by (simp add: insert_view(1) [OF True f(1) b(1)] insert_view(1) [OF True f(2) b(2)] v)
  qed
qed (rule insert_keeps_others)

lemma update_view:
  assumes "bound_to t c" and "\<And>r. ten (f r) = ten r"
  shows "q_update get upd ten p f c d =
    Inr (length (filter p (get (tenant_view t d))), upd (map (\<lambda>r. if ten r = t \<and> p r then f r else r)) d)"
    "tenant_view t (upd (map (\<lambda>r. if ten r = t \<and> p r then f r else r)) d) =
      upd (map (\<lambda>r. if ten r = t \<and> p r then f r else r)) (tenant_view t d)"
proof -
  have "\<not> list_ex (\<lambda>r. (ten r = t \<and> p r) \<and> ten (f r) \<noteq> t) (get d)"
    using assms(2) by (auto simp: list_ex_iff)
  then show "q_update get upd ten p f c d =
    Inr (length (filter p (get (tenant_view t d))), upd (map (\<lambda>r. if ten r = t \<and> p r then f r else r)) d)"
    using assms(1) by (simp add: q_update_def Let_def view_get [symmetric] conj_commute)
  have "filter (\<lambda>r. ten r = t) (map (\<lambda>r. if ten r = t \<and> p r then f r else r) rs) =
      map (\<lambda>r. if ten r = t \<and> p r then f r else r) (filter (\<lambda>r. ten r = t) rs)" for rs
    by (induction rs) (auto simp: assms(2))
  then show "tenant_view t (upd (map (\<lambda>r. if ten r = t \<and> p r then f r else r)) d) =
      upd (map (\<lambda>r. if ten r = t \<and> p r then f r else r)) (tenant_view t d)"
    by (rule view_upd)
qed

lemma conf_update:
  assumes "\<And>r. ten (f r) = ten r"
  shows "confined t ids hashes (exec (q_update get upd ten p f))"
proof (rule conf_exec)
  fix c1 c2 d1 d2
  assume b: "bound_to t c1" "bound_to t c2" and v: "tenant_view t d1 = tenant_view t d2"
  show "case q_update get upd ten p f c1 d1 of Inl e \<Rightarrow> q_update get upd ten p f c2 d2 = Inl e
       | Inr (a, d1') \<Rightarrow> \<exists>d2'. q_update get upd ten p f c2 d2 = Inr (a, d2') \<and>
           tenant_view t d1' = tenant_view t d2'"
    by (simp add: update_view(1) [OF b(1) assms] update_view(1) [OF b(2) assms]
        update_view(2) [OF b(1) assms] v)
qed (rule update_keeps_others)

lemma conf_delete: "confined t ids hashes (exec (q_delete get upd ten p))"
proof (rule conf_exec)
  fix c1 c2 d1 d2
  assume b: "bound_to t c1" "bound_to t c2" and v: "tenant_view t d1 = tenant_view t d2"
  have q: "q_delete get upd ten p c d =
      Inr (length (filter p (get (tenant_view t d))), upd (filter (\<lambda>r. \<not> (ten r = t \<and> p r))) d)"
    if "bound_to t c" for c d
    using that by (simp add: q_delete_def Let_def view_get [symmetric] conj_commute)
  have u: "tenant_view t (upd (filter (\<lambda>r. \<not> (ten r = t \<and> p r))) d) =
      upd (filter (\<lambda>r. \<not> (ten r = t \<and> p r))) (tenant_view t d)" for d
    by (rule view_upd) (simp add: conj_commute)
  show "case q_delete get upd ten p c1 d1 of Inl e \<Rightarrow> q_delete get upd ten p c2 d2 = Inl e
       | Inr (a, d1') \<Rightarrow> \<exists>d2'. q_delete get upd ten p c2 d2 = Inr (a, d2') \<and>
           tenant_view t d1' = tenant_view t d2'"
    unfolding q [OF b(1)] q [OF b(2)] sum.case prod.case using u [of d1] u [of d2] v by simp
qed (rule delete_keeps_others)

end

interpretation projects_cf: confined_table projects projects_update project_tenant_id project_clash
  "\<lambda>d r. org_exists d (project_tenant_id r)"
  by unfold_locales (auto simp: tenant_view_def org_exists_def list_ex_iff)

interpretation audit_cf: confined_table audit_log audit_log_update audit_tenant_id audit_clash
  "\<lambda>d r. org_exists d (audit_tenant_id r)"
  by unfold_locales (auto simp: tenant_view_def org_exists_def list_ex_iff)

interpretation keys_cf: confined_table api_keys api_keys_update ak_tenant_id api_key_clash
  "\<lambda>d r. org_exists d (ak_tenant_id r)"
  by unfold_locales (auto simp: tenant_view_def org_exists_def list_ex_iff)

subsection \<open>The statements of the routes are confined\<close>

lemma conf_insert_project:
  "project_id row \<in> ids \<Longrightarrow> confined t ids hashes (insert_project row)"
  by (rule projects_cf.conf_insert) (auto simp: avoids_def project_clash_def)

lemma conf_insert_audit:
  "audit_id row \<in> ids \<Longrightarrow> confined t ids hashes (insert_audit row)"
  by (rule audit_cf.conf_insert) (auto simp: avoids_def audit_clash_def)

lemma conf_insert_key:
  "ak_id row \<in> ids \<Longrightarrow> ak_hashed_key row \<in> hashes \<Longrightarrow> confined t ids hashes (insert_api_key row)"
  by (rule keys_cf.conf_insert) (auto simp: avoids_def api_key_clash_def)

lemma conf_select_any:
  assumes "\<And>d. filter (\<lambda>r. ten r = t) (get d) = get (tenant_view t d)"
  shows "confined t ids hashes (exec (q_select get ten p))"
proof (rule conf_exec)
  have q: "q_select get ten p c d = Inr (filter p (get (tenant_view t d)), d)" if "bound_to t c" for c d
    using that by (simp add: q_select_def flip: assms)
  fix c1 c2 d1 d2
  assume "bound_to t c1" "bound_to t c2" and "tenant_view t d1 = tenant_view t d2"
  then show "case q_select get ten p c1 d1 of Inl e \<Rightarrow> q_select get ten p c2 d2 = Inl e
       | Inr (a, d1') \<Rightarrow> \<exists>d2'. q_select get ten p c2 d2 = Inr (a, d2') \<and> tenant_view t d1' = tenant_view t d2'"
    by (simp add: q)
qed (auto simp: q_select_def others_kept_def)

lemma conf_select_all: "confined t ids hashes (select_all table)"
  unfolding select_all_def
  by (intro conf_if conf_bnd conf_ret conf_throw conf_select_any) (simp_all add: tenant_view_sel)

lemma list_query_view:
  assumes "bound_to t c"
  shows "q_list_projects cod bound lim c d =
    (case bound of
       None \<Rightarrow> Inr (take lim (newest_first (projects (tenant_view t d))), d)
     | Some (created_at, i) \<Rightarrow>
         (case (cast_ts cod created_at, uuid_in i) of
            (Some k, Some u) \<Rightarrow> Inr (take lim (newest_first
              (filter (\<lambda>r. project_order r < (k, u)) (projects (tenant_view t d)))), d)
          | _ \<Rightarrow> Inl InvalidText))"
  using assms by (simp add: q_list_projects_def tenant_view_sel conj_commute
      split: option.splits)

lemma conf_list_query: "confined t ids hashes (exec (q_list_projects cod bound lim))"
proof (rule conf_exec)
  fix c1 c2 d1 d2
  assume "bound_to t c1" "bound_to t c2" and "tenant_view t d1 = tenant_view t d2"
  then show "case q_list_projects cod bound lim c1 d1 of
         Inl e \<Rightarrow> q_list_projects cod bound lim c2 d2 = Inl e
       | Inr (a, d1') \<Rightarrow> \<exists>d2'. q_list_projects cod bound lim c2 d2 = Inr (a, d2') \<and>
           tenant_view t d1' = tenant_view t d2'"
    by (auto simp: list_query_view split: option.splits sum.splits prod.splits)
qed (auto simp: q_list_projects_def others_kept_def split: option.splits prod.splits)

lemma conf_update_returning:
  assumes "\<And>r. project_tenant_id (f r) = project_tenant_id r"
  shows "confined t ids hashes (exec (q_update_returning p f))"
proof (rule conf_exec)
  fix c1 c2 d1 d2
  assume b: "bound_to t c1" "bound_to t c2" and v: "tenant_view t d1 = tenant_view t d2"
  have q: "q_update_returning p f c d = Inr (map f (filter p (projects (tenant_view t d))),
      projects_update (map (\<lambda>r. if project_tenant_id r = t \<and> p r then f r else r)) d)"
    if "bound_to t c" for c d
    using that projects_cf.update_view(1) [OF that assms, of p d]
    by (simp add: q_update_returning_def tenant_view_sel conj_commute)
  show "case q_update_returning p f c1 d1 of
         Inl e \<Rightarrow> q_update_returning p f c2 d2 = Inl e
       | Inr (a, d1') \<Rightarrow> \<exists>d2'. q_update_returning p f c2 d2 = Inr (a, d2') \<and>
           tenant_view t d1' = tenant_view t d2'"
    unfolding q [OF b(1)] q [OF b(2)] sum.case prod.case
    using projects_cf.update_view(2) [OF b(1) assms, of p d1]
      projects_cf.update_view(2) [OF b(2) assms, of p d2] v by auto
next
  fix c d a d'
  assume "bound_to t c" and "q_update_returning p f c d = Inr (a, d')"
  then show "others_kept t d d'"
    by (auto simp: q_update_returning_def split: sum.splits intro: projects_tab.update_keeps_others)
qed

lemma billing_state_view: "billing_state_of b t (tenant_view t d) = billing_state_of b t d"
  by (simp add: billing_state_of_def tenant_view_def filter_filter)

lemma enforce_run:
  assumes "clean owner"
  shows "enforce_write owner a s =
    ((case assert_write_allowed (bs_status (billing_state_of (bypass_rls owner) (actor_tenant_id a) (st_db s))) of
        Inl e \<Rightarrow> Inl e
      | Inr _ \<Rightarrow> Inr (bs_plan (billing_state_of (bypass_rls owner) (actor_tenant_id a) (st_db s)))), s)"
proof -
  have "on_pool owner (get_billing_state (actor_tenant_id a)) s =
      (Inr (billing_state_of (bypass_rls owner) (actor_tenant_id a) (st_db s)), s)"
    using get_billing_state_run [of "s\<lparr>st_conn := owner\<rparr>"] assms by (simp add: on_pool_def)
  then show ?thesis
    by (simp add: enforce_write_def bnd_def andthen_def lift_sum_def ret_def split: sum.splits)
qed

lemma conf_enforce:
  assumes "clean owner" and t: "actor_tenant_id a = t"
  shows "confined t ids hashes (enforce_write owner a)"
  unfolding confined_def
proof (intro allI impI)
  fix s1 s2
  assume s: "same_view t ids hashes s1 s2"
  then have eq: "billing_state_of b t (st_db s1) = billing_state_of b t (st_db s2)" for b
    by (metis billing_state_view same_view_def)
  show "fst (enforce_write owner a s1) = fst (enforce_write owner a s2) \<and>
      same_view t ids hashes (snd (enforce_write owner a s1)) (snd (enforce_write owner a s2))"
    unfolding enforce_run [OF assms(1)] t eq fst_conv snd_conv using s by blast
qed

lemmas conf_intros = conf_ret conf_throw conf_lift_sum conf_bnd conf_andthen conf_if conf_option
  conf_pair projects_cf.conf_select projects_cf.conf_delete keys_cf.conf_select keys_cf.conf_update
  conf_insert_project conf_insert_audit conf_insert_key conf_select_all conf_list_query
  conf_update_returning conf_enforce

subsection \<open>The handlers are confined\<close>

lemma conf_audit: "i \<in> ids \<Longrightarrow> confined t ids hashes (audit v i a ac target)"
  by (simp add: audit_def conf_insert_audit)

lemma conf_get: "confined t ids hashes (get_project i)"
  unfolding get_project_def by (intro conf_intros)

lemma conf_list: "confined t ids hashes (list_projects cod c l)"
  unfolding list_projects_def Let_def by (intro conf_intros)

lemma conf_quota: "confined t ids hashes (assert_project_quota plan)"
  by (cases "plan_quota plan") (simp_all add: assert_project_quota_def conf_intros)

lemma conf_export: "confined t ids hashes (build_tenant_export v)"
proof -
  have "confined t ids hashes (export_tables tabs)" for tabs
    by (induction tabs) (auto intro!: conf_intros)
  then show ?thesis unfolding build_tenant_export_def by (intro conf_intros)
qed

lemma conf_project_writes:
  assumes "new_id v 0 \<in> ids" "new_id v 1 \<in> ids"
  shows "confined t ids hashes (create_project v a n d)"
    and "confined t ids hashes (update_project v a i p)"
    and "confined t ids hashes (delete_project v a i)"
proof -
  show "confined t ids hashes (create_project v a n d)"
    unfolding create_project_def Let_def using assms
    by (intro conf_intros conf_audit) (simp_all add: new_project_def)
  show "confined t ids hashes (update_project v a i p)"
    unfolding update_project_def using assms
    by (intro conf_intros conf_audit conf_get) (simp_all add: apply_patch_def)
  show "confined t ids hashes (delete_project v a i)"
    unfolding delete_project_def using assms by (intro conf_intros conf_audit) simp_all
qed

lemma conf_keys:
  assumes "new_id v 0 \<in> ids" "new_id v 1 \<in> ids" and "hash_key x (''tf_'' @ rnd_key v) \<in> hashes"
  shows "confined t ids hashes (create_api_key x v a n)"
    and "confined t ids hashes list_api_keys"
    and "confined t ids hashes (revoke_api_key v a i)"
proof -
  show "confined t ids hashes (create_api_key x v a n)"
    unfolding create_api_key_def Let_def using assms
    by (intro conf_intros) (simp_all add: new_api_key_def)
  show "confined t ids hashes list_api_keys"
    unfolding list_api_keys_def by (intro conf_intros)
  show "confined t ids hashes (revoke_api_key v a i)"
    unfolding revoke_api_key_def using assms by (intro conf_intros) simp_all
qed

lemma conf_admin: "confined t ids hashes (require_admin a)"
  by (simp add: require_admin_def conf_lift_sum)

lemma handler_confined:
  assumes owner: "clean owner" and a: "actor_tenant_id a = t"
    and v: "own_ids v \<subseteq> ids" "hash_key x (''tf_'' @ rnd_key v) \<in> hashes"
  shows "confined t ids hashes (route_handler x cod owner v call a)"
proof -
  have ids: "new_id v 0 \<in> ids" "new_id v 1 \<in> ids" using v(1) by (auto simp: own_ids_def)
  have aud: "audit_id (audit_entry v (new_id v 0) u ac act tg m) \<in> ids" for u ac act tg m
    using ids by simp
  show ?thesis
    by (cases call; simp only: route_handler.simps route_defs)
      (intro conf_bnd conf_andthen conf_ret conf_pair conf_enforce [OF owner a] conf_quota conf_get
        conf_list conf_project_writes [OF ids] conf_keys [OF ids v(2)] conf_admin conf_export
        conf_insert_audit aud)+
qed

subsection \<open>Requests\<close>

lemma serve_cases:
  assumes c: "clean (st_conn s)"
  shows "serve x cod owner v rid cf a call s =
    (if \<not> valid_call call then (error_reply rid ThrownValidation, s)
     else if org_deleted (st_db s) (actor_tenant_id a)
     then (error_reply rid (ThrownExn (AppError (forbidden ''Organization is cancelled''))),
           snd (rollback_tx (in_tenant_tx (actor_tenant_id a) s)))
     else
       (case route_handler x cod owner v call a (in_tenant_tx (actor_tenant_id a) s) of
          (Inr (status, out), s') \<Rightarrow>
            ((status, Inr out), s'\<lparr>st_db := kept_db s status cf s', st_conn := released (st_conn s)\<rparr>)
        | (Inl e, s') \<Rightarrow>
            (error_reply rid (ThrownExn e), s'\<lparr>st_db := st_db s, st_conn := released (st_conn s)\<rparr>)))"
  unfolding serve_def by (subst tenant_request_cases [OF c handler_kept]) simp

lemma bound_in_tenant_tx: "\<not> bypass_rls (st_conn s) \<Longrightarrow> bound_to t (st_conn (in_tenant_tx t s))"
  by (simp add: bound_to_def)

lemma others_kept_refl [simp]: "others_kept t d d"
  by (simp add: others_kept_def)

lemma serve_integrity:
  assumes c: "clean (st_conn s)" and nb: "\<not> bypass_rls (st_conn s)"
    and run: "serve x cod owner v rid cf a call s = (r, s')"
  shows "clean (st_conn s')" "bypass_rls (st_conn s') = bypass_rls (st_conn s)"
    "others_kept (actor_tenant_id a) (st_db s) (st_db s')"
    "(\<exists>env. snd r = Inl env) \<Longrightarrow> st_db s' = st_db s"
proof -
  let ?t = "actor_tenant_id a"
  obtain r1 s1 where h: "route_handler x cod owner v call a (in_tenant_tx ?t s) = (r1, s1)" by fastforce
  have k: "tx_kept (in_tenant_tx ?t s) s1" by (rule tracksD [OF handler_kept h])
  have i: "others_kept ?t (st_db s) (st_db s1)"
    using tracksD [OF handler_isolated h, of ?t] bound_in_tenant_tx [OF nb]
    by (simp add: isolated_def)
  have kd: "others_kept ?t (st_db s) (kept_db s status cf s1)" for status
    using i k by (auto simp: kept_db_def committed_db_def tx_kept_def split: tx_state.splits)
  have rb: "clean (st_conn (snd (rollback_tx (in_tenant_tx ?t s))))"
    "st_db (snd (rollback_tx (in_tenant_tx ?t s))) = st_db s"
    using rollback_open [OF c] by simp_all
  have bp: "bypass_rls (st_conn (snd (rollback_tx (in_tenant_tx ?t s)))) = bypass_rls (st_conn s)"
    by (simp add: rollback_tx_def)
  note cases = run [unfolded serve_cases [OF c] h]
  show "clean (st_conn s')" using cases c rb by (auto split: if_splits sum.splits prod.splits)
  show "bypass_rls (st_conn s') = bypass_rls (st_conn s)"
    using cases bp by (auto split: if_splits sum.splits prod.splits)
  show "others_kept ?t (st_db s) (st_db s')"
    using cases kd rb by (auto split: if_splits sum.splits prod.splits)
  show "(\<exists>env. snd r = Inl env) \<Longrightarrow> st_db s' = st_db s"
    using cases rb by (auto split: if_splits sum.splits prod.splits)
qed

text \<open>What a request of another tenant leaves of a tenant's view.\<close>

lemma others_kept_view:
  assumes "others_kept u d d'" and "t \<noteq> u"
  shows "tenant_view t d' = tenant_view t d"
proof -
  have f: "filter (\<lambda>r. ten r = t) xs = filter (\<lambda>r. ten r = t) (filter (\<lambda>r. ten r \<noteq> u) xs)" for ten xs
    using assms(2) by (simp add: filter_filter) (metis (mono_tags, lifting) filter_cong)
  show ?thesis
    unfolding tenant_view_def
    using assms(1) f [of user_tenant_id] f [of project_tenant_id] f [of audit_tenant_id]
      f [of rt_tenant_id] f [of inv_tenant_id] f [of at_tenant_id] f [of subs_tenant_id] f [of ak_tenant_id]
    unfolding others_kept_def by metis
qed

lemma org_deleted_view: "org_deleted (tenant_view t d) t = org_deleted d t"
  by (simp add: org_deleted_def tenant_view_def)

lemma serve_confined:
  assumes c: "clean (st_conn s1)" "clean (st_conn s2)"
    and nb: "\<not> bypass_rls (st_conn s1)" "\<not> bypass_rls (st_conn s2)" and owner: "clean owner"
    and v: "tenant_view t (st_db s1) = tenant_view t (st_db s2)" and a: "actor_tenant_id a = t"
    and av: "avoids t (own_ids w) {hash_key x (''tf_'' @ rnd_key w)} (st_db s1)"
      "avoids t (own_ids w) {hash_key x (''tf_'' @ rnd_key w)} (st_db s2)"
    and run: "serve x cod owner w rid cf a call s1 = (r1, s1')" "serve x cod owner w rid cf a call s2 = (r2, s2')"
  shows "r1 = r2" "tenant_view t (st_db s1') = tenant_view t (st_db s2')"
proof -
  let ?ids = "own_ids w" and ?hs = "{hash_key x (''tf_'' @ rnd_key w)}"
  let ?i1 = "in_tenant_tx t s1" and ?i2 = "in_tenant_tx t s2"
  have sv: "same_view t ?ids ?hs ?i1 ?i2"
    using v av nb by (simp add: same_view_def bound_to_def)
  obtain q1 u1 q2 u2 where h: "route_handler x cod owner w call a ?i1 = (q1, u1)"
    "route_handler x cod owner w call a ?i2 = (q2, u2)" by fastforce
  have "confined t ?ids ?hs (route_handler x cod owner w call a)"
    by (rule handler_confined [OF owner a]) simp_all
  then have q: "q1 = q2" and su: "same_view t ?ids ?hs u1 u2"
    using sv h by (auto simp: confined_def dest!: spec)
  have k: "tx_kept ?i1 u1" "tx_kept ?i2 u2"
    using tracksD [OF handler_kept h(1)] tracksD [OF handler_kept h(2)] .
  have kd: "tenant_view t (kept_db s1 st cf u1) = tenant_view t (kept_db s2 st cf u2)" for st
    using su k v
    by (cases "tx (st_conn u1)"; cases "tx (st_conn u2)")
      (auto simp: kept_db_def committed_db_def tx_kept_def same_view_def)
  have od: "org_deleted (st_db s1) t = org_deleted (st_db s2) t"
    by (metis org_deleted_view v)
  have rb: "st_db (snd (rollback_tx ?i1)) = st_db s1" "st_db (snd (rollback_tx ?i2)) = st_db s2"
    using rollback_open [OF c(1)] rollback_open [OF c(2)] by simp_all
  note r1 = run(1) [unfolded serve_cases [OF c(1)] a h(1)] and r2 = run(2) [unfolded serve_cases [OF c(2)] a h(2)]
  show "r1 = r2"
    using r1 r2 q od by (auto split: if_splits sum.splits prod.splits)
  show "tenant_view t (st_db s1') = tenant_view t (st_db s2')"
    using r1 r2 q od kd rb v by (auto split: if_splits sum.splits prod.splits)
qed

end
