(* ===== verification/Gateway.thy ===== *)
theory Gateway
  imports Lifecycle
begin

text \<open>
  \<^verbatim>\<open>src/billing/stripe.gateway.ts\<close>: the interface the billing code depends on. Stripe itself is
  a parameter: \<open>gateway\<close> holds one answer function per operation, which sees the calls made
  before it (so its answers may change over time) and may throw. A call is recorded in
  \<open>st_calls\<close> whether it succeeds or not, and no rollback undoes it.
\<close>

record stripe_subscription =
  ss_id :: string
  ss_status :: string
  ss_plan :: "string option"
  ss_current_period_end :: "int option"
  ss_customer_id :: string

text \<open>
  A verified event: its payload is read at two places only, \<^verbatim>\<open>id\<close> and \<^verbatim>\<open>subscription\<close>.
\<close>

record stripe_event =
  ev_id :: string
  ev_type :: string
  ev_object_id :: "string option"
  ev_object_subscription :: "string option"

record gateway =
  gw_create_customer :: "stripe_call list \<Rightarrow> string \<Rightarrow> uuid \<Rightarrow> exn + string"
  gw_create_checkout_session ::
    "stripe_call list \<Rightarrow> string \<Rightarrow> string \<Rightarrow> string \<Rightarrow> string \<Rightarrow> uuid \<Rightarrow> exn + (string \<times> string option)"
  gw_create_portal_session :: "stripe_call list \<Rightarrow> string \<Rightarrow> string \<Rightarrow> exn + string"
  gw_get_subscription :: "stripe_call list \<Rightarrow> string \<Rightarrow> exn + stripe_subscription"
  gw_construct_event :: "string \<Rightarrow> string \<Rightarrow> exn + stripe_event"

definition ask :: "stripe_call \<Rightarrow> (stripe_call list \<Rightarrow> exn + 'a) \<Rightarrow> 'a io" where
  "ask call answer s = (answer (st_calls s), s\<lparr>st_calls := st_calls s @ [call]\<rparr>)"

text \<open>\<^verbatim>\<open>wrapStripeError\<close> of both billing services.\<close>

definition wrap_stripe_error :: "exn \<Rightarrow> string \<Rightarrow> exn" where
  "wrap_stripe_error e message =
     (case e of AppError a \<Rightarrow> AppError a | _ \<Rightarrow> AppError (bad_gateway message))"

text \<open>A gateway call with its failures wrapped.\<close>

definition wrapped :: "string \<Rightarrow> 'a io \<Rightarrow> 'a io" where
  "wrapped message m = try_catch m (\<lambda>e. throw (wrap_stripe_error e message))"

lemma wrapped_ask:
  "wrapped msg (ask call answer) s =
     ((case answer (st_calls s) of Inl e \<Rightarrow> Inl (wrap_stripe_error e msg) | Inr a \<Rightarrow> Inr a),
      s\<lparr>st_calls := st_calls s @ [call]\<rparr>)"
  by (simp add: wrapped_def ask_def try_catch_def throw_def split: sum.splits)

lemma wrapped_app_error: "\<exists>a. wrap_stripe_error e msg = AppError a"
  by (cases e) (simp_all add: wrap_stripe_error_def)

lemma tx_kept_ask: "tracks tx_kept (ask call answer)"
  by (auto simp: tracks_def ask_def tx_kept_def split: tx_state.splits)

lemma intact_ask: "tracks keeps_intact (ask call answer)"
  by (simp add: tracks_def ask_def keeps_intact_def intact_def)

end
