(* ===== verification/Billing.thy ===== *)
theory Billing
  imports Gateway
begin

text \<open>
  \<^verbatim>\<open>src/billing/billing.service.ts\<close>: the Stripe customer of a tenant, checkout and portal
  sessions. Everything runs on the owner pool without a tenant.
\<close>

subsection \<open>The customer of a tenant\<close>

text \<open>
  The scalar subquery over \<^verbatim>\<open>users\<close> is subject to the policies of that table.
\<close>

definition oldest_email :: "conn \<Rightarrow> db \<Rightarrow> uuid \<Rightarrow> string option" where
  "oldest_email c d t =
     map_option user_email (first_row (sort_key user_created_at
       (filter (\<lambda>u. visible c (user_tenant_id u) \<and> user_tenant_id u = t) (users d))))"

definition q_customer :: "uuid \<Rightarrow> (string option \<times> string option) list query" where
  "q_customer t c d =
     Inr (map (\<lambda>g. (org_stripe_customer_id g, oldest_email c d (org_id g)))
           (filter (\<lambda>g. org_id g = t) (organizations d)), d)"

text \<open>A JavaScript string that is neither null nor empty.\<close>

definition truthy :: "string option \<Rightarrow> string option" where
  "truthy x = (case x of None \<Rightarrow> None | Some s \<Rightarrow> if s = [] then None else Some s)"

definition set_customer :: "uuid \<Rightarrow> string \<Rightarrow> nat io" where
  "set_customer t i =
     exec (q_update_org (\<lambda>g. org_id g = t \<and> org_stripe_customer_id g = None)
       (\<lambda>g. g\<lparr>org_stripe_customer_id := Some i\<rparr>))"

definition ensure_body :: "gateway \<Rightarrow> uuid \<Rightarrow> string io" where
  "ensure_body gw t =
     bnd (exec (q_customer t)) (\<lambda>rows.
       case first_row rows of
         None \<Rightarrow> throw (AppError (not_found ''Organization not found''))
       | Some (customer, email) \<Rightarrow>
           (case truthy customer of
              Some i \<Rightarrow> andthen commit_tx (ret i)
            | None \<Rightarrow>
                (case truthy email of
                   None \<Rightarrow> throw (AppError (conflict ''Organization has no owner to bill''))
                 | Some em \<Rightarrow>
                     bnd (wrapped ''Failed to create billing customer''
                       (ask (CreateCustomer em t) (\<lambda>calls. gw_create_customer gw calls em t))) (\<lambda>i.
                     andthen (set_customer t i) (andthen commit_tx (ret i))))))"

definition ensure_customer :: "gateway \<Rightarrow> uuid \<Rightarrow> string io" where
  "ensure_customer gw t =
     try_catch (andthen begin_tx (ensure_body gw t))
       (\<lambda>e. andthen (swallow rollback_tx) (throw e))"

subsection \<open>Sessions\<close>

record checkout_input =
  co_tenant_id :: uuid
  co_price_id :: string
  co_success_url :: string
  co_cancel_url :: string

text \<open>The result is the URL and the session id.\<close>

definition start_checkout :: "gateway \<Rightarrow> checkout_input \<Rightarrow> (string \<times> string) io" where
  "start_checkout gw i =
     bnd (ensure_customer gw (co_tenant_id i)) (\<lambda>customer.
     bnd (wrapped ''Failed to start checkout session''
       (ask (CreateCheckoutSession customer (co_price_id i) (co_success_url i) (co_cancel_url i) (co_tenant_id i))
         (\<lambda>calls. gw_create_checkout_session gw calls customer (co_price_id i) (co_success_url i)
            (co_cancel_url i) (co_tenant_id i)))) (\<lambda>(session, url).
       case truthy url of
         None \<Rightarrow> throw (AppError (bad_gateway ''Checkout session has no redirect URL''))
       | Some u \<Rightarrow> ret (u, session)))"

definition open_portal :: "gateway \<Rightarrow> uuid \<Rightarrow> string \<Rightarrow> string io" where
  "open_portal gw t return_url =
     bnd (ensure_customer gw t) (\<lambda>customer.
     bnd (wrapped ''Failed to open billing portal''
       (ask (CreatePortalSession customer return_url)
         (\<lambda>calls. gw_create_portal_session gw calls customer return_url))) (\<lambda>url.
       if url = [] then throw (AppError (bad_gateway ''Portal session has no redirect URL''))
       else ret url))"

subsection \<open>Outcomes\<close>

definition tenant_org :: "db \<Rightarrow> uuid \<Rightarrow> org_row option" where
  "tenant_org d t = first_row (filter (\<lambda>g. org_id g = t) (organizations d))"

definition called :: "stripe_call \<Rightarrow> state \<Rightarrow> state" where
  "called call s = s\<lparr>st_calls := st_calls s @ [call]\<rparr>"

lemma called_sel [simp]:
  "st_db (called call s) = st_db s" "st_conn (called call s) = st_conn s"
  "st_calls (called call s) = st_calls s @ [call]"
  by (simp_all add: called_def)

text \<open>The connection after BEGIN and COMMIT or ROLLBACK outside any tenant.\<close>

lemma end_entered:
  assumes "clean c"
  shows "end_tx (c\<lparr>tx := x\<rparr>) = c"
  using assms by (cases c) (simp add: end_tx_def clean_def)

definition bill_email :: "bool \<Rightarrow> db \<Rightarrow> uuid \<Rightarrow> string option" where
  "bill_email bypass d t =
     (if bypass then map_option user_email (first_row (sort_key user_created_at
        (filter (\<lambda>u. user_tenant_id u = t) (users d)))) else None)"

lemma oldest_email_clean:
  assumes "clean (st_conn s)"
  shows "oldest_email (st_conn (entered s)) d t = bill_email (bypass_rls (st_conn s)) d t"
proof -
  have "current_tenant (st_conn (entered s)) = None"
    using assms by (simp add: clean_def entered_def current_tenant_def current_setting_def split: setting.splits)
  then show ?thesis by (simp add: oldest_email_def bill_email_def visible_def)
qed

definition customer_db :: "uuid \<Rightarrow> string \<Rightarrow> db \<Rightarrow> db" where
  "customer_db t i d =
     d\<lparr>organizations := map (\<lambda>g. if org_id g = t \<and> org_stripe_customer_id g = None
         then g\<lparr>org_stripe_customer_id := Some i\<rparr> else g) (organizations d)\<rparr>"

definition customer_taken :: "db \<Rightarrow> uuid \<Rightarrow> string \<Rightarrow> bool" where
  "customer_taken d t i \<longleftrightarrow>
     list_ex (\<lambda>r. (org_id r = t \<and> org_stripe_customer_id r = None) \<and>
       list_ex (\<lambda>r'. org_id r' \<noteq> org_id r \<and> org_clash (r\<lparr>org_stripe_customer_id := Some i\<rparr>) r')
         (organizations d)) (organizations d)"

lemma set_customer_run:
  assumes "live s"
  shows "\<exists>n. set_customer t i s =
    (if customer_taken (st_db s) t i
     then (Inl (SqlError UniqueViolation), s\<lparr>st_conn := abort_tx (st_conn s)\<rparr>)
     else (Inr n, s\<lparr>st_db := customer_db t i (st_db s)\<rparr>))"
  by (simp add: set_customer_def exec_live [OF assms] q_update_org_def customer_taken_def customer_db_def)

lemma ensure_customer_cases:
  assumes c: "clean (st_conn s)"
  shows "ensure_customer gw t s =
    (case tenant_org (st_db s) t of
       None \<Rightarrow> (Inl (AppError (not_found ''Organization not found'')), s)
     | Some g \<Rightarrow>
         (case truthy (org_stripe_customer_id g) of
            Some i \<Rightarrow> (Inr i, s)
          | None \<Rightarrow>
              (case truthy (bill_email (bypass_rls (st_conn s)) (st_db s) t) of
                 None \<Rightarrow> (Inl (AppError (conflict ''Organization has no owner to bill'')), s)
               | Some em \<Rightarrow>
                   (case gw_create_customer gw (st_calls s) em t of
                      Inl e \<Rightarrow> (Inl (wrap_stripe_error e ''Failed to create billing customer''),
                                called (CreateCustomer em t) s)
                    | Inr i \<Rightarrow>
                        if customer_taken (st_db s) t i
                        then (Inl (SqlError UniqueViolation), called (CreateCustomer em t) s)
                        else (Inr i, (called (CreateCustomer em t) s)\<lparr>st_db := customer_db t i (st_db s)\<rparr>)))))"
proof -
  have idle: "tx (st_conn s) = NoTx" by (rule clean_NoTx [OF c])
  have b: "begin_tx s = (Inr (), entered s)" by (simp add: begin_tx_def idle entered_def)
  have undo: "snd (rollback_tx (entered s)) = s" "rollback_tx (entered s) = (Inr (), s)"
    "commit_tx (entered s) = (Inr (), s)"
    by (simp_all add: rollback_tx_def commit_tx_def) (simp_all add: entered_def end_entered [OF c])
  have q: "exec (q_customer t) (entered s) =
      (Inr (map (\<lambda>g. (org_stripe_customer_id g, bill_email (bypass_rls (st_conn s)) (st_db s) (org_id g)))
        (filter (\<lambda>g. org_id g = t) (organizations (st_db s)))), entered s)"
    by (simp add: exec_live q_customer_def oldest_email_clean [OF c])
  have F: "first_row (map f xs) = map_option f (first_row xs)" for f :: "org_row \<Rightarrow> 'z" and xs
    by (cases xs) simp_all
  show ?thesis
  proof (cases "tenant_org (st_db s) t")
    case None
    then show ?thesis
      by (simp add: ensure_customer_def ensure_body_def try_catch_def andthen_def bnd_def b q F
          tenant_org_def throw_def swallow_def undo)
  next
    case (Some g)
    then have gt: "org_id g = t" and fr: "first_row (filter (\<lambda>g. org_id g = t) (organizations (st_db s))) = Some g"
      unfolding tenant_org_def by (auto dest: first_row_filterD)
    show ?thesis
    proof (cases "truthy (org_stripe_customer_id g)")
      case cu: (Some i)
      then show ?thesis using Some
        by (simp add: ensure_customer_def ensure_body_def try_catch_def andthen_def bnd_def b q F fr
            undo ret_def)
    next
      case cu: None
      show ?thesis
      proof (cases "truthy (bill_email (bypass_rls (st_conn s)) (st_db s) t)")
        case None
        then show ?thesis using Some cu gt
          by (simp add: ensure_customer_def ensure_body_def try_catch_def andthen_def bnd_def b q F fr
              undo throw_def swallow_def)
      next
        case em: (Some em)
        let ?e = "entered s" and ?call = "CreateCustomer em t"
        have l: "live (called ?call ?e)" by (simp add: live_def)
        have body: "ensure_body gw t ?e =
            (case gw_create_customer gw (st_calls s) em t of
               Inl e \<Rightarrow> (Inl (wrap_stripe_error e ''Failed to create billing customer''), called ?call ?e)
             | Inr i \<Rightarrow> bnd (set_customer t i) (\<lambda>_. andthen commit_tx (ret i)) (called ?call ?e))"
          using cu em gt
          by (simp add: ensure_body_def bnd_def q F fr wrapped_ask called_def andthen_def split: sum.splits)
        have rb: "rollback_tx (called ?call ?e) = (Inr (), called ?call s)"
          "rollback_tx ((called ?call ?e)\<lparr>st_conn := abort_tx (st_conn (called ?call ?e))\<rparr>) =
            (Inr (), called ?call s)"
          "commit_tx ((called ?call ?e)\<lparr>st_db := d\<rparr>) = (Inr (), (called ?call s)\<lparr>st_db := d\<rparr>)" for d
          by (simp_all add: rollback_tx_def commit_tx_def abort_tx_def)
            (simp_all add: called_def entered_def end_entered [OF c])
        show ?thesis
        proof (cases "gw_create_customer gw (st_calls s) em t")
          case (Inl e)
          then show ?thesis using Some cu em
            by (simp add: ensure_customer_def try_catch_def andthen_def bnd_def b body throw_def
                swallow_def rb)
        next
          case (Inr i)
          have st: "st_db (called ?call ?e) = st_db s" by simp
          obtain n where sc: "set_customer t i (called ?call ?e) =
              (if customer_taken (st_db s) t i
               then (Inl (SqlError UniqueViolation),
                     (called ?call ?e)\<lparr>st_conn := abort_tx (st_conn (called ?call ?e))\<rparr>)
               else (Inr n, (called ?call ?e)\<lparr>st_db := customer_db t i (st_db s)\<rparr>))"
            using set_customer_run [OF l, of t i, unfolded st] by blast
          show ?thesis using Some cu em Inr
            by (simp add: ensure_customer_def try_catch_def andthen_def bnd_def b body sc throw_def
                swallow_def rb ret_def del: called_sel)
        qed
      qed
    qed
  qed
qed

end
