(* ===== verification/Webhook.thy ===== *)
theory Webhook
  imports Gateway
begin

text \<open>
  \<^verbatim>\<open>src/billing/webhook.service.ts\<close>: the processing of a verified Stripe event. The
  subscription is fetched before the transaction; the transaction records the event in the
  ledger and writes the subscription, the plan and an audit entry.
\<close>

datatype webhook_outcome = Processed | Duplicate | Ignored

definition map_status :: "string \<Rightarrow> string \<times> string option" where
  "map_status st =
     (if st = ''active'' \<or> st = ''trialing'' then (st, None)
      else if st = ''past_due'' \<or> st = ''unpaid'' then (''past_due'', None)
      else if st = ''canceled'' \<or> st = ''incomplete_expired'' then (''canceled'', Some ''free'')
      else (st, None))"

definition RELEVANT_EVENTS :: "string list" where
  "RELEVANT_EVENTS =
     [''customer.subscription.updated'', ''customer.subscription.deleted'',
      ''customer.subscription.created'', ''invoice.payment_succeeded'', ''invoice.payment_failed'']"

definition subscription_prefix :: string where
  "subscription_prefix = ''customer.subscription.''"

text \<open>The id of the subscription an event is about; absent and empty are both falsy.\<close>

definition event_subscription :: "stripe_event \<Rightarrow> string option" where
  "event_subscription ev =
     (case (if take (length subscription_prefix) (ev_type ev) = subscription_prefix
            then ev_object_id ev else ev_object_subscription ev) of
        None \<Rightarrow> None
      | Some i \<Rightarrow> if i = [] then None else Some i)"

subsection \<open>Statements\<close>

definition ledger_row :: "env \<Rightarrow> string \<Rightarrow> processed_webhook_row" where
  "ledger_row v event_id = \<lparr>pw_event_id = event_id, pw_processed_at = db_now v\<rparr>"

definition record_only :: "env \<Rightarrow> string \<Rightarrow> bool io" where
  "record_only v event_id =
     try_catch (andthen (exec (q_insert_webhook (ledger_row v event_id))) (ret True))
       (\<lambda>e. if is_unique_violation e then ret False else throw e)"

definition synced_plan :: "stripe_subscription \<Rightarrow> org_row \<Rightarrow> string" where
  "synced_plan ss org =
     (case snd (map_status (ss_status ss)) of
        Some p \<Rightarrow> p
      | None \<Rightarrow> (case ss_plan ss of Some p \<Rightarrow> p | None \<Rightarrow> org_plan org))"

definition period_end :: "stripe_subscription \<Rightarrow> timestamptz option" where
  "period_end ss =
     (case ss_current_period_end ss of
        None \<Rightarrow> None
      | Some n \<Rightarrow> if n = 0 then None else Some (timestamptz_of_date (n * 1000)))"

definition new_subscription :: "env \<Rightarrow> stripe_subscription \<Rightarrow> org_row \<Rightarrow> subscription_row" where
  "new_subscription v ss org =
     \<lparr>subs_id = new_id v 0, subs_tenant_id = org_id org, subs_stripe_subscription_id = Some (ss_id ss),
      subs_status = fst (map_status (ss_status ss)), subs_plan = synced_plan ss org,
      subs_current_period_end = period_end ss, subs_updated_at = db_now v\<rparr>"

definition overwrite_subscription :: "subscription_row \<Rightarrow> subscription_row \<Rightarrow> subscription_row" where
  "overwrite_subscription n r =
     r\<lparr>subs_status := subs_status n, subs_plan := subs_plan n,
       subs_current_period_end := subs_current_period_end n, subs_updated_at := subs_updated_at n\<rparr>"

definition same_subscription :: "subscription_row \<Rightarrow> subscription_row \<Rightarrow> bool" where
  "same_subscription n r \<longleftrightarrow> same_some (subs_stripe_subscription_id n) (subs_stripe_subscription_id r)"

text \<open>
  \<^verbatim>\<open>INSERT ... ON CONFLICT (stripe_subscription_id) DO UPDATE\<close> under the policies: the proposed
  row has to satisfy them, and so has a conflicting row that would be updated (it is not
  skipped; the statement fails).
\<close>

definition q_upsert_subscription :: "subscription_row \<Rightarrow> unit query" where
  "q_upsert_subscription row c d =
     (if \<not> visible c (subs_tenant_id row) then Inl RlsViolation
      else if list_ex (same_subscription row) (subscriptions d) then
        (if list_ex (\<lambda>r. same_subscription row r \<and> \<not> visible c (subs_tenant_id r)) (subscriptions d)
         then Inl RlsViolation
         else Inr ((), d\<lparr>subscriptions := map (\<lambda>r. if same_subscription row r
                  then overwrite_subscription row r else r) (subscriptions d)\<rparr>))
      else if list_ex (\<lambda>r. subs_id r = subs_id row) (subscriptions d) then Inl UniqueViolation
      else if \<not> org_exists d (subs_tenant_id row) then Inl ForeignKeyViolation
      else Inr ((), d\<lparr>subscriptions := subscriptions d @ [row]\<rparr>))"

subsection \<open>Processing an event\<close>

definition webhook_fetch :: "gateway \<Rightarrow> string \<Rightarrow> stripe_subscription io" where
  "webhook_fetch gw sub_id =
     wrapped ''Failed to fetch subscription for webhook sync''
       (ask (GetSubscription sub_id) (\<lambda>calls. gw_get_subscription gw calls sub_id))"

definition ledger_insert :: "env \<Rightarrow> string \<Rightarrow> bool io" where
  "ledger_insert v event_id =
     try_catch (andthen (exec (q_insert_webhook (ledger_row v event_id))) (ret True))
       (\<lambda>e. if is_unique_violation e then andthen (swallow rollback_tx) (ret False) else throw e)"

definition sync_metadata :: "stripe_event \<Rightarrow> stripe_subscription \<Rightarrow> org_row \<Rightarrow> (string \<times> string) list" where
  "sync_metadata ev ss org =
     [(''status'', fst (map_status (ss_status ss))), (''plan'', synced_plan ss org),
      (''event'', ev_type ev)]"

definition sync_org :: "env \<Rightarrow> stripe_event \<Rightarrow> stripe_subscription \<Rightarrow> org_row \<Rightarrow> unit io" where
  "sync_org v ev ss org =
     andthen (set_config_local (org_id org))
    (andthen (exec (q_upsert_subscription (new_subscription v ss org)))
    (andthen (exec (q_update_org (\<lambda>g. org_id g = org_id org) (\<lambda>g. g\<lparr>org_plan := synced_plan ss org\<rparr>)))
      (insert_audit (audit_entry v (new_id v 1) (org_id org) None ''billing.synced'' (ss_id ss)
        (Some (sync_metadata ev ss org))))))"

definition webhook_sync :: "env \<Rightarrow> stripe_event \<Rightarrow> stripe_subscription \<Rightarrow> webhook_outcome io" where
  "webhook_sync v ev ss =
     finally_do
       (try_catch
          (andthen begin_tx
          (bnd (ledger_insert v (ev_id ev)) (\<lambda>recorded.
             if \<not> recorded then ret Duplicate
             else
               bnd (select_orgs (\<lambda>g. org_stripe_customer_id g = Some (ss_customer_id ss))) (\<lambda>rows.
                 case first_row rows of
                   None \<Rightarrow> andthen commit_tx (ret Ignored)
                 | Some org \<Rightarrow> andthen (sync_org v ev ss org) (andthen commit_tx (ret Processed))))))
          (\<lambda>e. andthen (swallow rollback_tx) (throw e)))
       (swallow reset_tenant)"

definition process_webhook_event :: "gateway \<Rightarrow> env \<Rightarrow> stripe_event \<Rightarrow> webhook_outcome io" where
  "process_webhook_event gw v ev =
     (if ev_type ev \<notin> set RELEVANT_EVENTS then
        bnd (record_only v (ev_id ev)) (\<lambda>b. ret (if b then Ignored else Duplicate))
      else
        case event_subscription ev of
          None \<Rightarrow> bnd (record_only v (ev_id ev)) (\<lambda>b. ret (if b then Ignored else Duplicate))
        | Some sub_id \<Rightarrow> bnd (webhook_fetch gw sub_id) (\<lambda>ss. webhook_sync v ev ss))"

subsection \<open>Outcomes\<close>

definition in_ledger :: "db \<Rightarrow> string \<Rightarrow> bool" where
  "in_ledger d event_id \<longleftrightarrow> list_ex (\<lambda>r. pw_event_id r = event_id) (processed_webhooks d)"

definition recorded_db :: "env \<Rightarrow> string \<Rightarrow> db \<Rightarrow> db" where
  "recorded_db v event_id d = d\<lparr>processed_webhooks := processed_webhooks d @ [ledger_row v event_id]\<rparr>"

lemma webhook_clash_ledger:
  "list_ex (webhook_clash (ledger_row v event_id)) (processed_webhooks d) \<longleftrightarrow> in_ledger d event_id"
  by (auto simp: in_ledger_def list_ex_iff webhook_clash_def ledger_row_def)

lemma in_ledger_recorded [simp]:
  "in_ledger (recorded_db v e d) e' \<longleftrightarrow> in_ledger d e' \<or> e' = e"
  by (auto simp: in_ledger_def recorded_db_def ledger_row_def)

lemma recorded_db_sel [simp]:
  "organizations (recorded_db v e d) = organizations d" "subscriptions (recorded_db v e d) = subscriptions d"
  "audit_log (recorded_db v e d) = audit_log d" "refresh_tokens (recorded_db v e d) = refresh_tokens d"
  "users (recorded_db v e d) = users d" "org_exists (recorded_db v e d) t = org_exists d t"
  by (simp_all add: recorded_db_def org_exists_def)

lemma record_only_cases:
  assumes "clean (st_conn s)"
  shows "record_only v event_id s =
    (if in_ledger (st_db s) event_id then (Inr False, s)
     else (Inr True, s\<lparr>st_db := recorded_db v event_id (st_db s)\<rparr>))"
proof -
  have "tx (st_conn s) = NoTx" by (rule clean_NoTx [OF assms])
  then show ?thesis
    by (simp add: record_only_def exec_def q_insert_webhook_def webhook_clash_ledger eff_simps
        recorded_db_def abort_tx_def)
qed

definition customer_org :: "db \<Rightarrow> stripe_subscription \<Rightarrow> org_row option" where
  "customer_org d ss =
     first_row (filter (\<lambda>g. org_stripe_customer_id g = Some (ss_customer_id ss)) (organizations d))"

lemma customer_orgD:
  "customer_org d ss = Some g \<Longrightarrow> g \<in> set (organizations d) \<and> org_stripe_customer_id g = Some (ss_customer_id ss)"
  unfolding customer_org_def by (rule first_row_filterD)

text \<open>Where \<open>sync_org\<close> starts: in the transaction, with the event recorded.\<close>

definition recorded :: "env \<Rightarrow> string \<Rightarrow> state \<Rightarrow> state" where
  "recorded v event_id s = (entered s)\<lparr>st_db := recorded_db v event_id (st_db s)\<rparr>"

lemma sync_org_kept: "tracks tx_kept (sync_org v ev ss org)"
  unfolding sync_org_def by (intro tx_kept_intros)

lemma ledger_insert_run:
  "ledger_insert v e (entered s) =
    (if in_ledger (st_db s) e
     then (Inr False, snd (rollback_tx (entered s)))
     else (Inr True, recorded v e s))"
  by (simp add: ledger_insert_def exec_def q_insert_webhook_def webhook_clash_ledger eff_simps
      recorded_def recorded_db_def abort_tx_def entered_def rollback_tx_def end_tx_def)

lemma webhook_sync_cases:
  assumes c: "clean (st_conn s)"
  shows "webhook_sync v ev ss s =
    (if in_ledger (st_db s) (ev_id ev) then (Inr Duplicate, s\<lparr>st_conn := released (st_conn s)\<rparr>)
     else
       case customer_org (st_db s) ss of
         None \<Rightarrow> (Inr Ignored, s\<lparr>st_db := recorded_db v (ev_id ev) (st_db s), st_conn := released (st_conn s)\<rparr>)
       | Some org \<Rightarrow>
           (case sync_org v ev ss org (recorded v (ev_id ev) s) of
              (Inr _, s1) \<Rightarrow> (Inr Processed, s1\<lparr>st_db := committed_db s1, st_conn := released (st_conn s)\<rparr>)
            | (Inl e, s1) \<Rightarrow> (Inl e, s1\<lparr>st_db := st_db s, st_conn := released (st_conn s)\<rparr>)))"
proof -
  let ?s1 = "recorded v (ev_id ev) s"
  have idle: "tx (st_conn s) = NoTx" by (rule clean_NoTx [OF c])
  have b: "begin_tx s = (Inr (), entered s)" by (simp add: begin_tx_def idle entered_def)
  have live: "live ?s1" by (simp add: recorded_def)
  have r1: "st_db ?s1 = recorded_db v (ev_id ev) (st_db s)" "tx (st_conn ?s1) = InTx (st_db s)"
    "bypass_rls (st_conn ?s1) = bypass_rls (st_conn s)"
    by (simp_all add: recorded_def)
  have sel: "select_orgs (\<lambda>g. org_stripe_customer_id g = Some (ss_customer_id ss)) ?s1 =
      (Inr (filter (\<lambda>g. org_stripe_customer_id g = Some (ss_customer_id ss)) (organizations (st_db s))), ?s1)"
    by (simp add: exec_select_orgs_live [OF live] r1)
  show ?thesis
  proof (cases "in_ledger (st_db s) (ev_id ev)")
    case True
    then show ?thesis
      by (simp add: webhook_sync_def eff_simps b ledger_insert_run rollback_tx_def reset_tenant_def
          reset_end_tx [of _ "st_conn s"])
  next
    case new: False
    show ?thesis
    proof (cases "customer_org (st_db s) ss")
      case None
      then show ?thesis
        using new b sel r1
        by (simp add: webhook_sync_def eff_simps ledger_insert_run commit_tx_def reset_tenant_def
            reset_end_tx [of _ "st_conn s"] customer_org_def)
          (simp add: recorded_def entered_def)
    next
      case (Some org)
      obtain r2 s2 where sy: "sync_org v ev ss org ?s1 = (r2, s2)" by fastforce
      have "tx_kept ?s1 s2" by (rule tracksD [OF sync_org_kept sy])
      then have bp: "bypass_rls (st_conn s2) = bypass_rls (st_conn s)"
        and tx2: "tx (st_conn s2) = InTx (st_db s) \<or> tx (st_conn s2) = Aborted (st_db s)"
        by (auto simp: tx_kept_def r1)
      show ?thesis
        using new b sel Some bp tx2 sy
        by (cases r2)
          (auto simp: webhook_sync_def eff_simps ledger_insert_run commit_tx_def rollback_tx_def
            reset_tenant_def reset_end_tx [of _ "st_conn s"] customer_org_def committed_db_def)
    qed
  qed
qed

subsection \<open>What a synchronisation writes\<close>

definition upserted :: "subscription_row \<Rightarrow> subscription_row list \<Rightarrow> subscription_row list" where
  "upserted row rs =
     (if list_ex (same_subscription row) rs
      then map (\<lambda>r. if same_subscription row r then overwrite_subscription row r else r) rs
      else rs @ [row])"

definition synced_db :: "env \<Rightarrow> stripe_event \<Rightarrow> stripe_subscription \<Rightarrow> org_row \<Rightarrow> db \<Rightarrow> db" where
  "synced_db v ev ss org d =
     (recorded_db v (ev_id ev) d)
       \<lparr>subscriptions := upserted (new_subscription v ss org) (subscriptions d),
        organizations := map (\<lambda>g. if org_id g = org_id org then g\<lparr>org_plan := synced_plan ss org\<rparr> else g)
          (organizations d),
        audit_log := audit_log d @ [audit_entry v (new_id v 1) (org_id org) None ''billing.synced''
          (ss_id ss) (Some (sync_metadata ev ss org))]\<rparr>"

text \<open>
  The upsert goes through: a stored row of the same subscription belongs to the tenant (or
  the role bypasses the policies), else the new id is fresh.
\<close>

definition upsert_ok :: "bool \<Rightarrow> subscription_row \<Rightarrow> subscription_row list \<Rightarrow> bool" where
  "upsert_ok bypass row rs \<longleftrightarrow>
     list_all (\<lambda>r. same_subscription row r \<longrightarrow> bypass \<or> subs_tenant_id r = subs_tenant_id row) rs \<and>
     (list_ex (same_subscription row) rs \<or> list_all (\<lambda>r. subs_id r \<noteq> subs_id row) rs)"

lemma new_subscription_sel [simp]:
  "subs_id (new_subscription v ss org) = new_id v 0"
  "subs_tenant_id (new_subscription v ss org) = org_id org"
  "subs_stripe_subscription_id (new_subscription v ss org) = Some (ss_id ss)"
  "subs_status (new_subscription v ss org) = fst (map_status (ss_status ss))"
  "subs_plan (new_subscription v ss org) = synced_plan ss org"
  "subs_current_period_end (new_subscription v ss org) = period_end ss"
  "subs_updated_at (new_subscription v ss org) = db_now v"
  by (simp_all add: new_subscription_def)

lemma exec_upsert_ok:
  assumes l: "live s" and ok: "upsert_ok (bypass_rls (st_conn s)) row (subscriptions (st_db s))"
    and t: "current_tenant (st_conn s) = Some (subs_tenant_id row)"
    and og: "org_exists (st_db s) (subs_tenant_id row)"
  shows "exec (q_upsert_subscription row) s =
    (Inr (), s\<lparr>st_db := (st_db s)\<lparr>subscriptions := upserted row (subscriptions (st_db s))\<rparr>\<rparr>)"
proof -
  have vis: "visible (st_conn s) u \<longleftrightarrow> bypass_rls (st_conn s) \<or> u = subs_tenant_id row" for u
    using t by (auto simp: visible_def)
  show ?thesis
    using ok og
    by (auto simp: exec_live [OF l] q_upsert_subscription_def upserted_def upsert_ok_def vis
        list_ex_iff list_all_iff)
qed

lemma sync_org_run:
  assumes d: "no_dups org_clash (organizations (st_db s))"
    and og: "org \<in> set (organizations (st_db s))"
    and ok: "upsert_ok (bypass_rls (st_conn s)) (new_subscription v ss org) (subscriptions (st_db s))"
    and fresh: "audit_fresh (st_db s) (new_id v 1)"
  shows "\<exists>s2. sync_org v ev ss org (recorded v (ev_id ev) s) = (Inr (), s2) \<and>
    live s2 \<and> st_db s2 = synced_db v ev ss org (st_db s) \<and> st_calls s2 = st_calls s"
proof -
  let ?d = "recorded_db v (ev_id ev) (st_db s)" and ?t = "org_id org"
  let ?s1 = "(in_tenant_tx ?t s)\<lparr>st_db := ?d\<rparr>"
  let ?d2 = "?d\<lparr>subscriptions := upserted (new_subscription v ss org) (subscriptions (st_db s))\<rparr>"
  let ?d3 = "?d2\<lparr>organizations := map (\<lambda>g. if org_id g = ?t then g\<lparr>org_plan := synced_plan ss org\<rparr> else g)
          (organizations (st_db s))\<rparr>"
  have oe: "org_exists (st_db s) ?t" using og by (auto simp: org_exists_iff)
  have cfg: "set_config_local ?t (recorded v (ev_id ev) s) = (Inr (), ?s1)"
    by (simp add: set_config_local_def recorded_def entered_def in_tenant_tx_def)
  have ups: "exec (q_upsert_subscription (new_subscription v ss org)) ?s1 = (Inr (), ?s1\<lparr>st_db := ?d2\<rparr>)"
    using ok oe by (subst exec_upsert_ok) simp_all
  have upd: "\<exists>n. exec (q_update_org (\<lambda>g. org_id g = ?t) (\<lambda>g. g\<lparr>org_plan := synced_plan ss org\<rparr>))
        (?s1\<lparr>st_db := ?d2\<rparr>) = (Inr n, ?s1\<lparr>st_db := ?d3\<rparr>)"
    using d by (subst exec_update_org_ok) (simp_all add: org_key_def recorded_db_def)
  then obtain n where upd: "exec (q_update_org (\<lambda>g. org_id g = ?t) (\<lambda>g. g\<lparr>org_plan := synced_plan ss org\<rparr>))
        (?s1\<lparr>st_db := ?d2\<rparr>) = (Inr n, ?s1\<lparr>st_db := ?d3\<rparr>)" by blast
  have oe3: "org_exists ?d3 ?t"
    using oe by (simp add: exists_own_upd org_exists_map recorded_db_def)
  have aud: "insert_audit (audit_entry v (new_id v 1) ?t None ''billing.synced'' (ss_id ss)
        (Some (sync_metadata ev ss org))) (?s1\<lparr>st_db := ?d3\<rparr>) =
      (Inr (), ?s1\<lparr>st_db := synced_db v ev ss org (st_db s)\<rparr>)"
    using oe3 fresh by (subst exec_insert_ok)
      (simp_all add: audit_fresh_clash synced_db_def)
  have "sync_org v ev ss org (recorded v (ev_id ev) s) =
      (Inr (), ?s1\<lparr>st_db := synced_db v ev ss org (st_db s)\<rparr>)"
    by (simp only: sync_org_def run_steps cfg ups upd aud)
  then show ?thesis by simp
qed

lemma state_ends:
  fixes a b :: state
  shows "st_calls a = st_calls b \<Longrightarrow> a\<lparr>st_db := d, st_conn := c\<rparr> = b\<lparr>st_db := d, st_conn := c\<rparr>"
  by (cases a, cases b) simp

lemma webhook_sync_run:
  assumes c: "clean (st_conn s)" and d: "db_ok (st_db s)"
    and new: "\<not> in_ledger (st_db s) (ev_id ev)" and org: "customer_org (st_db s) ss = Some org"
    and ok: "upsert_ok (bypass_rls (st_conn s)) (new_subscription v ss org) (subscriptions (st_db s))"
    and fresh: "audit_fresh (st_db s) (new_id v 1)"
  shows "webhook_sync v ev ss s =
    (Inr Processed, s\<lparr>st_db := synced_db v ev ss org (st_db s), st_conn := released (st_conn s)\<rparr>)"
proof -
  have u: "no_dups org_clash (organizations (st_db s))" using d by (simp add: db_ok_defs)
  obtain s2 where s2: "sync_org v ev ss org (recorded v (ev_id ev) s) = (Inr (), s2)" "live s2"
      "st_db s2 = synced_db v ev ss org (st_db s)" "st_calls s2 = st_calls s"
    using sync_org_run [OF u conjunct1 [OF customer_orgD [OF org]] ok fresh] by blast
  show ?thesis
    unfolding webhook_sync_cases [OF c] using new org s2 state_ends [OF s2(4)]
    by (simp add: committed_live)
qed

text \<open>The rows of the subscription afterwards, and all others.\<close>

lemma same_subscription_new [simp]:
  "same_subscription (new_subscription v ss org) q \<longleftrightarrow> subs_stripe_subscription_id q = Some (ss_id ss)"
  by (auto simp: same_subscription_def same_some_def)

lemma overwrite_subscription_keeps [simp]:
  "subs_stripe_subscription_id (overwrite_subscription n q) = subs_stripe_subscription_id q"
  "subs_tenant_id (overwrite_subscription n q) = subs_tenant_id q"
  "subs_id (overwrite_subscription n q) = subs_id q"
  by (simp_all add: overwrite_subscription_def)

lemma upserted_others:
  "filter (\<lambda>q. subs_stripe_subscription_id q \<noteq> Some (ss_id ss)) (upserted (new_subscription v ss org) qs) =
   filter (\<lambda>q. subs_stripe_subscription_id q \<noteq> Some (ss_id ss)) qs"
proof -
  have "filter (\<lambda>q. subs_stripe_subscription_id q \<noteq> Some (ss_id ss))
      (map (\<lambda>q. if subs_stripe_subscription_id q = Some (ss_id ss)
        then overwrite_subscription (new_subscription v ss org) q else q) qs) =
    filter (\<lambda>q. subs_stripe_subscription_id q \<noteq> Some (ss_id ss)) qs"
    by (induction qs) simp_all
  then show ?thesis by (simp add: upserted_def)
qed

text \<open>As subscription ids are unique, exactly one row of the subscription is left.\<close>

lemma upserted_row:
  assumes "no_dups subscription_clash qs"
  shows "filter (\<lambda>q. subs_stripe_subscription_id q = Some (ss_id ss)) (upserted (new_subscription v ss org) qs) =
    [case filter (\<lambda>q. subs_stripe_subscription_id q = Some (ss_id ss)) qs of
       [] \<Rightarrow> new_subscription v ss org
     | r # _ \<Rightarrow> overwrite_subscription (new_subscription v ss org) r]"
proof (cases "filter (\<lambda>q. subs_stripe_subscription_id q = Some (ss_id ss)) qs")
  case Nil
  then have "upserted (new_subscription v ss org) qs = qs @ [new_subscription v ss org]"
    by (auto simp: upserted_def list_ex_iff filter_empty_conv)
  then show ?thesis by (simp add: Nil)
next
  case (Cons r rs)
  have "no_dups subscription_clash (r # rs)" using no_dups_filter [OF assms] unfolding Cons [symmetric] .
  moreover have "\<forall>q\<in>set (r # rs). subs_stripe_subscription_id q = Some (ss_id ss)"
    unfolding Cons [symmetric] by simp
  ultimately have "rs = []"
    by (cases rs) (auto simp: no_dups_def subscription_clash_def same_some_def)
  moreover have "r \<in> set qs \<and> subs_stripe_subscription_id r = Some (ss_id ss)"
    using filter_eq_ConsD [OF Cons] by auto
  then have "upserted (new_subscription v ss org) qs =
      map (\<lambda>q. if subs_stripe_subscription_id q = Some (ss_id ss)
        then overwrite_subscription (new_subscription v ss org) q else q) qs"
    by (auto simp: upserted_def list_ex_iff)
  moreover have "filter (\<lambda>q. subs_stripe_subscription_id q = Some (ss_id ss))
      (map (\<lambda>q. if subs_stripe_subscription_id q = Some (ss_id ss)
        then overwrite_subscription (new_subscription v ss org) q else q) ps) =
    map (overwrite_subscription (new_subscription v ss org))
      (filter (\<lambda>q. subs_stripe_subscription_id q = Some (ss_id ss)) ps)" for ps
    by (induction ps) simp_all
  ultimately show ?thesis by (simp add: Cons)
qed

lemma upserted_own:
  assumes "q \<in> set (upserted (new_subscription v ss org) qs)"
    and "subs_stripe_subscription_id q = Some (ss_id ss)"
  shows "subs_status q = fst (map_status (ss_status ss)) \<and> subs_plan q = synced_plan ss org"
proof (cases "list_ex (same_subscription (new_subscription v ss org)) qs")
  case True
  then obtain p where "p \<in> set qs" "q = (if subs_stripe_subscription_id p = Some (ss_id ss)
      then overwrite_subscription (new_subscription v ss org) p else p)"
    using assms(1) by (auto simp: upserted_def)
  then show ?thesis using assms(2) by (auto simp: overwrite_subscription_def split: if_splits)
next
  case False
  then show ?thesis using assms by (auto simp: upserted_def list_ex_iff)
qed

lemma upserted_tenant:
  assumes "q \<in> set (upserted (new_subscription v ss org) qs)"
    and "subs_stripe_subscription_id q = Some (ss_id ss)"
  shows "subs_tenant_id q = org_id org \<or>
    (\<exists>p\<in>set qs. subs_stripe_subscription_id p = Some (ss_id ss) \<and> subs_tenant_id p = subs_tenant_id q)"
proof (cases "list_ex (same_subscription (new_subscription v ss org)) qs")
  case True
  then obtain p where "p \<in> set qs" "q = (if subs_stripe_subscription_id p = Some (ss_id ss)
      then overwrite_subscription (new_subscription v ss org) p else p)"
    using assms(1) by (auto simp: upserted_def)
  then show ?thesis using assms(2) by (intro disjI2 bexI [of _ p]) (auto split: if_splits)
next
  case False
  then show ?thesis using assms by (auto simp: upserted_def list_ex_iff)
qed

lemma upserted_some:
  "\<exists>q\<in>set (upserted (new_subscription v ss org) qs). subs_stripe_subscription_id q = Some (ss_id ss)"
proof (cases "list_ex (same_subscription (new_subscription v ss org)) qs")
  case True
  then obtain p where p: "p \<in> set qs" "subs_stripe_subscription_id p = Some (ss_id ss)"
    by (auto simp: list_ex_iff)
  then have "overwrite_subscription (new_subscription v ss org) p \<in> set (upserted (new_subscription v ss org) qs)"
    using True by (force simp: upserted_def)
  then show ?thesis using p(2) by (intro bexI) simp_all
next
  case False
  then show ?thesis by (simp add: upserted_def)
qed

subsection \<open>The ledger\<close>

lemma exec_InrD: "exec q s = (Inr a, s') \<Longrightarrow> live s \<and> live s'"
  by (auto simp: exec_def live_def split: tx_state.splits sum.splits prod.splits)

definition same_ledger :: "state \<Rightarrow> state \<Rightarrow> bool" where
  "same_ledger s s' \<longleftrightarrow> processed_webhooks (st_db s') = processed_webhooks (st_db s)"

interpretation ledg: state_order same_ledger
  by unfold_locales (simp_all add: same_ledger_def)

lemma same_ledger_exec:
  assumes "\<And>c d a d'. q c d = Inr (a, d') \<Longrightarrow> processed_webhooks d' = processed_webhooks d"
  shows "tracks same_ledger (exec q)"
  using assms by (auto simp: tracks_def same_ledger_def exec_def split: tx_state.splits sum.splits prod.splits)

lemma same_ledger_sync: "tracks same_ledger (sync_org v ev ss org)"
proof -
  have "tracks same_ledger (set_config_local t)" for t
    by (auto simp: tracks_def same_ledger_def set_config_local_def split: tx_state.splits)
  then show ?thesis
    unfolding sync_org_def
    by (intro ledg.tracks_intros same_ledger_exec)
      (auto simp: q_upsert_subscription_def q_update_org_def q_insert_def split: if_splits)
qed

lemma sync_org_Inr:
  assumes "sync_org v ev ss org s = (Inr (), s')"
  shows "live s' \<and> processed_webhooks (st_db s') = processed_webhooks (st_db s)"
proof
  show "processed_webhooks (st_db s') = processed_webhooks (st_db s)"
    using tracksD [OF same_ledger_sync assms] by (simp add: same_ledger_def)
  show "live s'"
    using assms unfolding sync_org_def andthen_def
    by (elim bnd_InrE) (blast dest: exec_InrD)
qed

text \<open>Every answered event is in the ledger; a failed one leaves no trace.\<close>

lemma webhook_sync_ledger:
  assumes c: "clean (st_conn s)" and run: "webhook_sync v ev ss s = (r, s')"
  shows "st_conn s' = released (st_conn s)"
    "(\<exists>e. r = Inl e) \<Longrightarrow> st_db s' = st_db s"
    "r = Inr Duplicate \<Longrightarrow> st_db s' = st_db s"
    "(\<exists>out. r = Inr out) \<Longrightarrow> in_ledger (st_db s') (ev_id ev)"
proof -
  have sy: "in_ledger (committed_db s1) (ev_id ev)"
    if "sync_org v ev ss org (recorded v (ev_id ev) s) = (Inr (), s1)" for org s1
  proof -
    have "live s1" "processed_webhooks (st_db s1) = processed_webhooks (recorded_db v (ev_id ev) (st_db s))"
      using sync_org_Inr [OF that] by (simp_all add: recorded_def)
    then show ?thesis
      using in_ledger_recorded [of v "ev_id ev" "st_db s" "ev_id ev"]
      by (simp add: committed_live in_ledger_def)
  qed
  note cases = run [unfolded webhook_sync_cases [OF c]]
  show "st_conn s' = released (st_conn s)"
    using cases by (auto split: if_splits option.splits prod.splits sum.splits)
  show "(\<exists>e. r = Inl e) \<Longrightarrow> st_db s' = st_db s" "r = Inr Duplicate \<Longrightarrow> st_db s' = st_db s"
    using cases by (auto split: if_splits option.splits prod.splits sum.splits)
  show "(\<exists>out. r = Inr out) \<Longrightarrow> in_ledger (st_db s') (ev_id ev)"
    using cases sy by (fastforce split: if_splits option.splits prod.splits sum.splits)
qed

lemma webhook_fetch_run:
  "webhook_fetch gw i s =
    ((case gw_get_subscription gw (st_calls s) i of
        Inl e \<Rightarrow> Inl (wrap_stripe_error e ''Failed to fetch subscription for webhook sync'')
      | Inr ss \<Rightarrow> Inr ss),
     s\<lparr>st_calls := st_calls s @ [GetSubscription i]\<rparr>)"
  by (simp add: webhook_fetch_def wrapped_ask)

lemma process_webhook_ledger:
  assumes c: "clean (st_conn s)" and run: "process_webhook_event gw v ev s = (r, s')"
  shows "clean (st_conn s') \<and> bypass_rls (st_conn s') = bypass_rls (st_conn s)"
    "(\<exists>e. r = Inl e) \<Longrightarrow> st_db s' = st_db s"
    "r = Inr Duplicate \<Longrightarrow> st_db s' = st_db s"
    "(\<exists>out. r = Inr out) \<Longrightarrow> in_ledger (st_db s') (ev_id ev)"
proof -
  have ro: "(clean (st_conn s') \<and> bypass_rls (st_conn s') = bypass_rls (st_conn s)) \<and>
      ((\<exists>e. r = Inl e) \<longrightarrow> st_db s' = st_db s) \<and> (r = Inr Duplicate \<longrightarrow> st_db s' = st_db s) \<and>
      ((\<exists>out. r = Inr out) \<longrightarrow> in_ledger (st_db s') (ev_id ev))"
    if "bnd (record_only v (ev_id ev)) (\<lambda>b. ret (if b then Ignored else Duplicate)) s = (r, s')"
    using that c by (auto simp: bnd_def record_only_cases [OF c] ret_def split: if_splits)
  have sy: "(clean (st_conn s') \<and> bypass_rls (st_conn s') = bypass_rls (st_conn s)) \<and>
      ((\<exists>e. r = Inl e) \<longrightarrow> st_db s' = st_db s) \<and> (r = Inr Duplicate \<longrightarrow> st_db s' = st_db s) \<and>
      ((\<exists>out. r = Inr out) \<longrightarrow> in_ledger (st_db s') (ev_id ev))"
    if b: "bnd (webhook_fetch gw i) (\<lambda>ss. webhook_sync v ev ss) s = (r, s')" for i
  proof (cases "gw_get_subscription gw (st_calls s) i")
    case (Inl e)
    then show ?thesis using b c by (auto simp: bnd_def webhook_fetch_run)
  next
    case (Inr ss)
    let ?s1 = "s\<lparr>st_calls := st_calls s @ [GetSubscription i]\<rparr>"
    have c1: "clean (st_conn ?s1)" using c by simp
    have "webhook_sync v ev ss ?s1 = (r, s')" using b Inr by (simp add: bnd_def webhook_fetch_run)
    from webhook_sync_ledger [OF c1 this] show ?thesis by simp
  qed
  have all: "(clean (st_conn s') \<and> bypass_rls (st_conn s') = bypass_rls (st_conn s)) \<and>
      ((\<exists>e. r = Inl e) \<longrightarrow> st_db s' = st_db s) \<and> (r = Inr Duplicate \<longrightarrow> st_db s' = st_db s) \<and>
      ((\<exists>out. r = Inr out) \<longrightarrow> in_ledger (st_db s') (ev_id ev))"
    using run ro sy unfolding process_webhook_event_def
    by (cases "ev_type ev \<in> set RELEVANT_EVENTS"; cases "event_subscription ev") simp_all
  show "clean (st_conn s') \<and> bypass_rls (st_conn s') = bypass_rls (st_conn s)"
    "(\<exists>e. r = Inl e) \<Longrightarrow> st_db s' = st_db s"
    "r = Inr Duplicate \<Longrightarrow> st_db s' = st_db s"
    "(\<exists>out. r = Inr out) \<Longrightarrow> in_ledger (st_db s') (ev_id ev)"
    using all by blast+
qed

subsection \<open>Integrity\<close>

lemma intact_upsert: "tracks keeps_intact (exec (q_upsert_subscription row))"
proof (rule intact_exec)
  fix c d a d'
  assume d: "db_ok d" and q: "q_upsert_subscription row c d = Inr (a, d')"
  have upd: "subscriptions_update f d = d\<lparr>subscriptions := f (subscriptions d)\<rparr>" for f
    by (cases d) simp
  show "db_ok d'"
  proof (cases "list_ex (same_subscription row) (subscriptions d)")
    case True
    then have "d' = subscriptions_update (map (\<lambda>r. if same_subscription row r
        then overwrite_subscription row r else r)) d"
      using q by (subst upd) (auto simp: q_upsert_subscription_def split: if_splits)
    moreover have "subs_key (overwrite_subscription row r) = subs_key r" for r
      by (simp add: subs_key_def overwrite_subscription_def)
    ultimately show ?thesis using subs_st.ok_update [OF d] by blast
  next
    case False
    then have "d' = subscriptions_update (\<lambda>rs. rs @ [row]) d"
      using q by (subst upd) (auto simp: q_upsert_subscription_def split: if_splits)
    moreover have "\<not> list_ex (subscription_clash row) (subscriptions d)" "org_exists d (subs_tenant_id row)"
      using q False
      by (auto simp: q_upsert_subscription_def same_subscription_def subscription_clash_def
          list_ex_iff split: if_splits)
    ultimately show ?thesis using subs_st.ok_insert [OF d] by simp
  qed
qed

lemma intact_webhook_sync: "tracks keeps_intact (webhook_sync v ev ss)"
  unfolding webhook_sync_def ledger_insert_def sync_org_def
  by (intro intact_intros intact_upsert) (simp_all add: org_key_def)

lemma intact_webhook: "tracks keeps_intact (process_webhook_event gw v ev)"
  unfolding process_webhook_event_def record_only_def webhook_fetch_def wrapped_def
  by (intro intact_intros intact_webhook_sync intact_ask)

end
