(* ===== verification/OwnerRoutes.thy ===== *)
theory OwnerRoutes
  imports Billing Webhook Middleware
begin

text \<open>
  The routes that run on the owner pool: \<^verbatim>\<open>src/routes/v1/auth.routes.ts\<close>,
  \<^verbatim>\<open>invitations.routes.ts\<close>, \<^verbatim>\<open>tenant.routes.ts\<close>, \<^verbatim>\<open>billing.routes.ts\<close> with their schemas, and
  \<^verbatim>\<open>src/routes/webhook.routes.ts\<close>. None of them opens a tenant connection.
\<close>

text \<open>
  \<open>wire\<close> holds what the schemas and \<^verbatim>\<open>new URL\<close> decide about texts: \<open>email_ok\<close> is zod's email
  pattern, \<open>url_origin\<close> the origin of a text that parses as a URL.
\<close>

record wire =
  email_ok :: "string \<Rightarrow> bool"
  url_origin :: "string \<Rightarrow> string option"

datatype owner_call =
    PostSignup signup_input
  | PostLogin string string
  | PostResetRequest string
  | PostResetConfirm string string
  | PostAccept string string
  | PostRefresh string
  | PostInvite string role
  | PostRole uuid role
  | DeleteTenant
  | PostCheckout string string string
  | PostPortal string

datatype owner_payload =
    OSignup uuid uuid string
  | OTokens string string
  | OAccepted
  | OOk
  | OUser uuid uuid
  | OInvited string
  | ONone
  | OCheckout string string
  | OPortal string

subsection \<open>Body schemas\<close>

definition valid_password :: "nat \<Rightarrow> string \<Rightarrow> bool" where
  "valid_password least pw \<longleftrightarrow> least \<le> length pw \<and> length pw \<le> 200"

abbreviation checkout_body :: "wire \<Rightarrow> string \<Rightarrow> string \<Rightarrow> string \<Rightarrow> bool" where
  "checkout_body w price ok_url cancel \<equiv>
     price \<noteq> [] \<and> url_origin w ok_url \<noteq> None \<and> url_origin w cancel \<noteq> None"

abbreviation portal_body :: "wire \<Rightarrow> string \<Rightarrow> bool" where
  "portal_body w url \<equiv> url_origin w url \<noteq> None"

fun valid_owner_call :: "wire \<Rightarrow> owner_call \<Rightarrow> bool" where
  "valid_owner_call w (PostSignup i) =
     (1 \<le> length (su_organization_name i) \<and> length (su_organization_name i) \<le> 120 \<and>
      email_ok w (su_email i) \<and> valid_password 8 (su_password i))"
| "valid_owner_call w (PostLogin email pw) = (email_ok w email \<and> valid_password 1 pw)"
| "valid_owner_call w (PostResetRequest email) = email_ok w email"
| "valid_owner_call w (PostResetConfirm token pw) = (token \<noteq> [] \<and> valid_password 8 pw)"
| "valid_owner_call w (PostAccept token pw) = (token \<noteq> [] \<and> valid_password 8 pw)"
| "valid_owner_call w (PostRefresh token) = (token \<noteq> [])"
| "valid_owner_call w (PostInvite email r) = (email_ok w email \<and> r \<noteq> Owner)"
| "valid_owner_call w (PostRole u r) = True"
| "valid_owner_call w DeleteTenant = True"
| "valid_owner_call w (PostCheckout price ok_url cancel) =
     (checkout_body w price ok_url cancel)"
| "valid_owner_call w (PostPortal url) = portal_body w url"

subsection \<open>Handlers\<close>

definition auth_signup :: "ext \<Rightarrow> env \<Rightarrow> signup_input \<Rightarrow> (nat \<times> owner_payload) io" where
  "auth_signup x v i =
     bnd (signup x v i) (\<lambda>r. ret (201, OSignup (sr_organization_id r) (sr_owner_user_id r) (sr_slug r)))"

definition auth_login :: "ext \<Rightarrow> token_config \<Rightarrow> env \<Rightarrow> string \<Rightarrow> string \<Rightarrow> (nat \<times> owner_payload) io" where
  "auth_login x cfg v email pw =
     bnd (login x cfg v email pw) (\<lambda>r. ret (200, OTokens (lr_access_token r) (lr_refresh_token r)))"

definition auth_reset_request :: "ext \<Rightarrow> env \<Rightarrow> string \<Rightarrow> (nat \<times> owner_payload) io" where
  "auth_reset_request x v email =
     bnd (request_password_reset x v RESET_TTL_MS email) (\<lambda>_. ret (202, OAccepted))"

definition auth_reset_confirm :: "ext \<Rightarrow> env \<Rightarrow> string \<Rightarrow> string \<Rightarrow> (nat \<times> owner_payload) io" where
  "auth_reset_confirm x v token pw =
     andthen (confirm_password_reset x v token pw) (ret (200, OOk))"

definition auth_accept :: "ext \<Rightarrow> env \<Rightarrow> string \<Rightarrow> string \<Rightarrow> (nat \<times> owner_payload) io" where
  "auth_accept x v token pw =
     bnd (accept_invitation x v token pw) (\<lambda>(u, t). ret (201, OUser u t))"

definition auth_refresh :: "ext \<Rightarrow> token_config \<Rightarrow> env \<Rightarrow> string \<Rightarrow> (nat \<times> owner_payload) io" where
  "auth_refresh x cfg v token =
     bnd (rotate_refresh_token x cfg v DEFAULT_OVERLAP_MS token) (\<lambda>(access, refresh).
       ret (200, OTokens access refresh))"

definition invite_route :: "ext \<Rightarrow> env \<Rightarrow> string \<Rightarrow> role \<Rightarrow> actor \<Rightarrow> (nat \<times> owner_payload) io" where
  "invite_route x v email r a =
     bnd (create_invitation x v a email r INVITE_TTL_MS) (\<lambda>token. ret (201, OInvited token))"

definition role_route :: "env \<Rightarrow> uuid \<Rightarrow> role \<Rightarrow> actor \<Rightarrow> (nat \<times> owner_payload) io" where
  "role_route v u r a = andthen (change_role v a u r) (ret (200, OOk))"

definition cancel_route :: "env \<Rightarrow> actor \<Rightarrow> (nat \<times> owner_payload) io" where
  "cancel_route v a =
     andthen (lift_sum (require_role (actor_role a) Owner))
    (andthen (cancel_tenant v a) (ret (204, ONone)))"

record billing_config =
  allowed_price_ids :: "string list"
  allowed_redirect_origins :: "string list"

definition is_allowed_redirect :: "wire \<Rightarrow> string \<Rightarrow> string list \<Rightarrow> bool" where
  "is_allowed_redirect w raw_url allowed =
     (if allowed = [] then True
      else case url_origin w raw_url of None \<Rightarrow> False | Some og \<Rightarrow> og \<in> set allowed)"

definition require_billing_role :: "actor \<Rightarrow> uuid io" where
  "require_billing_role a =
     andthen (lift_sum (require_role (actor_role a) Admin)) (ret (actor_tenant_id a))"

definition checkout_route ::
  "gateway \<Rightarrow> wire \<Rightarrow> billing_config \<Rightarrow> string \<Rightarrow> string \<Rightarrow> string \<Rightarrow> actor \<Rightarrow> (nat \<times> owner_payload) io" where
  "checkout_route gw w bc price ok_url cancel a =
     bnd (require_billing_role a) (\<lambda>t.
       if price \<notin> set (allowed_price_ids bc) then throw (AppError (bad_request ''Unknown price_id''))
       else if \<not> is_allowed_redirect w ok_url (allowed_redirect_origins bc)
            \<or> \<not> is_allowed_redirect w cancel (allowed_redirect_origins bc)
       then throw (AppError (bad_request ''Redirect URL origin not allowed''))
       else
         bnd (start_checkout gw \<lparr>co_tenant_id = t, co_price_id = price, co_success_url = ok_url,
                co_cancel_url = cancel\<rparr>) (\<lambda>(url, session). ret (201, OCheckout url session)))"

definition portal_route ::
  "gateway \<Rightarrow> wire \<Rightarrow> billing_config \<Rightarrow> string \<Rightarrow> actor \<Rightarrow> (nat \<times> owner_payload) io" where
  "portal_route gw w bc return_url a =
     bnd (require_billing_role a) (\<lambda>t.
       if \<not> is_allowed_redirect w return_url (allowed_redirect_origins bc)
       then throw (AppError (bad_request ''Redirect URL origin not allowed''))
       else bnd (open_portal gw t return_url) (\<lambda>url. ret (201, OPortal url)))"

lemmas owner_route_defs = auth_signup_def auth_login_def auth_reset_request_def auth_reset_confirm_def
  auth_accept_def auth_refresh_def invite_route_def role_route_def cancel_route_def
  require_billing_role_def checkout_route_def portal_route_def

text \<open>Routes without an authenticated actor ignore the last argument.\<close>

definition with_auth :: "actor option \<Rightarrow> (actor \<Rightarrow> 'a io) \<Rightarrow> 'a io" where
  "with_auth auth f =
     (case auth of None \<Rightarrow> throw (AppError unauthorized_default) | Some a \<Rightarrow> f a)"

fun owner_handler ::
  "ext \<Rightarrow> token_config \<Rightarrow> gateway \<Rightarrow> wire \<Rightarrow> billing_config \<Rightarrow> env \<Rightarrow> owner_call \<Rightarrow> actor option \<Rightarrow>
   (nat \<times> owner_payload) io" where
  "owner_handler x cfg gw w bc v (PostSignup i) auth = auth_signup x v i"
| "owner_handler x cfg gw w bc v (PostLogin email pw) auth = auth_login x cfg v email pw"
| "owner_handler x cfg gw w bc v (PostResetRequest email) auth = auth_reset_request x v email"
| "owner_handler x cfg gw w bc v (PostResetConfirm token pw) auth = auth_reset_confirm x v token pw"
| "owner_handler x cfg gw w bc v (PostAccept token pw) auth = auth_accept x v token pw"
| "owner_handler x cfg gw w bc v (PostRefresh token) auth = auth_refresh x cfg v token"
| "owner_handler x cfg gw w bc v (PostInvite email r) auth = with_auth auth (invite_route x v email r)"
| "owner_handler x cfg gw w bc v (PostRole u r) auth = with_auth auth (role_route v u r)"
| "owner_handler x cfg gw w bc v DeleteTenant auth = with_auth auth (cancel_route v)"
| "owner_handler x cfg gw w bc v (PostCheckout price ok_url cancel) auth =
     with_auth auth (checkout_route gw w bc price ok_url cancel)"
| "owner_handler x cfg gw w bc v (PostPortal url) auth = with_auth auth (portal_route gw w bc url)"

text \<open>
  The pre-handler \<^verbatim>\<open>authenticate\<close> of a route: none, or with or without API keys (the
  invitation routes are built without the owner pool).
\<close>

fun route_auth :: "owner_call \<Rightarrow> bool option" where
  "route_auth (PostInvite email r) = Some False"
| "route_auth (PostRole u r) = Some False"
| "route_auth DeleteTenant = Some True"
| "route_auth (PostCheckout price ok_url cancel) = Some True"
| "route_auth (PostPortal url) = Some True"
| "route_auth call = None"

definition route_actor :: "ext \<Rightarrow> token_config \<Rightarrow> env \<Rightarrow> headers \<Rightarrow> owner_call \<Rightarrow> actor option io" where
  "route_actor x cfg v h call =
     (case route_auth call of
        None \<Rightarrow> ret None
      | Some keys \<Rightarrow> bnd (authenticate x cfg v keys h) (\<lambda>a. ret (Some a)))"

text \<open>\<open>pre\<close> is the limiter of the route.\<close>

definition owner_request ::
  "string \<Rightarrow> bool \<Rightarrow> unit io \<Rightarrow> actor option io \<Rightarrow> (actor option \<Rightarrow> (nat \<times> 'a) io) \<Rightarrow> state \<Rightarrow>
   'a reply \<times> state" where
  "owner_request rid valid pre auth handler s =
     (if \<not> valid then (error_reply rid ThrownValidation, s)
      else
        case andthen pre (bnd auth handler) s of
          (Inl e, s1) \<Rightarrow> (error_reply rid (ThrownExn e), s1)
        | (Inr (status, out), s1) \<Rightarrow> ((status, Inr out), s1))"

subsection \<open>The webhook route\<close>

text \<open>
  A refused webhook is answered with a body of its own (no request id); \<open>Inr\<close> is the outcome.
\<close>

definition webhook_request ::
  "gateway \<Rightarrow> env \<Rightarrow> string \<Rightarrow> string option \<Rightarrow> string \<Rightarrow> state \<Rightarrow>
   (string + webhook_outcome) reply \<times> state" where
  "webhook_request gw v rid signature body s =
     (case signature of
        None \<Rightarrow> ((400, Inr (Inl ''Missing signature'')), s)
      | Some sg \<Rightarrow>
          (case gw_construct_event gw body sg of
             Inl _ \<Rightarrow> ((400, Inr (Inl ''Invalid signature'')), s)
           | Inr ev \<Rightarrow>
               (case process_webhook_event gw v ev s of
                  (Inl e, s1) \<Rightarrow> (error_reply rid (ThrownExn e), s1)
                | (Inr outcome, s1) \<Rightarrow> ((200, Inr (Inr outcome)), s1))))"

end
