(* ===== verification/App.thy ===== *)
theory App
  imports Isolation Sessions OwnerRoutes RateLimit
begin

text \<open>
  \<^verbatim>\<open>src/app.ts\<close>: the whole application. Which route is registered, behind which limiter and
  which authentication, on which pool; and the invariant that every request keeps: the
  database is intact and both pools hold clean connections.
\<close>

subsection \<open>State and dependencies\<close>

record deps =
  d_ext :: ext
  d_codec :: codec
  d_wire :: wire
  d_gateway :: gateway
  d_tokens :: token_config
  d_billing :: billing_config
  d_stripe :: bool
  d_limiter :: bool

record app_state =
  ap_db :: db
  ap_calls :: "stripe_call list"
  ap_owner :: conn
  ap_app :: conn
  ap_limiter :: limiter_state

record request_input =
  ri_env :: env
  ri_clocks :: clocks
  ri_request_id :: string
  ri_commit_fails :: bool
  ri_ip :: string
  ri_headers :: headers

datatype app_request =
    TenantRequest tenant_call
  | OwnerRequest owner_call
  | WebhookRequest "string option" string
  | HealthRequest
  | UnknownRequest

datatype app_body = BTenant payload | BOwner owner_payload | BWebhook "string + webhook_outcome" | BHealth

subsection \<open>Limiters\<close>

definition plan_of :: "uuid \<Rightarrow> string io" where
  "plan_of t =
     bnd (select_orgs (\<lambda>g. org_id g = t)) (\<lambda>rows.
       ret (case first_row rows of Some g \<Rightarrow> org_plan g | None \<Rightarrow> ''free''))"

text \<open>Only \<^verbatim>\<open>/v1/projects\<close> is behind the tenant limiter.\<close>

fun limited_call :: "tenant_call \<Rightarrow> bool" where
  "limited_call (CreateProject n d) = True"
| "limited_call (ListProjects c l) = True"
| "limited_call (GetProject i) = True"
| "limited_call (UpdateProject i p) = True"
| "limited_call (DeleteProject i) = True"
| "limited_call call = False"

fun is_read_call :: "tenant_call \<Rightarrow> bool" where
  "is_read_call (ListProjects c l) = True"
| "is_read_call (GetProject i) = True"
| "is_read_call (V2List c l) = True"
| "is_read_call (V2Get i) = True"
| "is_read_call ListKeys = True"
| "is_read_call call = False"

fun ip_class :: "owner_call \<Rightarrow> route_class option" where
  "ip_class (PostSignup i) = Some General"
| "ip_class (PostLogin email pw) = Some Credential"
| "ip_class (PostResetRequest email) = Some Credential"
| "ip_class (PostRefresh token) = Some Credential"
| "ip_class call = None"

definition verdict :: "exn + 'a \<Rightarrow> exn + unit" where
  "verdict r = (case r of Inl e \<Rightarrow> Inl e | Inr _ \<Rightarrow> Inr ())"

definition limit_gate :: "clocks \<Rightarrow> bool \<Rightarrow> limiter_state \<Rightarrow> actor \<Rightarrow> unit io" where
  "limit_gate ck is_read l a s =
     (case plan_of (actor_tenant_id a) s of
        (plan, s') \<Rightarrow> (verdict (fst (tenant_rate_limit ck is_read (actor_tenant_id a) plan l)), s'))"

text \<open>The buckets after a request on a limited route: touched once it is authenticated.\<close>

definition limiter_after ::
  "clocks \<Rightarrow> bool \<Rightarrow> conn \<Rightarrow> actor io \<Rightarrow> state \<Rightarrow> limiter_state \<Rightarrow> limiter_state" where
  "limiter_after ck is_read owner auth s l =
     (case on_pool owner auth s of
        (Inl _, _) \<Rightarrow> l
      | (Inr a, s1) \<Rightarrow>
          snd (tenant_rate_limit ck is_read (actor_tenant_id a)
            (fst (on_pool owner (plan_of (actor_tenant_id a)) s1)) l))"

subsection \<open>Routes\<close>

definition tenant_auth :: "deps \<Rightarrow> request_input \<Rightarrow> actor io" where
  "tenant_auth dp r = authenticate (d_ext dp) (d_tokens dp) (ri_env r) True (ri_headers r)"

definition tenant_route :: "deps \<Rightarrow> request_input \<Rightarrow> tenant_call \<Rightarrow> app_state \<Rightarrow> payload reply \<times> app_state" where
  "tenant_route dp r call z =
     (let s = \<lparr>st_db = ap_db z, st_conn = ap_app z, st_calls = ap_calls z\<rparr>;
          limited = d_limiter dp \<and> limited_call call;
          limit = (if limited then limit_gate (ri_clocks r) (is_read_call call) (ap_limiter z)
                   else (\<lambda>_. ret ()))
      in case tenant_request (ri_request_id r) (ri_commit_fails r) (ap_owner z) (valid_call call)
                (tenant_auth dp r) limit
                (route_handler (d_ext dp) (d_codec dp) (ap_owner z) (ri_env r) call) s of
           (rep, s') \<Rightarrow>
             (rep, z\<lparr>ap_db := st_db s', ap_calls := st_calls s', ap_app := st_conn s',
                     ap_limiter := (if limited \<and> valid_call call
                       then limiter_after (ri_clocks r) (is_read_call call) (ap_owner z) (tenant_auth dp r) s
                              (ap_limiter z)
                       else ap_limiter z)\<rparr>))"

definition owner_route :: "deps \<Rightarrow> request_input \<Rightarrow> owner_call \<Rightarrow> app_state \<Rightarrow> owner_payload reply \<times> app_state" where
  "owner_route dp r call z =
     (let s = \<lparr>st_db = ap_db z, st_conn = ap_owner z, st_calls = ap_calls z\<rparr>;
          gate = (case ip_class call of
             None \<Rightarrow> (Inr None, ap_limiter z)
           | Some c \<Rightarrow> if d_limiter dp \<and> valid_owner_call (d_wire dp) call
               then ip_rate_limit (ri_clocks r) c (ri_ip r) (ap_limiter z) else (Inr None, ap_limiter z))
      in case owner_request (ri_request_id r) (valid_owner_call (d_wire dp) call)
                (lift_sum (verdict (fst gate)))
                (route_actor (d_ext dp) (d_tokens dp) (ri_env r) (ri_headers r) call)
                (owner_handler (d_ext dp) (d_tokens dp) (d_gateway dp) (d_wire dp) (d_billing dp) (ri_env r) call) s of
           (rep, s') \<Rightarrow>
             (rep, z\<lparr>ap_db := st_db s', ap_calls := st_calls s', ap_owner := st_conn s',
                     ap_limiter := snd gate\<rparr>))"

definition webhook_route ::
  "deps \<Rightarrow> request_input \<Rightarrow> string option \<Rightarrow> string \<Rightarrow> app_state \<Rightarrow> (string + webhook_outcome) reply \<times> app_state" where
  "webhook_route dp r sg body z =
     (case webhook_request (d_gateway dp) (ri_env r) (ri_request_id r) sg body
             \<lparr>st_db = ap_db z, st_conn = ap_owner z, st_calls = ap_calls z\<rparr> of
        (rep, s') \<Rightarrow> (rep, z\<lparr>ap_db := st_db s', ap_calls := st_calls s', ap_owner := st_conn s'\<rparr>))"

fun is_billing_call :: "owner_call \<Rightarrow> bool" where
  "is_billing_call (PostCheckout price ok_url cancel) = True"
| "is_billing_call (PostPortal url) = True"
| "is_billing_call call = False"

definition map_reply :: "('a \<Rightarrow> 'b) \<Rightarrow> 'a reply \<times> 's \<Rightarrow> 'b reply \<times> 's" where
  "map_reply f p = (case p of ((status, Inl e), z) \<Rightarrow> ((status, Inl e), z)
                            | ((status, Inr a), z) \<Rightarrow> ((status, Inr (f a)), z))"

definition not_found_reply :: "request_input \<Rightarrow> 'a reply" where
  "not_found_reply r = (case not_found_handler (ri_request_id r) of (status, e) \<Rightarrow> (status, Inl e))"

fun app_step :: "deps \<Rightarrow> request_input \<Rightarrow> app_request \<Rightarrow> app_state \<Rightarrow> app_body reply \<times> app_state" where
  "app_step dp r (TenantRequest call) z = map_reply BTenant (tenant_route dp r call z)"
| "app_step dp r (OwnerRequest call) z =
     (if is_billing_call call \<and> \<not> d_stripe dp then (not_found_reply r, z)
      else map_reply BOwner (owner_route dp r call z))"
| "app_step dp r (WebhookRequest sg body) z =
     (if \<not> d_stripe dp then (not_found_reply r, z)
      else map_reply BWebhook (webhook_route dp r sg body z))"
| "app_step dp r HealthRequest z = ((200, Inr BHealth), z)"
| "app_step dp r UnknownRequest z = (not_found_reply r, z)"

subsection \<open>Every route keeps integrity and returns its connection\<close>

definition steady :: "state \<Rightarrow> state \<Rightarrow> bool" where
  "steady s s' \<longleftrightarrow>
     (clean (st_conn s) \<and> db_ok (st_db s) \<longrightarrow>
      clean (st_conn s') \<and> db_ok (st_db s') \<and> bypass_rls (st_conn s') = bypass_rls (st_conn s))"

interpretation std: state_order steady
  by unfold_locales (auto simp: steady_def)

lemma steadyI:
  assumes "\<And>s r s'. clean (st_conn s) \<Longrightarrow> m s = (r, s') \<Longrightarrow> pooled s s'" and "tracks keeps_intact m"
  shows "tracks steady m"
  unfolding tracks_def
proof
  fix s
  obtain r s' where m: "m s = (r, s')" by fastforce
  show "steady s (snd (m s))"
  proof (cases "clean (st_conn s)")
    case True
    have p: "pooled s s'" by (rule assms(1) [OF True m])
    then have "clean (st_conn s')" "bypass_rls (st_conn s') = bypass_rls (st_conn s)"
      using pooled_clean [OF p True] by (auto simp: pooled_def)
    moreover have "intact s \<Longrightarrow> intact s'"
      using tracksD [OF assms(2) m] by (simp add: keeps_intact_def)
    ultimately show ?thesis
      using True m by (simp add: steady_def intact_clean)
  next
    case False
    then show ?thesis by (simp add: steady_def)
  qed
qed

lemma exec_pooled: "clean (st_conn s) \<Longrightarrow> exec q s = (r, s') \<Longrightarrow> pooled s s'"
  by (auto simp: exec_def clean_def pooled_def abort_tx_def split: sum.splits prod.splits)

lemma steady_exec: "tracks keeps_intact (exec q) \<Longrightarrow> tracks steady (exec q)"
  by (rule steadyI) (auto intro: exec_pooled)

lemma steady_services:
  "tracks steady (signup x v i)" "tracks steady (login x cfg v email pw)"
  "tracks steady (rotate_refresh_token x cfg v w presented)"
  "tracks steady (request_password_reset x v ttl email)"
  "tracks steady (confirm_password_reset x v token pw)"
  "tracks steady (create_invitation x v a email q ttl)"
  "tracks steady (accept_invitation x v token pw)"
  "tracks steady (change_role v a target q)" "tracks steady (cancel_tenant v a)"
  by (rule steadyI, blast intro: service_pooled,
      rule intact_signup intact_login intact_rotate intact_request_reset intact_confirm_reset
        intact_invite intact_accept intact_change_role intact_cancel)+

lemma steady_webhook: "tracks steady (process_webhook_event gw v ev)"
  unfolding tracks_def
proof
  fix s
  obtain r s' where m: "process_webhook_event gw v ev s = (r, s')" by fastforce
  show "steady s (snd (process_webhook_event gw v ev s))"
  proof (cases "clean (st_conn s)")
    case True
    have "intact s \<Longrightarrow> intact s'"
      using tracksD [OF intact_webhook m] by (simp add: keeps_intact_def)
    then show ?thesis
      using True m process_webhook_ledger(1) [OF True m] by (simp add: steady_def intact_clean)
  next
    case False
    then show ?thesis by (simp add: steady_def)
  qed
qed

lemma intact_key_auth: "tracks keeps_intact (authenticate_api_key x v key)"
  unfolding authenticate_api_key_def by (intro intact_intros) (simp add: ak_key_def)

lemma steady_authenticate: "tracks steady (authenticate x cfg v keys h)"
proof -
  have key: "tracks steady (authenticate_api_key x v key)" for key
  proof (rule steadyI [OF _ intact_key_auth])
    fix s r s'
    assume "clean (st_conn s)" "authenticate_api_key x v key s = (r, s')"
    then show "pooled s s'"
      using authenticate_api_key_cases [of s x v key] by (auto simp: pooled_def split: option.splits if_splits)
  qed
  show ?thesis
    unfolding authenticate_def authenticate_bearer_def
    by (auto intro!: std.tracks_intros key split: option.splits sum.splits)
qed

lemma steady_route_actor: "tracks steady (route_actor x cfg v h call)"
  unfolding route_actor_def
  by (intro std.tracks_intros steady_authenticate tx_kept_if_option)

subsection \<open>Billing\<close>

lemma customer_free:
  assumes "\<not> customer_taken d t i" and "r \<in> set (organizations d)" and "r' \<in> set (organizations d)"
    and "org_id r = t \<and> org_stripe_customer_id r = None" and "org_id r' \<noteq> org_id r"
  shows "\<not> org_clash (r\<lparr>org_stripe_customer_id := Some i\<rparr>) r'"
proof
  assume c: "org_clash (r\<lparr>org_stripe_customer_id := Some i\<rparr>) r'"
  have "customer_taken d t i"
    unfolding customer_taken_def list_ex_iff
    by (intro bexI [of _ r] bexI [of _ r'] conjI) (use assms c in simp_all)
  then show False using assms(1) by simp
qed

lemma customer_db_ok:
  assumes d: "db_ok d" and free: "\<not> customer_taken d t i"
  shows "db_ok (customer_db t i d)"
proof -
  let ?p = "\<lambda>g. org_id g = t \<and> org_stripe_customer_id g = None"
    and ?f = "\<lambda>g. g\<lparr>org_stripe_customer_id := Some i\<rparr>"
  have u: "no_dups org_clash (organizations d)" using d by (simp add: db_ok_defs)
  have "org_clash a b" if a: "a \<in> set (organizations d)" and b: "b \<in> set (organizations d)"
    and c: "org_clash (if ?p a then ?f a else a) (if ?p b then ?f b else b)" for a b
  proof (cases "org_id a = org_id b")
    case True
    then show ?thesis by (simp add: org_clash_def)
  next
    case False
    have fa: "?p a \<Longrightarrow> \<not> org_clash (?f a) b"
      by (rule customer_free [OF free a b _ False [symmetric]])
    have fb: "?p b \<Longrightarrow> \<not> org_clash (?f b) a"
      by (rule customer_free [OF free b a _ False])
    have one: "\<not> (?p a \<and> ?p b)" using False by auto
    show ?thesis
    proof (cases "?p a")
      case True
      then have "\<not> ?p b" using one by blast
      then have "org_clash (?f a) b" using c unfolding eqTrueI [OF True] if_True by (simp only: if_False)
      then show ?thesis using fa [OF True] by blast
    next
      case na: False
      show ?thesis
      proof (cases "?p b")
        case True
        have "org_clash a (?f b)"
          using c na unfolding eqTrueI [OF True] if_True by (simp only: if_False)
        then show ?thesis using fb [OF True] by (simp only: org_clash_sym [of a])
      next
        case False
        then show ?thesis using c na by (simp only: if_False)
      qed
    qed
  qed
  then have "no_dups org_clash (map (\<lambda>g. if ?p g then ?f g else g) (organizations d))"
    by (intro no_dups_map u)
  moreover have "org_exists (customer_db t i d) u = org_exists d u" for u
    by (simp add: customer_db_def exists_own_upd org_exists_map)
  ultimately show ?thesis
    using d by (simp add: db_ok_defs customer_db_def del: if_image_distrib)
qed

lemma ensure_customer_steady:
  assumes "clean (st_conn s)" and "ensure_customer gw t s = (r, s')"
  shows "st_conn s' = st_conn s" "db_ok (st_db s) \<Longrightarrow> db_ok (st_db s')"
  using assms(2) customer_db_ok unfolding ensure_customer_cases [OF assms(1)]
  by (auto split: option.splits sum.splits if_splits)

lemma steady_ensure: "tracks steady (ensure_customer gw t)"
  unfolding tracks_def steady_def
  using ensure_customer_steady by (metis prod.collapse)

lemma steady_wrapped: "tracks steady (wrapped msg (ask call answer))"
  by (simp add: tracks_def steady_def wrapped_ask)

lemma steady_checkout: "tracks steady (start_checkout gw i)" "tracks steady (open_portal gw t url)"
  unfolding start_checkout_def open_portal_def
  by (auto intro!: std.tracks_intros steady_ensure steady_wrapped split: option.splits prod.splits)

lemma steady_owner_handler: "tracks steady (owner_handler x cfg gw w bc v call auth)"
  by (cases call)
    (auto simp: owner_route_defs with_auth_def intro!: std.tracks_intros steady_services steady_checkout
      split: option.splits prod.splits)

subsection \<open>Tenant routes\<close>

lemma intact_list_query: "tracks keeps_intact (exec (q_list_projects cod bound n))"
  by (rule intact_exec) (auto simp: q_list_projects_def split: option.splits prod.splits)

lemma intact_update_returning:
  assumes "\<And>r. project_key (f r) = project_key r"
  shows "tracks keeps_intact (exec (q_update_returning p f))"
proof (rule intact_exec)
  fix c d a d'
  assume d: "db_ok d" and "q_update_returning p f c d = Inr (a, d')"
  then obtain h where "d' = projects_update (map (\<lambda>r. if h r then f r else r)) d"
    by (auto simp: q_update_returning_def q_update_def Let_def split: sum.splits if_splits)
  then show "db_ok d'" using projects_st.ok_update [OF d assms] by simp
qed

lemma intact_delete_projects: "tracks keeps_intact (delete_projects p)"
  by (rule intact_exec)
    (auto simp: q_delete_def Let_def db_ok_defs no_dups_filter)

interpretation intact_routes: route_statements keeps_intact UNIV UNIV
proof
  show "tracks keeps_intact (select_all table)" for table
    unfolding select_all_def by (intro intact_intros)
  show "tracks keeps_intact (enforce_write owner a)" for owner a
    by (simp add: tracks_def enforce_read keeps_intact_def)
qed (intro intact_intros intact_list_query intact_update_returning intact_delete_projects; assumption)+

lemma handler_intact: "tracks keeps_intact (route_handler x cod owner v call a)"
  by (rule intact_routes.tr_handler) simp_all

lemma on_pool_steady:
  assumes m: "tracks steady m" and c: "clean owner" and d: "db_ok (st_db s)"
    and run: "on_pool owner m s = (r, s')"
  shows "st_conn s' = st_conn s" "db_ok (st_db s')"
proof -
  obtain s1 where s1: "m (s\<lparr>st_conn := owner\<rparr>) = (r, s1)" "s' = s1\<lparr>st_conn := st_conn s\<rparr>"
    using run by (auto simp: on_pool_def split: prod.splits)
  show "st_conn s' = st_conn s" using s1 by simp
  show "db_ok (st_db s')" using tracksD [OF m s1(1)] c d s1(2) by (simp add: steady_def)
qed

lemma kept_db_ok:
  assumes h: "handler (in_tenant_tx t s) = (r, s3)" and k: "tracks keeps_intact handler" and d: "db_ok (st_db s)"
  shows "db_ok (kept_db s status cf s3)"
proof -
  have "intact (in_tenant_tx t s)" using d by (simp add: intact_def)
  then have "intact s3" using tracksD [OF k h] by (simp add: keeps_intact_def)
  then show ?thesis
    using d by (auto simp: kept_db_def committed_db_def intact_def split: tx_state.splits)
qed

lemma tenant_request_steady:
  assumes c: "clean (st_conn s)" and o: "clean owner" and d: "db_ok (st_db s)"
    and auth: "tracks steady auth" and limit: "\<And>a. tracks steady (limit a)"
    and kept: "\<And>a. tracks tx_kept (handler a)" and intact: "\<And>a. tracks keeps_intact (handler a)"
    and run: "tenant_request rid cf owner valid auth limit handler s = (rep, s')"
  shows "clean (st_conn s') \<and> db_ok (st_db s') \<and> bypass_rls (st_conn s') = bypass_rls (st_conn s)"
proof -
  note cases = run [unfolded tenant_request_cases [where handler = handler, OF c kept]]
  obtain r1 s1 where a: "on_pool owner auth s = (r1, s1)" by fastforce
  have s1: "st_conn s1 = st_conn s" "db_ok (st_db s1)" using on_pool_steady [OF auth o d a] by auto
  show ?thesis
  proof (cases "valid \<and> (\<exists>act. r1 = Inr act)")
    case False
    then show ?thesis using cases a c d s1 by (cases r1) (auto split: if_splits)
  next
    case True
    then obtain act where act: "r1 = Inr act" "valid" by blast
    obtain r2 s2 where l: "on_pool owner (limit act) s1 = (r2, s2)" by fastforce
    have s2: "st_conn s2 = st_conn s" "db_ok (st_db s2)"
      using on_pool_steady [OF limit o s1(2) l] s1(1) by auto
    have c2: "clean (st_conn s2)" using s2 c by simp
    obtain r3 s3 where h: "handler act (in_tenant_tx (actor_tenant_id act) s2) = (r3, s3)" by fastforce
    note kd = kept_db_ok [OF h intact s2(2)]
    have rb: "bypass_rls (st_conn (snd (rollback_tx (in_tenant_tx t s2)))) = bypass_rls (st_conn s)" for t
      using s2 by (simp add: rollback_tx_def)
    show ?thesis
      using cases act a l h s2 kd rollback_open [OF c2] rb c
      by (cases r2; cases r3) (auto split: if_splits prod.splits)
  qed
qed

lemma steady_plan_of: "tracks steady (plan_of t)"
  unfolding plan_of_def by (intro std.tracks_intros steady_exec intact_select_orgs)

lemma steady_limit_gate: "tracks steady (limit_gate ck is_read l a)"
  using steady_plan_of by (simp add: tracks_def limit_gate_def split: prod.splits) (metis snd_conv)

subsection \<open>The application\<close>

definition app_sound :: "app_state \<Rightarrow> bool" where
  "app_sound z \<longleftrightarrow> clean (ap_owner z) \<and> clean (ap_app z) \<and> db_ok (ap_db z)"

definition same_roles :: "app_state \<Rightarrow> app_state \<Rightarrow> bool" where
  "same_roles z z' \<longleftrightarrow> bypass_rls (ap_owner z') = bypass_rls (ap_owner z) \<and>
     bypass_rls (ap_app z') = bypass_rls (ap_app z)"

lemma snd_map_reply [simp]: "snd (map_reply f p) = snd p"
  by (simp add: map_reply_def split: prod.splits sum.splits)

lemma tenant_route_sound:
  assumes z: "app_sound z"
  shows "app_sound (snd (tenant_route dp r call z)) \<and> same_roles z (snd (tenant_route dp r call z))"
proof -
  let ?s = "\<lparr>st_db = ap_db z, st_conn = ap_app z, st_calls = ap_calls z\<rparr>"
  let ?lim = "if d_limiter dp \<and> limited_call call
    then limit_gate (ri_clocks r) (is_read_call call) (ap_limiter z) else (\<lambda>_. ret ())"
  obtain rep s' where run: "tenant_request (ri_request_id r) (ri_commit_fails r) (ap_owner z) (valid_call call)
      (tenant_auth dp r) ?lim (route_handler (d_ext dp) (d_codec dp) (ap_owner z) (ri_env r) call) ?s = (rep, s')"
    by fastforce
  have lim: "tracks steady (?lim a)" for a
    by (simp add: steady_limit_gate std.tracks_ret)
  have auth: "tracks steady (tenant_auth dp r)" by (simp add: tenant_auth_def steady_authenticate)
  have "clean (st_conn s') \<and> db_ok (st_db s') \<and> bypass_rls (st_conn s') = bypass_rls (st_conn ?s)"
    by (rule tenant_request_steady [OF _ _ _ auth lim handler_kept handler_intact run])
      (use z in \<open>simp_all add: app_sound_def\<close>)
  then show ?thesis
    using z run by (simp add: tenant_route_def Let_def app_sound_def same_roles_def)
qed

lemma owner_request_steady:
  assumes "tracks steady pre" and "tracks steady auth" and "\<And>a. tracks steady (handler a)"
  shows "steady s (snd (owner_request rid valid pre auth handler s))"
proof -
  have "tracks steady (andthen pre (bnd auth handler))"
    by (intro std.tracks_intros assms)
  then show ?thesis
    by (auto simp: owner_request_def tracks_def std.order_refl split: prod.splits sum.splits)
      (metis snd_conv)+
qed

lemma owner_route_sound:
  assumes z: "app_sound z"
  shows "app_sound (snd (owner_route dp r call z)) \<and> same_roles z (snd (owner_route dp r call z))"
proof -
  let ?s = "\<lparr>st_db = ap_db z, st_conn = ap_owner z, st_calls = ap_calls z\<rparr>"
  have "steady ?s (snd (owner_request rid ok (lift_sum g)
      (route_actor (d_ext dp) (d_tokens dp) (ri_env r) (ri_headers r) call)
      (owner_handler (d_ext dp) (d_tokens dp) (d_gateway dp) (d_wire dp) (d_billing dp) (ri_env r) call) ?s))"
    for rid ok g
    by (intro owner_request_steady std.tracks_intros steady_route_actor steady_owner_handler)
  then show ?thesis
    using z by (simp add: owner_route_def Let_def app_sound_def same_roles_def steady_def split: prod.splits)
      (metis snd_conv)
qed

lemma webhook_route_sound:
  assumes z: "app_sound z"
  shows "app_sound (snd (webhook_route dp r sg body z)) \<and> same_roles z (snd (webhook_route dp r sg body z))"
proof -
  let ?s = "\<lparr>st_db = ap_db z, st_conn = ap_owner z, st_calls = ap_calls z\<rparr>"
  have p: "steady ?s s'" if "process_webhook_event gw v ev ?s = (x, s')" for gw v ev x s'
    by (rule tracksD [OF steady_webhook that])
  have "steady ?s (snd (webhook_request (d_gateway dp) (ri_env r) (ri_request_id r) sg body ?s))"
    using p by (auto simp: webhook_request_def std.order_refl split: option.splits sum.splits prod.splits)
  then show ?thesis
    using z by (auto simp: webhook_route_def app_sound_def same_roles_def steady_def split: prod.splits)
qed

lemma app_step_sound:
  assumes "app_sound z"
  shows "app_sound (snd (app_step dp r q z)) \<and> same_roles z (snd (app_step dp r q z))"
  using assms tenant_route_sound [OF assms] owner_route_sound [OF assms] webhook_route_sound [OF assms]
  by (cases q) (simp_all add: same_roles_def)

text \<open>Runs: any number of requests of any kind, with any inputs.\<close>

inductive app_run :: "deps \<Rightarrow> app_state \<Rightarrow> app_state \<Rightarrow> bool" for dp where
  app_refl: "app_run dp z z"
| app_more: "app_run dp z y \<Longrightarrow> app_run dp z (snd (app_step dp r q y))"

inductive_cases app_runE: "app_run dp z z'"

lemma app_run_sound: "app_run dp z z' \<Longrightarrow> app_sound z \<Longrightarrow> app_sound z' \<and> same_roles z z'"
  by (induction rule: app_run.induct) (use app_step_sound in \<open>auto simp: same_roles_def\<close>)

end
