(* ===== verification/ProjectRuns.thy ===== *)
theory ProjectRuns
  imports Isolation
begin

text \<open>
  The outcomes of the project operations on a tenant connection, and of the requests around
  them: what is answered and what is written, on every branch the properties need.
\<close>

subsection \<open>Finding a row by its key\<close>

lemma no_dups_filter_one:
  assumes "no_dups clash rs" and "p \<in> set rs" and "P p" and "\<And>q. P q \<Longrightarrow> clash p q \<and> clash q p"
  shows "filter P rs = [p]"
  using assms(1,2)
proof (induction rs)
  case (Cons r rs)
  show ?case
  proof (cases "p = r")
    case True
    have "\<not> P q" if "q \<in> set rs" for q
      using Cons.prems(1) that assms(4) True by (auto simp: no_dups_def)
    then show ?thesis using True assms(3) by (simp add: filter_False)
  next
    case False
    then have "p \<in> set rs" using Cons.prems(2) by simp
    moreover have "\<not> P r"
      using Cons.prems(1) calculation assms(4) by (auto simp: no_dups_def)
    ultimately show ?thesis using Cons by (simp add: no_dups_def)
  qed
qed simp

lemma project_found:
  assumes "db_ok d" and "p \<in> set (projects d)" and "visible c (project_tenant_id p)"
  shows "filter (\<lambda>r. visible c (project_tenant_id r) \<and> project_id r = project_id p) (projects d) = [p]"
  by (rule no_dups_filter_one [of project_clash])
    (use assms in \<open>simp_all add: db_ok_defs project_clash_def\<close>)

lemma project_absent:
  assumes "\<forall>r\<in>set (projects d). visible c (project_tenant_id r) \<longrightarrow> project_id r \<noteq> i"
  shows "filter (\<lambda>r. visible c (project_tenant_id r) \<and> project_id r = i) (projects d) = []"
  using assms by (simp add: filter_empty_conv)

subsection \<open>Reading\<close>

lemma get_project_run:
  assumes l: "live s" and "db_ok (st_db s)" and "p \<in> set (projects (st_db s))"
    and "visible (st_conn s) (project_tenant_id p)"
  shows "get_project (project_id p) s = (Inr (project_view_of p), s)"
  using project_found [OF assms(2-4)]
  by (simp add: get_project_def bnd_def exec_select_live [OF l] ret_def)

lemma get_project_missing:
  assumes l: "live s" and "\<forall>r\<in>set (projects (st_db s)). visible (st_conn s) (project_tenant_id r) \<longrightarrow> project_id r \<noteq> i"
  shows "get_project i s = (Inl (AppError (not_found ''Project not found'')), s)"
  using project_absent [OF assms(2)]
  by (simp add: get_project_def bnd_def exec_select_live [OF l] throw_def)

subsection \<open>Writing\<close>

definition audited :: "env \<Rightarrow> uuid \<Rightarrow> actor \<Rightarrow> string \<Rightarrow> string \<Rightarrow> db \<Rightarrow> db" where
  "audited v i a action target d =
     d\<lparr>audit_log := audit_log d @ [audit_entry v i (actor_tenant_id a) (Some (actor_user_id a)) action target None]\<rparr>"

lemma audited_sel [simp]:
  "projects (audited v i a action target d) = projects d"
  "organizations (audited v i a action target d) = organizations d"
  "subscriptions (audited v i a action target d) = subscriptions d"
  "api_keys (audited v i a action target d) = api_keys d"
  by (simp_all add: audited_def)

lemma audit_run:
  assumes "live s" and "visible (st_conn s) (actor_tenant_id a)" and "org_exists (st_db s) (actor_tenant_id a)"
    and "audit_fresh (st_db s) i"
  shows "audit v i a action target s = (Inr (), s\<lparr>st_db := audited v i a action target (st_db s)\<rparr>)"
proof -
  have "audit_log_update f d = d\<lparr>audit_log := f (audit_log d)\<rparr>" for f d by simp
  then show ?thesis
    unfolding audit_def using assms
    by (subst exec_insert_ok) (simp_all add: audit_fresh_clash audited_def)
qed

definition created_db :: "env \<Rightarrow> actor \<Rightarrow> string \<Rightarrow> string option \<Rightarrow> db \<Rightarrow> db" where
  "created_db v a n desc d =
     audited v (new_id v 1) a ''project.created'' (uuid_out (new_id v 0))
       (d\<lparr>projects := projects d @ [new_project v a n desc]\<rparr>)"

definition project_fresh :: "env \<Rightarrow> db \<Rightarrow> bool" where
  "project_fresh v d \<longleftrightarrow> (\<forall>r\<in>set (projects d). project_id r \<noteq> new_id v 0) \<and> audit_fresh d (new_id v 1)"

lemma new_project_sel [simp]:
  "project_id (new_project v a n desc) = new_id v 0"
  "project_tenant_id (new_project v a n desc) = actor_tenant_id a"
  "project_status (new_project v a n desc) = ''active''"
  by (simp_all add: new_project_def)

lemma create_project_run:
  assumes l: "live s" and v: "visible (st_conn s) (actor_tenant_id a)"
    and og: "org_exists (st_db s) (actor_tenant_id a)" and fr: "project_fresh v (st_db s)"
  shows "create_project v a n desc s =
    (Inr (project_view_of (new_project v a n desc)), s\<lparr>st_db := created_db v a n desc (st_db s)\<rparr>)"
proof -
  let ?p = "new_project v a n desc"
  let ?d1 = "(st_db s)\<lparr>projects := projects (st_db s) @ [?p]\<rparr>"
  have ins: "insert_project ?p s = (Inr (), s\<lparr>st_db := ?d1\<rparr>)"
    using l v og fr
    by (subst exec_insert_ok) (auto simp: project_fresh_def list_ex_iff project_clash_def)
  have aud: "audit v (new_id v 1) a ''project.created'' (uuid_out (project_id ?p)) (s\<lparr>st_db := ?d1\<rparr>) =
      (Inr (), s\<lparr>st_db := created_db v a n desc (st_db s)\<rparr>)"
    using l v og fr
    by (subst audit_run) (simp_all add: project_fresh_def audit_fresh_def org_exists_def created_db_def)
  show ?thesis by (simp only: create_project_def Let_def run_steps ins aud)
qed

text \<open>What a successful creation must have written.\<close>

lemma create_project_Inr:
  assumes "create_project v a n desc s = (Inr w, s')"
  shows "w = project_view_of (new_project v a n desc) \<and> live s' \<and>
    projects (st_db s') = projects (st_db s) @ [new_project v a n desc] \<and>
    visible (st_conn s) (actor_tenant_id a)"
  using assms
  by (auto simp: create_project_def audit_def Let_def andthen_def bnd_def ret_def exec_def q_insert_def live_def
      split: tx_state.splits sum.splits prod.splits if_splits)

lemma delete_project_run:
  assumes l: "live s" and v: "visible (st_conn s) (actor_tenant_id a)"
    and d: "db_ok (st_db s)" and fr: "audit_fresh (st_db s) (new_id v 0)"
    and p: "p \<in> set (projects (st_db s))" "project_tenant_id p = actor_tenant_id a"
  shows "delete_project v a (project_id p) s =
    (Inr (), s\<lparr>st_db := audited v (new_id v 0) a ''project.deleted'' (uuid_out (project_id p))
      ((st_db s)\<lparr>projects := filter (\<lambda>r. \<not> (visible (st_conn s) (project_tenant_id r) \<and> project_id r = project_id p))
        (projects (st_db s))\<rparr>)\<rparr>)"
proof -
  let ?d1 = "(st_db s)\<lparr>projects := filter (\<lambda>r. \<not> (visible (st_conn s) (project_tenant_id r) \<and> project_id r = project_id p))
        (projects (st_db s))\<rparr>"
  have og: "org_exists (st_db s) (actor_tenant_id a)" using d p by (auto simp: db_ok_defs)
  have del: "delete_projects (\<lambda>r. project_id r = project_id p) s = (Inr 1, s\<lparr>st_db := ?d1\<rparr>)"
    using project_found [OF d p(1), of "st_conn s"] v p(2)
    by (simp add: exec_live [OF l] q_delete_def Let_def)
  have aud: "audit v (new_id v 0) a ''project.deleted'' (uuid_out (project_id p)) (s\<lparr>st_db := ?d1\<rparr>) =
      (Inr (), s\<lparr>st_db := audited v (new_id v 0) a ''project.deleted'' (uuid_out (project_id p)) ?d1\<rparr>)"
    using l v og fr by (subst audit_run) (simp_all add: audit_fresh_def org_exists_def)
  show ?thesis by (simp only: delete_project_def run_steps del one_neq_zero if_False aud)
qed

lemma delete_project_Inr:
  assumes "delete_project v a i s = (Inr u, s')"
  shows "live s' \<and> projects (st_db s') =
    filter (\<lambda>r. \<not> (visible (st_conn s) (project_tenant_id r) \<and> project_id r = i)) (projects (st_db s))"
  using assms
  by (auto simp: delete_project_def audit_def bnd_def throw_def exec_def q_insert_def q_delete_def Let_def live_def
      split: tx_state.splits sum.splits prod.splits if_splits)

text \<open>What a v1 write that succeeds got past.\<close>

lemma enforced_Inr:
  assumes "bnd (enforce_write owner a) f s = (Inr r, s')"
  shows "\<exists>plan. f plan s = (Inr r, s')"
  using assms enforce_read [of owner a s] by (auto simp: bnd_def split: prod.splits sum.splits)

lemma v1_create_Inr:
  assumes run: "v1_create owner v n desc a s = (Inr (status, out), s')"
    and l: "live s" and b: "bound_to t (st_conn s)"
  shows "\<exists>w. create_project v a n desc s = (Inr w, s') \<and> status = 201 \<and> out = PProject w"
proof -
  obtain plan where p: "andthen (assert_project_quota plan)
      (bnd (create_project v a n desc) (\<lambda>row. ret (201, PProject row))) s = (Inr (status, out), s')"
    using enforced_Inr [OF run [unfolded v1_create_def]] by blast
  have "snd (assert_project_quota plan s) = s"
    by (simp add: quota_check [OF l b] split: quota.splits)
  then show ?thesis
    using p by (auto simp: andthen_def bnd_def ret_def split: prod.splits sum.splits)
qed

lemma v1_delete_Inr:
  assumes run: "v1_delete owner v i a s = (Inr r, s')"
  shows "delete_project v a i s = (Inr (), s')"
proof -
  have "andthen (delete_project v a i) (ret (204, PNone)) s = (Inr r, s')"
    using enforced_Inr [OF run [unfolded v1_delete_def andthen_def [of "enforce_write owner a"]]] by simp
  then show ?thesis by (auto simp: andthen_def bnd_def ret_def split: prod.splits sum.splits)
qed

definition patched_db :: "env \<Rightarrow> actor \<Rightarrow> conn \<Rightarrow> uuid \<Rightarrow> project_patch \<Rightarrow> db \<Rightarrow> db" where
  "patched_db v a c i patch d =
     audited v (new_id v 0) a ''project.updated'' (uuid_out i)
       (d\<lparr>projects := map (\<lambda>r. if visible c (project_tenant_id r) \<and> project_id r = i
            then apply_patch v patch r else r) (projects d)\<rparr>)"

lemma apply_patch_sel [simp]:
  "project_id (apply_patch v patch r) = project_id r"
  "project_tenant_id (apply_patch v patch r) = project_tenant_id r"
  "project_created_at (apply_patch v patch r) = project_created_at r"
  by (simp_all add: apply_patch_def)

lemma update_project_run:
  assumes l: "live s" and v: "visible (st_conn s) (actor_tenant_id a)"
    and d: "db_ok (st_db s)" and fr: "audit_fresh (st_db s) (new_id v 0)"
    and p: "p \<in> set (projects (st_db s))" "project_tenant_id p = actor_tenant_id a"
    and ne: "\<not> empty_patch patch"
  shows "update_project v a (project_id p) patch s =
    (Inr (project_view_of (apply_patch v patch p)),
     s\<lparr>st_db := patched_db v a (st_conn s) (project_id p) patch (st_db s)\<rparr>)"
proof -
  let ?h = "\<lambda>r. visible (st_conn s) (project_tenant_id r) \<and> project_id r = project_id p"
  let ?d1 = "(st_db s)\<lparr>projects := map (\<lambda>r. if ?h r then apply_patch v patch r else r) (projects (st_db s))\<rparr>"
  have og: "org_exists (st_db s) (actor_tenant_id a)" using d p by (auto simp: db_ok_defs)
  have ok: "\<not> list_ex (\<lambda>r. ?h r \<and> \<not> visible (st_conn s) (project_tenant_id (apply_patch v patch r))) (projects (st_db s))"
    by (simp add: list_ex_iff)
  have upd: "exec (q_update_returning (\<lambda>r. project_id r = project_id p) (apply_patch v patch)) s =
      (Inr [apply_patch v patch p], s\<lparr>st_db := ?d1\<rparr>)"
    using project_found [OF d p(1), of "st_conn s"] v p(2) ok
    by (simp add: exec_live [OF l] q_update_returning_def q_update_def Let_def)
  have aud: "audit v (new_id v 0) a ''project.updated'' (uuid_out (project_id p)) (s\<lparr>st_db := ?d1\<rparr>) =
      (Inr (), s\<lparr>st_db := patched_db v a (st_conn s) (project_id p) patch (st_db s)\<rparr>)"
    using l v og fr by (subst audit_run) (simp_all add: audit_fresh_def org_exists_def patched_db_def)
  show ?thesis
    by (simp only: update_project_def ne if_False run_steps upd first_row.simps option.case aud)
qed

subsection \<open>Requests\<close>

lemma serve_Inr:
  assumes "clean (st_conn s)" and "valid_call call" and "\<not> org_deleted (st_db s) (actor_tenant_id a)"
    and "route_handler x cod owner v call a (in_tenant_tx (actor_tenant_id a) s) = (Inr (status, out), s3)"
    and "live s3" and "status < 400"
  shows "serve x cod owner v rid False a call s = ((status, Inr out), s3\<lparr>st_conn := released (st_conn s)\<rparr>)"
  unfolding serve_cases [OF assms(1)] assms(4)
  using assms(2,3,5,6) by (cases s3) (simp add: kept_db_def committed_live)

lemma serve_Inl:
  assumes "clean (st_conn s)" and "valid_call call" and "\<not> org_deleted (st_db s) (actor_tenant_id a)"
    and "route_handler x cod owner v call a (in_tenant_tx (actor_tenant_id a) s) = (Inl e, s3)"
  shows "serve x cod owner v rid cf a call s =
    (error_reply rid (ThrownExn e), s3\<lparr>st_db := st_db s, st_conn := released (st_conn s)\<rparr>)"
  unfolding serve_cases [OF assms(1)] assms(4) using assms(2,3) by simp

text \<open>What a successful reply says about the handler.\<close>

lemma serve_InrE:
  assumes c: "clean (st_conn s)" and run: "serve x cod owner v rid False a call s = ((status, Inr out), s')"
    and st: "status < 400"
  obtains s3 where "route_handler x cod owner v call a (in_tenant_tx (actor_tenant_id a) s) = (Inr (status, out), s3)"
    "st_db s' = committed_db s3" "st_conn s' = released (st_conn s)" "valid_call call"
    "\<not> org_deleted (st_db s) (actor_tenant_id a)"
proof -
  obtain r3 s3 where h: "route_handler x cod owner v call a (in_tenant_tx (actor_tenant_id a) s) = (r3, s3)"
    by fastforce
  have e: "error_reply rid e \<noteq> (status, Inr out)" for e
    by (simp add: error_reply_def split: prod.splits)
  have "r3 = Inr (status, out)" "st_db s' = kept_db s status False s3" "st_conn s' = released (st_conn s)"
    "valid_call call" "\<not> org_deleted (st_db s) (actor_tenant_id a)"
    using run [unfolded serve_cases [OF c] h] e by (auto split: if_splits sum.splits prod.splits)
  then show thesis using that h st by (simp add: kept_db_def)
qed

text \<open>A v1 create, decided by the billing state and the quota of its plan.\<close>

definition quota_left :: "uuid \<Rightarrow> db \<Rightarrow> string \<Rightarrow> bool" where
  "quota_left t d plan \<longleftrightarrow>
     (case plan_quota plan of Cap cap \<Rightarrow> length (active_projects t d) < cap | _ \<Rightarrow> True)"

lemma create_request:
  assumes c: "clean (st_conn s)" and nb: "\<not> bypass_rls (st_conn s)" and o: "clean owner"
    and alive: "\<not> org_deleted (st_db s) (actor_tenant_id a)" and valid: "valid_call (CreateProject n desc)"
    and og: "org_exists (st_db s) (actor_tenant_id a)" and fr: "project_fresh v (st_db s)"
    and bill: "billing_state_of (bypass_rls owner) (actor_tenant_id a) (st_db s) = \<lparr>bs_status = st, bs_plan = plan\<rparr>"
    and allowed: "assert_write_allowed st = Inr ()"
  shows "\<exists>s1. serve x cod owner v rid False a (CreateProject n desc) s =
      (if quota_left (actor_tenant_id a) (st_db s) plan
       then (201, Inr (PProject (project_view_of (new_project v a n desc))))
       else error_reply rid (ThrownExn (AppError (quota_exceeded
         (case plan_quota plan of Cap cap \<Rightarrow> quota_message plan cap | _ \<Rightarrow> [])))), s1) \<and>
    st_db s1 = (if quota_left (actor_tenant_id a) (st_db s) plan
      then created_db v a n desc (st_db s) else st_db s)"
proof -
  let ?in = "in_tenant_tx (actor_tenant_id a) s"
  have e: "enforce_write owner a ?in = (Inr plan, ?in)"
    using bill allowed by (simp add: enforce_run [OF o])
  note q = quota_check [OF live_in_tenant_tx bound_in_tenant_tx [OF nb, of "actor_tenant_id a"], of plan]
  show ?thesis
  proof (cases "quota_left (actor_tenant_id a) (st_db s) plan")
    case True
    have q': "assert_project_quota plan ?in = (Inr (), ?in)"
      using True by (simp add: q quota_left_def split: quota.splits)
    have cr: "create_project v a n desc ?in =
        (Inr (project_view_of (new_project v a n desc)), ?in\<lparr>st_db := created_db v a n desc (st_db s)\<rparr>)"
      using create_project_run [of ?in a v n desc] og fr by simp
    have "route_handler x cod owner v (CreateProject n desc) a ?in =
        (Inr (201, PProject (project_view_of (new_project v a n desc))), ?in\<lparr>st_db := created_db v a n desc (st_db s)\<rparr>)"
      by (simp only: route_handler.simps v1_create_def run_steps e q' cr)
    from serve_Inr [OF c valid alive this] True show ?thesis by simp
  next
    case False
    then obtain cap where cap: "plan_quota plan = Cap cap" "cap \<le> length (active_projects (actor_tenant_id a) (st_db s))"
      by (auto simp: quota_left_def split: quota.splits)
    have q': "assert_project_quota plan ?in =
        (Inl (AppError (quota_exceeded (quota_message plan cap))), ?in)"
      using cap by (simp add: q)
    have "route_handler x cod owner v (CreateProject n desc) a ?in =
        (Inl (AppError (quota_exceeded (quota_message plan cap))), ?in)"
      by (simp only: route_handler.simps v1_create_def run_steps e q')
    from serve_Inl [OF c valid alive this] False cap show ?thesis by simp
  qed
qed

lemma active_created:
  "active_projects t (created_db v a n desc d) =
    active_projects t d @ (if actor_tenant_id a = t then [new_project v a n desc] else [])"
  by (simp add: active_projects_def created_db_def)

lemma length_filter_changed:
  assumes "\<And>r. r \<in> set rs \<Longrightarrow> Q r \<Longrightarrow> \<not> P r \<and> P (f r)"
  shows "length (filter P (map (\<lambda>r. if Q r then f r else r) rs)) = length (filter P rs) + length (filter Q rs)"
  using assms by (induction rs) simp_all

lemma active_patched:
  assumes d: "db_ok d" and p: "p \<in> set (projects d)" "visible c (project_tenant_id p)"
    and st: "project_status p = ''archived''" "pp_status patch = Some ''active''"
  shows "length (active_projects (project_tenant_id p) (patched_db v a c (project_id p) patch d)) =
    length (active_projects (project_tenant_id p) d) + 1"
proof -
  let ?P = "\<lambda>r. project_tenant_id r = project_tenant_id p \<and> project_status r \<noteq> ''archived''"
    and ?Q = "\<lambda>r. visible c (project_tenant_id r) \<and> project_id r = project_id p"
  have one: "filter ?Q (projects d) = [p]" by (rule project_found [OF d p])
  have "r = p" if "r \<in> set (projects d)" "?Q r" for r
    using that one filter_set [of ?Q "projects d"] by (auto simp: set_eq_iff)
  then have "length (filter ?P (map (\<lambda>r. if ?Q r then apply_patch v patch r else r) (projects d))) =
      length (filter ?P (projects d)) + length (filter ?Q (projects d))"
    by (intro length_filter_changed) (use st in \<open>auto simp: apply_patch_def\<close>)
  then show ?thesis by (simp add: active_projects_def patched_db_def one)
qed

lemma billing_created [simp]: "billing_state_of b t (created_db v a n desc d) = billing_state_of b t d"
  by (simp add: billing_state_of_def created_db_def)

lemma project_view_new:
  "pv_id (project_view_of (new_project v a n desc)) = new_id v 0"
  by (simp add: project_view_of_def)

end
