(* ===== verification/BillingProperties.thy ===== *)
theory BillingProperties
  imports App Samples ProjectRuns
begin

text \<open>
  What the billing code promises: webhooks are processed exactly once and follow Stripe, a
  tenant has one Stripe customer, and only allowed prices and redirects reach Stripe.
\<close>

subsection \<open>Samples\<close>

definition sample_subscription :: "string \<Rightarrow> stripe_subscription" where
  "sample_subscription status =
     \<lparr>ss_id = ''sub_1'', ss_status = status, ss_plan = Some ''pro'', ss_current_period_end = Some 60,
      ss_customer_id = ''cus_1''\<rparr>"

definition sample_gateway :: "string \<Rightarrow> gateway" where
  "sample_gateway status =
     \<lparr>gw_create_customer = (\<lambda>calls email t. Inr ''cus_new''),
      gw_create_checkout_session = (\<lambda>calls cu pr su ca t. Inr (''cs_1'', Some ''https://stripe'')),
      gw_create_portal_session = (\<lambda>calls cu u. Inr ''https://portal''),
      gw_get_subscription = (\<lambda>calls i. Inr (sample_subscription status)),
      gw_construct_event = (\<lambda>body sg. Inl (OtherError ''bad signature''))\<rparr>"

definition sample_event :: "string \<Rightarrow> stripe_event" where
  "sample_event i =
     \<lparr>ev_id = i, ev_type = ''customer.subscription.updated'', ev_object_id = Some ''sub_1'',
      ev_object_subscription = None\<rparr>"

definition billed_db :: db where
  "billed_db = sample_db\<lparr>organizations :=
     [(sample_org 1 ''one'')\<lparr>org_stripe_customer_id := Some ''cus_1''\<rparr>, sample_org 2 ''two'']\<rparr>"

lemma sample_gateway_sel [simp]:
  "gw_create_customer (sample_gateway st) calls email t = Inr ''cus_new''"
  "gw_get_subscription (sample_gateway st) calls i = Inr (sample_subscription st)"
  by (simp_all add: sample_gateway_def)

lemma sample_event_sel:
  "ev_id (sample_event i) = i" "ev_type (sample_event i) \<in> set RELEVANT_EVENTS"
  "event_subscription (sample_event i) = Some ''sub_1''"
  by (simp_all add: sample_event_def RELEVANT_EVENTS_def event_subscription_def subscription_prefix_def)

lemma billed_db_ok: "db_ok billed_db"
  by (simp add: db_ok_defs billed_db_def sample_defs clash_defs no_dups_def org_exists_def user_exists_def)

subsection \<open>Webhooks\<close>

lemma process_relevant:
  assumes "ev_type ev \<in> set RELEVANT_EVENTS" and "event_subscription ev = Some i"
    and "gw_get_subscription gw (st_calls s) i = Inr ss"
  shows "process_webhook_event gw v ev s = webhook_sync v ev ss (called (GetSubscription i) s)"
  using assms by (simp add: process_webhook_event_def bnd_def webhook_fetch_run called_def)

text \<open>
  C20: A relevant event for a known customer brings the tenant to the state Stripe reports
  when it is processed, and this is the whole effect on the database: the event is in the ledger; the
  organization has the synced plan; exactly one row has the id of the subscription, the stored one overwritten or a
  new one of this tenant, with the mapped status, the plan, the end of the period and the time;
  and one billing.synced entry of this tenant is in the audit log. Rows of other subscriptions,
  other organizations and all other tables are as they were.
\<close>
theorem webhook_follows_stripe:
  assumes c: "clean (st_conn s)" and d: "db_ok (st_db s)"
    and ev: "ev_type ev \<in> set RELEVANT_EVENTS" "event_subscription ev = Some i"
    and ss: "gw_get_subscription gw (st_calls s) i = Inr ss"
    and new: "\<not> in_ledger (st_db s) (ev_id ev)" and org: "customer_org (st_db s) ss = Some org"
    and ok: "upsert_ok (bypass_rls (st_conn s)) (new_subscription v ss org) (subscriptions (st_db s))"
    and fresh: "audit_fresh (st_db s) (new_id v 1)"
    and run: "process_webhook_event gw v ev s = (r, s')"
  shows "r = Inr Processed \<and> in_ledger (st_db s') (ev_id ev) \<and>
    (\<exists>subs. st_db s' = (st_db s)
      \<lparr>processed_webhooks := processed_webhooks (st_db s) @
         [\<lparr>pw_event_id = ev_id ev, pw_processed_at = db_now v\<rparr>],
       subscriptions := subs,
       organizations := map (\<lambda>g. if org_id g = org_id org then g\<lparr>org_plan := synced_plan ss org\<rparr> else g)
         (organizations (st_db s)),
       audit_log := audit_log (st_db s) @
         [\<lparr>audit_id = new_id v 1, audit_tenant_id = org_id org, audit_actor_user_id = None,
           audit_action = ''billing.synced'', audit_target = Some (ss_id ss),
           audit_metadata = Some [(''status'', fst (map_status (ss_status ss))),
             (''plan'', synced_plan ss org), (''event'', ev_type ev)],
           audit_created_at = db_now v\<rparr>]\<rparr> \<and>
      filter (\<lambda>q. subs_stripe_subscription_id q \<noteq> Some (ss_id ss)) subs =
        filter (\<lambda>q. subs_stripe_subscription_id q \<noteq> Some (ss_id ss)) (subscriptions (st_db s)) \<and>
      filter (\<lambda>q. subs_stripe_subscription_id q = Some (ss_id ss)) subs =
        [case filter (\<lambda>q. subs_stripe_subscription_id q = Some (ss_id ss)) (subscriptions (st_db s)) of
           [] \<Rightarrow> \<lparr>subs_id = new_id v 0, subs_tenant_id = org_id org,
             subs_stripe_subscription_id = Some (ss_id ss), subs_status = fst (map_status (ss_status ss)),
             subs_plan = synced_plan ss org, subs_current_period_end = period_end ss,
             subs_updated_at = db_now v\<rparr>
         | q # _ \<Rightarrow> q\<lparr>subs_status := fst (map_status (ss_status ss)), subs_plan := synced_plan ss org,
             subs_current_period_end := period_end ss, subs_updated_at := db_now v\<rparr>])"
proof -
  let ?s1 = "called (GetSubscription i) s"
  have "webhook_sync v ev ss ?s1 =
      (Inr Processed, ?s1\<lparr>st_db := synced_db v ev ss org (st_db ?s1), st_conn := released (st_conn ?s1)\<rparr>)"
    by (rule webhook_sync_run) (use c d new org ok fresh in simp_all)
  then have r: "r = Inr Processed" and db: "st_db s' = synced_db v ev ss org (st_db s)"
    using run process_relevant [OF ev ss] by auto
  have led: "in_ledger (synced_db v ev ss org (st_db s)) (ev_id ev)"
    using in_ledger_recorded [of v "ev_id ev" "st_db s" "ev_id ev"]
    by (simp add: synced_db_def in_ledger_def)
  have nd: "no_dups subscription_clash (subscriptions (st_db s))" using d by (simp add: db_ok_defs)
  have row: "new_subscription v ss org = \<lparr>subs_id = new_id v 0, subs_tenant_id = org_id org,
      subs_stripe_subscription_id = Some (ss_id ss), subs_status = fst (map_status (ss_status ss)),
      subs_plan = synced_plan ss org, subs_current_period_end = period_end ss, subs_updated_at = db_now v\<rparr>"
    by (simp add: new_subscription_def)
  have over: "overwrite_subscription (new_subscription v ss org) q =
      q\<lparr>subs_status := fst (map_status (ss_status ss)), subs_plan := synced_plan ss org,
        subs_current_period_end := period_end ss, subs_updated_at := db_now v\<rparr>" for q
    by (simp add: overwrite_subscription_def)
  have whole: "synced_db v ev ss org (st_db s) = (st_db s)
      \<lparr>processed_webhooks := processed_webhooks (st_db s) @ [\<lparr>pw_event_id = ev_id ev, pw_processed_at = db_now v\<rparr>],
       subscriptions := upserted (new_subscription v ss org) (subscriptions (st_db s)),
       organizations := map (\<lambda>g. if org_id g = org_id org then g\<lparr>org_plan := synced_plan ss org\<rparr> else g)
         (organizations (st_db s)),
       audit_log := audit_log (st_db s) @
         [\<lparr>audit_id = new_id v 1, audit_tenant_id = org_id org, audit_actor_user_id = None,
           audit_action = ''billing.synced'', audit_target = Some (ss_id ss),
           audit_metadata = Some [(''status'', fst (map_status (ss_status ss))),
             (''plan'', synced_plan ss org), (''event'', ev_type ev)],
           audit_created_at = db_now v\<rparr>]\<rparr>"
    by (simp add: synced_db_def recorded_db_def ledger_row_def audit_entry_def sync_metadata_def)
  have own: "filter (\<lambda>q. subs_stripe_subscription_id q = Some (ss_id ss))
      (upserted (new_subscription v ss org) (subscriptions (st_db s))) =
      [case filter (\<lambda>q. subs_stripe_subscription_id q = Some (ss_id ss)) (subscriptions (st_db s)) of
         [] \<Rightarrow> \<lparr>subs_id = new_id v 0, subs_tenant_id = org_id org,
           subs_stripe_subscription_id = Some (ss_id ss), subs_status = fst (map_status (ss_status ss)),
           subs_plan = synced_plan ss org, subs_current_period_end = period_end ss,
           subs_updated_at = db_now v\<rparr>
       | q # _ \<Rightarrow> q\<lparr>subs_status := fst (map_status (ss_status ss)), subs_plan := synced_plan ss org,
           subs_current_period_end := period_end ss, subs_updated_at := db_now v\<rparr>]"
    by (subst upserted_row [OF nd], unfold over, unfold row, rule refl)
  show ?thesis
    unfolding r db
    by (intro conjI refl led exI [of _ "upserted (new_subscription v ss org) (subscriptions (st_db s))"] whole
        upserted_others own)
qed

lemma webhook_follows_stripe_witness:
  "fst (process_webhook_event (sample_gateway ''past_due'') (sample_env 0) (sample_event ''evt_1'')
      (start_state True billed_db)) = Inr Processed"
  using webhook_follows_stripe [of "start_state True billed_db" "sample_event ''evt_1''" "''sub_1''"
      "sample_gateway ''past_due''" "sample_subscription ''past_due''"
      "(sample_org 1 ''one'')\<lparr>org_stripe_customer_id := Some ''cus_1''\<rparr>" "sample_env 0",
      OF _ _ _ _ _ _ _ _ _ prod.collapse [symmetric]]
  by (simp add: billed_db_ok sample_event_sel in_ledger_def customer_org_def upsert_ok_def audit_fresh_def)
    (simp add: billed_db_def sample_defs sample_subscription_def)

text \<open>
  C15: Exactly once. An event that was answered is in the ledger; delivered again, at any
  later time and whatever its content then, it changes nothing and is a duplicate, unless
  the request to Stripe fails, which changes nothing either.
\<close>
theorem webhook_exactly_once:
  assumes c: "clean (st_conn s)" and first: "process_webhook_event gw v ev s = (Inr out, s1)"
    and later: "clean (st_conn s2)" "\<forall>e. in_ledger (st_db s1) e \<longrightarrow> in_ledger (st_db s2) e"
    and same: "ev_id ev' = ev_id ev"
    and again: "process_webhook_event gw' v' ev' s2 = (r, s3)"
  shows "st_db s3 = st_db s2 \<and> (r = Inr Duplicate \<or> (\<exists>e. r = Inl (AppError e)))"
proof -
  have led: "in_ledger (st_db s2) (ev_id ev')"
    using process_webhook_ledger(4) [OF c first] later(2) same by simp
  have ro: "bnd (record_only v' (ev_id ev')) (\<lambda>b. ret (if b then Ignored else Duplicate)) s2 = (Inr Duplicate, s2)"
    using led by (simp add: bnd_def record_only_cases [OF later(1)] ret_def)
  have sy: "st_db s3 = st_db s2 \<and> (r = Inr Duplicate \<or> (\<exists>e. r = Inl (AppError e)))"
    if b: "bnd (webhook_fetch gw' i) (\<lambda>ss. webhook_sync v' ev' ss) s2 = (r, s3)" for i
  proof (cases "gw_get_subscription gw' (st_calls s2) i")
    case (Inl e)
    then show ?thesis
      using b wrapped_app_error [of e "''Failed to fetch subscription for webhook sync''"]
      by (auto simp: bnd_def webhook_fetch_run)
  next
    case (Inr ss)
    have "webhook_sync v' ev' ss (called (GetSubscription i) s2) = (r, s3)"
      using b Inr by (simp add: bnd_def webhook_fetch_run called_def)
    moreover have "clean (st_conn (called (GetSubscription i) s2))" using later(1) by simp
    ultimately show ?thesis using led by (auto simp: webhook_sync_cases)
  qed
  show ?thesis
  proof (cases "ev_type ev' \<in> set RELEVANT_EVENTS \<and> event_subscription ev' \<noteq> None")
    case True
    then obtain i where "ev_type ev' \<in> set RELEVANT_EVENTS" "event_subscription ev' = Some i" by blast
    then have "bnd (webhook_fetch gw' i) (\<lambda>ss. webhook_sync v' ev' ss) s2 = (r, s3)"
      using again by (simp only: process_webhook_event_def option.case not_not if_False simp_thms)
    then show ?thesis by (rule sy)
  next
    case False
    then have "process_webhook_event gw' v' ev' s2 =
        bnd (record_only v' (ev_id ev')) (\<lambda>b. ret (if b then Ignored else Duplicate)) s2"
      unfolding process_webhook_event_def by (cases "event_subscription ev'") simp_all
    then show ?thesis using again ro by simp
  qed
qed

lemma webhook_exactly_once_witness:
  "st_db (snd (process_webhook_event (sample_gateway ''canceled'') (sample_env 1) (sample_event ''evt_1'')
     (start_state True (recorded_db (sample_env 0) ''evt_1'' billed_db)))) =
   recorded_db (sample_env 0) ''evt_1'' billed_db"
proof -
  let ?ev = "\<lparr>ev_id = ''evt_1'', ev_type = ''charge.refunded'', ev_object_id = None, ev_object_subscription = None\<rparr>"
  let ?s = "start_state True billed_db" and ?s2 = "start_state True (recorded_db (sample_env 0) ''evt_1'' billed_db)"
  have first: "process_webhook_event (sample_gateway ''active'') (sample_env 0) ?ev ?s =
      (Inr Ignored, ?s\<lparr>st_db := recorded_db (sample_env 0) ''evt_1'' billed_db\<rparr>)"
    by (simp add: process_webhook_event_def RELEVANT_EVENTS_def bnd_def record_only_cases ret_def
        in_ledger_def billed_db_def sample_defs)
  show ?thesis
    using webhook_exactly_once [OF _ first, of ?s2 "sample_event ''evt_1''", OF _ _ _ _ prod.collapse [symmetric]]
    by (simp add: sample_event_sel)
qed

text \<open>
  At least once. A delivery that fails, whether Stripe, a constraint or a policy is to
  blame, leaves the database as it was and hands its connection back clean: in particular
  the event is not in the ledger and its next delivery is processed as the first.
\<close>
theorem webhook_failure_leaves_no_trace:
  assumes "clean (st_conn s)" and "process_webhook_event gw v ev s = (Inl e, s')"
  shows "st_db s' = st_db s \<and> clean (st_conn s')"
  using process_webhook_ledger(1,2) [OF assms] by blast

lemma webhook_failure_leaves_no_trace_witness:
  "st_db (snd (process_webhook_event
     ((sample_gateway ''active'')\<lparr>gw_get_subscription := (\<lambda>calls i. Inl (OtherError ''timeout''))\<rparr>)
     (sample_env 0) (sample_event ''evt_1'') (start_state True billed_db))) = billed_db"
proof -
  let ?gw = "(sample_gateway ''active'')\<lparr>gw_get_subscription := (\<lambda>calls i. Inl (OtherError ''timeout''))\<rparr>"
  have "process_webhook_event ?gw (sample_env 0) (sample_event ''evt_1'') (start_state True billed_db) =
      (Inl (AppError (bad_gateway ''Failed to fetch subscription for webhook sync'')),
       called (GetSubscription ''sub_1'') (start_state True billed_db))"
    using sample_event_sel(2,3)
    by (simp add: process_webhook_event_def bnd_def webhook_fetch_run wrap_stripe_error_def called_def)
  from webhook_failure_leaves_no_trace [OF _ this] show ?thesis
    using sample_event_sel(2,3)
    by (simp add: process_webhook_event_def bnd_def webhook_fetch_run)
qed

subsection \<open>Deliveries that overtake each other\<close>

lemma first_row_map: "first_row (map f xs) = map_option f (first_row xs)"
  by (cases xs) simp_all

lemma first_row_filter_map:
  assumes "\<And>x. P (f x) = P x"
  shows "first_row (filter P (map f xs)) = map_option f (first_row (filter P xs))"
  using assms by (simp add: filter_map comp_def first_row_map)

lemma customer_org_synced:
  assumes org: "customer_org d ss = Some g" and "ss_customer_id ss' = ss_customer_id ss"
  shows "\<exists>g'. customer_org (synced_db v ev ss'' org d) ss' = Some g' \<and> org_id g' = org_id g"
proof -
  let ?f = "\<lambda>g. if org_id g = org_id org then g\<lparr>org_plan := synced_plan ss'' org\<rparr> else g"
  let ?P = "\<lambda>g. org_stripe_customer_id g = Some (ss_customer_id ss)"
  have "customer_org (synced_db v ev ss'' org d) ss' = first_row (filter ?P (map ?f (organizations d)))"
    using assms(2) by (simp add: customer_org_def synced_db_def)
  also have "\<dots> = map_option ?f (customer_org d ss)"
    unfolding customer_org_def by (rule first_row_filter_map) simp
  finally show ?thesis using org by simp
qed

text \<open>
  C40: Order. The subscription is fetched before the transaction and written without a check
  of its age, so fetching it again does not make deliveries order-independent: when a second
  delivery fetches and commits between the fetch and the transaction of a first one, the
  first overwrites the newer state with the older one it holds.
\<close>
theorem webhook_stale_write:
  assumes c: "clean (st_conn s)" and d: "db_ok (st_db s)"
    and g1: "gw_get_subscription gw (st_calls s) i = Inr old"
    and g2: "gw_get_subscription gw (st_calls s @ [GetSubscription i]) i = Inr new"
    and same: "ss_id new = ss_id old" "ss_customer_id new = ss_customer_id old"
    and org: "customer_org (st_db s) old = Some org"
    and led: "\<not> in_ledger (st_db s) (ev_id e1)" "\<not> in_ledger (st_db s) (ev_id e2)" "ev_id e1 \<noteq> ev_id e2"
    and ok: "upsert_ok (bypass_rls (st_conn s)) (new_subscription v2 new org) (subscriptions (st_db s))"
    and fresh: "audit_fresh (st_db s) (new_id v1 1)" "audit_fresh (st_db s) (new_id v2 1)"
      "new_id v1 1 \<noteq> new_id v2 1"
  shows "\<exists>s'. bnd (webhook_fetch gw i) (\<lambda>first.
      bnd (webhook_fetch gw i) (\<lambda>second.
        andthen (webhook_sync v2 e2 second) (webhook_sync v1 e1 first))) s = (Inr Processed, s') \<and>
    (\<forall>q\<in>set (subscriptions (st_db s')). subs_stripe_subscription_id q = Some (ss_id new) \<longrightarrow>
      subs_status q = fst (map_status (ss_status old)))"
proof -
  let ?call = "GetSubscription i"
  let ?s2 = "called ?call (called ?call s)"
  have org2: "customer_org (st_db ?s2) new = Some org" using org same by (simp add: customer_org_def)
  have c2: "clean (st_conn ?s2)" using c by simp
  have d2: "db_ok (st_db ?s2)" using d by simp
  let ?d3 = "synced_db v2 e2 new org (st_db s)"
  let ?s3 = "?s2\<lparr>st_db := ?d3, st_conn := released (st_conn s)\<rparr>"
  have w2: "webhook_sync v2 e2 new ?s2 = (Inr Processed, ?s3)"
    using webhook_sync_run [OF c2 d2 _ org2] led ok fresh by simp
  have d3: "db_ok ?d3"
    using tracksD [OF intact_webhook_sync w2] c d by (simp add: keeps_intact_def intact_clean)
  obtain org' where org3: "customer_org ?d3 old = Some org'" and id: "org_id org' = org_id org"
    using customer_org_synced [OF org refl] by blast
  have "subs_tenant_id q = org_id org \<or> bypass_rls (st_conn s)"
    if "q \<in> set (subscriptions ?d3)" "subs_stripe_subscription_id q = Some (ss_id new)" for q
    using upserted_tenant [of q v2 new org "subscriptions (st_db s)"] that ok
    by (auto simp: synced_db_def upsert_ok_def list_all_iff)
  moreover have "list_ex (same_subscription (new_subscription v1 old org')) (subscriptions ?d3)"
    using upserted_some [of v2 new org "subscriptions (st_db s)"] same(1)
    by (simp add: synced_db_def list_ex_iff)
  ultimately have ok3: "upsert_ok (bypass_rls (st_conn ?s3)) (new_subscription v1 old org') (subscriptions (st_db ?s3))"
    using same(1) id by (auto simp: upsert_ok_def list_all_iff)
  have led3: "\<not> in_ledger (st_db ?s3) (ev_id e1)"
    using led in_ledger_recorded [of v2 "ev_id e2" "st_db s" "ev_id e1"]
    by (simp add: synced_db_def in_ledger_def)
  have fresh3: "audit_fresh (st_db ?s3) (new_id v1 1)"
    using fresh by (auto simp: audit_fresh_def synced_db_def)
  let ?s4 = "?s3\<lparr>st_db := synced_db v1 e1 old org' ?d3, st_conn := released (st_conn ?s3)\<rparr>"
  have w1: "webhook_sync v1 e1 old ?s3 = (Inr Processed, ?s4)"
    using webhook_sync_run [OF _ _ led3 _ ok3 fresh3] d3 org3 by simp
  have f1: "webhook_fetch gw i s = (Inr old, called ?call s)"
    "webhook_fetch gw i (called ?call s) = (Inr new, ?s2)"
    using g1 g2 by (simp_all add: webhook_fetch_run called_def)
  have "bnd (webhook_fetch gw i) (\<lambda>first. bnd (webhook_fetch gw i) (\<lambda>second.
        andthen (webhook_sync v2 e2 second) (webhook_sync v1 e1 first))) s = (Inr Processed, ?s4)"
    by (simp only: run_steps f1 w2 w1)
  moreover have "\<forall>q\<in>set (subscriptions (st_db ?s4)). subs_stripe_subscription_id q = Some (ss_id new) \<longrightarrow>
      subs_status q = fst (map_status (ss_status old))"
    using upserted_own same(1) by (simp add: synced_db_def)
  ultimately show ?thesis by blast
qed

text \<open>Stripe first reports the trial, then the cancellation; the trial is what stays.\<close>

definition moving_gateway :: gateway where
  "moving_gateway = (sample_gateway ''trialing'')\<lparr>gw_get_subscription :=
     (\<lambda>calls i. Inr (sample_subscription (if calls = [] then ''trialing'' else ''canceled'')))\<rparr>"

lemma webhook_stale_write_witness:
  "\<exists>s'. bnd (webhook_fetch moving_gateway ''sub_1'') (\<lambda>first.
      bnd (webhook_fetch moving_gateway ''sub_1'') (\<lambda>second.
        andthen (webhook_sync (sample_env 1) (sample_event ''e2'') second)
          (webhook_sync (sample_env 0) (sample_event ''e1'') first))) (start_state True billed_db) =
      (Inr Processed, s') \<and>
    (\<forall>q\<in>set (subscriptions (st_db s')). subs_stripe_subscription_id q = Some ''sub_1'' \<longrightarrow>
      subs_status q = ''trialing'')"
proof -
  have org: "customer_org billed_db (sample_subscription ''trialing'') =
      Some ((sample_org 1 ''one'')\<lparr>org_stripe_customer_id := Some ''cus_1''\<rparr>)"
    by (simp add: customer_org_def billed_db_def sample_defs sample_subscription_def)
  show ?thesis
    using webhook_stale_write [of "start_state True billed_db" moving_gateway "''sub_1''"
        "sample_subscription ''trialing''" "sample_subscription ''canceled''" _
        "sample_event ''e1''" "sample_event ''e2''" "sample_env 1" "sample_env 0"] org
    by (simp add: billed_db_ok moving_gateway_def sample_event_sel in_ledger_def upsert_ok_def audit_fresh_def)
      (simp add: billed_db_def sample_defs sample_subscription_def map_status_def)
qed

subsection \<open>Degraded access\<close>

definition writes_blocked :: "string \<Rightarrow> bool" where
  "writes_blocked status \<longleftrightarrow> status = ''past_due'' \<or> status = ''canceled''"

text \<open>
  C24: Degraded access to projects. While the tenant's most recently updated subscription is
  past due or cancelled, every v1 project write of the tenant (create, update, delete) is
  answered 402 and changes nothing, and each of its projects is still read in full. Other
  writes are not covered: the v2 create, the API key and the invitation routes do not ask for the
  billing state at all.
\<close>
theorem degraded_access:
  assumes c: "clean (st_conn s)" and o: "clean owner" and b: "bypass_rls owner" and d: "db_ok (st_db s)"
    and latest: "latest_subscription (filter (\<lambda>r. subs_tenant_id r = actor_tenant_id a)
      (subscriptions (st_db s))) = Some q" and blocked: "writes_blocked (subs_status q)"
    and alive: "\<not> org_deleted (st_db s) (actor_tenant_id a)"
    and call: "call \<in> {CreateProject n x0, UpdateProject i p, DeleteProject i}" "valid_call call"
    and own: "row \<in> set (projects (st_db s))" "project_tenant_id row = actor_tenant_id a"
  shows "\<exists>s1 s2 refusal. env_code refusal = PAYMENT_REQUIRED \<and>
    serve x cod owner v rid cf a call s = ((402, Inl refusal), s1) \<and> st_db s1 = st_db s \<and>
    serve x cod owner v rid cf a (GetProject (project_id row)) s =
      ((200, Inr (PProject (project_view_of row))), s2) \<and> st_db s2 = st_db s"
proof -
  let ?in = "in_tenant_tx (actor_tenant_id a) s"
  let ?m = "''Writes are disabled while the subscription is '' @ subs_status q"
  have e: "enforce_write owner a ?in = (Inl (AppError (payment_required ?m)), ?in)"
    using blocked latest b unfolding enforce_run [OF o]
    by (auto simp: billing_state_of_def writes_blocked_def assert_write_allowed_def)
  have h: "route_handler x cod owner v call a ?in = (Inl (AppError (payment_required ?m)), ?in)"
    using call(1) e by (auto simp: route_defs andthen_def bnd_def)
  have w: "serve x cod owner v rid cf a call s = (error_reply rid (ThrownExn (AppError (payment_required ?m))),
      ?in\<lparr>st_db := st_db s, st_conn := released (st_conn s)\<rparr>)"
    by (rule serve_Inl [OF c call(2) alive h])
  have g: "route_handler x cod owner v (GetProject (project_id row)) a ?in =
      (Inr (200, PProject (project_view_of row)), ?in)"
    using get_project_run [of ?in row] d own by (simp add: v1_get_def bnd_def ret_def)
  have r: "serve x cod owner v rid cf a (GetProject (project_id row)) s =
      ((200, Inr (PProject (project_view_of row))),
       ?in\<lparr>st_db := st_db s, st_conn := released (st_conn s)\<rparr>)"
    unfolding serve_cases [OF c] g using alive by (simp add: kept_db_def committed_live)
  show ?thesis
    unfolding w r
    by (simp add: error_reply_def error_handler_def payment_required_def to_envelope_def)
qed

definition past_due_db :: db where
  "past_due_db = sample_db\<lparr>
     projects := [\<lparr>project_id = 7, project_tenant_id = 1, project_name = ''p'', project_description = None,
       project_status = ''active'', project_created_at = 0, project_updated_at = 0\<rparr>],
     subscriptions := [\<lparr>subs_id = 8, subs_tenant_id = 1, subs_stripe_subscription_id = Some ''sub_1'',
       subs_status = ''past_due'', subs_plan = ''pro'', subs_current_period_end = None, subs_updated_at = 0\<rparr>]\<rparr>"

lemma past_due_db_ok: "db_ok past_due_db"
  by (simp add: db_ok_defs past_due_db_def sample_defs clash_defs no_dups_def org_exists_def user_exists_def)

lemma degraded_access_witness:
  "\<exists>refusal s1. serve sample_ext sample_codec (fresh_conn True) (sample_env 0) ''rid'' False
     \<lparr>actor_tenant_id = 1, actor_user_id = 11, actor_role = Owner\<rparr> (DeleteProject 7)
     (start_state False past_due_db) = ((402, Inl refusal), s1) \<and> st_db s1 = past_due_db"
proof -
  let ?a = "\<lparr>actor_tenant_id = 1, actor_user_id = 11, actor_role = Owner\<rparr>"
    and ?s = "start_state False past_due_db"
  have "latest_subscription (filter (\<lambda>r. subs_tenant_id r = actor_tenant_id ?a) (subscriptions (st_db ?s))) =
      Some (hd (subscriptions past_due_db))" "writes_blocked (subs_status (hd (subscriptions past_due_db)))"
    "\<not> org_deleted (st_db ?s) (actor_tenant_id ?a)"
    "hd (projects past_due_db) \<in> set (projects (st_db ?s))"
    "project_tenant_id (hd (projects past_due_db)) = actor_tenant_id ?a"
    by (simp_all add: past_due_db_def sample_defs latest_subscription_def writes_blocked_def org_deleted_def)
  note facts = this
  have "bypass_rls (fresh_conn True)" by (simp add: fresh_conn_def)
  from degraded_access [where call = "DeleteProject 7" and i = 7 and s = ?s, OF _ _ this _ facts(1-3) _ _ facts(4,5)]
  show ?thesis using past_due_db_ok by fastforce
qed

text \<open>
  Writes outside the projects: whatever the state of its subscription, an administrator of a tenant
  that is past due or cancelled still creates API keys.
\<close>

theorem past_due_still_creates_keys:
  assumes c: "clean (st_conn s)" and alive: "\<not> org_deleted (st_db s) (actor_tenant_id a)"
    and latest: "latest_subscription (filter (\<lambda>r. subs_tenant_id r = actor_tenant_id a)
      (subscriptions (st_db s))) = Some q" "writes_blocked (subs_status q)"
    and a: "actor_role a \<noteq> Member" "org_exists (st_db s) (actor_tenant_id a)"
    and n: "valid_call (CreateKey n)" and fresh: "audit_fresh (st_db s) (new_id v 1)"
      "\<forall>r\<in>set (api_keys (st_db s)). ak_id r \<noteq> new_id v 0 \<and> ak_hashed_key r \<noteq> hash_key x (''tf_'' @ rnd_key v)"
  shows "\<exists>s1. serve x cod owner v rid False a (CreateKey n) s =
      ((201, Inr (PKey (new_id v 0) (''tf_'' @ rnd_key v))), s1) \<and>
    api_keys (st_db s1) = api_keys (st_db s) @ [new_api_key x v (actor_tenant_id a) n (''tf_'' @ rnd_key v)]"
proof -
  let ?in = "in_tenant_tx (actor_tenant_id a) s"
  let ?s3 = "?in\<lparr>st_db := (st_db s)
       \<lparr>api_keys := api_keys (st_db s) @ [new_api_key x v (actor_tenant_id a) n (''tf_'' @ rnd_key v)],
        audit_log := audit_log (st_db s) @ [audit_entry v (new_id v 1) (actor_tenant_id a)
          (Some (actor_user_id a)) ''apikey.created'' (uuid_out (new_id v 0)) None]\<rparr>\<rparr>"
  have cr: "create_api_key x v a n ?in = (Inr (new_id v 0, ''tf_'' @ rnd_key v), ?s3)"
    using create_api_key_run [of ?in a v x n] a(2) fresh by (simp add: visible_def)
  have adm: "require_admin a u = (Inr (), u)" for u
    using a(1) by (cases "actor_role a") (simp_all add: require_admin_def require_role_def lift_sum_def ret_def)
  have "route_handler x cod owner v (CreateKey n) a ?in = (Inr (201, PKey (new_id v 0) (''tf_'' @ rnd_key v)), ?s3)"
    by (simp only: route_handler.simps key_create_def run_steps adm cr)
  from serve_Inr [OF c n alive this] show ?thesis by (simp add: live_def)
qed

subsection \<open>The Stripe customer\<close>

lemma customer_stored:
  assumes "tenant_org d t = Some g" and "org_stripe_customer_id g = None"
  shows "tenant_org (customer_db t i d) t = Some (g\<lparr>org_stripe_customer_id := Some i\<rparr>)"
proof -
  let ?P = "\<lambda>g. org_id g = t"
    and ?f = "\<lambda>g. if org_id g = t \<and> org_stripe_customer_id g = None then g\<lparr>org_stripe_customer_id := Some i\<rparr> else g"
  have "tenant_org (customer_db t i d) t = first_row (filter ?P (map ?f (organizations d)))"
    by (simp add: tenant_org_def customer_db_def)
  also have "\<dots> = map_option ?f (tenant_org d t)"
    unfolding tenant_org_def by (rule first_row_filter_map) simp
  also have "\<dots> = Some (g\<lparr>org_stripe_customer_id := Some i\<rparr>)"
    using assms by (auto simp: tenant_org_def dest: first_row_filterD)
  finally show ?thesis .
qed

text \<open>What ensuring the customer leaves behind: the id that was answered, if it is a real one.\<close>

lemma ensured:
  assumes c: "clean (st_conn s)" and run: "ensure_customer gw t s = (Inr i, s1)" and i: "i \<noteq> []"
    and ne: "\<And>g. tenant_org (st_db s) t = Some g \<Longrightarrow> org_stripe_customer_id g \<noteq> Some []"
  shows "clean (st_conn s1)"
    "\<exists>g. tenant_org (st_db s1) t = Some g \<and> org_stripe_customer_id g = Some i"
proof -
  show "clean (st_conn s1)" using ensure_customer_steady(1) [OF c run] c by simp
  note cases = run [unfolded ensure_customer_cases [OF c]]
  show "\<exists>g. tenant_org (st_db s1) t = Some g \<and> org_stripe_customer_id g = Some i"
  proof (cases "tenant_org (st_db s) t")
    case None
    then show ?thesis using cases by simp
  next
    case (Some g)
    show ?thesis
    proof (cases "org_stripe_customer_id g")
      case None
      then show ?thesis using cases Some customer_stored [OF Some None]
        by (auto simp: truthy_def split: option.splits sum.splits if_splits)
    next
      case (Some j)
      then show ?thesis using cases \<open>tenant_org (st_db s) t = Some g\<close> ne [OF \<open>tenant_org (st_db s) t = Some g\<close>]
        by (auto simp: truthy_def)
    qed
  qed
qed

text \<open>Any sequence of checkout and portal requests of one tenant.\<close>

datatype bill_request = WantCheckout string string string | WantPortal string

fun bill_once :: "gateway \<Rightarrow> uuid \<Rightarrow> bill_request \<Rightarrow> state \<Rightarrow> state" where
  "bill_once gw t (WantCheckout price ok_url cancel) s =
     snd (start_checkout gw \<lparr>co_tenant_id = t, co_price_id = price, co_success_url = ok_url,
       co_cancel_url = cancel\<rparr> s)"
| "bill_once gw t (WantPortal url) s = snd (open_portal gw t url s)"

fun call_for :: "string \<Rightarrow> bill_request \<Rightarrow> uuid \<Rightarrow> stripe_call" where
  "call_for i (WantCheckout price ok_url cancel) t = CreateCheckoutSession i price ok_url cancel t"
| "call_for i (WantPortal url) t = CreatePortalSession i url"

lemma bill_once_run:
  assumes c: "clean (st_conn s)" and g: "tenant_org (st_db s) t = Some g" "org_stripe_customer_id g = Some i"
    and i: "i \<noteq> []"
  shows "bill_once gw t q s = called (call_for i q t) s"
proof -
  have e: "ensure_customer gw t s = (Inr i, s)"
    using g i by (simp add: ensure_customer_cases [OF c] truthy_def)
  show ?thesis
  proof (cases q)
    case (WantCheckout price ok_url cancel)
    then show ?thesis
      by (auto simp: start_checkout_def bnd_def e wrapped_ask called_def throw_def ret_def
          split: sum.splits prod.splits option.splits)
  next
    case (WantPortal url)
    then show ?thesis
      by (auto simp: open_portal_def bnd_def e wrapped_ask called_def throw_def ret_def split: sum.splits)
  qed
qed

lemma bill_all_run:
  assumes "clean (st_conn s)" and "tenant_org (st_db s) t = Some g" "org_stripe_customer_id g = Some i"
    and "i \<noteq> []"
  shows "fold (bill_once gw t) qs s = s\<lparr>st_calls := st_calls s @ map (\<lambda>q. call_for i q t) qs\<rparr>"
  using assms
proof (induction qs arbitrary: s)
  case Nil
  show ?case by simp
next
  case (Cons q qs)
  then show ?case by (simp add: bill_once_run called_def)
qed

text \<open>
  One customer. Once a tenant's Stripe customer has been ensured, every later checkout or
  portal request, however many there are and whatever Stripe answers to them, makes exactly
  its own session call for that customer: no further customer is created and the database
  does not change.
\<close>
theorem one_customer:
  assumes "clean (st_conn s)" and "ensure_customer gw t s = (Inr i, s1)" and "i \<noteq> []"
    and "\<And>g. tenant_org (st_db s) t = Some g \<Longrightarrow> org_stripe_customer_id g \<noteq> Some []"
  shows "fold (bill_once gw t) qs s1 = s1\<lparr>st_calls := st_calls s1 @ map (\<lambda>q. call_for i q t) qs\<rparr>"
  using ensured [OF assms] bill_all_run [of s1 t _ i gw qs] assms(3) by blast

lemma one_customer_witness:
  "st_calls (fold (bill_once (sample_gateway ''active'') 1) [WantPortal ''u'', WantCheckout ''p'' ''s'' ''c'']
     (snd (ensure_customer (sample_gateway ''active'') 1 (start_state True sample_db)))) =
   [CreateCustomer ''a'' 1, CreatePortalSession ''cus_new'' ''u'',
    CreateCheckoutSession ''cus_new'' ''p'' ''s'' ''c'' 1]"
proof -
  have e: "ensure_customer (sample_gateway ''active'') 1 (start_state True sample_db) =
      (Inr ''cus_new'', (called (CreateCustomer ''a'' 1) (start_state True sample_db))
        \<lparr>st_db := customer_db 1 ''cus_new'' sample_db\<rparr>)"
    by (simp add: ensure_customer_cases tenant_org_def truthy_def bill_email_def customer_taken_def
        sample_defs clash_defs)
  show ?thesis
    using one_customer [OF _ e, where qs = "[WantPortal ''u'', WantCheckout ''p'' ''s'' ''c'']"] e
    by (simp add: tenant_org_def sample_defs)
qed

subsection \<open>What reaches Stripe\<close>

definition redirects_allowed :: "wire \<Rightarrow> billing_config \<Rightarrow> string \<Rightarrow> bool" where
  "redirects_allowed w bc url \<longleftrightarrow> allowed_redirect_origins bc \<noteq> [] \<longrightarrow>
     (\<exists>og\<in>set (allowed_redirect_origins bc). url_origin w url = Some og)"

lemma is_allowed_redirect_iff:
  "is_allowed_redirect w url (allowed_redirect_origins bc) \<longleftrightarrow> redirects_allowed w bc url"
  by (auto simp: is_allowed_redirect_def redirects_allowed_def split: option.splits)

lemma start_checkout_Inr:
  assumes "start_checkout gw i s = (Inr (url, session), s')"
  shows "url \<noteq> [] \<and> (\<exists>customer calls. st_calls s' = calls @ [CreateCheckoutSession customer (co_price_id i)
      (co_success_url i) (co_cancel_url i) (co_tenant_id i)] \<and>
    gw_create_checkout_session gw calls customer (co_price_id i) (co_success_url i) (co_cancel_url i)
      (co_tenant_id i) = Inr (session, Some url))"
  using assms
  by (auto simp: start_checkout_def bnd_def wrapped_ask throw_def ret_def truthy_def
      split: sum.splits prod.splits option.splits if_splits)

text \<open>
  C34: Checkout guard. A checkout request makes a Stripe call or changes anything only for an
  administrator or owner, an allowed price and allowed redirect origins (any origin when
  none are configured); its success answers a non-empty URL that Stripe returned for a
  session of exactly this price, these URLs and the caller's tenant.
\<close>
theorem checkout_guard:
  assumes run: "checkout_route gw w bc price ok_url cancel a s = (r, s')"
    and "s' \<noteq> s \<or> (\<exists>reply. r = Inr reply)"
  shows "has_min_role (actor_role a) Admin \<and> price \<in> set (allowed_price_ids bc) \<and>
    redirects_allowed w bc ok_url \<and> redirects_allowed w bc cancel \<and>
    (\<forall>status out. r = Inr (status, out) \<longrightarrow> status = 201 \<and>
      (\<exists>url session customer calls. out = OCheckout url session \<and> url \<noteq> [] \<and>
         st_calls s' = calls @ [CreateCheckoutSession customer price ok_url cancel (actor_tenant_id a)] \<and>
         gw_create_checkout_session gw calls customer price ok_url cancel (actor_tenant_id a) =
           Inr (session, Some url)))"
proof -
  let ?i = "\<lparr>co_tenant_id = actor_tenant_id a, co_price_id = price, co_success_url = ok_url,
    co_cancel_url = cancel\<rparr>"
  have guard: "has_min_role (actor_role a) Admin \<and> price \<in> set (allowed_price_ids bc) \<and>
      redirects_allowed w bc ok_url \<and> redirects_allowed w bc cancel"
    and go: "bnd (start_checkout gw ?i) (\<lambda>(url, session). ret (201, OCheckout url session)) s = (r, s')"
    using assms
    by (auto simp: checkout_route_def require_billing_role_def require_role_def is_allowed_redirect_iff
        andthen_def bnd_def lift_sum_def ret_def throw_def split: if_splits)
  have "status = 201 \<and> (\<exists>url session customer calls. out = OCheckout url session \<and> url \<noteq> [] \<and>
         st_calls s' = calls @ [CreateCheckoutSession customer price ok_url cancel (actor_tenant_id a)] \<and>
         gw_create_checkout_session gw calls customer price ok_url cancel (actor_tenant_id a) =
           Inr (session, Some url))" if rr: "r = Inr (status, out)" for status out
  proof -
    obtain url session where "start_checkout gw ?i s = (Inr (url, session), s')"
      "status = 201" "out = OCheckout url session"
      using go [unfolded rr] by (auto simp: bnd_def ret_def split: prod.splits sum.splits)
    with start_checkout_Inr [OF this(1)] show ?thesis by auto
  qed
  then show ?thesis using guard by blast
qed

definition sample_wire :: wire where
  "sample_wire = \<lparr>email_ok = (\<lambda>e. CHR ''@'' \<in> set e), url_origin = (\<lambda>u. if u = [] then None else Some (take 1 u))\<rparr>"

definition sample_billing :: billing_config where
  "sample_billing = \<lparr>allowed_price_ids = [''price''], allowed_redirect_origins = [''a'']\<rparr>"

lemma checkout_guard_witness:
  "\<exists>s'. checkout_route (sample_gateway ''active'') sample_wire sample_billing ''price'' ''a1'' ''a2''
      \<lparr>actor_tenant_id = 1, actor_user_id = 11, actor_role = Owner\<rparr> (start_state True billed_db) =
      (Inr (201, OCheckout ''https://stripe'' ''cs_1''), s') \<and>
    redirects_allowed sample_wire sample_billing ''a1''"
proof -
  let ?s = "start_state True billed_db"
  have e: "ensure_customer (sample_gateway ''active'') 1 ?s = (Inr ''cus_1'', ?s)"
    by (simp add: ensure_customer_cases tenant_org_def truthy_def billed_db_def sample_defs)
  have "checkout_route (sample_gateway ''active'') sample_wire sample_billing ''price'' ''a1'' ''a2''
      \<lparr>actor_tenant_id = 1, actor_user_id = 11, actor_role = Owner\<rparr> ?s =
      (Inr (201, OCheckout ''https://stripe'' ''cs_1''),
       called (CreateCheckoutSession ''cus_1'' ''price'' ''a1'' ''a2'' 1) ?s)"
    by (simp add: checkout_route_def require_billing_role_def require_role_def is_allowed_redirect_def sample_wire_def sample_billing_def start_checkout_def andthen_def bnd_def
        lift_sum_def ret_def e wrapped_ask truthy_def)
      (simp add: sample_gateway_def called_def ret_def)
  from this checkout_guard [OF this] show ?thesis by blast
qed

text \<open>
  Billing on an owner pool without \<^verbatim>\<open>BYPASSRLS\<close>. The subscription and user rows are then
  invisible to the billing code: every tenant passes for active, so degraded access is never
  enforced, and a tenant without a Stripe customer cannot get one.
\<close>
theorem billing_under_policies:
  assumes "clean owner" and "\<not> bypass_rls owner" and "clean (st_conn s)" and "\<not> bypass_rls (st_conn s)"
    and "tenant_org (st_db s) (actor_tenant_id a) = Some g" and "org_stripe_customer_id g = None"
  shows "enforce_write owner a s0 = (Inr (case tenant_org (st_db s0) (actor_tenant_id a) of
      Some g \<Rightarrow> org_plan g | None \<Rightarrow> ''free''), s0) \<and>
    ensure_customer gw (actor_tenant_id a) s =
      (Inl (AppError (conflict ''Organization has no owner to bill'')), s)"
  using assms(5,6)
  by (simp add: enforce_run [OF assms(1)] assms(2,4) billing_state_of_def latest_subscription_def
      assert_write_allowed_def tenant_org_def ensure_customer_cases [OF assms(3)] truthy_def bill_email_def)

lemma billing_under_policies_witness:
  "fst (ensure_customer (sample_gateway ''active'') 1 (start_state False past_due_db)) =
     Inl (AppError (conflict ''Organization has no owner to bill'')) \<and>
   fst (enforce_write (fresh_conn False) \<lparr>actor_tenant_id = 1, actor_user_id = 11, actor_role = Owner\<rparr>
     (start_state False past_due_db)) = Inr ''free''"
proof -
  let ?a = "\<lparr>actor_tenant_id = 1, actor_user_id = 11, actor_role = Owner\<rparr>"
    and ?s = "start_state False past_due_db"
  have "\<not> bypass_rls (fresh_conn False)" by (simp add: fresh_conn_def)
  moreover have g: "tenant_org (st_db ?s) (actor_tenant_id ?a) = Some (sample_org 1 ''one'')"
    by (simp add: tenant_org_def past_due_db_def sample_defs)
  ultimately show ?thesis
    using billing_under_policies [of "fresh_conn False" ?s ?a "sample_org 1 ''one''" ?s
        "sample_gateway ''active''"]
    by (simp add: g [simplified]) (simp add: sample_org_def)
qed

end
