(* ===== verification/IsolationProperties.thy ===== *)
theory IsolationProperties
  imports Isolation Samples
begin

text \<open>
  Tenant isolation of the app-role routes, stated over whole requests and over whole runs
  of requests of all tenants.
\<close>

subsection \<open>Generated ids\<close>

definition db_ids :: "db \<Rightarrow> uuid set" where
  "db_ids d = project_id ` set (projects d) \<union> audit_id ` set (audit_log d) \<union> ak_id ` set (api_keys d)"

definition db_hashes :: "db \<Rightarrow> string set" where
  "db_hashes d = ak_hashed_key ` set (api_keys d)"

lemma fresh_avoids:
  "ids \<inter> db_ids d = {} \<Longrightarrow> hashes \<inter> db_hashes d = {} \<Longrightarrow> avoids t ids hashes d"
  unfolding avoids_def db_ids_def db_hashes_def by auto

definition adds :: "uuid set \<Rightarrow> string set \<Rightarrow> db \<Rightarrow> db \<Rightarrow> bool" where
  "adds ids hashes d d' \<longleftrightarrow> db_ids d' \<subseteq> db_ids d \<union> ids \<and> db_hashes d' \<subseteq> db_hashes d \<union> hashes"

lemma adds_refl: "adds ids hashes d d"
  by (simp add: adds_def)

definition adds_only :: "uuid set \<Rightarrow> string set \<Rightarrow> state \<Rightarrow> state \<Rightarrow> bool" where
  "adds_only ids hashes s s' \<longleftrightarrow> adds ids hashes (st_db s) (st_db s')"

lemma adds_exec:
  assumes "\<And>c d a d'. q c d = Inr (a, d') \<Longrightarrow> adds ids hashes d d'"
  shows "tracks (adds_only ids hashes) (exec q)"
  using assms
  by (auto simp: tracks_def adds_only_def exec_def adds_refl split: tx_state.splits sum.splits prod.splits)

lemma ids_of_map:
  assumes "\<And>r. k (f r) = k r"
  shows "k ` set (map (\<lambda>r. if h r then f r else r) rs) = k ` set rs"
proof -
  have "k (if h r then f r else r) = k r" for r using assms by simp
  then show ?thesis unfolding set_map image_image by simp
qed

lemma adds_projects_update:
  assumes "\<And>r. project_id (f r) = project_id r"
  shows "adds ids hashes d (projects_update (map (\<lambda>r. if h r then f r else r)) d)"
  using ids_of_map [of project_id f h "projects d", OF assms]
  by (simp add: adds_def db_ids_def db_hashes_def del: set_map)

lemma adds_keys_update:
  assumes "\<And>r. ak_key (f r) = ak_key r"
  shows "adds ids hashes d (api_keys_update (map (\<lambda>r. if h r then f r else r)) d)"
proof -
  have "ak_id (f r) = ak_id r" "ak_hashed_key (f r) = ak_hashed_key r" for r
    using assms [of r] by (simp_all add: ak_key_def)
  then show ?thesis
    using ids_of_map [of ak_id f h "api_keys d"] ids_of_map [of ak_hashed_key f h "api_keys d"]
    by (simp add: adds_def db_ids_def db_hashes_def del: set_map)
qed

interpretation adds_routes: route_statements "adds_only ids hashes" ids hashes for ids hashes
proof
  show "adds_only ids hashes s s" for s by (simp add: adds_only_def adds_refl)
  show "adds_only ids hashes s t \<Longrightarrow> adds_only ids hashes t u \<Longrightarrow> adds_only ids hashes s u" for s t u
    by (auto simp: adds_only_def adds_def)
  show "tracks (adds_only ids hashes) (select_projects pp)" for pp
    by (rule adds_exec) (simp add: q_select_def adds_refl)
  show "tracks (adds_only ids hashes) (insert_project row)" if "project_id row \<in> ids" for row
    by (rule adds_exec) (use that in \<open>auto simp: q_insert_def adds_def db_ids_def db_hashes_def split: if_splits\<close>)
  show "tracks (adds_only ids hashes) (exec (q_update_returning pp f))"
    if "\<And>r. project_key (f r) = project_key r" for f pp
  proof (rule adds_exec)
    fix c d a d'
    assume "q_update_returning pp f c d = Inr (a, d')"
    then obtain h where "d' = projects_update (map (\<lambda>r. if h r then f r else r)) d"
      by (auto simp: q_update_returning_def q_update_def Let_def split: sum.splits if_splits)
    moreover have "project_id (f r) = project_id r" for r using that [of r] by (simp add: project_key_def)
    ultimately show "adds ids hashes d d'" by (simp add: adds_projects_update)
  qed
  show "tracks (adds_only ids hashes) (delete_projects pp)" for pp
    by (rule adds_exec) (auto simp: q_delete_def Let_def adds_def db_ids_def db_hashes_def)
  show "tracks (adds_only ids hashes) (exec (q_list_projects cod bound lim))" for cod bound lim
    by (rule adds_exec) (auto simp: q_list_projects_def adds_refl split: option.splits prod.splits)
  show "tracks (adds_only ids hashes) (insert_audit arow)" if "audit_id arow \<in> ids" for arow
    by (rule adds_exec) (use that in \<open>auto simp: q_insert_def adds_def db_ids_def db_hashes_def split: if_splits\<close>)
  show "tracks (adds_only ids hashes) (select_api_keys pk)" for pk
    by (rule adds_exec) (simp add: q_select_def adds_refl)
  show "tracks (adds_only ids hashes) (insert_api_key krow)"
    if "ak_id krow \<in> ids" "ak_hashed_key krow \<in> hashes" for krow
    by (rule adds_exec) (use that in \<open>auto simp: q_insert_def adds_def db_ids_def db_hashes_def split: if_splits\<close>)
  show "tracks (adds_only ids hashes) (update_api_keys pk g)" if "\<And>r. ak_key (g r) = ak_key r" for g pk
    by (rule adds_exec) (auto simp: q_update_def Let_def split: if_splits intro!: adds_keys_update that)
  show "tracks (adds_only ids hashes) (select_all table)" for table
  proof -
    have r: "tracks (adds_only ids hashes) (bnd (exec (q_select get ten p)) (\<lambda>rs. ret (f rs)))"
      for get :: "db \<Rightarrow> 'r list" and ten p and f :: "'r list \<Rightarrow> row_object list"
      by (auto simp: tracks_def bnd_def exec_def q_select_def ret_def adds_only_def adds_refl split: tx_state.splits)
    show ?thesis
      by (simp add: select_all_def r) (simp add: tracks_def throw_def adds_only_def adds_refl)
  qed
  show "tracks (adds_only ids hashes) (enforce_write owner a)" for owner a
    by (simp add: tracks_def enforce_read adds_only_def adds_refl)
qed

lemma serve_adds:
  assumes c: "clean (st_conn s)" and run: "serve x cod owner v rid cf a call s = (r, s')"
  shows "adds (own_ids v) {hash_key x (''tf_'' @ rnd_key v)} (st_db s) (st_db s')"
proof -
  let ?t = "actor_tenant_id a" and ?A = "adds (own_ids v) {hash_key x (''tf_'' @ rnd_key v)}"
  obtain r1 s1 where h: "route_handler x cod owner v call a (in_tenant_tx ?t s) = (r1, s1)" by fastforce
  have tr: "tracks (adds_only (own_ids v) {hash_key x (''tf_'' @ rnd_key v)}) (route_handler x cod owner v call a)"
    by (rule adds_routes.tr_handler) simp_all
  have i: "?A (st_db s) (st_db s1)"
    using tracksD [OF tr h] by (simp add: adds_only_def)
  have k: "tx_kept (in_tenant_tx ?t s) s1" by (rule tracksD [OF handler_kept h])
  have kd: "?A (st_db s) (kept_db s status cf s1)" for status
    using i k by (auto simp: kept_db_def committed_db_def tx_kept_def adds_refl split: tx_state.splits)
  show ?thesis
    using run [unfolded serve_cases [OF c] h] kd rollback_open [OF c] adds_refl
    by (auto split: if_splits sum.splits prod.splits)
qed

subsection \<open>One request\<close>

text \<open>
  C2: Integrity. A request on any tenant route, whatever it asks for, leaves every row of
  every other tenant, all organizations and the webhook ledger as they were; an error reply
  leaves the whole database as it was; and the connection goes back to the pool with no
  transaction and no tenant.
\<close>
theorem request_isolated:
  assumes "clean (st_conn s)" and "\<not> bypass_rls (st_conn s)"
    and "serve x cod owner v rid commit_fails a call s = (r, s')"
  shows "others_kept (actor_tenant_id a) (st_db s) (st_db s') \<and> clean (st_conn s') \<and>
    ((\<exists>env. snd r = Inl env) \<longrightarrow> st_db s' = st_db s)"
  using serve_integrity [OF assms] by blast

definition sample_actor :: "uuid \<Rightarrow> uuid \<Rightarrow> role \<Rightarrow> actor" where
  "sample_actor t u r = \<lparr>actor_tenant_id = t, actor_user_id = u, actor_role = r\<rparr>"

lemma sample_actor_tenant [simp]: "actor_tenant_id (sample_actor t u r) = t"
  by (simp add: sample_actor_def)

lemma request_isolated_witness:
  "others_kept 1 sample_db
     (st_db (snd (serve sample_ext sample_codec (fresh_conn True) (sample_env 0) ''rid'' False
        (sample_actor 1 11 Owner) (DeleteProject 7) (start_state False sample_db))))"
  using request_isolated [of "start_state False sample_db" sample_ext sample_codec "fresh_conn True"
      "sample_env 0" "''rid''" False "sample_actor 1 11 Owner" "DeleteProject 7", OF _ _ prod.collapse [symmetric]]
  by simp

text \<open>
  Confidentiality. On two databases that agree on what a tenant may see (its own rows and
  its own organization), every request of the tenant gets the same reply, down to the error
  text, and leaves views that agree again: replies carry nothing of other tenants. The only
  shared names are the unique indexes, which the freshly generated ids and keys avoid.
\<close>
theorem request_confidential:
  assumes "clean (st_conn s1)" and "clean (st_conn s2)" and "clean owner"
    and "\<not> bypass_rls (st_conn s1)" and "\<not> bypass_rls (st_conn s2)"
    and "tenant_view (actor_tenant_id a) (st_db s1) = tenant_view (actor_tenant_id a) (st_db s2)"
    and "own_ids v \<inter> (db_ids (st_db s1) \<union> db_ids (st_db s2)) = {}"
    and "hash_key x (''tf_'' @ rnd_key v) \<notin> db_hashes (st_db s1) \<union> db_hashes (st_db s2)"
    and "serve x cod owner v rid commit_fails a call s1 = (r1, s1')"
    and "serve x cod owner v rid commit_fails a call s2 = (r2, s2')"
  shows "r1 = r2 \<and>
    tenant_view (actor_tenant_id a) (st_db s1') = tenant_view (actor_tenant_id a) (st_db s2')"
proof -
  have av: "avoids (actor_tenant_id a) (own_ids v) {hash_key x (''tf_'' @ rnd_key v)} (st_db s1)"
    "avoids (actor_tenant_id a) (own_ids v) {hash_key x (''tf_'' @ rnd_key v)} (st_db s2)"
    by (rule fresh_avoids; use assms(7,8) in auto)+
  show ?thesis
    using serve_confined [OF assms(1,2,4,5,3,6) refl av assms(9,10)] by blast
qed

text \<open>The second database has a user and a project of tenant 2 that the first has not.\<close>

lemma request_confidential_witness:
  "fst (serve sample_ext sample_codec (fresh_conn True) (sample_env 0) ''rid'' False
      (sample_actor 1 11 Owner) Export (start_state False sample_db)) =
   fst (serve sample_ext sample_codec (fresh_conn True) (sample_env 0) ''rid'' False
      (sample_actor 1 11 Owner) Export
      (start_state False (sample_db\<lparr>users := [sample_user 11 1 ''a'' Owner, sample_user 22 2 ''c'' Owner]\<rparr>)))"
proof -
  let ?d = "sample_db\<lparr>users := [sample_user 11 1 ''a'' Owner, sample_user 22 2 ''c'' Owner]\<rparr>"
  have "tenant_view 1 sample_db = tenant_view 1 ?d"
    by (simp add: tenant_view_def sample_defs)
  then show ?thesis
    using request_confidential [of "start_state False sample_db" "start_state False ?d" "fresh_conn True"
        "sample_actor 1 11 Owner" "sample_env 0" sample_ext sample_codec "''rid''" False Export,
        OF _ _ _ _ _ _ _ _ prod.collapse [symmetric] prod.collapse [symmetric]]
    by (simp add: db_ids_def db_hashes_def sample_defs)
qed

subsection \<open>Runs of requests\<close>

record request =
  rq_env :: env
  rq_rid :: string
  rq_commit_fails :: bool
  rq_actor :: actor
  rq_call :: tenant_call

definition rq_tenant :: "request \<Rightarrow> uuid" where
  "rq_tenant q = actor_tenant_id (rq_actor q)"

definition rq_hash :: "ext \<Rightarrow> request \<Rightarrow> string" where
  "rq_hash x q = hash_key x (''tf_'' @ rnd_key (rq_env q))"

fun serve_all ::
  "ext \<Rightarrow> codec \<Rightarrow> conn \<Rightarrow> request list \<Rightarrow> state \<Rightarrow> (uuid \<times> payload reply) list \<times> state" where
  "serve_all x cod owner [] s = ([], s)"
| "serve_all x cod owner (q # qs) s =
     (case serve x cod owner (rq_env q) (rq_rid q) (rq_commit_fails q) (rq_actor q) (rq_call q) s of
        (r, s') \<Rightarrow> (case serve_all x cod owner qs s' of
          (rs, s'') \<Rightarrow> ((rq_tenant q, r) # rs, s'')))"

definition fresh_requests :: "ext \<Rightarrow> request list \<Rightarrow> db \<Rightarrow> bool" where
  "fresh_requests x qs d \<longleftrightarrow>
     (\<forall>q\<in>set qs. own_ids (rq_env q) \<inter> db_ids d = {} \<and> rq_hash x q \<notin> db_hashes d)"

definition distinct_requests :: "ext \<Rightarrow> request list \<Rightarrow> bool" where
  "distinct_requests x qs \<longleftrightarrow>
     sorted_wrt (\<lambda>q p. own_ids (rq_env q) \<inter> own_ids (rq_env p) = {} \<and> rq_hash x q \<noteq> rq_hash x p) qs"

lemma disjoint_grow: "A \<inter> B = {} \<Longrightarrow> Q \<inter> A = {} \<Longrightarrow> B' \<subseteq> B \<union> Q \<Longrightarrow> A \<inter> B' = {}"
  by auto

lemma unused_grow: "h \<notin> H \<Longrightarrow> g \<noteq> h \<Longrightarrow> H' \<subseteq> H \<union> {g} \<Longrightarrow> h \<notin> H'"
  by auto

lemma fresh_requests_step:
  assumes fr: "fresh_requests x (q # qs) d" and dis: "distinct_requests x (q # qs)"
    and add: "adds (own_ids (rq_env q)) {rq_hash x q} d d'"
  shows "fresh_requests x qs d'"
  unfolding fresh_requests_def
proof
  fix p
  assume p: "p \<in> set qs"
  have d: "own_ids (rq_env p) \<inter> db_ids d = {}" "rq_hash x p \<notin> db_hashes d"
    using fr p unfolding fresh_requests_def by simp_all
  have q: "own_ids (rq_env q) \<inter> own_ids (rq_env p) = {}" "rq_hash x q \<noteq> rq_hash x p"
    using dis p unfolding distinct_requests_def by simp_all
  note g = add [unfolded adds_def]
  show "own_ids (rq_env p) \<inter> db_ids d' = {} \<and> rq_hash x p \<notin> db_hashes d'"
    by (rule conjI [OF disjoint_grow [OF d(1) q(1) conjunct1 [OF g]] unused_grow [OF d(2) q(2) conjunct2 [OF g]]])
qed

definition quiet :: "state \<Rightarrow> bool" where
  "quiet s \<longleftrightarrow> clean (st_conn s) \<and> \<not> bypass_rls (st_conn s)"

lemma serve_step:
  assumes "quiet s" and "serve x cod owner v rid cf a call s = (r, s')"
  shows "quiet s'" "adds (own_ids v) {hash_key x (''tf_'' @ rnd_key v)} (st_db s) (st_db s')"
    "t \<noteq> actor_tenant_id a \<Longrightarrow> tenant_view t (st_db s') = tenant_view t (st_db s)"
proof -
  have c: "clean (st_conn s)" and nb: "\<not> bypass_rls (st_conn s)" using assms(1) unfolding quiet_def by blast+
  note integrity = serve_integrity [OF c nb assms(2)]
  show "quiet s'" using integrity(1,2) nb unfolding quiet_def by simp
  show "adds (own_ids v) {hash_key x (''tf_'' @ rnd_key v)} (st_db s) (st_db s')" by (rule serve_adds [OF c assms(2)])
  show "t \<noteq> actor_tenant_id a \<Longrightarrow> tenant_view t (st_db s') = tenant_view t (st_db s)"
    using others_kept_view [OF integrity(3)] by blast
qed

lemma noninterference_run:
  assumes "quiet s1" and "quiet s2" and owner: "clean owner"
    and "tenant_view t (st_db s1) = tenant_view t (st_db s2)"
    and "fresh_requests x qs (st_db s1)" and "fresh_requests x qs (st_db s2)" and "distinct_requests x qs"
    and "serve_all x cod owner qs s1 = (rs1, s1')"
    and "serve_all x cod owner (filter (\<lambda>q. rq_tenant q = t) qs) s2 = (rs2, s2')"
  shows "filter (\<lambda>(u, r). u = t) rs1 = rs2 \<and> tenant_view t (st_db s1') = tenant_view t (st_db s2')"
  using assms
proof (induction qs arbitrary: s1 s2 rs1 rs2)
  case Nil
  then show ?case by simp
next
  case (Cons q qs)
  let ?serve = "serve x cod owner (rq_env q) (rq_rid q) (rq_commit_fails q) (rq_actor q) (rq_call q)"
  obtain r u1 where h1: "?serve s1 = (r, u1)" by fastforce
  obtain ps where rest: "serve_all x cod owner qs u1 = (ps, s1')" and rs1: "rs1 = (rq_tenant q, r) # ps"
    using Cons.prems(8) h1 by (auto split: prod.splits)
  note st1 = serve_step [OF Cons.prems(1) h1]
  have f1: "fresh_requests x qs (st_db u1)"
    using fresh_requests_step [OF Cons.prems(5,7)] st1(2) by (simp add: rq_hash_def)
  have dis: "distinct_requests x qs" using Cons.prems(7) by (simp add: distinct_requests_def)
  show ?case
  proof (cases "rq_tenant q = t")
    case False
    have "tenant_view t (st_db u1) = tenant_view t (st_db s2)"
      using st1(3) [of t] False Cons.prems(4) by (simp add: rq_tenant_def)
    moreover have "fresh_requests x qs (st_db s2)" using Cons.prems(6) by (simp add: fresh_requests_def)
    ultimately show ?thesis
      using Cons.IH [OF st1(1) Cons.prems(2) owner _ f1 _ dis rest] Cons.prems(9) False rs1 by simp
  next
    case True
    obtain r2 u2 where h2: "?serve s2 = (r2, u2)" by fastforce
    obtain ps2 where rest2: "serve_all x cod owner (filter (\<lambda>q. rq_tenant q = t) qs) u2 = (ps2, s2')"
      and rs2: "rs2 = (t, r2) # ps2"
      using Cons.prems(9) h2 True by (auto split: prod.splits)
    note st2 = serve_step [OF Cons.prems(2) h2]
    have f2: "fresh_requests x qs (st_db u2)"
      using fresh_requests_step [OF Cons.prems(6,7)] st2(2) by (simp add: rq_hash_def)
    have av: "avoids t (own_ids (rq_env q)) {hash_key x (''tf_'' @ rnd_key (rq_env q))} (st_db s1)"
      "avoids t (own_ids (rq_env q)) {hash_key x (''tf_'' @ rnd_key (rq_env q))} (st_db s2)"
      by (rule fresh_avoids; use Cons.prems(5,6) in \<open>simp add: fresh_requests_def rq_hash_def\<close>)+
    have "r = r2" "tenant_view t (st_db u1) = tenant_view t (st_db u2)"
      using serve_confined [OF _ _ _ _ owner Cons.prems(4) True [unfolded rq_tenant_def] av h1 h2]
        Cons.prems(1,2) by (simp_all add: quiet_def)
    then show ?thesis
      using Cons.IH [OF st1(1) st2(1) owner _ f1 f2 dis rest rest2] rs1 rs2 True by simp
  qed
qed

text \<open>
  C1: Noninterference. In any run of requests of all tenants, interleaved in any order, the
  replies one tenant gets and what it can see at the end are exactly those of the run in
  which only its own requests happen.
\<close>
theorem tenants_do_not_interfere:
  assumes "clean (st_conn s)" and "\<not> bypass_rls (st_conn s)" and "clean owner"
    and "fresh_requests x qs (st_db s)" and "distinct_requests x qs"
    and "serve_all x cod owner qs s = (rs, s1)"
    and "serve_all x cod owner (filter (\<lambda>q. rq_tenant q = t) qs) s = (own, s2)"
  shows "filter (\<lambda>(u, r). u = t) rs = own \<and> tenant_view t (st_db s1) = tenant_view t (st_db s2)"
proof -
  have "quiet s" using assms(1,2) by (simp add: quiet_def)
  then show ?thesis
    using noninterference_run [OF _ _ assms(3) refl assms(4,4,5,6,7)] by blast
qed

text \<open>Both tenants create a project; the second request is not in the run of tenant 1.\<close>

definition sample_requests :: "request list" where
  "sample_requests =
     [\<lparr>rq_env = sample_env 0, rq_rid = ''r1'', rq_commit_fails = False,
       rq_actor = sample_actor 1 11 Owner, rq_call = CreateProject ''p'' None\<rparr>,
      \<lparr>rq_env = (sample_env 1)\<lparr>rnd_key := ''other''\<rparr>, rq_rid = ''r2'', rq_commit_fails = False,
       rq_actor = sample_actor 2 21 Owner, rq_call = CreateProject ''q'' None\<rparr>]"

lemma tenants_do_not_interfere_witness:
  "map snd (filter (\<lambda>(u, r). u = 1)
      (fst (serve_all sample_ext sample_codec (fresh_conn True) sample_requests (start_state False sample_db)))) =
   map snd (fst (serve_all sample_ext sample_codec (fresh_conn True)
      (filter (\<lambda>q. rq_tenant q = 1) sample_requests) (start_state False sample_db)))"
proof -
  have "fresh_requests sample_ext sample_requests sample_db"
    by (simp add: fresh_requests_def sample_requests_def db_ids_def db_hashes_def sample_defs)
  moreover have "distinct_requests sample_ext sample_requests"
    by (simp add: distinct_requests_def sample_requests_def own_ids_def rq_hash_def hash_key_def)
  ultimately show ?thesis
    using tenants_do_not_interfere [of "start_state False sample_db" "fresh_conn True" sample_ext
        sample_requests sample_codec _ _ 1, OF _ _ _ _ _ prod.collapse [symmetric] prod.collapse [symmetric]]
    by simp
qed

end
