(* ===== verification/ProjectProperties.thy ===== *)
theory ProjectProperties
  imports IsolationProperties ProjectRuns App
begin

text \<open>
  What the project routes promise: complete pagination, reads that return what was written,
  quotas, and exports; and where they fall short of it.
\<close>

subsection \<open>Pagination\<close>

lemma distinct_keys:
  assumes "no_dups clash rs" and "\<And>a b. k a = k b \<Longrightarrow> clash b a"
  shows "distinct (map k rs)"
  using assms by (induction rs) (auto simp: no_dups_def)

lemma newest_order_tenant:
  assumes "db_ok (st_db s)"
  shows "newest_order (tenant_projects s)"
proof -
  have "no_dups project_clash (filter (\<lambda>r. visible (st_conn s) (project_tenant_id r)) (projects (st_db s)))"
    using assms by (intro no_dups_filter) (simp add: db_ok_defs)
  then have "distinct (map project_order
      (filter (\<lambda>r. visible (st_conn s) (project_tenant_id r)) (projects (st_db s))))"
    by (rule distinct_keys) (simp add: project_order_def project_clash_def)
  then show ?thesis unfolding tenant_projects_def by (rule newest_first_strict)
qed

lemma newest_order_distinct: "newest_order L \<Longrightarrow> distinct L"
  unfolding newest_order_def by (induction L) auto

text \<open>The tenant's projects, as its transaction sees them.\<close>

lemma set_tenant_projects:
  "\<not> bypass_rls (st_conn s) \<Longrightarrow>
    set (tenant_projects (in_tenant_tx t s)) = {r \<in> set (projects (st_db s)). project_tenant_id r = t}"
  by (auto simp: tenant_projects_def)

text \<open>
  C22: Pagination. Timestamps are microseconds and the cursor carries the text of a JavaScript
  date, which the database's cast, where it reads it, reads as the last full unit of u
  microseconds (a million for that text, 1 for a text that carries the column exactly). A
  client that follows the cursors from the first page, with any page size, is done after at
  most one request more than there are projects. Either a cast failed (the request is answered
  500), because the text of a project of this tenant is one the database does not read; or it
  has projects of its own tenant only, newest first, none twice, and each one that is missing
  is older than a listed one that was created in the same unit. So nothing is missing when no
  two projects of the tenant were created in one unit, or when the text is exact.
\<close>
theorem pagination_complete:
  assumes "db_ok (st_db s)" and "\<not> bypass_rls (st_conn s)" and "0 < limit"
    and "carries_units cod u" and "length (projects (st_db s)) < n"
    and "own = {r \<in> set (projects (st_db s)). project_tenant_id r = t}"
  shows "case collect_pages cod n None limit (in_tenant_tx t s) of
      (Inl e, s') \<Rightarrow> e = SqlError InvalidText \<and> st_db s' = st_db s \<and>
        (\<exists>r\<in>own. cast_ts cod (render_ts cod (project_created_at r)) = None)
    | (Inr views, s') \<Rightarrow> s' = in_tenant_tx t s \<and> (\<exists>rows. views = map project_view_of rows \<and>
        newest_order rows \<and> distinct rows \<and> set rows \<subseteq> own \<and>
        (\<forall>q\<in>own - set rows. \<exists>r\<in>set rows. project_order q < project_order r \<and>
          project_created_at q div u = project_created_at r div u) \<and>
        (u = 1 \<or> inj_on (\<lambda>r. project_created_at r div u) own \<longrightarrow> set rows = own))"
proof -
  let ?s = "in_tenant_tx t s" and ?run = "collect_pages cod n None limit (in_tenant_tx t s)"
  let ?L = "tenant_projects ?s"
  have ord: "newest_order ?L" by (rule newest_order_tenant) (use assms(1) in simp)
  have own: "set ?L = own" unfolding assms(6) by (rule set_tenant_projects [OF assms(2)])
  have u: "0 < u" using assms(4) by (simp add: carries_units_def)
  have len: "length ?L < n"
    using assms(5) by (simp add: tenant_projects_def) (metis length_filter_le le_less_trans)
  have "list_projects cod None limit ?s = (Inr (page_of cod limit (drop 0 ?L)), ?s)"
    using list_first_page [OF live_in_tenant_tx assms(3)] by simp
  then have "pages_ok cod u ?s (drop 0 ?L) ?run"
    using len by (intro collect_from [OF live_in_tenant_tx assms(3) ord assms(4)]) simp_all
  then have ok: "pages_ok cod u ?s ?L ?run" by simp
  obtain res s' where run: "?run = (res, s')" by force
  show ?thesis
  proof (cases res)
    case (Inl e)
    then show ?thesis using ok own by (simp add: pages_ok_def run)
  next
    case (Inr views)
    then obtain rows where rows: "s' = ?s" "views = map project_view_of rows"
        "newest_order rows" "set rows \<subseteq> own"
        "\<forall>q\<in>own - set rows. \<exists>r\<in>set rows. cursor_passes u r q"
      using ok own by (auto simp: pages_ok_def run)
    have gap: "\<exists>r\<in>set rows. project_order q < project_order r \<and>
        project_created_at q div u = project_created_at r div u" if "q \<in> own - set rows" for q
      using rows(5) that cursor_passes_unit [OF _ u] unfolding cursor_passes_def by blast
    have all: "own \<subseteq> set rows" if "u = 1 \<or> inj_on (\<lambda>r. project_created_at r div u) own"
    proof (rule ccontr)
      assume "\<not> own \<subseteq> set rows"
      then obtain q where q: "q \<in> own - set rows" by blast
      then obtain r where r: "r \<in> set rows" "cursor_passes u r q" using rows(5) by blast
      from that show False
      proof
        assume "u = 1"
        then show False using r(2) by simp
      next
        assume "inj_on (\<lambda>r. project_created_at r div u) own"
        then have "q = r" using cursor_passes_unit [OF r(2) u] q r(1) rows(4) by (blast dest: inj_onD)
        then show False using q r(1) by simp
      qed
    qed
    show ?thesis
      unfolding run Inr prod.case sum.case
      using rows(1-4) newest_order_distinct [OF rows(3)] gap all by blast
  qed
qed

definition sample_project :: "uuid \<Rightarrow> uuid \<Rightarrow> string \<Rightarrow> timestamptz \<Rightarrow> project_row" where
  "sample_project i t st ts =
     \<lparr>project_id = i, project_tenant_id = t, project_name = ''p'', project_description = None,
      project_status = st, project_created_at = ts, project_updated_at = ts\<rparr>"

definition with_projects :: "project_row list \<Rightarrow> db" where
  "with_projects ps = sample_db\<lparr>projects := ps\<rparr>"

definition three_projects :: db where
  "three_projects = with_projects [sample_project 1 1 ''active'' 300, sample_project 2 2 ''active'' 0,
     sample_project 3 1 ''active'' 700]"

lemma three_projects_ok: "db_ok three_projects"
  by (simp add: db_ok_defs three_projects_def with_projects_def sample_project_def sample_defs clash_defs
      no_dups_def org_exists_def user_exists_def)

text \<open>
  A codec that rounds down: what the cast reads back is not later than what was rendered.
  Everything that follows a cursor lies below its key.
\<close>

definition rounds_down :: "codec \<Rightarrow> (timestamptz \<Rightarrow> timestamptz) \<Rightarrow> bool" where
  "rounds_down cod f \<longleftrightarrow> (\<forall>t. f t \<le> t \<and> render_ts cod t \<noteq> [] \<and> date_parse_ok cod (render_ts cod t) \<and>
     cast_ts cod (render_ts cod t) = Some (f t))"

lemma page_rows: "lr_data (page_of cod limit rows) = map project_view_of (take limit rows)"
  by (auto simp: page_of_def)

lemma page_cursor:
  assumes "lr_next_cursor (page_of cod limit rows) = Some c" and "0 < limit"
  shows "\<exists>r\<in>set rows. c = encode_cursor cod (project_view_of r)"
  using assms by (auto simp: page_of_def split: if_splits intro!: bexI [OF _ nth_mem])

lemma collect_below:
  assumes l: "live s" and lim: "0 < limit" and cod: "rounds_down cod f"
  shows "collect_pages cod n (Some (encode_cursor cod (project_view_of r))) limit s = (Inr views, s') \<Longrightarrow>
    v \<in> set views \<Longrightarrow> \<exists>q\<in>set (tenant_projects s). v = project_view_of q \<and>
      project_order q < (f (project_created_at r), project_id r)"
proof (induction n arbitrary: r views)
  case 0
  then show ?case by (simp add: ret_def)
next
  case (Suc n)
  define rows where "rows = filter (\<lambda>q. project_order q < (f (project_created_at r), project_id r)) (tenant_projects s)"
  have page: "list_projects cod (Some (encode_cursor cod (project_view_of r))) limit s =
      (Inr (page_of cod limit rows), s)"
    using list_next_page [OF l lim, of cod "project_view_of r" "f (project_created_at r)"] cod
    by (simp add: rounds_down_def project_view_of_def rows_def)
  have below: "q \<in> set (tenant_projects s) \<and> project_order q < (f (project_created_at r), project_id r)"
    if "q \<in> set rows" for q using that by (simp add: rows_def)
  have here: "\<exists>q\<in>set (tenant_projects s). v = project_view_of q \<and>
      project_order q < (f (project_created_at r), project_id r)"
    if "v \<in> set (lr_data (page_of cod limit rows))"
    using that below unfolding page_rows by (auto dest!: in_set_takeD)
  show ?case
  proof (cases "lr_next_cursor (page_of cod limit rows)")
    case None
    then have "views = lr_data (page_of cod limit rows)"
      using Suc.prems(1) page by (simp add: bnd_def ret_def)
    then show ?thesis using Suc.prems(2) here by blast
  next
    case (Some c)
    then obtain r' where r': "r' \<in> set rows" "c = encode_cursor cod (project_view_of r')"
      using page_cursor [OF _ lim] by blast
    obtain rest where rest: "collect_pages cod n (Some c) limit s = (Inr rest, s')"
      "views = lr_data (page_of cod limit rows) @ rest"
      using Suc.prems(1) page Some by (auto simp: bnd_def ret_def split: prod.splits sum.splits)
    have "\<exists>q\<in>set (tenant_projects s). v = project_view_of q \<and>
        project_order q < (f (project_created_at r), project_id r)" if mem: "v \<in> set rest"
    proof -
      obtain q where q: "q \<in> set (tenant_projects s)" "v = project_view_of q"
        "project_order q < (f (project_created_at r'), project_id r')"
        using Suc.IH [of r' rest] rest(1) r'(2) mem by blast
      have "(f (project_created_at r'), project_id r') \<le> project_order r'"
        using cod by (auto simp: rounds_down_def project_order_def less_eq_prod_def less_le)
      then show ?thesis using q below [OF r'(1)] by (intro bexI [of _ q]) auto
    qed
    then show ?thesis using Suc.prems(2) rest(2) here by auto
  qed
qed

text \<open>
  Cursors that round. JavaScript dates hold milliseconds, PostgreSQL timestamps
  microseconds: with a codec that rounds timestamps down, a project that follows the last one
  of the first page and was created after the rounded timestamp of that one is on no page at
  all, however many pages are requested.
\<close>
theorem rounded_cursor_loses_rows:
  assumes d: "db_ok (st_db s)" and lim: "0 < limit" and cod: "rounds_down cod f"
    and len: "limit < length (tenant_projects (in_tenant_tx t s))"
    and q: "q \<in> set (drop limit (tenant_projects (in_tenant_tx t s)))"
    and late: "f (project_created_at (tenant_projects (in_tenant_tx t s) ! (limit - 1))) < project_created_at q"
    and run: "collect_pages cod n None limit (in_tenant_tx t s) = (Inr views, s')"
  shows "project_view_of q \<notin> set views"
proof
  let ?s = "in_tenant_tx t s"
  let ?L = "tenant_projects ?s" and ?r = "tenant_projects (in_tenant_tx t s) ! (limit - 1)"
  assume v: "project_view_of q \<in> set views"
  have ord: "newest_order ?L" by (rule newest_order_tenant) (use d in simp)
  have same: "a = b" if "a \<in> set ?L" "b \<in> set ?L" "project_view_of a = project_view_of b" for a b
  proof -
    have c: "project_clash a b" "project_clash b a" using that(3) by (simp_all add: project_view_of_def project_clash_def)
    have m: "a \<in> set (projects (st_db s))" "b \<in> set (projects (st_db s))"
      using that(1,2) by (simp_all add: tenant_projects_def)
    have "no_dups project_clash (projects (st_db s))" using d by (simp add: db_ok_defs)
    from no_dups_eq [OF this m c] show ?thesis .
  qed
  have dist: "distinct ?L" by (rule newest_order_distinct [OF ord])
  have qL: "q \<in> set ?L" using q by (rule in_set_dropD)
  have not_first: "project_view_of q \<notin> set (map project_view_of (take limit ?L))"
  proof
    assume "project_view_of q \<in> set (map project_view_of (take limit ?L))"
    then obtain p where p: "p \<in> set (take limit ?L)" "project_view_of p = project_view_of q" by auto
    then have "p = q" using same qL by (blast dest: in_set_takeD)
    then show False using p(1) q dist set_take_disj_set_drop_if_distinct [OF dist, of limit limit] by auto
  qed
  obtain m where n: "n = Suc m" using run v by (cases n) (simp_all add: ret_def)
  have page: "page_of cod limit ?L = \<lparr>lr_data = map project_view_of (take limit ?L),
      lr_next_cursor = Some (encode_cursor cod (project_view_of ?r))\<rparr>"
    using len by (simp add: page_of_def)
  obtain rest where rest: "collect_pages cod m (Some (encode_cursor cod (project_view_of ?r))) limit ?s = (Inr rest, s')"
      "views = map project_view_of (take limit ?L) @ rest"
    using run list_first_page [OF live_in_tenant_tx lim, of cod t s] page
    by (auto simp: n bnd_def ret_def split: prod.splits sum.splits)
  have "project_view_of q \<in> set rest" using v rest(2) not_first by auto
  then obtain p where p: "p \<in> set ?L" "project_view_of q = project_view_of p"
      "project_order p < (f (project_created_at ?r), project_id ?r)"
    using collect_below [OF live_in_tenant_tx lim cod rest(1)] by blast
  then have "p = q" using same [OF p(1) qL] by simp
  then show False using p(3) late by (auto simp: project_order_def)
qed

text \<open>Two projects of the same millisecond and pages of one: the older one is never seen.\<close>

definition ms_codec :: codec where
  "ms_codec = \<lparr>render_ts = (\<lambda>t. render_ts sample_codec (t div 1000)), date_parse_ok = date_parse_ok sample_codec,
     cast_ts = (\<lambda>s. map_option (\<lambda>t. t * 1000) (cast_ts sample_codec s))\<rparr>"

lemma ms_codec_rounds: "rounds_down ms_codec (\<lambda>t. t div 1000 * 1000)"
proof -
  have "exact_on sample_codec (t div 1000)" for t by simp
  then show ?thesis
    by (auto simp: rounds_down_def ms_codec_def exact_on_def minus_mod_eq_div_mult [symmetric])
qed

lemma ms_codec_units: "carries_units ms_codec 1000"
  using ms_codec_rounds by (simp add: carries_units_def rounds_down_def)

definition spaced_projects :: db where
  "spaced_projects = with_projects [sample_project 1 1 ''active'' 300, sample_project 2 2 ''active'' 0,
     sample_project 3 1 ''active'' 1700]"

lemma pagination_complete_witness:
  "\<exists>rows. fst (collect_pages ms_codec 4 None 1 (in_tenant_tx 1 (start_state False spaced_projects))) =
      Inr (map project_view_of rows) \<and>
    set rows = {sample_project 1 1 ''active'' 300, sample_project 3 1 ''active'' 1700}"
proof -
  let ?own = "{sample_project 1 1 ''active'' 300, sample_project 3 1 ''active'' 1700}"
  have ok: "db_ok spaced_projects"
    by (simp add: db_ok_defs spaced_projects_def with_projects_def sample_project_def sample_defs clash_defs
        no_dups_def org_exists_def user_exists_def)
  have len: "length (projects spaced_projects) < 4" by (simp add: spaced_projects_def with_projects_def)
  have own: "?own = {r \<in> set (projects spaced_projects). project_tenant_id r = 1}"
    by (auto simp: spaced_projects_def with_projects_def sample_project_def)
  have inj: "inj_on (\<lambda>r. project_created_at r div 1000) ?own" by (simp add: sample_project_def)
  have cast: "cast_ts ms_codec (render_ts ms_codec t) = None \<longleftrightarrow> False" for t
    using ms_codec_rounds by (simp add: rounds_down_def)
  obtain res s' where run: "collect_pages ms_codec 4 None 1 (in_tenant_tx 1 (start_state False spaced_projects)) = (res, s')"
    by force
  have "case collect_pages ms_codec 4 None 1 (in_tenant_tx 1 (start_state False spaced_projects)) of
      (Inl e, s') \<Rightarrow> False
    | (Inr views, s') \<Rightarrow> \<exists>rows. views = map project_view_of rows \<and> set rows = ?own"
    using pagination_complete [of "start_state False spaced_projects" 1 ms_codec 1000 4 ?own 1] ok len own inj
      ms_codec_units
    unfolding run by (cases res) (auto simp: cast)
  then show ?thesis unfolding run by (cases res) simp_all
qed

lemma three_tenant_projects:
  "tenant_projects (in_tenant_tx 1 (start_state False three_projects)) =
     [sample_project 3 1 ''active'' 700, sample_project 1 1 ''active'' 300]"
  by (simp add: tenant_projects_def three_projects_def with_projects_def sample_project_def
      newest_first_def project_order_def)

lemma rounded_cursor_loses_rows_witness:
  "\<exists>views. fst (collect_pages ms_codec 5 None 1 (in_tenant_tx 1 (start_state False three_projects))) = Inr views \<and>
     project_view_of (sample_project 1 1 ''active'' 300) \<notin> set views"
proof -
  let ?s = "in_tenant_tx 1 (start_state False three_projects)"
  have c: "list_projects ms_codec (Some (encode_cursor ms_codec (project_view_of (sample_project 3 1 ''active'' 700)))) 1 ?s =
      (Inr \<lparr>lr_data = [], lr_next_cursor = None\<rparr>, ?s)"
    using ms_codec_rounds
    by (subst list_next_page [where t = 0])
      (simp_all add: three_tenant_projects page_of_def sample_project_def project_view_of_def
        project_order_def rounds_down_def)
  have r: "collect_pages ms_codec 5 None 1 ?s = (Inr [project_view_of (sample_project 3 1 ''active'' 700)], ?s)"
    using list_first_page [of ?s 1 ms_codec] c
    by (simp add: numeral_eq_Suc bnd_def ret_def three_tenant_projects page_of_def)
  have "project_view_of (sample_project 1 1 ''active'' 300) \<notin> set [project_view_of (sample_project 3 1 ''active'' 700)]"
    by (rule rounded_cursor_loses_rows [OF _ _ ms_codec_rounds _ _ _ r])
      (simp_all add: three_projects_ok three_tenant_projects, simp add: sample_project_def)
  then show ?thesis using r by simp
qed

subsection \<open>Cursors the guard lets through\<close>

definition hyphens :: string where
  "hyphens = replicate 36 (CHR ''-'')"

lemma hyphens_guarded: "id_shape hyphens" "CHR ''|'' \<notin> set hyphens"
  by (simp_all add: id_shape_def hyphens_def list_all_iff)

lemma hyphens_no_uuid: "uuid_in hyphens = None"
  by code_simp

text \<open>
  A cursor of the caller's own making. The guard of the cursor accepts any 36 hexadecimal
  digits and hyphens as an id; one that is no uuid passes it and fails in the database, so the
  client's mistake is answered 500 instead of 400. Nothing changes.
\<close>
theorem guarded_cursor_fails:
  assumes c: "clean (st_conn s)" and alive: "\<not> org_deleted (st_db s) (actor_tenant_id a)"
    and l: "1 \<le> limit" "limit \<le> 100" and ts: "ts \<noteq> []" "date_parse_ok cod ts"
  shows "\<exists>e s'. serve x cod owner v rid cf a (ListProjects (Some (base64url_encode (ts @ ''|'' @ hyphens))) limit) s =
      ((500, Inl e), s') \<and> env_code e = INTERNAL \<and> st_db s' = st_db s"
proof -
  let ?in = "in_tenant_tx (actor_tenant_id a) s" and ?cur = "base64url_encode (ts @ ''|'' @ hyphens)"
  have ne: "?cur \<noteq> []"
    using base64url_roundtrip [of "ts @ ''|'' @ hyphens"] ts(1)
    by (auto simp: base64url_decode_def List.map_filter_simps)
  have dec: "decode_cursor cod ?cur = Inr (ts, hyphens)"
    using ts hyphens_guarded split_last_bar_append [of hyphens ts]
    by (simp add: decode_cursor_def base64url_roundtrip)
  have q: "exec (q_list_projects cod (Some (ts, hyphens)) (limit + 1)) ?in =
      (Inl (SqlError InvalidText), ?in\<lparr>st_conn := abort_tx (st_conn ?in)\<rparr>)"
    by (simp add: exec_live q_list_projects_def hyphens_no_uuid split: option.splits)
  have "route_handler x cod owner v (ListProjects (Some ?cur) limit) a ?in =
      (Inl (SqlError InvalidText), ?in\<lparr>st_conn := abort_tx (st_conn ?in)\<rparr>)"
    by (simp only: route_handler.simps v1_list_def list_projects_def run_steps option.case ne if_False dec q)
  note h = serve_Inl [OF c _ alive this]
  show ?thesis
    using l by (subst h) (simp_all add: error_reply_def error_handler_def to_envelope_def)
qed

lemma guarded_cursor_fails_witness:
  "\<exists>e s'. serve sample_ext sample_codec (fresh_conn True) (sample_env 0) ''rid'' False (sample_actor 1 11 Owner)
      (ListProjects (Some (base64url_encode (''now'' @ ''|'' @ hyphens))) 10) (start_state False three_projects) =
    ((500, Inl e), s') \<and> env_code e = INTERNAL"
  using guarded_cursor_fails [of "start_state False three_projects" "sample_actor 1 11 Owner" 10 "''now''"
      sample_codec sample_ext "fresh_conn True" "sample_env 0" "''rid''" False]
  by (fastforce simp: org_deleted_def three_projects_def with_projects_def sample_defs sample_codec_def)

subsection \<open>Create, read, delete\<close>

lemma bound_visible:
  "\<not> bypass_rls (st_conn s) \<Longrightarrow> visible (st_conn (in_tenant_tx t s)) u \<longleftrightarrow> u = t"
  by (rule visible_bound [OF bound_in_tenant_tx])

text \<open>The reply to an id that no project of the caller's tenant has.\<close>

lemma serve_get_missing:
  assumes c: "clean (st_conn s)" and nb: "\<not> bypass_rls (st_conn s)"
    and alive: "\<not> org_deleted (st_db s) (actor_tenant_id b)"
    and no: "\<forall>r\<in>set (projects (st_db s)). project_tenant_id r = actor_tenant_id b \<longrightarrow> project_id r \<noteq> i"
  shows "fst (serve x cod owner v rid cf b (GetProject i) s) =
    error_reply rid (ThrownExn (AppError (not_found ''Project not found'')))"
proof -
  let ?in = "in_tenant_tx (actor_tenant_id b) s"
  have "get_project i ?in = (Inl (AppError (not_found ''Project not found'')), ?in)"
    by (rule get_project_missing [OF live_in_tenant_tx]) (use no nb in simp)
  then have "route_handler x cod owner v (GetProject i) b ?in =
      (Inl (AppError (not_found ''Project not found'')), ?in)"
    by (simp add: v1_get_def bnd_def)
  from serve_Inl [OF c _ alive this] show ?thesis by simp
qed

text \<open>What a successful create or delete request leaves.\<close>

lemma create_effect:
  assumes c: "clean (st_conn s)" and nb: "\<not> bypass_rls (st_conn s)" and d: "db_ok (st_db s)"
    and run: "serve x cod owner v rid False a (CreateProject n desc) s = ((201, Inr (PProject w)), s1)"
  shows "w = project_view_of (new_project v a n desc)"
    "projects (st_db s1) = projects (st_db s) @ [new_project v a n desc]"
    "db_ok (st_db s1)" "clean (st_conn s1)" "\<not> bypass_rls (st_conn s1)"
    "organizations (st_db s1) = organizations (st_db s)" "\<not> org_deleted (st_db s1) (actor_tenant_id a)"
proof -
  let ?in = "in_tenant_tx (actor_tenant_id a) s" and ?p = "new_project v a n desc"
  obtain s3 where h: "route_handler x cod owner v (CreateProject n desc) a ?in = (Inr (201, PProject w), s3)"
      "st_db s1 = committed_db s3" "st_conn s1 = released (st_conn s)"
    and alive: "\<not> org_deleted (st_db s) (actor_tenant_id a)"
    using run by (rule serve_InrE [OF c]) simp_all
  obtain w' where cw: "create_project v a n desc ?in = (Inr w', s3)" "w' = w"
    using v1_create_Inr [OF h(1) [simplified] live_in_tenant_tx bound_in_tenant_tx [OF nb]] by auto
  note cr = create_project_Inr [OF cw(1)]
  have db1: "st_db s1 = st_db s3" using cr h(2) by (simp add: committed_live)
  show "w = project_view_of ?p" using cr cw(2) by simp
  show "projects (st_db s1) = projects (st_db s) @ [?p]" using cr db1 by simp
  show "db_ok (st_db s1)"
    using tracksD [OF handler_intact h(1)] d db1 by (simp add: keeps_intact_def intact_def)
  show "clean (st_conn s1)" "\<not> bypass_rls (st_conn s1)" using h(3) nb by simp_all
  show og: "organizations (st_db s1) = organizations (st_db s)"
    using serve_integrity(3) [OF c nb run] by (simp add: others_kept_def)
  show "\<not> org_deleted (st_db s1) (actor_tenant_id a)" using alive og by (simp add: org_deleted_def)
qed

lemma delete_effect:
  assumes c: "clean (st_conn s)" and nb: "\<not> bypass_rls (st_conn s)"
    and run: "serve x cod owner v rid False a (DeleteProject i) s = ((204, Inr PNone), s1)"
  shows "projects (st_db s1) =
      filter (\<lambda>r. \<not> (project_tenant_id r = actor_tenant_id a \<and> project_id r = i)) (projects (st_db s))"
    "clean (st_conn s1)" "\<not> bypass_rls (st_conn s1)" "\<not> org_deleted (st_db s1) (actor_tenant_id a)"
proof -
  obtain s3 where h: "route_handler x cod owner v (DeleteProject i) a (in_tenant_tx (actor_tenant_id a) s) =
        (Inr (204, PNone), s3)" "st_db s1 = committed_db s3" "st_conn s1 = released (st_conn s)"
    and alive: "\<not> org_deleted (st_db s) (actor_tenant_id a)"
    using run by (rule serve_InrE [OF c]) simp_all
  show "projects (st_db s1) =
      filter (\<lambda>r. \<not> (project_tenant_id r = actor_tenant_id a \<and> project_id r = i)) (projects (st_db s))"
    using delete_project_Inr [OF v1_delete_Inr [OF h(1) [simplified]]] h(2) nb
    by (simp add: committed_live bound_visible)
  show "clean (st_conn s1)" "\<not> bypass_rls (st_conn s1)" using h(3) nb by simp_all
  have "organizations (st_db s1) = organizations (st_db s)"
    using serve_integrity(3) [OF c nb run] by (simp add: others_kept_def)
  then show "\<not> org_deleted (st_db s1) (actor_tenant_id a)" using alive by (simp add: org_deleted_def)
qed

text \<open>
  C23: Read after write. After a successful create, a member of the tenant who asks for the
  new id gets the very view the create answered, with the name and description that were
  sent; anyone of another tenant gets the 404 that an unknown id gets; and once it is
  deleted, the tenant gets that 404 too.
\<close>
theorem create_then_read:
  assumes c: "clean (st_conn s)" and nb: "\<not> bypass_rls (st_conn s)" and d: "db_ok (st_db s)"
    and run: "serve x cod owner v rid False a (CreateProject n desc) s = ((201, Inr (PProject w)), s1)"
    and b: "actor_tenant_id b = actor_tenant_id a" and o: "actor_tenant_id z \<noteq> actor_tenant_id a"
      "\<not> org_deleted (st_db s) (actor_tenant_id z)"
    and del: "serve x cod owner v2 rid False b (DeleteProject (pv_id w)) s1 = ((204, Inr PNone), s2)"
  shows "pv_name w = n \<and> pv_description w = desc \<and> pv_status w = ''active'' \<and>
    fst (serve x cod owner v3 rid False b (GetProject (pv_id w)) s1) = (200, Inr (PProject w)) \<and>
    fst (serve x cod owner v3 rid False z (GetProject (pv_id w)) s1) =
      error_reply rid (ThrownExn (AppError (not_found ''Project not found''))) \<and>
    fst (serve x cod owner v3 rid False b (GetProject (pv_id w)) s2) =
      error_reply rid (ThrownExn (AppError (not_found ''Project not found'')))"
proof -
  let ?p = "new_project v a n desc" and ?in = "in_tenant_tx (actor_tenant_id b) s1"
  note s1 = create_effect [OF c nb d run] and s2 = delete_effect [OF _ _ del]
  have pi: "pv_id w = project_id ?p" using s1(1) by (simp add: project_view_of_def)
  have p: "?p \<in> set (projects (st_db s1))" "project_tenant_id ?p = actor_tenant_id b" using s1(2) b by simp_all
  have al: "\<not> org_deleted (st_db s1) (actor_tenant_id b)" "\<not> org_deleted (st_db s1) (actor_tenant_id z)"
    using s1(6,7) o(2) b by (simp_all add: org_deleted_def)
  have uniq: "project_tenant_id r \<noteq> actor_tenant_id z" if "r \<in> set (projects (st_db s1))" "project_id r = pv_id w" for r
    using no_dups_eq [of project_clash "projects (st_db s1)" r ?p] that s1(3) p b o(1)
    by (auto simp: db_ok_defs project_clash_def pi)
  have "get_project (project_id ?p) ?in = (Inr (project_view_of ?p), ?in)"
    by (rule get_project_run) (use p s1(3) in simp_all)
  then have "route_handler x cod owner v3 (GetProject (pv_id w)) b ?in = (Inr (200, PProject w), ?in)"
    using pi s1(1) by (simp add: v1_get_def bnd_def ret_def)
  from serve_Inr [OF s1(4) _ al(1) this]
  have own: "fst (serve x cod owner v3 rid False b (GetProject (pv_id w)) s1) = (200, Inr (PProject w))" by simp
  have other: "fst (serve x cod owner v3 rid False z (GetProject (pv_id w)) s1) =
      error_reply rid (ThrownExn (AppError (not_found ''Project not found'')))"
    by (rule serve_get_missing [OF s1(4,5) al(2)]) (use uniq in blast)
  have "fst (serve x cod owner v3 rid False b (GetProject (pv_id w)) s2) =
      error_reply rid (ThrownExn (AppError (not_found ''Project not found'')))"
    by (rule serve_get_missing [OF s2(2-4)]) (use s1(4,5) s2(1) in auto)
  then show ?thesis using own other s1(1) by (simp add: project_view_of_def new_project_def)
qed

definition two_projects :: db where
  "two_projects = with_projects [sample_project 1 1 ''active'' 300, sample_project 3 1 ''active'' 700]"

lemma two_projects_ok: "db_ok two_projects"
  by (simp add: db_ok_defs two_projects_def with_projects_def sample_project_def sample_defs clash_defs
      no_dups_def org_exists_def user_exists_def)

lemma two_projects_facts:
  "\<not> org_deleted two_projects 1" "\<not> org_deleted two_projects 2" "org_exists two_projects 1"
  "project_fresh (sample_env 0) two_projects"
  "billing_state_of b 1 two_projects = \<lparr>bs_status = ''active'', bs_plan = ''free''\<rparr>"
  "length (active_projects 1 two_projects) = 2"
  by (simp_all add: two_projects_def with_projects_def sample_project_def sample_defs org_deleted_def
      org_exists_def project_fresh_def audit_fresh_def billing_state_of_def latest_subscription_def
      active_projects_def)

lemma create_then_read_witness:
  "\<exists>w s1. serve sample_ext sample_codec (fresh_conn True) (sample_env 0) ''rid'' False (sample_actor 1 11 Owner)
      (CreateProject ''p'' None) (start_state False two_projects) = ((201, Inr (PProject w)), s1) \<and>
    fst (serve sample_ext sample_codec (fresh_conn True) (sample_env 2) ''rid'' False (sample_actor 1 11 Member)
      (GetProject (pv_id w)) s1) = (200, Inr (PProject w))"
proof -
  let ?s = "start_state False two_projects" and ?a = "sample_actor 1 11 Owner" and ?b = "sample_actor 1 11 Member"
  let ?w = "project_view_of (new_project (sample_env 0) ?a ''p'' None)"
  obtain s1 where s1: "serve sample_ext sample_codec (fresh_conn True) (sample_env 0) ''rid'' False ?a
        (CreateProject ''p'' None) ?s = ((201, Inr (PProject ?w)), s1)"
      "st_db s1 = created_db (sample_env 0) ?a ''p'' None two_projects"
    using create_request [of ?s "fresh_conn True" ?a "''p''" None "sample_env 0" "''active''" "''free''"
        sample_ext sample_codec "''rid''"] two_projects_facts
    by (auto simp: assert_write_allowed_def quota_left_def plan_quota_def PROJECT_QUOTA_def
        valid_name_def valid_description_def)
  note eff = create_effect [OF _ _ _ s1(1)]
  let ?in = "in_tenant_tx 1 s1"
  have "enforce_write (fresh_conn True) ?b ?in = (Inr ''free'', ?in)"
    using two_projects_facts(5)
    by (simp add: enforce_run assert_write_allowed_def s1(2))
  moreover have "delete_project (sample_env 1) ?b (project_id (new_project (sample_env 0) ?a ''p'' None)) ?in =
      (Inr (), ?in\<lparr>st_db := audited (sample_env 1) (new_id (sample_env 1) 0) ?b ''project.deleted''
        (uuid_out (project_id (new_project (sample_env 0) ?a ''p'' None)))
      ((st_db ?in)\<lparr>projects := filter (\<lambda>r. \<not> (visible (st_conn ?in) (project_tenant_id r) \<and>
        project_id r = project_id (new_project (sample_env 0) ?a ''p'' None))) (projects (st_db ?in))\<rparr>)\<rparr>)"
    using eff(3) two_projects_ok
    by (intro delete_project_run) (simp_all add: s1(2) created_db_def audit_fresh_def audited_def
        two_projects_def with_projects_def sample_defs audit_entry_def)
  ultimately obtain s3 where "route_handler sample_ext sample_codec (fresh_conn True) (sample_env 1)
      (DeleteProject (pv_id ?w)) ?b ?in = (Inr (204, PNone), s3)" "live s3"
    by (simp add: v1_delete_def run_steps project_view_new)
  then have del: "serve sample_ext sample_codec (fresh_conn True) (sample_env 1) ''rid'' False ?b
      (DeleteProject (pv_id ?w)) s1 = ((204, Inr PNone), s3\<lparr>st_conn := released (st_conn s1)\<rparr>)"
    using eff(4,7) two_projects_ok by (intro serve_Inr) simp_all
  show ?thesis
    using create_then_read [OF _ _ _ s1(1) _ _ _ del, of "sample_actor 2 21 Owner"] s1(1)
      two_projects_ok two_projects_facts(2) by auto
qed

subsection \<open>Quotas\<close>

text \<open>
  C25: Quota. For a tenant in good standing, a v1 create under the plan's cap adds exactly one
  active project and its audit entry, and at or over the cap it is answered 403 and changes
  nothing; so v1 creates never take a tenant past its cap.
\<close>
theorem quota_guards_create:
  assumes "clean (st_conn s)" and "\<not> bypass_rls (st_conn s)" and "clean owner"
    and "\<not> org_deleted (st_db s) (actor_tenant_id a)" and "valid_call (CreateProject n desc)"
    and "org_exists (st_db s) (actor_tenant_id a)" and "project_fresh v (st_db s)"
    and "billing_state_of (bypass_rls owner) (actor_tenant_id a) (st_db s) = \<lparr>bs_status = st, bs_plan = plan\<rparr>"
    and "st \<noteq> ''past_due''" and "st \<noteq> ''canceled''" and "plan_quota plan = Cap cap"
  shows "\<exists>reply s1. serve x cod owner v rid False a (CreateProject n desc) s = (reply, s1) \<and>
    (if length (active_projects (actor_tenant_id a) (st_db s)) < cap
     then reply = (201, Inr (PProject (project_view_of (new_project v a n desc)))) \<and>
       st_db s1 = created_db v a n desc (st_db s) \<and>
       length (active_projects (actor_tenant_id a) (st_db s1)) =
         length (active_projects (actor_tenant_id a) (st_db s)) + 1 \<and>
       length (active_projects (actor_tenant_id a) (st_db s1)) \<le> cap
     else (\<exists>e. reply = (403, Inl e) \<and> env_code e = QUOTA_EXCEEDED) \<and> st_db s1 = st_db s)"
proof -
  have ok: "assert_write_allowed st = Inr ()" using assms(9,10) by (simp add: assert_write_allowed_def)
  have left: "quota_left (actor_tenant_id a) (st_db s) plan \<longleftrightarrow>
      length (active_projects (actor_tenant_id a) (st_db s)) < cap"
    using assms(11) by (simp add: quota_left_def)
  obtain s1 where "serve x cod owner v rid False a (CreateProject n desc) s =
      (if quota_left (actor_tenant_id a) (st_db s) plan
       then (201, Inr (PProject (project_view_of (new_project v a n desc))))
       else error_reply rid (ThrownExn (AppError (quota_exceeded
         (case plan_quota plan of Cap cap \<Rightarrow> quota_message plan cap | _ \<Rightarrow> [])))), s1)"
    "st_db s1 = (if quota_left (actor_tenant_id a) (st_db s) plan
      then created_db v a n desc (st_db s) else st_db s)"
    using create_request [OF assms(1-8) ok] by blast
  then show ?thesis
    using assms(11) unfolding left
    by (simp add: active_created error_reply_def error_handler_def quota_exceeded_def to_envelope_def)
qed

lemma quota_guards_create_witness:
  "\<exists>s1. serve sample_ext sample_codec (fresh_conn True) (sample_env 0) ''rid'' False (sample_actor 1 11 Owner)
      (CreateProject ''p'' None) (start_state False two_projects) =
      ((201, Inr (PProject (project_view_of (new_project (sample_env 0) (sample_actor 1 11 Owner) ''p'' None)))), s1) \<and>
    length (active_projects 1 (st_db s1)) = 3"
  using quota_guards_create [of "start_state False two_projects" "fresh_conn True" "sample_actor 1 11 Owner"
      "''p''" None "sample_env 0" "''active''" "''free''" 3 sample_ext sample_codec "''rid''"] two_projects_facts
  by (auto simp: plan_quota_def PROJECT_QUOTA_def valid_name_def valid_description_def)

text \<open>
  Ways around the quota and the degraded-access rule. Whatever the tenant's plan, its
  subscription and the number of its projects, a v2 create succeeds and adds an active
  project; and with writes allowed, a PATCH that sets an archived project to active succeeds
  and adds one too, also past the cap.
\<close>
theorem quota_bypassed:
  assumes c: "clean (st_conn s)" and nb: "\<not> bypass_rls (st_conn s)" and o: "clean owner"
    and alive: "\<not> org_deleted (st_db s) (actor_tenant_id a)" and d: "db_ok (st_db s)"
    and og: "org_exists (st_db s) (actor_tenant_id a)" and fr: "project_fresh v (st_db s)"
      "audit_fresh (st_db s) (new_id v 0)"
    and valid: "valid_call (V2Create n desc)"
    and p: "p \<in> set (projects (st_db s))" "project_tenant_id p = actor_tenant_id a" "project_status p = ''archived''"
    and allowed: "assert_write_allowed
      (bs_status (billing_state_of (bypass_rls owner) (actor_tenant_id a) (st_db s))) = Inr ()"
  shows "\<exists>s1 s2 w1 w2. serve x cod owner2 v rid False a (V2Create n desc) s = ((201, Inr (PProjectV2 w1)), s1) \<and>
    length (active_projects (actor_tenant_id a) (st_db s1)) =
      length (active_projects (actor_tenant_id a) (st_db s)) + 1 \<and>
    serve x cod owner v rid False a (UpdateProject (project_id p)
      \<lparr>pp_name = None, pp_description = None, pp_status = Some ''active''\<rparr>) s = ((200, Inr (PProject w2)), s2) \<and>
    length (active_projects (actor_tenant_id a) (st_db s2)) =
      length (active_projects (actor_tenant_id a) (st_db s)) + 1"
proof -
  let ?in = "in_tenant_tx (actor_tenant_id a) s"
    and ?patch = "\<lparr>pp_name = None, pp_description = None, pp_status = Some ''active''\<rparr>"
    and ?v = "project_view_of (new_project v a n desc)"
  have "create_project v a n desc ?in = (Inr ?v, ?in\<lparr>st_db := created_db v a n desc (st_db s)\<rparr>)"
    using create_project_run [of ?in a v n desc] og fr by simp
  then have "route_handler x cod owner2 v (V2Create n desc) a ?in =
      (Inr (201, PProjectV2 (to_v2 ?v)), ?in\<lparr>st_db := created_db v a n desc (st_db s)\<rparr>)"
    by (simp add: v2_create_def bnd_def ret_def)
  from serve_Inr [OF c valid alive this]
  have v2: "serve x cod owner2 v rid False a (V2Create n desc) s = ((201, Inr (PProjectV2 (to_v2 ?v))),
      ?in\<lparr>st_db := created_db v a n desc (st_db s), st_conn := released (st_conn s)\<rparr>)" by simp
  have e: "enforce_write owner a ?in = (Inr (bs_plan (billing_state_of (bypass_rls owner) (actor_tenant_id a) (st_db s))), ?in)"
    using allowed by (simp add: enforce_run [OF o])
  have u: "update_project v a (project_id p) ?patch ?in =
      (Inr (project_view_of (apply_patch v ?patch p)),
       ?in\<lparr>st_db := patched_db v a (st_conn ?in) (project_id p) ?patch (st_db s)\<rparr>)"
    using update_project_run [of ?in a v p ?patch] d fr(2) p by (simp add: empty_patch_def)
  have h: "route_handler x cod owner v (UpdateProject (project_id p) ?patch) a ?in =
      (Inr (200, PProject (project_view_of (apply_patch v ?patch p))),
       ?in\<lparr>st_db := patched_db v a (st_conn ?in) (project_id p) ?patch (st_db s)\<rparr>)"
    by (simp only: route_handler.simps v1_update_def run_steps e u)
  have "valid_call (UpdateProject (project_id p) ?patch)" by (simp add: valid_patch_def)
  from serve_Inr [OF c this alive h]
  have up: "serve x cod owner v rid False a (UpdateProject (project_id p) ?patch) s =
      ((200, Inr (PProject (project_view_of (apply_patch v ?patch p)))),
       ?in\<lparr>st_db := patched_db v a (st_conn ?in) (project_id p) ?patch (st_db s), st_conn := released (st_conn s)\<rparr>)"
    by simp
  have "length (active_projects (actor_tenant_id a) (patched_db v a (st_conn ?in) (project_id p) ?patch (st_db s))) =
      length (active_projects (actor_tenant_id a) (st_db s)) + 1"
    using active_patched [OF d p(1) _ p(3), of "st_conn ?in" ?patch v a] p(2) by simp
  then show ?thesis unfolding v2 up by (simp add: active_created)
qed

text \<open>A free tenant with three active projects and an archived one ends with four, either way.\<close>

definition full_projects :: db where
  "full_projects = with_projects [sample_project 1 1 ''active'' 1, sample_project 2 1 ''active'' 2,
     sample_project 3 1 ''active'' 3, sample_project 4 1 ''archived'' 4]"

lemma full_projects_ok: "db_ok full_projects"
  by (simp add: db_ok_defs full_projects_def with_projects_def sample_project_def sample_defs clash_defs
      no_dups_def org_exists_def user_exists_def)

lemma quota_bypassed_witness:
  "plan_quota ''free'' = Cap 3 \<and> (\<exists>s1 s2 w1 w2.
    serve sample_ext sample_codec (fresh_conn True) (sample_env 0) ''rid'' False (sample_actor 1 11 Owner)
      (V2Create ''p'' None) (start_state False full_projects) = ((201, Inr (PProjectV2 w1)), s1) \<and>
    length (active_projects 1 (st_db s1)) = 4 \<and>
    serve sample_ext sample_codec (fresh_conn True) (sample_env 0) ''rid'' False (sample_actor 1 11 Owner)
      (UpdateProject 4 \<lparr>pp_name = None, pp_description = None, pp_status = Some ''active''\<rparr>)
      (start_state False full_projects) = ((200, Inr (PProject w2)), s2) \<and>
    length (active_projects 1 (st_db s2)) = 4)"
proof -
  have a: "length (active_projects 1 full_projects) = 3"
    "sample_project 4 1 ''archived'' 4 \<in> set (projects full_projects)"
    "project_id (sample_project 4 1 ''archived'' 4) = 4" "project_tenant_id (sample_project 4 1 ''archived'' 4) = 1"
    "project_status (sample_project 4 1 ''archived'' 4) = ''archived''"
    by (simp_all add: full_projects_def with_projects_def sample_project_def active_projects_def)
  have b: "\<not> org_deleted full_projects 1" "org_exists full_projects 1" "project_fresh (sample_env 0) full_projects"
    "audit_fresh full_projects (new_id (sample_env 0) 0)" "bs_status (billing_state_of b 1 full_projects) = ''active''"
    for b
    by (simp_all add: full_projects_def with_projects_def sample_project_def sample_defs org_deleted_def
        org_exists_def project_fresh_def audit_fresh_def billing_state_of_def latest_subscription_def)
  have "valid_call (V2Create ''p'' None)" by (simp add: valid_name_def valid_description_def)
  then show ?thesis
    using quota_bypassed [where s = "start_state False full_projects" and owner = "fresh_conn True"
        and a = "sample_actor 1 11 Owner" and v = "sample_env 0" and n = "''p''" and desc = None
        and p = "sample_project 4 1 ''archived'' 4" and x = sample_ext and cod = sample_codec
        and rid = "''rid''" and ?owner2.0 = "fresh_conn True"] a b full_projects_ok
    by (simp add: assert_write_allowed_def plan_quota_def PROJECT_QUOTA_def)
qed

subsection \<open>Exports\<close>

text \<open>
  What an export of tenant \<open>t\<close> has to hold, written out: every tenant-scoped table with the
  tenant's own rows, and of each row every column but the hash of a password, token or key.
\<close>

definition exported :: "uuid \<Rightarrow> db \<Rightarrow> (string \<times> row_object list) list" where
  "exported t d =
     [(''users'', map (\<lambda>r.
        [(''id'', CUuid (user_id r)), (''tenant_id'', CUuid (user_tenant_id r)),
         (''email'', CText (user_email r)), (''role'', CRole (user_role r)),
         (''email_verified'', CBool (user_email_verified r)),
         (''created_at'', CTime (user_created_at r))])
        (filter (\<lambda>r. user_tenant_id r = t) (users d))),
      (''projects'', map (\<lambda>r.
        [(''id'', CUuid (project_id r)), (''tenant_id'', CUuid (project_tenant_id r)),
         (''name'', CText (project_name r)),
         (''description'', opt_col CText (project_description r)),
         (''status'', CText (project_status r)), (''created_at'', CTime (project_created_at r)),
         (''updated_at'', CTime (project_updated_at r))])
        (filter (\<lambda>r. project_tenant_id r = t) (projects d))),
      (''audit_log'', map (\<lambda>r.
        [(''id'', CUuid (audit_id r)), (''tenant_id'', CUuid (audit_tenant_id r)),
         (''actor_user_id'', opt_col CUuid (audit_actor_user_id r)),
         (''action'', CText (audit_action r)), (''target'', opt_col CText (audit_target r)),
         (''metadata'', opt_col CJson (audit_metadata r)),
         (''created_at'', CTime (audit_created_at r))])
        (filter (\<lambda>r. audit_tenant_id r = t) (audit_log d))),
      (''refresh_tokens'', map (\<lambda>r.
        [(''id'', CUuid (rt_id r)), (''tenant_id'', CUuid (rt_tenant_id r)),
         (''user_id'', CUuid (rt_user_id r)), (''family_id'', CUuid (rt_family_id r)),
         (''used_at'', opt_col CTime (rt_used_at r)),
         (''revoked_at'', opt_col CTime (rt_revoked_at r)),
         (''expires_at'', CTime (rt_expires_at r)), (''created_at'', CTime (rt_created_at r))])
        (filter (\<lambda>r. rt_tenant_id r = t) (refresh_tokens d))),
      (''invitations'', map (\<lambda>r.
        [(''id'', CUuid (inv_id r)), (''tenant_id'', CUuid (inv_tenant_id r)),
         (''email'', CText (inv_email r)), (''role'', CRole (inv_role r)),
         (''expires_at'', CTime (inv_expires_at r)),
         (''consumed_at'', opt_col CTime (inv_consumed_at r)),
         (''created_at'', CTime (inv_created_at r))])
        (filter (\<lambda>r. inv_tenant_id r = t) (invitations d))),
      (''auth_tokens'', map (\<lambda>r.
        [(''id'', CUuid (at_id r)), (''tenant_id'', CUuid (at_tenant_id r)),
         (''user_id'', CUuid (at_user_id r)), (''type'', CText (at_type r)),
         (''expires_at'', CTime (at_expires_at r)),
         (''consumed_at'', opt_col CTime (at_consumed_at r)),
         (''created_at'', CTime (at_created_at r))])
        (filter (\<lambda>r. at_tenant_id r = t) (auth_tokens d))),
      (''subscriptions'', map (\<lambda>r.
        [(''id'', CUuid (subs_id r)), (''tenant_id'', CUuid (subs_tenant_id r)),
         (''stripe_subscription_id'', opt_col CText (subs_stripe_subscription_id r)),
         (''status'', CText (subs_status r)), (''plan'', CText (subs_plan r)),
         (''current_period_end'', opt_col CTime (subs_current_period_end r)),
         (''updated_at'', CTime (subs_updated_at r))])
        (filter (\<lambda>r. subs_tenant_id r = t) (subscriptions d))),
      (''api_keys'', map (\<lambda>r.
        [(''id'', CUuid (ak_id r)), (''tenant_id'', CUuid (ak_tenant_id r)),
         (''name'', CText (ak_name r)), (''last_used_at'', opt_col CTime (ak_last_used_at r)),
         (''revoked_at'', opt_col CTime (ak_revoked_at r)),
         (''created_at'', CTime (ak_created_at r))])
        (filter (\<lambda>r. ak_tenant_id r = t) (api_keys d)))]"

lemma exported_is_export:
  "map (\<lambda>tab. (tab, map strip_secrets (rows_of tab (tenant_view t d)))) TENANT_SCOPED_TABLES = exported t d"
  by (simp add: TENANT_SCOPED_TABLES_def rows_of_simps tenant_view_sel exported_def comp_def
      strip_secrets_def SECRET_COLUMNS_def user_columns_def project_columns_def audit_columns_def
      refresh_token_columns_def invitation_columns_def auth_token_columns_def subscription_columns_def
      api_key_columns_def)

lemma exported_no_secret:
  "\<forall>(tab, rows)\<in>set (exported t d). \<forall>row\<in>set rows. \<forall>(col, val)\<in>set row.
    col \<notin> {''password_hash'', ''hashed_token'', ''hashed_key''}"
  unfolding exported_is_export [symmetric] by (auto dest!: strip_secrets_no_secret simp: SECRET_COLUMNS_def)

text \<open>
  C28: Exports. An administrator's export holds, for every tenant-scoped table, exactly the
  tenant's own rows with exactly the secret columns left out (no password, token or key hash,
  every other column with its value), and writes one audit entry and nothing else; a member is
  answered 403.
\<close>
theorem export_exact:
  assumes c: "clean (st_conn s)" and nb: "\<not> bypass_rls (st_conn s)"
    and alive: "\<not> org_deleted (st_db s) (actor_tenant_id a)"
    and og: "org_exists (st_db s) (actor_tenant_id a)" and fr: "audit_fresh (st_db s) (new_id v 0)"
  shows "\<exists>reply s1. serve x cod owner v rid False a Export s = (reply, s1) \<and>
    (if actor_role a = Member then (\<exists>e. reply = (403, Inl e)) \<and> st_db s1 = st_db s
     else (\<exists>ex. reply = (200, Inr (PExport ex)) \<and>
        te_tables ex = exported (actor_tenant_id a) (st_db s) \<and>
        (\<forall>(tab, rows)\<in>set (te_tables ex). \<forall>row\<in>set rows. \<forall>(col, val)\<in>set row.
          col \<notin> {''password_hash'', ''hashed_token'', ''hashed_key''})) \<and>
       st_db s1 = audited v (new_id v 0) a ''tenant.exported'' (uuid_out (actor_tenant_id a)) (st_db s))"
proof (cases "actor_role a = Member")
  case True
  let ?in = "in_tenant_tx (actor_tenant_id a) s"
  have "route_handler x cod owner v Export a ?in = (Inl (AppError forbidden_default), ?in)"
    using True by (simp add: export_create_def require_admin_def require_role_def andthen_def bnd_def lift_sum_def throw_def)
  from serve_Inl [OF c _ alive this] True show ?thesis
    by (simp add: error_reply_def error_handler_def forbidden_def)
next
  case False
  let ?in = "in_tenant_tx (actor_tenant_id a) s"
  let ?ex = "\<lparr>te_generated_at = js_now v, te_tables = exported (actor_tenant_id a) (st_db ?in)\<rparr>"
  have adm: "require_admin a ?in = (Inr (), ?in)"
    using False by (simp add: require_admin_def require_role_def lift_sum_def ret_def)
  note ex = build_tenant_export_run [OF live_in_tenant_tx bound_in_tenant_tx [OF nb, of "actor_tenant_id a"], of v,
    unfolded exported_is_export]
  have aud: "insert_audit (audit_entry v (new_id v 0) (actor_tenant_id a) (Some (actor_user_id a))
      ''tenant.exported'' (uuid_out (actor_tenant_id a)) None) ?in =
      (Inr (), ?in\<lparr>st_db := audited v (new_id v 0) a ''tenant.exported'' (uuid_out (actor_tenant_id a)) (st_db ?in)\<rparr>)"
    using audit_run [of ?in a "new_id v 0" v "''tenant.exported''" "uuid_out (actor_tenant_id a)"] og fr nb
    by (simp add: audit_def)
  have "route_handler x cod owner v Export a ?in = (Inr (200, PExport ?ex),
      ?in\<lparr>st_db := audited v (new_id v 0) a ''tenant.exported'' (uuid_out (actor_tenant_id a)) (st_db ?in)\<rparr>)"
    by (simp only: route_handler.simps export_create_def run_steps adm ex aud)
  from serve_Inr [OF c _ alive this]
  have run: "serve x cod owner v rid False a Export s = ((200, Inr (PExport ?ex)),
      ?in\<lparr>st_db := audited v (new_id v 0) a ''tenant.exported'' (uuid_out (actor_tenant_id a)) (st_db s),
        st_conn := released (st_conn s)\<rparr>)" by simp
  show ?thesis
    using False exported_no_secret [of "actor_tenant_id a" "st_db s"] unfolding run by simp
qed

lemma export_exact_witness:
  "\<exists>ex s1. serve sample_ext sample_codec (fresh_conn True) (sample_env 0) ''rid'' False (sample_actor 1 11 Owner)
      Export (start_state False two_projects) = ((200, Inr (PExport ex)), s1)"
proof -
  have "audit_fresh two_projects (new_id (sample_env 0) 0)"
    by (simp add: audit_fresh_def two_projects_def with_projects_def sample_defs)
  with export_exact [of "start_state False two_projects" "sample_actor 1 11 Owner" "sample_env 0" sample_ext
      sample_codec "fresh_conn True" "''rid''"] two_projects_facts(1,3)
  show ?thesis by (auto simp: sample_actor_def)
qed

subsection \<open>A COMMIT that fails\<close>

text \<open>
  A failed COMMIT is not reported. When the server refuses the COMMIT of a request (a lost
  connection), the reply is exactly the one of a committed request, success included, while
  the database is as it was before.
\<close>
theorem commit_failure_hidden:
  assumes "clean (st_conn s)"
  shows "fst (serve x cod owner v rid True a call s) = fst (serve x cod owner v rid False a call s) \<and>
    st_db (snd (serve x cod owner v rid True a call s)) = st_db s"
  using rollback_open [OF assms]
  by (auto simp: serve_cases [OF assms] kept_db_def split: prod.splits sum.splits)

lemma commit_failure_hidden_witness:
  "\<exists>w. fst (serve sample_ext sample_codec (fresh_conn True) (sample_env 0) ''rid'' True (sample_actor 1 11 Owner)
      (CreateProject ''p'' None) (start_state False two_projects)) = (201, Inr (PProject w)) \<and>
    st_db (snd (serve sample_ext sample_codec (fresh_conn True) (sample_env 0) ''rid'' True (sample_actor 1 11 Owner)
      (CreateProject ''p'' None) (start_state False two_projects))) = two_projects"
  using commit_failure_hidden [of "start_state False two_projects" sample_ext sample_codec "fresh_conn True"
      "sample_env 0" "''rid''" "sample_actor 1 11 Owner" "CreateProject ''p'' None"]
    create_request [of "start_state False two_projects" "fresh_conn True" "sample_actor 1 11 Owner" "''p''" None
      "sample_env 0" "''active''" "''free''" sample_ext sample_codec "''rid''"] two_projects_facts
  by (auto simp: assert_write_allowed_def quota_left_def plan_quota_def PROJECT_QUOTA_def
      valid_name_def valid_description_def)

end
