(* ===== verification/AppProperties.thy ===== *)
theory AppProperties
  imports ProjectProperties SessionProperties
begin

text \<open>
  Properties that span the components: the invariant of the whole application, the life of
  an API key across the two pools, and what a cancelled tenant can still do.
\<close>

subsection \<open>The application\<close>

text \<open>
  C5: Soundness of the application. Whatever requests of whatever kind are made, in any number
  and with any inputs, Stripe answers and Redis failures, starting from the empty database:
  all unique indexes and foreign keys hold, and both pools hold connections without a
  transaction and without a tenant, with the role attributes they were opened with.
\<close>
theorem app_stays_sound:
  assumes "app_run dp z z'" and "ap_db z = empty_db" and "clean (ap_owner z)" and "clean (ap_app z)"
  shows "db_unique (ap_db z') \<and> db_refs (ap_db z') \<and> clean (ap_owner z') \<and> clean (ap_app z') \<and>
    bypass_rls (ap_owner z') = bypass_rls (ap_owner z) \<and> bypass_rls (ap_app z') = bypass_rls (ap_app z)"
  using app_run_sound [OF assms(1)] assms(2-4) db_ok_empty
  by (simp add: app_sound_def same_roles_def db_ok_def)

definition sample_deps :: deps where
  "sample_deps = \<lparr>d_ext = sample_ext, d_codec = sample_codec,
     d_wire = \<lparr>email_ok = (\<lambda>e. CHR ''@'' \<in> set e), url_origin = (\<lambda>u. if u = [] then None else Some u)\<rparr>,
     d_gateway = \<lparr>gw_create_customer = (\<lambda>calls email t. Inr ''cus''),
       gw_create_checkout_session = (\<lambda>calls cu pr su ca t. Inr (''cs'', None)),
       gw_create_portal_session = (\<lambda>calls cu u. Inr ''''), gw_get_subscription = (\<lambda>calls i. Inl (OtherError ''down'')),
       gw_construct_event = (\<lambda>body sg. Inl (OtherError ''bad signature''))\<rparr>,
     d_tokens = sample_config, d_billing = \<lparr>allowed_price_ids = [], allowed_redirect_origins = []\<rparr>,
     d_stripe = True, d_limiter = False\<rparr>"

definition sample_start :: app_state where
  "sample_start = \<lparr>ap_db = empty_db, ap_calls = [], ap_owner = fresh_conn True, ap_app = fresh_conn False,
     ap_limiter = \<lparr>ls_sha = False, ls_up = True, ls_script = False, ls_store = (\<lambda>_. None)\<rparr>\<rparr>"

definition sample_input :: "nat \<Rightarrow> request_input" where
  "sample_input k = \<lparr>ri_env = sample_env k, ri_clocks = \<lparr>ck_now = 0, ck_redis = 0\<rparr>, ri_request_id = ''rid'',
     ri_commit_fails = False, ri_ip = ''ip'', ri_headers = \<lparr>hd_api_key = None, hd_authorization = None\<rparr>\<rparr>"

lemma app_stays_sound_witness:
  "db_unique (ap_db (snd (app_step sample_deps (sample_input 0)
     (OwnerRequest (PostSignup \<lparr>su_organization_name = ''Acme'', su_email = ''a@b'', su_password = ''password''\<rparr>))
     sample_start)))"
  using app_stays_sound [OF app_more [OF app_refl [of sample_deps sample_start]],
      of "sample_input 0" "OwnerRequest (PostSignup
        \<lparr>su_organization_name = ''Acme'', su_email = ''a@b'', su_password = ''password''\<rparr>)"]
  by (simp add: sample_start_def)

subsection \<open>API keys\<close>

lemma create_api_key_Inr:
  assumes "create_api_key x v a n s = (Inr (i, key), s')"
  shows "i = new_id v 0 \<and> live s' \<and>
    api_keys (st_db s') = api_keys (st_db s) @ [new_api_key x v (actor_tenant_id a) n key]"
  using assms
  by (auto simp: create_api_key_def Let_def andthen_def bnd_def ret_def exec_def q_insert_def live_def
      split: tx_state.splits sum.splits prod.splits if_splits)

lemma revoke_api_key_Inr:
  assumes "revoke_api_key v a i s = (Inr u, s')"
  shows "live s' \<and> (\<exists>r\<in>set (api_keys (st_db s)). visible (st_conn s) (ak_tenant_id r) \<and> ak_id r = i) \<and>
    api_keys (st_db s') = map (\<lambda>r. if visible (st_conn s) (ak_tenant_id r) \<and> ak_id r = i \<and> ak_revoked_at r = None
      then r\<lparr>ak_revoked_at := Some (db_now v)\<rparr> else r) (api_keys (st_db s))"
  using assms
  by (auto simp: revoke_api_key_def bnd_def throw_def exec_def q_insert_def q_update_def Let_def live_def
      filter_empty_conv split: tx_state.splits sum.splits prod.splits if_splits)

lemma revoke_api_key_run:
  assumes l: "live s" and v: "visible (st_conn s) (actor_tenant_id a)"
    and og: "org_exists (st_db s) (actor_tenant_id a)" and fr: "audit_fresh (st_db s) (new_id v 0)"
    and k: "list_ex (\<lambda>r. visible (st_conn s) (ak_tenant_id r) \<and> ak_id r = i \<and> ak_revoked_at r = None) (api_keys (st_db s))"
  shows "\<exists>u. revoke_api_key v a i s = (Inr (), u) \<and> live u"
proof -
  let ?h = "\<lambda>r. visible (st_conn s) (ak_tenant_id r) \<and> ak_id r = i \<and> ak_revoked_at r = None"
  let ?d1 = "(st_db s)\<lparr>api_keys := map (\<lambda>r. if ?h r then r\<lparr>ak_revoked_at := Some (db_now v)\<rparr> else r) (api_keys (st_db s))\<rparr>"
  have n: "length (filter ?h (api_keys (st_db s))) \<noteq> 0" using k by (auto simp: list_ex_iff filter_empty_conv)
  have upd: "update_api_keys (\<lambda>r. ak_id r = i \<and> ak_revoked_at r = None)
      (\<lambda>r. r\<lparr>ak_revoked_at := Some (db_now v)\<rparr>) s = (Inr (length (filter ?h (api_keys (st_db s)))), s\<lparr>st_db := ?d1\<rparr>)"
    by (subst exec_update_ok [OF l]) simp_all
  have aud: "audit v (new_id v 0) a ''apikey.revoked'' (uuid_out i) (s\<lparr>st_db := ?d1\<rparr>) =
      (Inr (), s\<lparr>st_db := audited v (new_id v 0) a ''apikey.revoked'' (uuid_out i) ?d1\<rparr>)"
    using l v og fr by (subst audit_run) (simp_all add: audit_fresh_def org_exists_def)
  have "revoke_api_key v a i s = (Inr (), s\<lparr>st_db := audited v (new_id v 0) a ''apikey.revoked'' (uuid_out i) ?d1\<rparr>)"
    by (simp only: revoke_api_key_def run_steps upd n if_False aud [unfolded audit_def])
  then show ?thesis using l by simp
qed

definition key_headers :: "string \<Rightarrow> headers" where
  "key_headers key = \<lparr>hd_api_key = Some key, hd_authorization = None\<rparr>"

lemma authenticate_key:
  assumes o: "clean owner" "bypass_rls owner" and ne: "key \<noteq> []"
    and one: "filter (\<lambda>r. ak_hashed_key r = hash_key x key) (api_keys (st_db s)) = [k]"
  shows "fst (on_pool owner (authenticate x cfg w True (key_headers key)) s) =
    (if ak_revoked_at k = None
     then Inr \<lparr>actor_tenant_id = ak_tenant_id k, actor_user_id = ak_id k, actor_role = Member\<rparr>
     else Inl (AppError (unauthorized ''Invalid API key'')))"
proof -
  have c: "clean (st_conn (s\<lparr>st_conn := owner\<rparr>))" using o by simp
  have "key_row True (hash_key x key) (st_db s) = Some k" by (simp add: key_row_def one)
  then show ?thesis
    using authenticate_api_key_cases [OF c, of x w key] o ne
    by (simp add: on_pool_def authenticate_def key_headers_def bnd_def ret_def)
qed

text \<open>What successful key requests leave.\<close>

lemma create_key_effect:
  assumes c: "clean (st_conn s)" and nb: "\<not> bypass_rls (st_conn s)" and d: "db_ok (st_db s)"
    and run: "serve x cod owner v rid False a (CreateKey n) s = ((201, Inr (PKey i key)), s1)"
  shows "actor_role a \<noteq> Member" "i = new_id v 0" "clean (st_conn s1)" "\<not> bypass_rls (st_conn s1)"
    "db_ok (st_db s1)" "new_api_key x v (actor_tenant_id a) n key \<in> set (api_keys (st_db s1))" "key \<noteq> []"
proof -
  let ?in = "in_tenant_tx (actor_tenant_id a) s"
  obtain s3 where h: "route_handler x cod owner v (CreateKey n) a ?in = (Inr (201, PKey i key), s3)"
      "st_db s1 = committed_db s3" "st_conn s1 = released (st_conn s)"
    using run by (rule serve_InrE [OF c]) simp_all
  have cr: "create_api_key x v a n ?in = (Inr (i, key), s3)" and adm: "actor_role a \<noteq> Member"
    using h(1) by (auto simp: key_create_def require_admin_def andthen_def bnd_def lift_sum_def ret_def throw_def
        require_role_def split: if_splits prod.splits sum.splits)
  note k = create_api_key_Inr [OF cr]
  have db1: "st_db s1 = st_db s3" using k h(2) by (simp add: committed_live)
  show "actor_role a \<noteq> Member" by (rule adm)
  show "i = new_id v 0" "new_api_key x v (actor_tenant_id a) n key \<in> set (api_keys (st_db s1))"
    using k db1 by simp_all
  show "clean (st_conn s1)" "\<not> bypass_rls (st_conn s1)" using h(3) nb by simp_all
  show "db_ok (st_db s1)"
    using tracksD [OF handler_intact h(1)] d db1 by (simp add: keeps_intact_def intact_def)
  show "key \<noteq> []"
    using cr by (auto simp: create_api_key_def Let_def andthen_def bnd_def ret_def split: prod.splits sum.splits)
qed

lemma revoke_key_effect:
  assumes c: "clean (st_conn s)" and nb: "\<not> bypass_rls (st_conn s)"
    and run: "serve x cod owner v rid False b (RevokeKey i) s = ((204, Inr PNone), s1)"
  shows "\<exists>r\<in>set (api_keys (st_db s)). ak_tenant_id r = actor_tenant_id b \<and> ak_id r = i"
    "api_keys (st_db s1) = map (\<lambda>r. if ak_tenant_id r = actor_tenant_id b \<and> ak_id r = i \<and> ak_revoked_at r = None
      then r\<lparr>ak_revoked_at := Some (db_now v)\<rparr> else r) (api_keys (st_db s))"
proof -
  let ?in = "in_tenant_tx (actor_tenant_id b) s"
  obtain s3 where h: "route_handler x cod owner v (RevokeKey i) b ?in = (Inr (204, PNone), s3)"
      "st_db s1 = committed_db s3"
    using run by (rule serve_InrE [OF c]) simp_all
  have "revoke_api_key v b i ?in = (Inr (), s3)"
    using h(1) by (auto simp: key_revoke_def require_admin_def andthen_def bnd_def lift_sum_def ret_def throw_def
        split: prod.splits sum.splits)
  note k = revoke_api_key_Inr [OF this]
  show "\<exists>r\<in>set (api_keys (st_db s)). ak_tenant_id r = actor_tenant_id b \<and> ak_id r = i"
    using k nb by (auto simp: bound_visible)
  show "api_keys (st_db s1) = map (\<lambda>r. if ak_tenant_id r = actor_tenant_id b \<and> ak_id r = i \<and> ak_revoked_at r = None
      then r\<lparr>ak_revoked_at := Some (db_now v)\<rparr> else r) (api_keys (st_db s))"
    using k h(2) nb by (simp add: committed_live bound_visible)
qed

text \<open>
  C26: The life of an API key. Only an administrator or owner creates one; the plaintext that
  is answered then authenticates as a member of exactly the creator's tenant, under the key's
  id; a revocation that succeeds comes from the same tenant, and after it the key is refused
  with 401.
\<close>
theorem api_key_lifecycle:
  assumes c: "clean (st_conn s)" and nb: "\<not> bypass_rls (st_conn s)" and d: "db_ok (st_db s)"
    and o: "clean owner" "bypass_rls owner"
    and create: "serve x cod owner v rid False a (CreateKey n) s = ((201, Inr (PKey i key)), s1)"
    and revoke: "serve x cod owner v2 rid False b (RevokeKey i) s1 = ((204, Inr PNone), s2)"
  shows "actor_role a \<noteq> Member \<and>
    fst (on_pool owner (authenticate x cfg w True (key_headers key)) s1) =
      Inr \<lparr>actor_tenant_id = actor_tenant_id a, actor_user_id = i, actor_role = Member\<rparr> \<and>
    actor_tenant_id b = actor_tenant_id a \<and>
    fst (on_pool owner (authenticate x cfg w' True (key_headers key)) s2) =
      Inl (AppError (unauthorized ''Invalid API key''))"
proof -
  let ?k = "new_api_key x v (actor_tenant_id a) n key"
  note s1 = create_key_effect [OF c nb d create]
  note s2 = revoke_key_effect [OF s1(3,4) revoke]
  let ?h = "\<lambda>r. ak_tenant_id r = actor_tenant_id b \<and> ak_id r = i \<and> ak_revoked_at r = None"
    and ?f = "\<lambda>r. r\<lparr>ak_revoked_at := Some (db_now v2)\<rparr>" and ?P = "\<lambda>r. ak_hashed_key r = hash_key x key"
  have u: "no_dups api_key_clash (api_keys (st_db s1))" using s1(5) by (simp add: db_ok_defs)
  have k: "ak_tenant_id ?k = actor_tenant_id a" "ak_id ?k = i" "ak_revoked_at ?k = None" "?P ?k"
    using s1(2) by (simp_all add: new_api_key_def)
  have one: "filter ?P (api_keys (st_db s1)) = [?k]"
    by (rule no_dups_filter_one [OF u s1(6)]) (use k in \<open>simp_all add: api_key_clash_def\<close>)
  obtain r where r: "r \<in> set (api_keys (st_db s1))" "ak_tenant_id r = actor_tenant_id b" "ak_id r = i"
    using s2(1) by blast
  have "r = ?k" by (rule no_dups_eq [OF u r(1) s1(6)]) (use r(3) k(2) in \<open>simp_all add: api_key_clash_def\<close>)
  then have tenant: "actor_tenant_id b = actor_tenant_id a" using r(2) k(1) by simp
  have "filter ?P (map (\<lambda>r. if ?h r then ?f r else r) (api_keys (st_db s1))) =
      map (\<lambda>r. if ?h r then ?f r else r) (filter ?P (api_keys (st_db s1)))"
    by (rule filter_map_if) simp
  then have "filter ?P (api_keys (st_db s2)) = [?f ?k]"
    using k tenant by (simp only: s2(2) one) simp
  from authenticate_key [OF o s1(7) this] authenticate_key [OF o s1(7) one] show ?thesis
    using s1(1) k tenant by simp
qed

lemma api_key_lifecycle_witness:
  "\<exists>s1 s2. fst (on_pool (fresh_conn True)
      (authenticate sample_ext sample_config (sample_env 2) True (key_headers ''tf_key'')) s1) =
      Inr \<lparr>actor_tenant_id = 1, actor_user_id = 100, actor_role = Member\<rparr> \<and>
    serve sample_ext sample_codec (fresh_conn True) (sample_env 1) ''rid'' False (sample_actor 1 11 Owner)
      (RevokeKey 100) s1 = ((204, Inr PNone), s2) \<and>
    fst (on_pool (fresh_conn True)
      (authenticate sample_ext sample_config (sample_env 2) True (key_headers ''tf_key'')) s2) =
      Inl (AppError (unauthorized ''Invalid API key''))"
proof -
  let ?s = "start_state False sample_db" and ?a = "sample_actor 1 11 Owner"
  let ?k = "new_api_key sample_ext (sample_env 0) 1 ''key'' ''tf_key''"
  let ?in = "in_tenant_tx 1 ?s"
  have og: "org_exists sample_db 1" "\<not> org_deleted sample_db 1"
    by (simp_all add: sample_defs org_exists_def org_deleted_def)
  have adm: "require_admin ?a u = (Inr (), u)" for u
    by (simp add: require_admin_def require_role_def lift_sum_def ret_def sample_actor_def)
  obtain s3 where cr: "create_api_key sample_ext (sample_env 0) ?a ''key'' ?in = (Inr (100, ''tf_key''), s3)"
    and s3: "api_keys (st_db s3) = [?k] \<and> organizations (st_db s3) = organizations sample_db"
      "st_conn s3 = st_conn ?in" "audit_log (st_db s3) = [audit_entry (sample_env 0) 101 1 (Some 11)
        ''apikey.created'' (uuid_out 100) None]"
    using create_api_key_run [of ?in ?a "sample_env 0" sample_ext "''key''"] og
    by (simp add: audit_fresh_def sample_defs sample_actor_def)
  have "route_handler sample_ext sample_codec (fresh_conn True) (sample_env 0) (CreateKey ''key'') ?a ?in =
      (Inr (201, PKey 100 ''tf_key''), s3)"
    by (simp only: route_handler.simps key_create_def run_steps adm cr)
  then have create: "serve sample_ext sample_codec (fresh_conn True) (sample_env 0) ''rid'' False ?a
      (CreateKey ''key'') ?s = ((201, Inr (PKey 100 ''tf_key'')), s3\<lparr>st_conn := released (st_conn ?s)\<rparr>)"
    using og s3(2) by (intro serve_Inr) (simp_all add: valid_name_def live_def)
  let ?s1 = "s3\<lparr>st_conn := released (st_conn ?s)\<rparr>"
  have "\<exists>u. revoke_api_key (sample_env 1) ?a 100 (in_tenant_tx 1 ?s1) = (Inr (), u) \<and> live u"
  proof (rule revoke_api_key_run)
    show "list_ex (\<lambda>r. visible (st_conn (in_tenant_tx 1 ?s1)) (ak_tenant_id r) \<and> ak_id r = 100 \<and>
        ak_revoked_at r = None) (api_keys (st_db (in_tenant_tx 1 ?s1)))"
      using s3(1) by (simp add: new_api_key_def)
    show "org_exists (st_db (in_tenant_tx 1 ?s1)) (actor_tenant_id ?a)"
      using s3(1) og(1) by (simp add: org_exists_def)
    show "audit_fresh (st_db (in_tenant_tx 1 ?s1)) (new_id (sample_env 1) 0)"
      using s3(3) by (simp add: audit_fresh_def audit_entry_def)
  qed simp_all
  then obtain u where rv: "revoke_api_key (sample_env 1) ?a 100 (in_tenant_tx 1 ?s1) = (Inr (), u)" "live u"
    by blast
  have "route_handler sample_ext sample_codec (fresh_conn True) (sample_env 1) (RevokeKey 100) ?a
      (in_tenant_tx (actor_tenant_id ?a) ?s1) = (Inr (204, PNone), u)"
    using rv(1) by (simp add: key_revoke_def run_steps adm)
  then have revoke: "serve sample_ext sample_codec (fresh_conn True) (sample_env 1) ''rid'' False ?a
      (RevokeKey 100) ?s1 = ((204, Inr PNone), u\<lparr>st_conn := released (st_conn ?s1)\<rparr>)"
    using og(2) s3(1) rv(2) by (intro serve_Inr) (simp_all add: org_deleted_def)
  have "bypass_rls (fresh_conn True)" by (simp add: fresh_conn_def)
  with api_key_lifecycle [OF _ _ _ _ _ create revoke, of sample_config "sample_env 2" "sample_env 2"] sample_db_ok
  have "fst (on_pool (fresh_conn True)
      (authenticate sample_ext sample_config (sample_env 2) True (key_headers ''tf_key'')) ?s1) =
      Inr \<lparr>actor_tenant_id = 1, actor_user_id = 100, actor_role = Member\<rparr> \<and>
    fst (on_pool (fresh_conn True)
      (authenticate sample_ext sample_config (sample_env 2) True (key_headers ''tf_key''))
      (u\<lparr>st_conn := released (st_conn ?s1)\<rparr>)) = Inl (AppError (unauthorized ''Invalid API key''))"
    by simp
  with revoke show ?thesis by blast
qed

subsection \<open>A cancelled tenant\<close>

lemma cancelled_org:
  assumes "org_exists d (actor_tenant_id a)"
  shows "org_deleted (cancelled_db b v a d) (actor_tenant_id a)"
proof -
  let ?P = "\<lambda>g. org_id g = actor_tenant_id a"
  have "filter ?P (map (\<lambda>g. if ?P g then g\<lparr>org_deleted_at := Some (db_now v)\<rparr> else g) (organizations d)) =
      map (\<lambda>g. if ?P g then g\<lparr>org_deleted_at := Some (db_now v)\<rparr> else g) (filter ?P (organizations d))"
    by (rule filter_map_if) simp
  moreover obtain g gs where "filter ?P (organizations d) = g # gs"
    using assms by (cases "filter ?P (organizations d)") (auto simp: org_exists_iff filter_empty_conv)
  moreover have "?P g" using filter_eq_ConsD [OF calculation(2)] by auto
  ultimately show ?thesis by (simp add: org_deleted_def cancelled_db_def)
qed

lemma audit_log_cancelled: "audit_fresh d (new_id v 0) \<Longrightarrow> audit_fresh d i \<Longrightarrow> i \<noteq> new_id v 0 \<Longrightarrow>
    audit_fresh (cancelled_db b v a d) i"
  by (auto simp: audit_fresh_def cancelled_db_def)

text \<open>
  C27: Cancellation locks the tenant out of the tenant routes: after it, every valid call of every
  actor of the tenant, with whatever role and however authenticated, is answered 403 and
  changes nothing.
\<close>
theorem cancelled_locked_out:
  assumes "clean (st_conn s)" and "db_ok (st_db s)" and "org_exists (st_db s) (actor_tenant_id a)"
    and "audit_fresh (st_db s) (new_id v 0)" and cancel: "cancel_tenant v a s = (r, s1)"
    and app: "clean (st_conn z)" "st_db z = st_db s1"
    and b: "actor_tenant_id b = actor_tenant_id a" and "valid_call call"
  shows "r = Inr () \<and> (\<exists>e z'. serve x cod owner w rid cf b call z = ((403, Inl e), z') \<and>
    env_code e = FORBIDDEN \<and> st_db z' = st_db z)"
proof -
  have run: "r = Inr ()" "st_db s1 = cancelled_db (bypass_rls (st_conn s)) v a (st_db s)"
    using cancel cancel_tenant_run [OF clean_NoTx [OF assms(1)] assms(2-4)] by auto
  then have "org_deleted (st_db z) (actor_tenant_id b)" using app(2) b cancelled_org [OF assms(3)] by simp
  then show ?thesis
    using run(1) assms(9) rollback_open(2) [OF app(1)]
    by (simp add: serve_cases [OF app(1)] error_reply_def error_handler_def forbidden_def to_envelope_def)
qed

lemma sample_cancel_facts:
  "org_exists sample_db 1" "audit_fresh sample_db i"
  by (simp_all add: sample_defs org_exists_def audit_fresh_def)

lemma cancelled_locked_out_witness:
  "\<exists>e z'. serve sample_ext sample_codec (fresh_conn True) (sample_env 1) ''rid'' False (sample_actor 1 11 Member) ListKeys
      (start_state False (st_db (snd (cancel_tenant (sample_env 0) (sample_actor 1 11 Owner) (start_state True sample_db))))) =
    ((403, Inl e), z')"
  using cancelled_locked_out [of "start_state True sample_db" "sample_actor 1 11 Owner" "sample_env 0", OF _ _ _ _ prod.collapse [symmetric],
      of "start_state False (st_db (snd (cancel_tenant (sample_env 0) (sample_actor 1 11 Owner) (start_state True sample_db))))"
        "sample_actor 1 11 Member" ListKeys sample_ext sample_codec "fresh_conn True" "sample_env 1" "''rid''" False]
    sample_db_ok sample_cancel_facts by auto

text \<open>
  The other routes do not look at the cancellation. An administrator of a cancelled
  tenant whose access token has not expired still creates an invitation, which is answered
  201, although the organization is deleted.
\<close>
theorem cancelled_still_invites:
  assumes c: "clean (st_conn s)" and d: "db_ok (st_db s)" and og: "org_exists (st_db s) (actor_tenant_id a)"
    and fr: "audit_fresh (st_db s) (new_id v 0)" and cancel: "cancel_tenant v a s = (Inr (), s1)"
    and b: "actor_tenant_id b = actor_tenant_id a" "actor_role b \<noteq> Member"
    and inv: "invitation_fresh x w (st_db s)" "new_id w 1 \<noteq> new_id v 0"
    and valid: "email_ok wr email" "q \<noteq> Owner"
  shows "org_deleted (st_db s1) (actor_tenant_id b) \<and>
    (\<exists>s2. owner_request rid (valid_owner_call wr (PostInvite email q)) (ret ()) (ret (Some b))
        (owner_handler x cfg gw wr bc w (PostInvite email q)) s1 = ((201, Inr (OInvited (rnd_token w))), s2))"
proof -
  have s1: "s1 = s\<lparr>st_db := cancelled_db (bypass_rls (st_conn s)) v a (st_db s), st_conn := released (st_conn s)\<rparr>"
    using cancel cancel_tenant_run [OF clean_NoTx [OF c] d og fr] by simp
  have "invitation_fresh x w (st_db s1)"
    using inv audit_log_cancelled [OF fr] by (auto simp: invitation_fresh_def s1 cancelled_db_def audit_fresh_def)
  moreover have "org_exists (st_db s1) (actor_tenant_id b)"
    using og b(1) by (simp add: s1 cancelled_db_def exists_own_upd org_exists_map)
  moreover have "tx (st_conn s1) = NoTx" by (rule clean_NoTx) (simp add: s1)
  ultimately have "create_invitation x w b email q INVITE_TTL_MS s1 = (Inr (rnd_token w),
      s1\<lparr>st_db := invited_db x w b email q INVITE_TTL_MS (st_db s1), st_conn := released (st_conn s1)\<rparr>)"
    using create_invitation_run [OF _ b(2)] by blast
  then show ?thesis
    using valid b(1) cancelled_org [OF og]
    by (simp add: s1 owner_request_def owner_route_defs with_auth_def andthen_def bnd_def ret_def)
qed

lemma cancelled_still_invites_witness:
  "\<exists>s1 s2. cancel_tenant (sample_env 0) (sample_actor 1 11 Owner) (start_state True sample_db) = (Inr (), s1) \<and>
    owner_request ''rid'' (valid_owner_call (d_wire sample_deps) (PostInvite ''n@x'' Admin)) (ret ())
      (ret (Some (sample_actor 1 11 Owner)))
      (owner_handler sample_ext sample_config (d_gateway sample_deps) (d_wire sample_deps) (d_billing sample_deps)
        (sample_env 1) (PostInvite ''n@x'' Admin)) s1 = ((201, Inr (OInvited ''tokk'')), s2)"
proof -
  let ?s = "start_state True sample_db"
  have run: "cancel_tenant (sample_env 0) (sample_actor 1 11 Owner) ?s = (Inr (), snd (cancel_tenant (sample_env 0) (sample_actor 1 11 Owner) ?s))"
    using cancel_tenant_run [of ?s "sample_actor 1 11 Owner" "sample_env 0"] sample_db_ok sample_cancel_facts
    by (simp add: clean_NoTx)
  have "invitation_fresh sample_ext (sample_env 1) sample_db"
    by (simp add: invitation_fresh_def audit_fresh_def sample_defs)
  with cancelled_still_invites [OF _ _ _ _ run, of "sample_actor 1 11 Owner" sample_ext "sample_env 1"
      "d_wire sample_deps" "''n@x''" Admin "''rid''" sample_config "d_gateway sample_deps" "d_billing sample_deps"]
  show ?thesis using run sample_db_ok sample_cancel_facts
    by (fastforce simp: sample_deps_def sample_actor_def)
qed

end
