(* ===== verification/Outcomes.thy ===== *)
theory Outcomes
  imports App
begin

text \<open>
  What a program can end with, whatever state it starts in: \<open>yields E Q m\<close> says that every
  exception \<open>m\<close> throws satisfies \<open>E\<close> and every value it returns satisfies \<open>Q\<close>. The rules
  follow the combinators, so a service is checked branch by branch.
\<close>

definition yields :: "(exn \<Rightarrow> bool) \<Rightarrow> ('a \<Rightarrow> bool) \<Rightarrow> ('s, 'a) eff \<Rightarrow> bool" where
  "yields E Q m \<longleftrightarrow> (\<forall>s. case fst (m s) of Inl e \<Rightarrow> E e | Inr a \<Rightarrow> Q a)"

abbreviation throws_only :: "(exn \<Rightarrow> bool) \<Rightarrow> ('s, 'a) eff \<Rightarrow> bool" where
  "throws_only E m \<equiv> yields E (\<lambda>_. True) m"

lemma yieldsD_Inl: "yields E Q m \<Longrightarrow> m s = (Inl e, s') \<Longrightarrow> E e"
  unfolding yields_def by (drule spec [of _ s]) simp

lemma yieldsD_Inr: "yields E Q m \<Longrightarrow> m s = (Inr a, s') \<Longrightarrow> Q a"
  unfolding yields_def by (drule spec [of _ s]) simp

subsection \<open>The combinators\<close>

lemma yields_ret: "Q a \<Longrightarrow> yields E Q (ret a)"
  by (simp add: yields_def ret_def)

lemma yields_throw: "E e \<Longrightarrow> yields E Q (throw e)"
  by (simp add: yields_def throw_def)

lemma throws_lift_sum: "(\<And>e. r = Inl e \<Longrightarrow> E e) \<Longrightarrow> throws_only E (lift_sum r)"
  by (simp add: yields_def lift_sum_def split: sum.splits)

lemma yields_bnd:
  assumes "throws_only E m" and "\<And>a. yields E Q (f a)"
  shows "yields E Q (bnd m f)"
  unfolding yields_def
proof
  fix s
  obtain r s' where m: "m s = (r, s')" by fastforce
  then show "case fst (bnd m f s) of Inl e \<Rightarrow> E e | Inr a \<Rightarrow> Q a"
    using assms(2) yieldsD_Inl [OF assms(1)] by (cases r) (auto simp: bnd_def yields_def)
qed

lemma yields_andthen: "throws_only E m \<Longrightarrow> yields E Q n \<Longrightarrow> yields E Q (andthen m n)"
  by (simp add: andthen_def yields_bnd)

lemma yields_try_catch:
  assumes "yields E' Q m" and "\<And>e. E' e \<Longrightarrow> yields E Q (h e)"
  shows "yields E Q (try_catch m h)"
  unfolding yields_def
proof
  fix s
  obtain r s' where m: "m s = (r, s')" by fastforce
  then show "case fst (try_catch m h s) of Inl e \<Rightarrow> E e | Inr a \<Rightarrow> Q a"
    using yieldsD_Inl [OF assms(1)] yieldsD_Inr [OF assms(1)] assms(2)
    by (cases r) (auto simp: try_catch_def yields_def)
qed

lemma throws_swallow: "throws_only E (swallow m)"
  by (simp add: yields_def swallow_def split: prod.splits)

lemma yields_finally_do:
  assumes "yields E Q m" and "throws_only E fin"
  shows "yields E Q (finally_do m fin)"
  unfolding yields_def
proof
  fix s
  obtain r s' where m: "m s = (r, s')" by fastforce
  obtain r' s'' where f: "fin s' = (r', s'')" by fastforce
  show "case fst (finally_do m fin s) of Inl e \<Rightarrow> E e | Inr a \<Rightarrow> Q a"
    using m f yieldsD_Inl [OF assms(1)] yieldsD_Inr [OF assms(1)] yieldsD_Inl [OF assms(2)]
    by (cases r; cases r') (auto simp: finally_do_def yields_def)
qed

lemma yields_on_pool: "yields E Q m \<Longrightarrow> yields E Q (on_pool c m)"
  by (simp add: yields_def on_pool_def split: prod.splits) (metis fst_conv)

lemma yields_ask:
  assumes "\<And>calls. case answer calls of Inl e \<Rightarrow> E e | Inr a \<Rightarrow> Q a"
  shows "yields E Q (ask call answer)"
  using assms by (simp add: yields_def ask_def)

lemma yields_if: "(b \<Longrightarrow> yields E Q m) \<Longrightarrow> (\<not> b \<Longrightarrow> yields E Q n) \<Longrightarrow> yields E Q (if b then m else n)"
  by simp

lemma yields_option:
  "yields E Q n \<Longrightarrow> (\<And>a. x = Some a \<Longrightarrow> yields E Q (f a)) \<Longrightarrow>
   yields E Q (case x of None \<Rightarrow> n | Some a \<Rightarrow> f a)"
  by (cases x) simp_all

lemma yields_prod: "(\<And>a b. yields E Q (f a b)) \<Longrightarrow> yields E Q (case p of (a, b) \<Rightarrow> f a b)"
  by (cases p) simp

lemma yields_let: "yields E Q (f a) \<Longrightarrow> yields E Q (let x = a in f x)"
  by simp

subsection \<open>Statements\<close>

text \<open>Exceptions that are not the application's own.\<close>

fun foreign_exn :: "exn \<Rightarrow> bool" where
  "foreign_exn (AppError a) = False"
| "foreign_exn e = True"

lemma yields_weaken: "yields E' Q m \<Longrightarrow> (\<And>e. E' e \<Longrightarrow> E e) \<Longrightarrow> yields E Q m"
  by (auto simp: yields_def split: sum.splits)

lemma foreign_statements:
  "throws_only foreign_exn (exec q)" "throws_only foreign_exn begin_tx" "throws_only foreign_exn commit_tx"
  "throws_only foreign_exn rollback_tx" "throws_only foreign_exn reset_tenant"
  "throws_only foreign_exn (set_config_local t)"
  by (auto simp: yields_def exec_def begin_tx_def commit_tx_def rollback_tx_def reset_tenant_def
      set_config_local_def split: tx_state.splits sum.splits)

subsection \<open>The error contract\<close>

text \<open>Status and code of every error of \<^verbatim>\<open>src/errors.ts\<close>, of the limiter and of the handlers.\<close>

definition ERROR_STATUS :: "(nat \<times> error_code) list" where
  "ERROR_STATUS =
     [(400, VALIDATION_FAILED), (401, UNAUTHORIZED), (403, FORBIDDEN), (403, NO_TENANT_CONTEXT),
      (404, RESOURCE_NOT_FOUND), (409, CONFLICT), (410, GONE), (402, PAYMENT_REQUIRED),
      (403, QUOTA_EXCEEDED), (502, BAD_GATEWAY), (429, RATE_LIMITED), (500, INTERNAL), (503, INTERNAL)]"

text \<open>The messages a client may see: all fixed, but for the plan named in a quota message.\<close>

fun public_message :: "error_code \<Rightarrow> string \<Rightarrow> bool" where
  "public_message VALIDATION_FAILED m \<longleftrightarrow> m \<in> {''Request validation failed'', ''Invalid cursor'',
     ''Reset token invalid or expired'', ''Unknown price_id'', ''Redirect URL origin not allowed''}"
| "public_message UNAUTHORIZED m \<longleftrightarrow> m \<in> {''Unauthorized'', ''Missing bearer token'',
     ''Invalid or expired token'', ''API keys not enabled'', ''Invalid API key'', ''Invalid credentials'',
     ''Invalid refresh token'', ''Refresh token expired'', ''Refresh token reuse detected''}"
| "public_message FORBIDDEN m \<longleftrightarrow> m \<in> {''Forbidden'', ''Organization is cancelled''}"
| "public_message NO_TENANT_CONTEXT m \<longleftrightarrow> m = ''No tenant context''"
| "public_message RESOURCE_NOT_FOUND m \<longleftrightarrow> m \<in> {''Route not found'', ''Project not found'',
     ''API key not found'', ''User not found'', ''Organization not found''}"
| "public_message CONFLICT m \<longleftrightarrow> m \<in> {''Email already registered'', ''Organization has no owner to bill'',
     ''Organization must retain an owner''}"
| "public_message GONE m \<longleftrightarrow> m = ''Invitation invalid or expired''"
| "public_message PAYMENT_REQUIRED m \<longleftrightarrow> m \<in> {''Writes are disabled while the subscription is past_due'',
     ''Writes are disabled while the subscription is canceled''}"
| "public_message QUOTA_EXCEEDED m \<longleftrightarrow> take 6 m = ''Plan '' @ [CHR 0x27]"
| "public_message RATE_LIMITED m \<longleftrightarrow> m = ''Too Many Requests''"
| "public_message BAD_GATEWAY m \<longleftrightarrow> m \<in> {''Failed to create billing customer'',
     ''Failed to start checkout session'', ''Failed to open billing portal'',
     ''Checkout session has no redirect URL'', ''Portal session has no redirect URL'',
     ''Failed to fetch subscription for webhook sync''}"
| "public_message INTERNAL m \<longleftrightarrow> m \<in> {''Internal server error'', ''Service temporarily unavailable''}"

definition public_error :: "nat \<Rightarrow> error_code \<Rightarrow> string \<Rightarrow> bool" where
  "public_error status code message \<longleftrightarrow> (status, code) \<in> set ERROR_STATUS \<and> public_message code message"

text \<open>An exception whose reply keeps the contract: the handler hides the text of foreign ones.\<close>

fun presentable :: "exn \<Rightarrow> bool" where
  "presentable (AppError a) = public_error (status_code a) (err_code a) (err_message a)"
| "presentable e = True"

lemma presentable_AppError [simp]:
  "presentable (AppError (app_error st c m)) \<longleftrightarrow> public_error st c m"
  by simp

lemma foreign_presentable: "foreign_exn e \<Longrightarrow> presentable e"
  by (cases e) simp_all

end
