(* ===== verification/ErrorContract.thy ===== *)
theory ErrorContract
  imports Outcomes
begin

text \<open>
  Every service, route and limiter throws presentable exceptions only, and every handler
  returns a success status: the error contract of \<^verbatim>\<open>src/errors.ts\<close>, from the statements up
  to whole requests of the application.
\<close>

subsection \<open>Services\<close>

abbreviation safe :: "('s, 'a) eff \<Rightarrow> bool" where
  "safe m \<equiv> throws_only presentable m"

lemma safe_statements:
  "safe (exec q)" "safe begin_tx" "safe commit_tx" "safe rollback_tx" "safe reset_tenant"
  "safe (set_config_local t)"
  by (rule yields_weaken [OF foreign_statements(1) foreign_presentable]
      yields_weaken [OF foreign_statements(2) foreign_presentable]
      yields_weaken [OF foreign_statements(3) foreign_presentable]
      yields_weaken [OF foreign_statements(4) foreign_presentable]
      yields_weaken [OF foreign_statements(5) foreign_presentable]
      yields_weaken [OF foreign_statements(6) foreign_presentable]; assumption)+

lemmas yields_steps = yields_ret yields_throw yields_bnd yields_andthen yields_finally_do
  throws_swallow yields_if yields_option yields_prod yields_let yields_on_pool safe_statements

text \<open>For the leaves: an error literal is looked up in the contract.\<close>

lemmas contract_simps = public_error_def ERROR_STATUS_def error_defs

lemma safe_rethrow: "yields presentable Q m \<Longrightarrow> (\<And>e. presentable e \<Longrightarrow> yields presentable Q (h e)) \<Longrightarrow>
    yields presentable Q (try_catch m h)"
  by (rule yields_try_catch)

lemma yields_require_role: "throws_only presentable (lift_sum (require_role r need))"
  by (rule throws_lift_sum) (auto simp: require_role_def contract_simps split: if_splits)

lemma safe_with_tenant_tx: "safe m \<Longrightarrow> safe (with_tenant_tx t m)"
  unfolding with_tenant_tx_def
  by (intro yields_steps safe_rethrow) simp_all

lemmas safe_steps = yields_steps safe_rethrow safe_with_tenant_tx yields_require_role

lemma safe_signup: "safe (signup x v i)"
  unfolding signup_def
  by (intro safe_steps) (simp_all add: contract_simps)

definition plain_ext :: "ext \<Rightarrow> bool" where
  "plain_ext x \<longleftrightarrow> (\<forall>h p e. argon2_verify x h p = Inl e \<longrightarrow> foreign_exn e)"

lemma safe_verify: "plain_ext x \<Longrightarrow> safe (lift_sum (verify_password x h p))"
  by (rule throws_lift_sum) (simp add: plain_ext_def verify_password_def foreign_presentable)

lemma safe_login: "plain_ext x \<Longrightarrow> safe (login x cfg v email pw)"
  unfolding login_def
  by (intro safe_steps safe_verify) (simp_all add: contract_simps)

lemma safe_rotate: "safe (rotate_refresh_token x cfg v overlap token)"
  unfolding rotate_refresh_token_def revoke_family_def rotate_within_family_def
  by (intro safe_steps) (simp_all add: contract_simps)

lemma safe_reset:
  "safe (request_password_reset x v ttl email)" "safe (confirm_password_reset x v token pw)"
  unfolding request_password_reset_def confirm_password_reset_def confirm_lookup_def confirm_redeem_def
    apply_reset_def
  by (intro safe_steps; simp add: contract_simps)+

lemma safe_team:
  "safe (create_invitation x v a email r ttl)" "safe (accept_invitation x v token pw)"
  "safe (change_role v a u r)"
  unfolding create_invitation_def invite_body_def accept_invitation_def accept_body_def change_role_def
    change_role_body_def
  by (intro safe_steps; simp add: contract_simps)+

lemma safe_cancel: "safe (cancel_tenant v a)"
  unfolding cancel_tenant_def cancel_body_def
  by (intro safe_steps)

lemma safe_api_keys:
  "safe (create_api_key x v a n)" "safe list_api_keys" "safe (revoke_api_key v a i)"
  "safe (authenticate_api_key x v key)"
  unfolding create_api_key_def list_api_keys_def revoke_api_key_def authenticate_api_key_def
  by (intro safe_steps; simp add: contract_simps)+

lemma safe_decode: "decode_cursor cod c = Inl e \<Longrightarrow> presentable e"
  by (auto simp: decode_cursor_def contract_simps split: option.splits if_splits)

lemma safe_projects:
  "safe (create_project v a n d)" "safe (get_project i)" "safe (update_project v a i p)"
  "safe (delete_project v a i)"
  unfolding create_project_def get_project_def update_project_def delete_project_def audit_def
  by (intro safe_steps; simp add: contract_simps)+

lemma safe_list: "safe (list_projects cod c l)"
  unfolding list_projects_def
  by (intro safe_steps throws_lift_sum)
    (auto intro: safe_decode split: option.splits if_splits sum.splits)

lemma safe_select_all: "safe (select_all t)"
  unfolding select_all_def by (intro safe_steps) simp_all

lemma safe_export_tables: "safe (export_tables ts)"
  by (induction ts) (auto intro!: safe_steps safe_select_all)

lemma safe_export: "safe (build_tenant_export v)"
  unfolding build_tenant_export_def by (intro safe_steps safe_export_tables) simp

lemma safe_enforcement:
  "safe (get_billing_state t)" "safe (assert_project_quota plan)"
  "safe (lift_sum (assert_write_allowed st))"
  unfolding get_billing_state_def assert_project_quota_def
    apply (intro safe_steps; simp)
   apply (cases "plan_quota plan"; simp)
     apply (intro safe_steps; simp add: contract_simps quota_message_def)+
  apply (rule throws_lift_sum)
  apply (auto simp: assert_write_allowed_def contract_simps split: if_splits)
  done

subsection \<open>Stripe\<close>

text \<open>
  The SDK throws errors of its own, never an \<open>AppError\<close>; the billing services wrap them.
\<close>

definition plain_gateway :: "gateway \<Rightarrow> bool" where
  "plain_gateway gw \<longleftrightarrow>
     (\<forall>calls em t e. gw_create_customer gw calls em t = Inl e \<longrightarrow> foreign_exn e) \<and>
     (\<forall>calls c p u1 u2 t e. gw_create_checkout_session gw calls c p u1 u2 t = Inl e \<longrightarrow> foreign_exn e) \<and>
     (\<forall>calls c u e. gw_create_portal_session gw calls c u = Inl e \<longrightarrow> foreign_exn e) \<and>
     (\<forall>calls i e. gw_get_subscription gw calls i = Inl e \<longrightarrow> foreign_exn e)"

lemma wrap_foreign: "foreign_exn e \<Longrightarrow> wrap_stripe_error e m = AppError (bad_gateway m)"
  by (cases e) (simp_all add: wrap_stripe_error_def)

lemma safe_wrapped:
  assumes "\<And>calls e. answer calls = Inl e \<Longrightarrow> foreign_exn e" and "public_message BAD_GATEWAY m"
  shows "safe (wrapped m (ask call answer))"
  unfolding wrapped_def
  using assms
  by (intro yields_try_catch [of foreign_exn] yields_ask yields_throw)
    (auto simp: wrap_foreign contract_simps split: sum.splits)

lemma safe_ensure_customer: "plain_gateway gw \<Longrightarrow> safe (ensure_customer gw t)"
  unfolding ensure_customer_def ensure_body_def set_customer_def
  by (intro safe_steps safe_wrapped) (auto simp: contract_simps plain_gateway_def)

lemma safe_billing:
  assumes "plain_gateway gw"
  shows "safe (start_checkout gw i)" "safe (open_portal gw t u)"
  unfolding start_checkout_def open_portal_def
  using assms
  by (intro safe_steps safe_wrapped safe_ensure_customer; simp add: contract_simps plain_gateway_def)+

lemma safe_ledger: "safe (record_only v i)" "safe (ledger_insert v i)"
  unfolding record_only_def ledger_insert_def
  by (intro safe_steps; simp)+

lemma safe_webhook: "plain_gateway gw \<Longrightarrow> safe (process_webhook_event gw v ev)"
  unfolding process_webhook_event_def webhook_fetch_def webhook_sync_def sync_org_def
  by (intro safe_steps safe_wrapped safe_ledger) (auto simp: plain_gateway_def)

subsection \<open>Authentication and limiters\<close>

lemma safe_authenticate: "safe (authenticate x cfg v keys h)"
proof -
  have "safe (authenticate_bearer x cfg v a)" for a
    unfolding authenticate_bearer_def
    by (intro safe_steps; simp add: contract_simps split: sum.split)
      (auto intro!: yields_steps simp: contract_simps split: sum.split)
  then show ?thesis
    unfolding authenticate_def
    by (intro safe_steps safe_api_keys; simp add: contract_simps)
qed

lemma consume_no_config:
  assumes "ls_up s"
  shows "fst (consume ck key None q s) = Inl script_error"
proof -
  have loaded: "fst (consume ck key None q t) = Inl script_error"
    if "ls_up t" "ls_script t \<or> \<not> ls_sha t" for t
    using that by (subst consume.simps, cases t)
      (auto simp: ensure_loaded_def evalsha_def script_error_def noscript_error_def)
  show ?thesis
  proof (cases "ls_script s \<or> \<not> ls_sha s")
    case True
    then show ?thesis by (rule loaded [OF assms])
  next
    case False
    then have "consume ck key None q s = consume ck key None q (s\<lparr>ls_sha := False\<rparr>)"
      using assms by (subst consume.simps) (simp add: ensure_loaded_def evalsha_def)
    then show ?thesis using loaded [of "s\<lparr>ls_sha := False\<rparr>"] assms by simp
  qed
qed

lemma consume_foreign: "throws_only foreign_exn (consume ck key cfg q)"
proof -
  have "case fst (consume ck key cfg q s) of Inl e \<Rightarrow> foreign_exn e | Inr a \<Rightarrow> True" for s
    by (cases "ls_up s"; cases cfg)
      (simp_all add: consume_up consume_down consume_no_config connection_error_def script_error_def)
  then show ?thesis by (simp add: yields_def)
qed

lemma safe_fail_policy: "presentable e \<Longrightarrow> yields presentable (\<lambda>_. True) (fail_policy b e)"
  unfolding fail_policy_def
  by (cases e; simp) (auto intro!: yields_steps simp: unavailable_def contract_simps)

lemma safe_spend: "safe (spend ck key cfg)"
  unfolding spend_def
  by (intro yields_steps yields_weaken [OF consume_foreign foreign_presentable])
    (simp_all add: too_many_def contract_simps)

lemma safe_ip_rate_limit: "safe (ip_rate_limit ck c ip)"
  unfolding ip_rate_limit_def
  by (intro safe_rethrow safe_spend safe_fail_policy)

lemma safe_tenant_rate_limit:
  "(\<And>e. plan = Inl e \<Longrightarrow> presentable e) \<Longrightarrow> safe (tenant_rate_limit ck is_read t plan)"
  unfolding tenant_rate_limit_def
  by (intro safe_rethrow yields_bnd throws_lift_sum safe_spend safe_fail_policy)

lemma safe_limit_gate: "safe (limit_gate ck is_read l a)"
proof -
  have plan: "safe (plan_of t)" for t
    unfolding plan_of_def by (intro safe_steps) simp
  have "case fst (limit_gate ck is_read l a s) of Inl e \<Rightarrow> presentable e | Inr u \<Rightarrow> True" for s
  proof -
    obtain r s' where p: "plan_of (actor_tenant_id a) s = (r, s')" by fastforce
    have r: "presentable e" if "r = Inl e" for e using yieldsD_Inl [OF plan] p that by blast
    have "safe (tenant_rate_limit ck is_read (actor_tenant_id a) r)"
      by (rule safe_tenant_rate_limit [OF r])
    then show ?thesis
      using p by (auto simp: limit_gate_def verdict_def yields_def split: sum.splits)
  qed
  then show ?thesis by (simp add: yields_def)
qed

subsection \<open>Routes\<close>

text \<open>A handler returns a status below 400 with its payload.\<close>

abbreviation good_status :: "nat \<times> 'a \<Rightarrow> bool" where
  "good_status p \<equiv> fst p < 400"

lemma safe_enforce_write: "safe (enforce_write owner a)"
  unfolding enforce_write_def by (intro safe_steps safe_enforcement) simp

lemmas safe_services = safe_signup safe_rotate safe_reset safe_team safe_cancel safe_api_keys
  safe_projects safe_list safe_export safe_enforcement safe_enforce_write safe_authenticate

lemma route_handler_contract: "yields presentable good_status (route_handler x cod owner v call a)"
  by (cases call; simp add: route_defs require_admin_def)
    (intro safe_steps safe_services; simp)+

lemma yields_with_auth: "(\<And>a. yields presentable Q (f a)) \<Longrightarrow> yields presentable Q (with_auth auth f)"
  unfolding with_auth_def by (intro safe_steps) (simp_all add: contract_simps)

lemma owner_handler_contract:
  assumes "plain_ext x" and "plain_gateway gw"
  shows "yields presentable good_status (owner_handler x cfg gw w bc v call auth)"
  using assms
  by (cases call; simp; (intro yields_with_auth)?; simp add: owner_route_defs)
    (intro safe_steps safe_services safe_login safe_billing; simp add: contract_simps)+

lemma safe_open: "safe (with_tenant_open a)"
  unfolding with_tenant_open_def by (intro safe_steps) (simp_all add: contract_simps)

lemma route_actor_contract: "safe (route_actor x cfg v h call)"
  unfolding route_actor_def by (intro safe_steps safe_authenticate) simp_all

subsection \<open>Replies\<close>

text \<open>\<open>rid\<close> is the id of the request.\<close>

definition contract_reply :: "string \<Rightarrow> 'a reply \<Rightarrow> bool" where
  "contract_reply rid r \<longleftrightarrow>
     (case snd r of
        Inl env \<Rightarrow> env_request_id env = rid \<and> public_error (fst r) (env_code env) (env_message env)
      | Inr _ \<Rightarrow> fst r < 400)"

lemma contract_reply_ok [simp]: "contract_reply rid (st, Inr out) \<longleftrightarrow> st < 400"
  by (simp add: contract_reply_def)

lemma error_reply_contract:
  "presentable e \<Longrightarrow> contract_reply rid (error_reply rid (ThrownExn e))"
  "contract_reply rid (error_reply rid ThrownValidation)"
  by (cases e) (auto simp: contract_reply_def error_reply_def error_handler_def to_envelope_def contract_simps)

lemma tenant_request_contract:
  assumes "safe auth" and "\<And>a. safe (limit a)" and "\<And>a. yields presentable good_status (handler a)"
  shows "contract_reply rid (fst (tenant_request rid cf owner valid auth limit handler s))"
proof -
  let ?pre = "bnd (on_pool owner auth) (\<lambda>a. andthen (on_pool owner (limit a)) (andthen (with_tenant_open (Some a)) (ret a)))"
  have pre: "safe ?pre" by (intro safe_steps safe_open assms) simp
  obtain r1 s1 where p: "?pre s = (r1, s1)" by fastforce
  show ?thesis
  proof (cases r1)
    case (Inl e)
    then show ?thesis
      using p yieldsD_Inl [OF pre] by (simp add: tenant_request_def error_reply_contract)
  next
    case (Inr a)
    obtain r2 s2 where h: "handler a s1 = (r2, s2)" by fastforce
    show ?thesis
    proof (cases r2)
      case (Inl e)
      then show ?thesis
        using p Inr h yieldsD_Inl [OF assms(3) h [unfolded Inl]]
        by (simp add: tenant_request_def error_reply_contract)
    next
      case inr: (Inr out)
      then show ?thesis
        using p Inr h yieldsD_Inr [OF assms(3) h [unfolded inr]]
        by (cases out) (simp add: tenant_request_def error_reply_contract)
    qed
  qed
qed

lemma owner_request_contract:
  assumes "safe pre" and "safe auth" and "\<And>a. yields presentable good_status (handler a)"
  shows "contract_reply rid (fst (owner_request rid valid pre auth handler s))"
proof -
  have m: "yields presentable good_status (andthen pre (bnd auth handler))"
    by (intro yields_andthen yields_bnd assms)
  obtain r1 s1 where p: "andthen pre (bnd auth handler) s = (r1, s1)" by fastforce
  show ?thesis
  proof (cases r1)
    case (Inl e)
    then show ?thesis
      using p yieldsD_Inl [OF m p [unfolded Inl]] by (simp add: owner_request_def error_reply_contract)
  next
    case (Inr out)
    then show ?thesis
      using p yieldsD_Inr [OF m p [unfolded Inr]]
      by (cases out) (simp add: owner_request_def error_reply_contract)
  qed
qed

text \<open>The webhook route answers a refused event with a body of its own.\<close>

lemma webhook_request_contract:
  assumes "plain_gateway gw"
  shows "contract_reply rid (fst (webhook_request gw v rid sg body s)) \<or>
    (\<exists>m. fst (webhook_request gw v rid sg body s) = (400, Inr (Inl m)))"
proof (cases sg)
  case (Some g)
  show ?thesis
  proof (cases "gw_construct_event gw body g")
    case (Inr ev)
    obtain r1 s1 where p: "process_webhook_event gw v ev s = (r1, s1)" by fastforce
    show ?thesis
    proof (cases r1)
      case (Inl e)
      then show ?thesis
        using Some Inr p yieldsD_Inl [OF safe_webhook [OF assms] p [unfolded Inl]]
        by (simp add: webhook_request_def error_reply_contract)
    next
      case inr: (Inr out)
      then show ?thesis using Some Inr p by (simp add: webhook_request_def)
    qed
  qed (simp add: webhook_request_def Some)
qed (simp add: webhook_request_def)

subsection \<open>The application\<close>

lemma contract_map_reply: "contract_reply rid (fst (map_reply f p)) \<longleftrightarrow> contract_reply rid (fst p)"
proof -
  obtain st r z where p: "p = ((st, r), z)" by (metis prod.exhaust)
  show ?thesis unfolding p by (cases r) (simp_all add: map_reply_def contract_reply_def)
qed

lemma fst_case_pair: "fst (case p of (a, b) \<Rightarrow> (a, f a b)) = fst p"
  by (cases p) simp

lemma tenant_route_contract: "contract_reply (ri_request_id r) (fst (tenant_route dp r call z))"
proof -
  have "contract_reply (ri_request_id r) (fst (tenant_request (ri_request_id r) (ri_commit_fails r) (ap_owner z)
      (valid_call call) (tenant_auth dp r)
      (if b then limit_gate (ri_clocks r) (is_read_call call) (ap_limiter z) else (\<lambda>_. ret ()))
      (route_handler (d_ext dp) (d_codec dp) (ap_owner z) (ri_env r) call) s))" for b s
    by (rule tenant_request_contract)
      (simp_all add: tenant_auth_def safe_authenticate safe_limit_gate yields_ret route_handler_contract)
  then show ?thesis by (simp only: tenant_route_def Let_def fst_case_pair)
qed

lemma owner_route_contract:
  assumes "plain_ext (d_ext dp)" and "plain_gateway (d_gateway dp)"
  shows "contract_reply (ri_request_id r) (fst (owner_route dp r call z))"
proof -
  have gate: "safe (lift_sum (verdict (fst (ip_rate_limit ck c ip l))))" for ck c ip l
  proof (rule throws_lift_sum)
    fix e
    obtain q l' where i: "ip_rate_limit ck c ip l = (q, l')" by fastforce
    assume "verdict (fst (ip_rate_limit ck c ip l)) = Inl e"
    then have q: "q = Inl e" using i by (simp add: verdict_def split: sum.splits)
    show "presentable e" by (rule yieldsD_Inl [OF safe_ip_rate_limit i [unfolded q]])
  qed
  have none: "safe (lift_sum (verdict (Inr None)))"
    by (intro throws_lift_sum) (simp add: verdict_def)
  have "contract_reply (ri_request_id r) (fst (owner_request (ri_request_id r)
      (valid_owner_call (d_wire dp) call)
      (lift_sum (verdict (fst (case ip_class call of
             None \<Rightarrow> (Inr None, ap_limiter z)
           | Some c \<Rightarrow> if d_limiter dp \<and> valid_owner_call (d_wire dp) call
               then ip_rate_limit (ri_clocks r) c (ri_ip r) (ap_limiter z) else (Inr None, ap_limiter z)))))
      (route_actor (d_ext dp) (d_tokens dp) (ri_env r) (ri_headers r) call)
      (owner_handler (d_ext dp) (d_tokens dp) (d_gateway dp) (d_wire dp) (d_billing dp) (ri_env r) call) s))" for s
    by (rule owner_request_contract)
      (auto simp: gate none route_actor_contract owner_handler_contract assms split: option.splits)
  then show ?thesis by (simp only: owner_route_def Let_def fst_case_pair)
qed

lemma error_contract_step:
  assumes "plain_ext (d_ext dp)" and "plain_gateway (d_gateway dp)"
    and "app_step dp r req z = (rep, z')"
  shows "case snd rep of
      Inl env \<Rightarrow> env_request_id env = ri_request_id r
        \<and> (fst rep, env_code env) \<in> set ERROR_STATUS \<and> public_message (env_code env) (env_message env)
    | Inr body \<Rightarrow> fst rep < 400 \<or> (\<exists>m. rep = (400, Inr (BWebhook (Inl m))))"
proof -
  have nf: "contract_reply (ri_request_id r) (not_found_reply r)"
    by (simp add: not_found_reply_def not_found_handler_def to_envelope_def contract_reply_def contract_simps)
  have "contract_reply (ri_request_id r) rep \<or> (\<exists>m. rep = (400, Inr (BWebhook (Inl m))))"
  proof (cases req)
    case (TenantRequest call)
    then show ?thesis
      using assms(3) contract_map_reply tenant_route_contract by (metis app_step.simps(1) fst_conv)
  next
    case (OwnerRequest call)
    show ?thesis
    proof (cases "is_billing_call call \<and> \<not> d_stripe dp")
      case True
      then show ?thesis using OwnerRequest assms(3) nf by auto
    next
      case False
      then have "rep = fst (map_reply BOwner (owner_route dp r call z))"
        using OwnerRequest assms(3) by (auto simp: fst_def)
      then show ?thesis
        using contract_map_reply owner_route_contract [OF assms(1,2)] by metis
    qed
  next
    case (WebhookRequest sg body)
    show ?thesis
    proof (cases "d_stripe dp")
      case True
      then have rep: "rep = fst (map_reply BWebhook (webhook_route dp r sg body z))"
        using WebhookRequest assms(3) by (auto simp: fst_def)
      have w: "contract_reply (ri_request_id r) (fst (webhook_route dp r sg body z)) \<or>
          (\<exists>m. fst (webhook_route dp r sg body z) = (400, Inr (Inl m)))"
        using webhook_request_contract [OF assms(2)]
        by (simp only: webhook_route_def fst_case_pair)
      then show ?thesis
      proof
        assume "contract_reply (ri_request_id r) (fst (webhook_route dp r sg body z))"
        then show ?thesis using rep contract_map_reply by metis
      next
        assume "\<exists>m. fst (webhook_route dp r sg body z) = (400, Inr (Inl m))"
        then show ?thesis using rep by (auto simp: map_reply_def split: prod.splits)
      qed
    next
      case False
      then show ?thesis using WebhookRequest assms(3) nf by auto
    qed
  qed (use assms(3) nf in auto)
  then show ?thesis by (auto simp: contract_reply_def public_error_def split: sum.splits)
qed

text \<open>The one error without an envelope: the refusal of an unsigned delivery.\<close>

definition unsigned_refusal :: "gateway \<Rightarrow> string option \<Rightarrow> string \<Rightarrow> string \<Rightarrow> bool" where
  "unsigned_refusal gw sg bytes m \<longleftrightarrow>
     (case sg of
        None \<Rightarrow> m = ''Missing signature''
      | Some g \<Rightarrow> m = ''Invalid signature'' \<and> isl (gw_construct_event gw bytes g))"

lemma map_reply_Inr: "map_reply f p = ((st, Inr b), z) \<Longrightarrow> \<exists>a. b = f a \<and> p = ((st, Inr a), z)"
  by (auto simp: map_reply_def split: prod.splits sum.splits)

lemma webhook_refusal_step:
  assumes "app_step dp r req z = ((400, Inr (BWebhook (Inl m))), z')"
  shows "z' = z \<and> (\<exists>sg bytes. req = WebhookRequest sg bytes \<and> d_stripe dp \<and>
    unsigned_refusal (d_gateway dp) sg bytes m)"
proof (cases req)
  case (WebhookRequest sg body)
  then have s: "d_stripe dp" using assms by (cases "d_stripe dp") (auto simp: not_found_reply_def not_found_handler_def)
  then have "webhook_route dp r sg body z = ((400, Inr (Inl m)), z')"
    using assms WebhookRequest map_reply_Inr by fastforce
  then have "z' = z \<and> unsigned_refusal (d_gateway dp) sg body m"
    by (auto simp: webhook_route_def webhook_request_def unsigned_refusal_def error_reply_def
        split: option.splits sum.splits prod.splits)
  then show ?thesis using WebhookRequest s by blast
next
  case (TenantRequest call)
  then show ?thesis using assms map_reply_Inr by fastforce
next
  case (OwnerRequest call)
  then show ?thesis using assms map_reply_Inr
    by (auto simp: not_found_reply_def not_found_handler_def split: if_splits dest!: map_reply_Inr)
qed (use assms in \<open>auto simp: not_found_reply_def not_found_handler_def split: if_splits prod.splits\<close>)

end
