(* ===== verification/Http.thy ===== *)
theory Http
  imports ErrorContract AppProperties
begin

text \<open>
  The HTTP side of \<^verbatim>\<open>buildApp\<close> in \<^verbatim>\<open>src/app.ts\<close>: the id of a request, the client address the
  limiters see, the headers the two \<^verbatim>\<open>onRequest\<close> hooks set, and the preflight answer, which
  ends a request before any route runs.
\<close>

subsection \<open>Requests\<close>

text \<open>
  \<open>hh_forwarded\<close> holds the addresses of \<^verbatim>\<open>X-Forwarded-For\<close> from left to right, each proxy
  having appended the address it saw; \<open>hh_peer\<close> is the address of the socket.
\<close>

record http_head =
  hh_method :: string
  hh_request_id :: "string option"
  hh_forwarded :: "string list"
  hh_peer :: string

text \<open>\<open>fresh\<close> is the \<^verbatim>\<open>randomUUID()\<close> of \<^verbatim>\<open>genReqId\<close>. An empty header is kept: \<^verbatim>\<open>??\<close> tests for absence.\<close>

definition gen_req_id :: "uuid \<Rightarrow> http_head \<Rightarrow> string" where
  "gen_req_id fresh h = (case hh_request_id h of Some i \<Rightarrow> i | None \<Rightarrow> uuid_out fresh)"

text \<open>\<^verbatim>\<open>req.ip\<close> under \<^verbatim>\<open>trustProxy: true\<close>: every hop is trusted, so the leftmost address counts.\<close>

definition client_ip :: "http_head \<Rightarrow> string" where
  "client_ip h = (case hh_forwarded h of [] \<Rightarrow> hh_peer h | a # as \<Rightarrow> a)"

definition under_head :: "uuid \<Rightarrow> http_head \<Rightarrow> request_input \<Rightarrow> request_input" where
  "under_head fresh h r = r\<lparr>ri_request_id := gen_req_id fresh h, ri_ip := client_ip h\<rparr>"

subsection \<open>Hooks\<close>

definition cors_headers :: "string option \<Rightarrow> (string \<times> string) list" where
  "cors_headers origin =
     [(''access-control-allow-origin'', case origin of Some u \<Rightarrow> u | None \<Rightarrow> ''*''),
      (''access-control-allow-methods'', ''GET,POST,PATCH,DELETE,OPTIONS''),
      (''access-control-allow-headers'', ''authorization,content-type,x-request-id''),
      (''access-control-expose-headers'',
       ''x-request-id,x-ratelimit-limit,x-ratelimit-remaining,x-ratelimit-reset,retry-after'')]"

record http_reply =
  hp_status :: nat
  hp_headers :: "(string \<times> string) list"
  hp_body :: "(error_envelope + app_body) option"

definition http_step ::
  "deps \<Rightarrow> string option \<Rightarrow> uuid \<Rightarrow> http_head \<Rightarrow> request_input \<Rightarrow> app_request \<Rightarrow> app_state \<Rightarrow>
   http_reply \<times> app_state" where
  "http_step dp origin fresh h r req z =
     (let headers = (''x-request-id'', gen_req_id fresh h) # cors_headers origin in
      if hh_method h = ''OPTIONS'' then
        (\<lparr>hp_status = 204, hp_headers = headers @ [(''access-control-max-age'', ''600'')], hp_body = None\<rparr>, z)
      else
        (case app_step dp (under_head fresh h r) req z of
           ((status, body), z') \<Rightarrow> (\<lparr>hp_status = status, hp_headers = headers, hp_body = Some body\<rparr>, z')))"

text \<open>A sequence of requests: the replies and the state they leave.\<close>

type_synonym http_request = "uuid \<times> http_head \<times> request_input \<times> app_request"

fun http_run :: "deps \<Rightarrow> string option \<Rightarrow> http_request list \<Rightarrow> app_state \<Rightarrow> http_reply list \<times> app_state" where
  "http_run dp origin [] z = ([], z)"
| "http_run dp origin ((fresh, h, r, req) # qs) z =
     (case http_step dp origin fresh h r req z of
        (rep, z') \<Rightarrow> (case http_run dp origin qs z' of (reps, z'') \<Rightarrow> (rep # reps, z'')))"

lemma under_head_sel [simp]:
  "ri_request_id (under_head fresh h r) = gen_req_id fresh h" "ri_ip (under_head fresh h r) = client_ip h"
  "ri_env (under_head fresh h r) = ri_env r" "ri_clocks (under_head fresh h r) = ri_clocks r"
  "ri_headers (under_head fresh h r) = ri_headers r"
  by (simp_all add: under_head_def)

subsection \<open>The error contract over HTTP\<close>

text \<open>
  C12: Every reply carries the request's id, taken from the client or generated, in its header;
  an OPTIONS request is answered 204 and changes nothing. Whatever goes wrong below (database
  errors, Redis or Stripe failures), every error but one is an envelope with the same id, a
  status that belongs to its code and one of the public messages. The exception is the 400 of
  the webhook route: its body is a plain message without envelope and id, against the comment of
  errors.ts; it is sent for a delivery whose signature is missing or invalid only, and that
  delivery changes nothing. Every other reply without an envelope has a status below 400.
\<close>
theorem replies_correlated:
  assumes "plain_ext (d_ext dp)" and "plain_gateway (d_gateway dp)"
  shows "case http_step dp origin fresh h r req z of (rep, z') \<Rightarrow>
    map_of (hp_headers rep) ''x-request-id'' = Some (case hh_request_id h of Some i \<Rightarrow> i | None \<Rightarrow> uuid_out fresh)
    \<and> (hh_method h = ''OPTIONS'' \<longrightarrow> hp_status rep = 204 \<and> z' = z)
    \<and> (case hp_body rep of
         None \<Rightarrow> hp_status rep = 204
       | Some (Inl env) \<Rightarrow>
           env_request_id env = (case hh_request_id h of Some i \<Rightarrow> i | None \<Rightarrow> uuid_out fresh)
           \<and> (hp_status rep, env_code env) \<in> set ERROR_STATUS \<and> public_message (env_code env) (env_message env)
       | Some (Inr body) \<Rightarrow> hp_status rep < 400 \<or>
           hp_status rep = 400 \<and> z' = z \<and> (\<exists>m sg bytes. body = BWebhook (Inl m) \<and>
             req = WebhookRequest sg bytes \<and> d_stripe dp \<and> unsigned_refusal (d_gateway dp) sg bytes m))"
proof (cases "hh_method h = ''OPTIONS''")
  case True
  then show ?thesis by (simp add: http_step_def Let_def gen_req_id_def cors_headers_def)
next
  case False
  obtain st b z' where a: "app_step dp (under_head fresh h r) req z = ((st, b), z')" by (metis prod.exhaust)
  show ?thesis
    using False a error_contract_step [OF assms a]
    by (auto simp: http_step_def Let_def gen_req_id_def cors_headers_def split: sum.splits
        dest: webhook_refusal_step)
qed

definition sample_head :: "string list \<Rightarrow> http_head" where
  "sample_head forwarded =
     \<lparr>hh_method = ''POST'', hh_request_id = Some ''r-1'', hh_forwarded = forwarded, hh_peer = ''10.0.0.1''\<rparr>"

lemma replies_correlated_witness:
  "map_of (hp_headers (fst (http_step sample_deps None 7 (sample_head []) (sample_input 0)
     (OwnerRequest (PostLogin ''a@b'' ''password'')) sample_start))) ''x-request-id'' = Some ''r-1''"
  using replies_correlated [where dp = sample_deps and origin = None and fresh = 7 and h = "sample_head []"
      and r = "sample_input 0" and req = "OwnerRequest (PostLogin ''a@b'' ''password'')" and z = sample_start]
  by (simp add: plain_ext_def plain_gateway_def sample_deps_def sample_ext_def sample_head_def split: prod.splits)

subsection \<open>The address the limiters see\<close>

definition ip_key :: "string \<Rightarrow> route_class \<Rightarrow> string" where
  "ip_key ip c = ''ratelimit:ip:'' @ ip @ '':'' @ route_class_text c"

text \<open>A fresh bucket admits.\<close>

lemma fresh_ip_admitted:
  assumes "ls_up l" and "ls_store l (ip_key ip c) = None"
  shows "verdict (fst (ip_rate_limit ck c ip l)) = Inr ()"
    "ls_up (snd (ip_rate_limit ck c ip l))"
    "k \<noteq> ip_key ip c \<Longrightarrow> ls_store (snd (ip_rate_limit ck c ip l)) k = ls_store l k"
  using assms
  by (cases c; simp add: ip_rate_limit_def spend_def try_catch_def bnd_def consume_up ip_key_def answered_def
      live_bucket_def token_bucket_def Let_def refilled_def limit_result_of_def ret_def verdict_def
      split: prod.splits)+

text \<open>The same application without its limiter.\<close>

abbreviation unlimited :: "deps \<Rightarrow> deps" where
  "unlimited dp \<equiv> dp\<lparr>d_limiter := False\<rparr>"

lemma owner_route_frame:
  "owner_route (unlimited dp) r call (z\<lparr>ap_limiter := l\<rparr>) =
   (case owner_route (unlimited dp) r call z of (rep, z') \<Rightarrow> (rep, z'\<lparr>ap_limiter := l\<rparr>))"
  by (cases "ip_class call") (simp_all add: owner_route_def Let_def split: prod.splits)

lemma owner_route_admitted:
  assumes "ls_up (ap_limiter z)" and "ip_class call = Some c"
    and "ls_store (ap_limiter z) (ip_key (ri_ip r) c) = None"
  shows "\<exists>l. owner_route dp r call z =
      (case owner_route (unlimited dp) r call z of (rep, z') \<Rightarrow> (rep, z'\<lparr>ap_limiter := l\<rparr>))
    \<and> ls_up l \<and> (\<forall>k. k \<noteq> ip_key (ri_ip r) c \<longrightarrow> ls_store l k = ls_store (ap_limiter z) k)"
proof (cases "d_limiter dp \<and> valid_owner_call (d_wire dp) call")
  case True
  let ?l = "snd (ip_rate_limit (ri_clocks r) c (ri_ip r) (ap_limiter z))"
  have "owner_route dp r call z =
      (case owner_route (unlimited dp) r call z of (rep, z') \<Rightarrow> (rep, z'\<lparr>ap_limiter := ?l\<rparr>))"
    using True assms(2) fresh_ip_admitted(1) [OF assms(1,3)]
    by (simp add: owner_route_def Let_def verdict_def split: prod.splits sum.splits)
  then show ?thesis using fresh_ip_admitted(2,3) [OF assms(1,3)] by blast
next
  case False
  then have "owner_route dp r call z =
      (case owner_route (unlimited dp) r call z of (rep, z') \<Rightarrow> (rep, z'\<lparr>ap_limiter := ap_limiter z\<rparr>))"
    using assms(2) by (auto simp: owner_route_def Let_def split: prod.splits)
  then show ?thesis using assms(1) by blast
qed

text \<open>
  A login through a proxy that appends the address it sees (\<open>seen\<close>) to whatever
  \<^verbatim>\<open>X-Forwarded-For\<close> the client sent (\<open>claimed\<close>).
\<close>

record login_attempt =
  la_claimed :: string
  la_fresh :: uuid
  la_input :: request_input
  la_email :: string
  la_password :: string

definition proxied_login :: "string \<Rightarrow> login_attempt \<Rightarrow> http_request" where
  "proxied_login seen a =
     (la_fresh a,
      \<lparr>hh_method = ''POST'', hh_request_id = None, hh_forwarded = [la_claimed a, seen], hh_peer = ''10.0.0.1''\<rparr>,
      la_input a, OwnerRequest (PostLogin (la_email a) (la_password a)))"

abbreviation login_route :: "deps \<Rightarrow> login_attempt \<Rightarrow> app_state \<Rightarrow> owner_payload reply \<times> app_state" where
  "login_route dp a \<equiv> owner_route dp ((la_input a)\<lparr>ri_request_id := uuid_out (la_fresh a), ri_ip := la_claimed a\<rparr>)
     (PostLogin (la_email a) (la_password a))"

definition login_reply :: "string option \<Rightarrow> login_attempt \<Rightarrow> owner_payload reply \<Rightarrow> http_reply" where
  "login_reply origin a rep =
     \<lparr>hp_status = fst rep, hp_headers = (''x-request-id'', uuid_out (la_fresh a)) # cors_headers origin,
      hp_body = Some (case snd rep of Inl e \<Rightarrow> Inl e | Inr b \<Rightarrow> Inr (BOwner b))\<rparr>"

lemma proxied_run:
  "fst (http_run dp origin (proxied_login seen a # qs) z) =
   login_reply origin a (fst (login_route dp a z)) # fst (http_run dp origin qs (snd (login_route dp a z)))"
  by (simp add: proxied_login_def http_step_def Let_def under_head_def gen_req_id_def client_ip_def
      map_reply_def login_reply_def case_prod_beta split: sum.splits)

lemma proxied_logins_frame:
  "fst (http_run (unlimited dp) origin (map (proxied_login seen) as) (z\<lparr>ap_limiter := l\<rparr>)) =
   fst (http_run (unlimited dp) origin (map (proxied_login seen) as) z)"
  by (induction as arbitrary: z) (simp_all add: proxied_run owner_route_frame split_beta del: http_run.simps(2))

text \<open>
  The limiters of the credential routes can be switched off from outside. With
  \<^verbatim>\<open>trustProxy: true\<close> the address they count by is the leftmost of \<^verbatim>\<open>X-Forwarded-For\<close>, which the
  client wrote itself: a client that claims a new address with every login gets exactly the
  replies of an application without limiters, however many attempts it makes, and although the
  proxy reports the same address each time.
\<close>
theorem forwarded_header_defeats_ip_limits:
  assumes "ls_up (ap_limiter z)" and "distinct (map la_claimed as)"
    and "\<And>a. a \<in> set as \<Longrightarrow> ls_store (ap_limiter z) (''ratelimit:ip:'' @ la_claimed a @ '':credential'') = None"
  shows "fst (http_run dp origin (map (proxied_login seen) as) z) =
    fst (http_run (dp\<lparr>d_limiter := False\<rparr>) origin (map (proxied_login seen) as) z)"
  using assms
proof (induction as arbitrary: z)
  case (Cons a as)
  let ?r = "(la_input a)\<lparr>ri_request_id := uuid_out (la_fresh a), ri_ip := la_claimed a\<rparr>"
  let ?call = "PostLogin (la_email a) (la_password a)"
  obtain rep z' where o1: "owner_route (unlimited dp) ?r ?call z = (rep, z')" by fastforce
  obtain l where o2: "owner_route dp ?r ?call z = (rep, z'\<lparr>ap_limiter := l\<rparr>)" and up: "ls_up l"
    and rest: "\<And>k. k \<noteq> ip_key (la_claimed a) Credential \<Longrightarrow> ls_store l k = ls_store (ap_limiter z) k"
    using owner_route_admitted [of z ?call Credential ?r dp] Cons.prems o1 by (auto simp: ip_key_def)
  have "fst (http_run dp origin (map (proxied_login seen) as) (z'\<lparr>ap_limiter := l\<rparr>)) =
      fst (http_run (unlimited dp) origin (map (proxied_login seen) as) (z'\<lparr>ap_limiter := l\<rparr>))"
  proof (rule Cons.IH)
    fix b assume b: "b \<in> set as"
    then have "ip_key (la_claimed b) Credential \<noteq> ip_key (la_claimed a) Credential"
      using Cons.prems(2) by (simp add: ip_key_def) (metis image_eqI)
    then show "ls_store (ap_limiter (z'\<lparr>ap_limiter := l\<rparr>)) (''ratelimit:ip:'' @ la_claimed b @ '':credential'') = None"
      using rest Cons.prems(3) [of b] b by (simp add: ip_key_def)
  qed (use up Cons.prems in auto)
  then show ?case
    using o1 o2 proxied_logins_frame [where dp = dp and origin = origin and seen = seen and as = as and z = z' and l = l]
    by (simp add: proxied_run del: http_run.simps(2))
qed simp

text \<open>A thousand logins at one instant, where a bucket holds ten.\<close>

definition sample_attempts :: "nat \<Rightarrow> login_attempt list" where
  "sample_attempts n = map (\<lambda>k. \<lparr>la_claimed = replicate k CHR ''1'', la_fresh = 0, la_input = sample_input k,
     la_email = ''a@b'', la_password = ''guess''\<rparr>) [0..<n]"

lemma forwarded_header_defeats_ip_limits_witness:
  "fst (http_run (sample_deps\<lparr>d_limiter := True\<rparr>) None (map (proxied_login ''9.9.9.9'') (sample_attempts 1000)) sample_start) =
   fst (http_run (sample_deps\<lparr>d_limiter := False\<rparr>) None (map (proxied_login ''9.9.9.9'') (sample_attempts 1000)) sample_start)"
proof -
  have d: "distinct (map la_claimed (sample_attempts 1000))"
    by (auto simp: sample_attempts_def comp_def distinct_map inj_on_def)
  have up: "ls_up (ap_limiter sample_start)" "ls_store (ap_limiter sample_start) k = None" for k
    by (simp_all add: sample_start_def)
  show ?thesis
    using forwarded_header_defeats_ip_limits [OF up(1) d up(2), of "sample_deps\<lparr>d_limiter := True\<rparr>" None "''9.9.9.9''"]
    by simp
qed

end
