(* ===== verification/Bodies.thy ===== *)
theory Bodies
  imports Http
begin

text \<open>
  Request bodies before any handler runs: the raw-body parser and the size cap of
  \<^verbatim>\<open>src/routes/webhook.routes.ts\<close>, and what becomes of a body that cannot be read: the framework
  throws an error with the status it means, and \<^verbatim>\<open>setErrorHandler\<close> of \<^verbatim>\<open>src/app.ts\<close> answers it.
\<close>

subsection \<open>The framework\<close>

text \<open>
  Fastify's own errors carry the status they ask for (413, 415, 400) and no \<^verbatim>\<open>validation\<close>. Its
  parsers are parameters: \<open>fw_request\<close> reads the body of a route that has no parser of its own,
  given method and path, media type and bytes; \<open>fw_bytes\<close> is what the webhook plugin uses for
  media types other than JSON.
\<close>

record fastify_error =
  fe_status :: nat
  fe_message :: string

record fastify =
  fw_request :: "string \<times> string \<Rightarrow> string option \<Rightarrow> string \<Rightarrow> fastify_error + app_request"
  fw_bytes :: "string option \<Rightarrow> string \<Rightarrow> fastify_error + string"
  fw_too_large :: fastify_error

datatype target = WebhookTarget "string option" | RouteTarget "string \<times> string"

record raw_body =
  rb_media :: "string option"
  rb_bytes :: string

subsection \<open>The webhook parser\<close>

definition MAX_WEBHOOK_BYTES :: nat where "MAX_WEBHOOK_BYTES = 1048576"

text \<open>A JSON body reaches the handler as the bytes it came in, if it keeps to the cap.\<close>

definition webhook_body :: "fastify \<Rightarrow> raw_body \<Rightarrow> fastify_error + string" where
  "webhook_body fw b =
     (if rb_media b = Some ''application/json'' then
        (if length (rb_bytes b) \<le> MAX_WEBHOOK_BYTES then Inr (rb_bytes b) else Inl (fw_too_large fw))
      else fw_bytes fw (rb_media b) (rb_bytes b))"

definition read_request :: "fastify \<Rightarrow> target \<Rightarrow> raw_body \<Rightarrow> fastify_error + app_request" where
  "read_request fw tg b =
     (case tg of
        WebhookTarget sg \<Rightarrow> (case webhook_body fw b of Inl e \<Rightarrow> Inl e | Inr bytes \<Rightarrow> Inr (WebhookRequest sg bytes))
      | RouteTarget line \<Rightarrow> fw_request fw line (rb_media b) (rb_bytes b))"

subsection \<open>A request from its bytes\<close>

text \<open>
  The hooks come first, so a preflight is answered whatever its body; then the body is read;
  only then validation, limiters, authentication and the handler follow.
\<close>

definition framework_error :: "fastify_error \<Rightarrow> thrown" where
  "framework_error e = ThrownExn (OtherError (fe_message e))"

definition http_receive ::
  "deps \<Rightarrow> fastify \<Rightarrow> string option \<Rightarrow> uuid \<Rightarrow> http_head \<Rightarrow> request_input \<Rightarrow> target \<Rightarrow> raw_body \<Rightarrow> app_state \<Rightarrow>
   http_reply \<times> app_state" where
  "http_receive dp fw origin fresh h r tg b z =
     (if hh_method h = ''OPTIONS'' then http_step dp origin fresh h r UnknownRequest z
      else
        (case read_request fw tg b of
           Inr req \<Rightarrow> http_step dp origin fresh h r req z
         | Inl e \<Rightarrow>
             (case error_handler (gen_req_id fresh h) (framework_error e) of
                (status, envelope) \<Rightarrow>
                  (\<lparr>hp_status = status,
                    hp_headers = (''x-request-id'', gen_req_id fresh h) # cors_headers origin,
                    hp_body = Some (Inl envelope)\<rparr>, z))))"

text \<open>
  A body the framework refuses (too large, not JSON, an unknown media type) is answered
  500 INTERNAL, whatever status the framework asked for, and changes nothing: not even a
  limiter counts it.
\<close>

lemma unreadable_body_is_internal:
  assumes "hh_method h \<noteq> ''OPTIONS''" and "read_request fw tg b = Inl e"
  shows "http_receive dp fw origin fresh h r tg b z =
    (\<lparr>hp_status = 500, hp_headers = (''x-request-id'', gen_req_id fresh h) # cors_headers origin,
      hp_body = Some (Inl (to_envelope INTERNAL ''Internal server error'' (gen_req_id fresh h)))\<rparr>, z)"
  using assms by (simp add: http_receive_def framework_error_def error_handler_def)

subsection \<open>What a delivery must be to count\<close>

definition signed :: "gateway \<Rightarrow> string option \<Rightarrow> string \<Rightarrow> bool" where
  "signed gw sg bytes \<longleftrightarrow>
     (case sg of None \<Rightarrow> False
      | Some s \<Rightarrow> (case gw_construct_event gw bytes s of Inl _ \<Rightarrow> False | Inr _ \<Rightarrow> True))"

lemma unsigned_request:
  assumes "\<not> signed gw sg bytes"
  shows "\<exists>m. webhook_request gw v rid sg bytes s = ((400, Inr (Inl m)), s)"
  using assms by (auto simp: signed_def webhook_request_def split: option.splits sum.splits)

lemma unsigned_route:
  assumes "\<not> signed (d_gateway dp) sg bytes"
  shows "\<exists>m. webhook_route dp r sg bytes z = ((400, Inr (Inl m)), z)"
  using unsigned_request [OF assms, of "ri_env r" "ri_request_id r"
      "\<lparr>st_db = ap_db z, st_conn = ap_owner z, st_calls = ap_calls z\<rparr>"]
  by (auto simp: webhook_route_def)

lemma webhook_spares_limiter:
  "ap_limiter (snd (webhook_route dp r sg bytes z)) = ap_limiter z"
  "ap_app (snd (webhook_route dp r sg bytes z)) = ap_app z"
  by (simp_all add: webhook_route_def case_prod_beta)

text \<open>
  C19: Whatever is posted to the webhook endpoint as JSON, only the bytes Stripe signed count.
  A body over one MiB is answered 500 and one without a valid signature over exactly the bytes
  received is answered 400, and neither changes anything; so a delivery that is acknowledged, or
  that changes anything, kept to the cap and was signed. No limiter counts a delivery.
\<close>
theorem webhook_acts_on_signed_bytes:
  assumes "hh_method h \<noteq> ''OPTIONS''" and "rb_media b = Some ''application/json''" and "d_stripe dp"
  shows "case http_receive dp fw origin fresh h r (WebhookTarget sg) b z of (rep, z') \<Rightarrow>
    (length (rb_bytes b) > 1048576 \<longrightarrow> hp_status rep = 500 \<and> z' = z)
    \<and> (length (rb_bytes b) \<le> 1048576 \<and> \<not> signed (d_gateway dp) sg (rb_bytes b) \<longrightarrow> hp_status rep = 400 \<and> z' = z)
    \<and> (hp_status rep = 200 \<or> z' \<noteq> z \<longrightarrow>
        length (rb_bytes b) \<le> 1048576 \<and> signed (d_gateway dp) sg (rb_bytes b))
    \<and> ap_limiter z' = ap_limiter z \<and> ap_app z' = ap_app z"
proof (cases "length (rb_bytes b) \<le> 1048576")
  case False
  then have "read_request fw (WebhookTarget sg) b = Inl (fw_too_large fw)"
    using assms(2) by (simp add: read_request_def webhook_body_def MAX_WEBHOOK_BYTES_def)
  then show ?thesis using False unreadable_body_is_internal [OF assms(1)] by simp
next
  case True
  then have "read_request fw (WebhookTarget sg) b = Inr (WebhookRequest sg (rb_bytes b))"
    using assms(2) by (simp add: read_request_def webhook_body_def MAX_WEBHOOK_BYTES_def)
  then have h: "http_receive dp fw origin fresh h r (WebhookTarget sg) b z =
      http_step dp origin fresh h r (WebhookRequest sg (rb_bytes b)) z"
    using assms(1) by (simp add: http_receive_def)
  have step: "app_step dp (under_head fresh h r) (WebhookRequest sg (rb_bytes b)) z =
      map_reply BWebhook (webhook_route dp (under_head fresh h r) sg (rb_bytes b) z)"
    using assms(3) by simp
  show ?thesis
  proof (cases "signed (d_gateway dp) sg (rb_bytes b)")
    case False
    then show ?thesis
      using unsigned_route [OF False, of "under_head fresh h r" z] True assms(1,3)
      by (auto simp: h http_step_def Let_def step map_reply_def)
  next
    case signed: True
    obtain rep z' where "webhook_route dp (under_head fresh h r) sg (rb_bytes b) z = (rep, z')" by fastforce
    then show ?thesis
      using signed True assms(1,3) webhook_spares_limiter [of dp "under_head fresh h r" sg "rb_bytes b" z]
      by (cases rep) (auto simp: h http_step_def Let_def step map_reply_def split: sum.splits)
  qed
qed

definition sample_framework :: fastify where
  "sample_framework =
     \<lparr>fw_request = (\<lambda>line media bytes. Inl \<lparr>fe_status = 400, fe_message = ''Unexpected end of JSON input''\<rparr>),
      fw_bytes = (\<lambda>media bytes. Inl \<lparr>fe_status = 415, fe_message = ''Unsupported Media Type''\<rparr>),
      fw_too_large = \<lparr>fe_status = 413, fe_message = ''Request body is too large''\<rparr>\<rparr>"

lemma webhook_acts_on_signed_bytes_witness:
  "hp_status (fst (http_receive (sample_deps\<lparr>d_stripe := True\<rparr>) sample_framework None 7 (sample_head [])
     (sample_input 0) (WebhookTarget None) \<lparr>rb_media = Some ''application/json'', rb_bytes = ''{}''\<rparr> sample_start)) = 400"
  using webhook_acts_on_signed_bytes [where dp = "sample_deps\<lparr>d_stripe := True\<rparr>" and fw = sample_framework
      and origin = None and fresh = 7 and h = "sample_head []" and r = "sample_input 0" and sg = None
      and b = "\<lparr>rb_media = Some ''application/json'', rb_bytes = ''{}''\<rparr>" and z = sample_start]
  by (simp add: sample_head_def signed_def case_prod_beta)

end
