(* ===== verification/RlsSql.thy ===== *)
theory RlsSql
  imports Schema
begin

text \<open>
  \<^verbatim>\<open>src/db/rls.ts\<close>: the generator of the policy SQL, the grants and the app role; and the lint
  of \<^verbatim>\<open>src/scripts/rls-lint.ts\<close> that checks its output. What the policies mean to a statement is
  the condition \<open>visible\<close> of the theory Sql.
\<close>

subsection \<open>The generator\<close>

definition quote :: string where
  "quote = [CHR 0x27]"

definition newline :: string where
  "newline = [CHR 0x0A]"

definition tenant_condition :: string where
  "tenant_condition =
     ''(tenant_id = NULLIF(current_setting('' @ quote @ ''app.current_tenant_id'' @ quote @
     '', true), '' @ quote @ quote @ '')::uuid)''"

definition policy_statements :: "string \<Rightarrow> string list" where
  "policy_statements table =
     [''ALTER TABLE '' @ table @ '' ENABLE ROW LEVEL SECURITY;'',
      ''ALTER TABLE '' @ table @ '' FORCE ROW LEVEL SECURITY;'',
      ''DROP POLICY IF EXISTS tenant_isolation_select ON '' @ table @ '';'',
      ''CREATE POLICY tenant_isolation_select ON '' @ table @ '' FOR SELECT USING '' @ tenant_condition @ '';'',
      ''DROP POLICY IF EXISTS tenant_isolation_mod ON '' @ table @ '';'',
      ''CREATE POLICY tenant_isolation_mod ON '' @ table @ '' FOR ALL USING '' @ tenant_condition @
        '' WITH CHECK '' @ tenant_condition @ '';'']"

fun join_lines :: "string list \<Rightarrow> string" where
  "join_lines [] = []"
| "join_lines [l] = l"
| "join_lines (l # ls) = l @ newline @ join_lines ls"

definition rls_policy_sql :: string where
  "rls_policy_sql = join_lines (concat (map policy_statements TENANT_SCOPED_TABLES))"

definition grants_sql :: "string \<Rightarrow> string" where
  "grants_sql app_role =
     join_lines
       [''GRANT USAGE ON SCHEMA public TO '' @ app_role @ '';'',
        ''GRANT SELECT, INSERT, UPDATE, DELETE ON ALL TABLES IN SCHEMA public TO '' @ app_role @ '';'',
        ''ALTER DEFAULT PRIVILEGES IN SCHEMA public '' @
          ''GRANT SELECT, INSERT, UPDATE, DELETE ON TABLES TO '' @ app_role @ '';'',
        ''GRANT USAGE, SELECT ON ALL SEQUENCES IN SCHEMA public TO '' @ app_role @ '';'']"

definition create_app_role_sql :: "string \<Rightarrow> string \<Rightarrow> string" where
  "create_app_role_sql app_role password =
     join_lines
       [''DO $$'',
        ''BEGIN'',
        ''  IF NOT EXISTS (SELECT FROM pg_roles WHERE rolname = '' @ quote @ app_role @ quote @ '') THEN'',
        ''    CREATE ROLE '' @ app_role @ '' LOGIN PASSWORD '' @ quote @ password @ quote @
          '' NOSUPERUSER NOBYPASSRLS;'',
        ''  ELSE'',
        ''    ALTER ROLE '' @ app_role @ '' NOSUPERUSER NOBYPASSRLS;'',
        ''  END IF;'',
        ''END $$;'']"

subsection \<open>The lint\<close>

fun starts :: "string \<Rightarrow> string \<Rightarrow> bool" where
  "starts [] s = True"
| "starts (p # ps) [] = False"
| "starts (p # ps) (c # cs) = (p = c \<and> starts ps cs)"

text \<open>\<^verbatim>\<open>sql.includes(part)\<close>\<close>

fun has_part :: "string \<Rightarrow> string \<Rightarrow> bool" where
  "has_part [] part = starts part []"
| "has_part (c # cs) part = (starts part (c # cs) \<or> has_part cs part)"

definition lint_checks :: "string \<Rightarrow> string \<Rightarrow> (string \<times> bool) list" where
  "lint_checks sql table =
     [(''ENABLE RLS'', has_part sql (''ALTER TABLE '' @ table @ '' ENABLE ROW LEVEL SECURITY;'')),
      (''FORCE RLS'', has_part sql (''ALTER TABLE '' @ table @ '' FORCE ROW LEVEL SECURITY;'')),
      (''SELECT policy'', has_part sql (''CREATE POLICY tenant_isolation_select ON '' @ table)),
      (''ALL policy (WITH CHECK)'', has_part sql (''CREATE POLICY tenant_isolation_mod ON '' @ table))]"

definition lint_failures :: "string \<Rightarrow> string list \<Rightarrow> (string \<times> string) list" where
  "lint_failures sql tables =
     concat (map (\<lambda>table. map (\<lambda>(label, ok). (table, label))
       (filter (\<lambda>(label, ok). \<not> ok) (lint_checks sql table))) tables)"

definition rls_lint :: bool where
  "rls_lint \<longleftrightarrow> lint_failures rls_policy_sql TENANT_SCOPED_TABLES = []"

subsection \<open>The lint passes on what is generated\<close>

lemma starts_append [simp]: "starts p (p @ s)"
  by (induction p) simp_all

lemma has_part_pre: "has_part s part \<Longrightarrow> has_part (a @ s) part"
  by (induction a) simp_all

lemma has_part_here: "has_part (part @ s) part"
  by (cases "part @ s") (simp_all, metis starts_append)

lemma has_part_append: "has_part (a @ part @ s) part"
  by (rule has_part_pre [OF has_part_here])

lemma join_lines_line:
  assumes "l \<in> set ls"
  shows "\<exists>a b. join_lines ls = a @ l @ b"
  using assms
proof (induction ls rule: join_lines.induct)
  case (3 l1 l2 ls)
  show ?case
  proof (cases "l = l1")
    case True
    then have "join_lines (l1 # l2 # ls) = [] @ l @ (newline @ join_lines (l2 # ls))" by simp
    then show ?thesis by blast
  next
    case False
    then obtain a b where "join_lines (l2 # ls) = a @ l @ b" using 3 by auto
    then have "join_lines (l1 # l2 # ls) = (l1 @ newline @ a) @ l @ b" by simp
    then show ?thesis by blast
  qed
next
  case (2 l')
  then have "join_lines [l'] = [] @ l @ []" by simp
  then show ?case by blast
qed simp

lemma generated_line:
  assumes "table \<in> set TENANT_SCOPED_TABLES" and "part @ rest \<in> set (policy_statements table)"
  shows "has_part rls_policy_sql part"
proof -
  have "part @ rest \<in> set (concat (map policy_statements TENANT_SCOPED_TABLES))" using assms by auto
  from join_lines_line [OF this] obtain a b where "rls_policy_sql = a @ (part @ rest) @ b"
    unfolding rls_policy_sql_def by blast
  then show ?thesis using has_part_append [of a part "rest @ b"] by simp
qed

lemma rls_lint_passes: "rls_lint"
proof -
  have "\<forall>(label, ok)\<in>set (lint_checks rls_policy_sql table). ok" if t: "table \<in> set TENANT_SCOPED_TABLES" for table
    using generated_line [OF t, of "''ALTER TABLE '' @ table @ '' ENABLE ROW LEVEL SECURITY;''" "[]"]
      generated_line [OF t, of "''ALTER TABLE '' @ table @ '' FORCE ROW LEVEL SECURITY;''" "[]"]
      generated_line [OF t, of "''CREATE POLICY tenant_isolation_select ON '' @ table"
        "'' FOR SELECT USING '' @ tenant_condition @ '';''"]
      generated_line [OF t, of "''CREATE POLICY tenant_isolation_mod ON '' @ table"
        "'' FOR ALL USING '' @ tenant_condition @ '' WITH CHECK '' @ tenant_condition @ '';''"]
    by (simp add: lint_checks_def policy_statements_def)
  then show ?thesis
    by (fastforce simp: rls_lint_def lint_failures_def filter_empty_conv)
qed

text \<open>Every statement is about a table of the registry, and every table has all six.\<close>

lemma policy_statements_of_registry:
  "length (concat (map policy_statements TENANT_SCOPED_TABLES)) = 48"
  by (simp add: policy_statements_def TENANT_SCOPED_TABLES_def)

end
