(* ===== verification/Migration.thy ===== *)
theory Migration
  imports RlsSql Effects
begin

text \<open>
  \<^verbatim>\<open>src/db/migrate.ts\<close>: the migration runner, over a catalog of tables, row-security flags,
  policies, roles and grants. The text the runner sends is the one of the theory RlsSql; its
  statements are given here with PostgreSQL's effect on the catalog, and their rendering is
  that text. A query with several statements runs as one transaction. The table DDL is
  Drizzle's and a parameter.
\<close>

subsection \<open>The catalog\<close>

datatype policy_command = ForSelect | ForAll

record policy =
  po_command :: policy_command
  po_using :: string
  po_check :: "string option"

record role_attributes =
  ra_login :: bool
  ra_password :: "string option"
  ra_superuser :: bool
  ra_bypassrls :: bool

record catalog =
  cat_tables :: "string list"
  cat_enabled :: "string \<Rightarrow> bool"
  cat_forced :: "string \<Rightarrow> bool"
  cat_policies :: "string \<Rightarrow> string \<Rightarrow> policy option"
  cat_roles :: "string \<Rightarrow> role_attributes option"
  cat_schema_usage :: "string \<Rightarrow> bool"
  cat_dml :: "string \<Rightarrow> string \<Rightarrow> bool"
  cat_default_dml :: "string \<Rightarrow> bool"
  cat_sequences :: "string \<Rightarrow> bool"

text \<open>
  What the migration role may do: create roles, and name the superuser attribute in an
  \<^verbatim>\<open>ALTER ROLE\<close> (which PostgreSQL reserves to superusers, also to clear it).
\<close>

record migrator =
  mg_create_role :: bool
  mg_alter_superuser :: bool

text \<open>\<open>ms_pools\<close> counts the open connection pools.\<close>

record migration_state =
  ms_catalog :: catalog
  ms_pools :: nat

type_synonym 'a migration = "(migration_state, 'a) eff"

subsection \<open>Statements\<close>

datatype rls_statement =
    EnableRls string
  | ForceRls string
  | DropPolicyIfExists string string
  | CreatePolicy string string policy

fun command_text :: "policy_command \<Rightarrow> string" where
  "command_text ForSelect = ''SELECT''"
| "command_text ForAll = ''ALL''"

fun statement_text :: "rls_statement \<Rightarrow> string" where
  "statement_text (EnableRls t) = ''ALTER TABLE '' @ t @ '' ENABLE ROW LEVEL SECURITY;''"
| "statement_text (ForceRls t) = ''ALTER TABLE '' @ t @ '' FORCE ROW LEVEL SECURITY;''"
| "statement_text (DropPolicyIfExists n t) = ''DROP POLICY IF EXISTS '' @ n @ '' ON '' @ t @ '';''"
| "statement_text (CreatePolicy n t p) =
     ''CREATE POLICY '' @ n @ '' ON '' @ t @ '' FOR '' @ command_text (po_command p) @ '' USING '' @ po_using p @
     (case po_check p of None \<Rightarrow> '''' | Some c \<Rightarrow> '' WITH CHECK '' @ c) @ '';''"

definition undefined_table :: exn where
  "undefined_table = OtherError ''42P01 relation does not exist''"

definition duplicate_object :: exn where
  "duplicate_object = OtherError ''42710 policy already exists''"

definition insufficient_privilege :: exn where
  "insufficient_privilege = OtherError ''42501 permission denied''"

fun run_statement :: "rls_statement \<Rightarrow> catalog \<Rightarrow> exn + catalog" where
  "run_statement (EnableRls t) c =
     (if t \<in> set (cat_tables c) then Inr (c\<lparr>cat_enabled := (cat_enabled c)(t := True)\<rparr>) else Inl undefined_table)"
| "run_statement (ForceRls t) c =
     (if t \<in> set (cat_tables c) then Inr (c\<lparr>cat_forced := (cat_forced c)(t := True)\<rparr>) else Inl undefined_table)"
| "run_statement (DropPolicyIfExists n t) c =
     (if t \<in> set (cat_tables c)
      then Inr (c\<lparr>cat_policies := (cat_policies c)(t := (cat_policies c t)(n := None))\<rparr>) else Inr c)"
| "run_statement (CreatePolicy n t p) c =
     (if t \<notin> set (cat_tables c) then Inl undefined_table
      else if cat_policies c t n \<noteq> None then Inl duplicate_object
      else Inr (c\<lparr>cat_policies := (cat_policies c)(t := (cat_policies c t)(n := Some p))\<rparr>))"

fun run_statements :: "rls_statement list \<Rightarrow> catalog \<Rightarrow> exn + catalog" where
  "run_statements [] c = Inr c"
| "run_statements (st # sts) c =
     (case run_statement st c of Inl e \<Rightarrow> Inl e | Inr c' \<Rightarrow> run_statements sts c')"

definition select_policy :: policy where
  "select_policy = \<lparr>po_command = ForSelect, po_using = tenant_condition, po_check = None\<rparr>"

definition mod_policy :: policy where
  "mod_policy = \<lparr>po_command = ForAll, po_using = tenant_condition, po_check = Some tenant_condition\<rparr>"

definition rls_statements_of :: "string \<Rightarrow> rls_statement list" where
  "rls_statements_of table =
     [EnableRls table, ForceRls table,
      DropPolicyIfExists ''tenant_isolation_select'' table,
      CreatePolicy ''tenant_isolation_select'' table select_policy,
      DropPolicyIfExists ''tenant_isolation_mod'' table,
      CreatePolicy ''tenant_isolation_mod'' table mod_policy]"

definition rls_statements :: "rls_statement list" where
  "rls_statements = concat (map rls_statements_of TENANT_SCOPED_TABLES)"

text \<open>The statements are those of the generated text.\<close>

lemma rls_statements_text: "rls_policy_sql = join_lines (map statement_text rls_statements)"
proof -
  have "map statement_text (rls_statements_of t) = policy_statements t" for t
    by (simp add: rls_statements_of_def policy_statements_def select_policy_def mod_policy_def)
  then show ?thesis by (simp add: rls_policy_sql_def rls_statements_def map_concat comp_def)
qed

subsection \<open>The runner\<close>

definition query_sql :: "(catalog \<Rightarrow> exn + catalog) \<Rightarrow> unit migration" where
  "query_sql f s =
     (case f (ms_catalog s) of Inl e \<Rightarrow> (Inl e, s) | Inr c \<Rightarrow> (Inr (), s\<lparr>ms_catalog := c\<rparr>))"

text \<open>\<^verbatim>\<open>createAppRoleSql\<close>: an existing role keeps its password.\<close>

definition create_app_role :: "migrator \<Rightarrow> string \<Rightarrow> string \<Rightarrow> catalog \<Rightarrow> exn + catalog" where
  "create_app_role m role password c =
     (case cat_roles c role of
        None \<Rightarrow>
          if mg_create_role m
          then Inr (c\<lparr>cat_roles := (cat_roles c)(role \<mapsto> \<lparr>ra_login = True, ra_password = Some password,
                 ra_superuser = False, ra_bypassrls = False\<rparr>)\<rparr>)
          else Inl insufficient_privilege
      | Some ra \<Rightarrow>
          if mg_alter_superuser m
          then Inr (c\<lparr>cat_roles := (cat_roles c)(role \<mapsto> ra\<lparr>ra_superuser := False, ra_bypassrls := False\<rparr>)\<rparr>)
          else Inl insufficient_privilege)"

definition grant_app_role :: "string \<Rightarrow> catalog \<Rightarrow> exn + catalog" where
  "grant_app_role role c =
     (if cat_roles c role = None then Inl (OtherError ''42704 role does not exist'')
      else Inr (c\<lparr>cat_schema_usage := (cat_schema_usage c)(role := True),
                  cat_dml := (cat_dml c)(role := (\<lambda>t. cat_dml c role t \<or> t \<in> set (cat_tables c))),
                  cat_default_dml := (cat_default_dml c)(role := True),
                  cat_sequences := (cat_sequences c)(role := True)\<rparr>))"

definition open_pool :: "unit migration" where
  "open_pool s = (Inr (), s\<lparr>ms_pools := ms_pools s + 1\<rparr>)"

definition end_pool :: "unit migration" where
  "end_pool s = (Inr (), s\<lparr>ms_pools := ms_pools s - 1\<rparr>)"

definition run_migrations ::
  "(catalog \<Rightarrow> exn + catalog) \<Rightarrow> migrator \<Rightarrow> string \<Rightarrow> string \<Rightarrow> unit migration" where
  "run_migrations ddl m app_role app_password =
     andthen open_pool
       (finally_do
          (andthen (query_sql ddl)
          (andthen (query_sql (create_app_role m app_role app_password))
          (andthen (query_sql (run_statements rls_statements))
            (query_sql (grant_app_role app_role)))))
          end_pool)"

subsection \<open>The command line\<close>

record migrate_env =
  me_MIGRATION_DATABASE_URL :: "string option"
  me_DATABASE_URL :: "string option"
  me_APP_DB_ROLE :: "string option"
  me_APP_DB_PASSWORD :: "string option"

definition or_else :: "'a option \<Rightarrow> 'a \<Rightarrow> 'a" where
  "or_else x d = (case x of Some a \<Rightarrow> a | None \<Rightarrow> d)"

text \<open>
  The result is the exit code. \<open>connect\<close> gives, for a URL, the rights of its role; an empty
  URL is refused like an absent one.
\<close>

definition migrate_main ::
  "(catalog \<Rightarrow> exn + catalog) \<Rightarrow> (string \<Rightarrow> migrator) \<Rightarrow> migrate_env \<Rightarrow> migration_state \<Rightarrow> nat \<times> migration_state" where
  "migrate_main ddl connect e s =
     (let url = (case me_MIGRATION_DATABASE_URL e of Some u \<Rightarrow> Some u | None \<Rightarrow> me_DATABASE_URL e);
          app_role = or_else (me_APP_DB_ROLE e) ''tenantforge_app'';
          app_password = or_else (me_APP_DB_PASSWORD e) ''app_pw'' in
      case url of
        None \<Rightarrow> (1, s)
      | Some u \<Rightarrow>
          if u = [] then (1, s)
          else (case run_migrations ddl (connect u) app_role app_password s of
                  (Inr _, s') \<Rightarrow> (0, s') | (Inl _, s') \<Rightarrow> (1, s')))"

subsection \<open>What the statements do together\<close>

definition tenant_policies :: "(string \<Rightarrow> policy option) \<Rightarrow> string \<Rightarrow> policy option" where
  "tenant_policies f =
     f(''tenant_isolation_select'' := Some select_policy, ''tenant_isolation_mod'' := Some mod_policy)"

definition secure_tables :: "string list \<Rightarrow> catalog \<Rightarrow> catalog" where
  "secure_tables ts c =
     c\<lparr>cat_enabled := (\<lambda>t. t \<in> set ts \<or> cat_enabled c t), cat_forced := (\<lambda>t. t \<in> set ts \<or> cat_forced c t),
       cat_policies := (\<lambda>t. if t \<in> set ts then tenant_policies (cat_policies c t) else cat_policies c t)\<rparr>"

lemma run_statements_append:
  "run_statements (a @ b) c = (case run_statements a c of Inl e \<Rightarrow> Inl e | Inr c' \<Rightarrow> run_statements b c')"
  by (induction a arbitrary: c) (auto split: sum.splits)

lemma tenant_policies_idem [simp]: "tenant_policies (tenant_policies f) = tenant_policies f"
  by (auto simp: tenant_policies_def)

lemma secure_one:
  assumes "t \<in> set (cat_tables c)"
  shows "run_statements (rls_statements_of t) c = Inr (secure_tables [t] c)"
proof -
  have "(cat_policies c)(t := (cat_policies c t)(''tenant_isolation_select'' \<mapsto> select_policy, ''tenant_isolation_mod'' \<mapsto> mod_policy))
      = (\<lambda>u. if u = t then tenant_policies (cat_policies c u) else cat_policies c u)"
    by (rule ext) (simp add: tenant_policies_def)
  moreover have "(cat_enabled c)(t := True) = (\<lambda>u. u = t \<or> cat_enabled c u)"
    "(cat_forced c)(t := True) = (\<lambda>u. u = t \<or> cat_forced c u)" by (auto simp: fun_eq_iff)
  ultimately show ?thesis
    using assms by (simp add: rls_statements_of_def secure_tables_def fun_upd_twist)
qed

lemma secure_tables_Cons: "secure_tables ts (secure_tables [t] c) = secure_tables (t # ts) c"
  by (rule catalog.equality) (auto simp: secure_tables_def fun_eq_iff)

lemma secure_all:
  assumes "set ts \<subseteq> set (cat_tables c)"
  shows "run_statements (concat (map rls_statements_of ts)) c = Inr (secure_tables ts c)"
  using assms
proof (induction ts arbitrary: c)
  case Nil
  then show ?case by (simp add: secure_tables_def)
next
  case (Cons t ts)
  have "set ts \<subseteq> set (cat_tables (secure_tables [t] c))" using Cons.prems by (simp add: secure_tables_def)
  then show ?case
    using Cons.prems secure_one [of t c] Cons.IH [of "secure_tables [t] c"]
    by (simp add: run_statements_append secure_tables_Cons)
qed

text \<open>The runner, with all its failures; the pool is closed on every path.\<close>

lemma run_migrations_cases:
  "run_migrations ddl m role pw s =
     (case ddl (ms_catalog s) of
        Inl e \<Rightarrow> (Inl e, s)
      | Inr c1 \<Rightarrow>
          (case create_app_role m role pw c1 of
             Inl e \<Rightarrow> (Inl e, s\<lparr>ms_catalog := c1\<rparr>)
           | Inr c2 \<Rightarrow>
               (case run_statements rls_statements c2 of
                  Inl e \<Rightarrow> (Inl e, s\<lparr>ms_catalog := c2\<rparr>)
                | Inr c3 \<Rightarrow>
                    (case grant_app_role role c3 of
                       Inl e \<Rightarrow> (Inl e, s\<lparr>ms_catalog := c3\<rparr>) | Inr c4 \<Rightarrow> (Inr (), s\<lparr>ms_catalog := c4\<rparr>)))))"
  by (simp add: run_migrations_def eff_simps open_pool_def end_pool_def query_sql_def split: sum.splits)

text \<open>What the runner relies on: the DDL of the schema creates every table of the registry.\<close>

definition creates_tables :: "(catalog \<Rightarrow> exn + catalog) \<Rightarrow> bool" where
  "creates_tables ddl \<longleftrightarrow>
     (\<forall>c c1. ddl c = Inr c1 \<longrightarrow> set TENANT_SCOPED_TABLES \<subseteq> set (cat_tables c1))"

lemma migrated_catalog:
  assumes ddl: "creates_tables ddl"
    and run: "run_migrations ddl m role pw s = (Inr (), s')"
  obtains c2 where "s' = s\<lparr>ms_catalog := ms_catalog s'\<rparr>"
    and "grant_app_role role (secure_tables TENANT_SCOPED_TABLES c2) = Inr (ms_catalog s')"
    and "set TENANT_SCOPED_TABLES \<subseteq> set (cat_tables c2)"
    and "\<exists>ra. cat_roles c2 role = Some ra \<and> \<not> ra_superuser ra \<and> \<not> ra_bypassrls ra"
proof -
  obtain c1 c2 c3 c4 where c1: "ddl (ms_catalog s) = Inr c1" and c2: "create_app_role m role pw c1 = Inr c2"
    and c3: "run_statements rls_statements c2 = Inr c3" and c4: "grant_app_role role c3 = Inr c4"
    and s': "s' = s\<lparr>ms_catalog := c4\<rparr>"
    using run by (auto simp: run_migrations_cases split: sum.splits)
  have t: "set TENANT_SCOPED_TABLES \<subseteq> set (cat_tables c2)"
    using ddl c1 c2 by (fastforce simp: creates_tables_def create_app_role_def split: option.splits if_splits)
  moreover have "\<exists>ra. cat_roles c2 role = Some ra \<and> \<not> ra_superuser ra \<and> \<not> ra_bypassrls ra"
    using c2 by (auto simp: create_app_role_def split: option.splits if_splits)
  moreover have "c3 = secure_tables TENANT_SCOPED_TABLES c2"
    using c3 secure_all [OF t] by (simp add: rls_statements_def)
  ultimately show thesis using that c4 s' by simp
qed

text \<open>A catalog that a run has left is a fixed point of every step but the DDL.\<close>

lemma secure_tables_idem: "secure_tables ts (secure_tables ts c) = secure_tables ts c"
  by (rule catalog.equality) (auto simp: secure_tables_def fun_eq_iff)

lemma granted_again:
  assumes "grant_app_role role (secure_tables ts c2) = Inr c"
  shows "secure_tables ts c = c" and "grant_app_role role c = Inr c" and "cat_tables c = cat_tables c2"
    and "cat_roles c = cat_roles c2"
proof -
  have c: "c = (secure_tables ts c2)
      \<lparr>cat_schema_usage := (cat_schema_usage c2)(role := True),
       cat_dml := (cat_dml c2)(role := (\<lambda>t. cat_dml c2 role t \<or> t \<in> set (cat_tables c2))),
       cat_default_dml := (cat_default_dml c2)(role := True), cat_sequences := (cat_sequences c2)(role := True)\<rparr>"
    and r: "cat_roles c2 role \<noteq> None"
    using assms by (auto simp: grant_app_role_def secure_tables_def split: if_splits)
  show "secure_tables ts c = c"
    by (rule catalog.equality) (auto simp: c secure_tables_def fun_eq_iff)
  show "cat_tables c = cat_tables c2" "cat_roles c = cat_roles c2" by (simp_all add: c secure_tables_def)
  show "grant_app_role role c = Inr c"
    using r by (auto simp: grant_app_role_def c secure_tables_def fun_eq_iff intro!: catalog.equality)
qed

lemma granted_secures:
  assumes "grant_app_role role (secure_tables ts c2) = Inr c" and "t \<in> set ts" "t \<in> set (cat_tables c2)"
  shows "cat_enabled c t" "cat_forced c t" "cat_dml c role t"
    "cat_policies c t ''tenant_isolation_select'' = Some select_policy"
    "cat_policies c t ''tenant_isolation_mod'' = Some mod_policy"
  using assms by (auto simp: grant_app_role_def secure_tables_def tenant_policies_def split: if_splits)

text \<open>
  C13: A migration isolates the tenants. When a run succeeds, every tenant-scoped table of the
  registry has row security enabled and forced, with the two policies on the tenant setting,
  and the app role can work on it but neither is a superuser nor bypasses the policies; the
  pool is closed. Running it again changes nothing, if the migration role may name the
  superuser attribute; a role that may not (as on managed PostgreSQL) cannot run it a second
  time: new table definitions are applied, then it stops before any policy is made for them.
\<close>
theorem migration_isolates:
  assumes ddl: "creates_tables ddl"
    and run: "run_migrations ddl m role pw s = (Inr (), s')"
  shows "(\<forall>t\<in>set TENANT_SCOPED_TABLES.
      cat_enabled (ms_catalog s') t \<and> cat_forced (ms_catalog s') t \<and> cat_dml (ms_catalog s') role t \<and>
      cat_policies (ms_catalog s') t ''tenant_isolation_select'' =
        Some \<lparr>po_command = ForSelect, po_using = tenant_condition, po_check = None\<rparr> \<and>
      cat_policies (ms_catalog s') t ''tenant_isolation_mod'' =
        Some \<lparr>po_command = ForAll, po_using = tenant_condition, po_check = Some tenant_condition\<rparr>)
    \<and> (\<exists>ra. cat_roles (ms_catalog s') role = Some ra \<and> \<not> ra_superuser ra \<and> \<not> ra_bypassrls ra)
    \<and> ms_pools s' = ms_pools s
    \<and> (mg_alter_superuser m' \<and> ddl (ms_catalog s') = Inr (ms_catalog s') \<longrightarrow>
         run_migrations ddl m' role pw' s' = (Inr (), s'))
    \<and> (\<not> mg_alter_superuser m' \<and> ddl (ms_catalog s') = Inr c \<and> cat_roles c = cat_roles (ms_catalog s') \<longrightarrow>
         run_migrations ddl m' role pw' s' = (Inl insufficient_privilege, s'\<lparr>ms_catalog := c\<rparr>))"
proof -
  obtain c2 where s': "s' = s\<lparr>ms_catalog := ms_catalog s'\<rparr>"
    and g: "grant_app_role role (secure_tables TENANT_SCOPED_TABLES c2) = Inr (ms_catalog s')"
    and t: "set TENANT_SCOPED_TABLES \<subseteq> set (cat_tables c2)"
    and ra: "\<exists>ra. cat_roles c2 role = Some ra \<and> \<not> ra_superuser ra \<and> \<not> ra_bypassrls ra"
    by (rule migrated_catalog [OF ddl run])
  let ?c = "ms_catalog s'"
  note fixed = granted_again [OF g]
  have secured: "cat_enabled ?c t \<and> cat_forced ?c t \<and> cat_dml ?c role t \<and>
      cat_policies ?c t ''tenant_isolation_select'' = Some select_policy \<and>
      cat_policies ?c t ''tenant_isolation_mod'' = Some mod_policy" if "t \<in> set TENANT_SCOPED_TABLES" for t
    using granted_secures [OF g that] t that by auto
  have "ms_pools s' = ms_pools s" by (subst s') simp
  moreover have "run_migrations ddl m' role pw' s' = (Inr (), s')"
    if m': "mg_alter_superuser m'" and d: "ddl ?c = Inr ?c"
  proof -
    have "create_app_role m' role pw' ?c = Inr ?c"
      using ra m' fixed(4) by (auto simp: create_app_role_def fun_upd_idem)
    moreover have "run_statements rls_statements ?c = Inr ?c"
      using secure_all [of TENANT_SCOPED_TABLES ?c] t fixed(1,3) by (simp add: rls_statements_def)
    ultimately show ?thesis using d fixed(2) by (simp add: run_migrations_cases)
  qed
  moreover have "run_migrations ddl m' role pw' s' = (Inl insufficient_privilege, s'\<lparr>ms_catalog := c\<rparr>)"
    if "\<not> mg_alter_superuser m'" "ddl ?c = Inr c" "cat_roles c = cat_roles ?c"
    using that ra fixed(4) by (auto simp: run_migrations_cases create_app_role_def)
  ultimately show ?thesis
    using secured ra fixed(4) by (simp add: select_policy_def mod_policy_def)
qed

definition empty_catalog :: catalog where
  "empty_catalog = \<lparr>cat_tables = [], cat_enabled = (\<lambda>_. False), cat_forced = (\<lambda>_. False),
     cat_policies = (\<lambda>_ _. None), cat_roles = (\<lambda>_. None), cat_schema_usage = (\<lambda>_. False),
     cat_dml = (\<lambda>_ _. False), cat_default_dml = (\<lambda>_. False), cat_sequences = (\<lambda>_. False)\<rparr>"

definition sample_ddl :: "catalog \<Rightarrow> exn + catalog" where
  "sample_ddl c = Inr (c\<lparr>cat_tables := TENANT_SCOPED_TABLES @ GLOBAL_TABLES\<rparr>)"

text \<open>A first run on an empty database succeeds.\<close>

lemma first_migration:
  assumes "ddl (ms_catalog s) = Inr c1" and "set TENANT_SCOPED_TABLES \<subseteq> set (cat_tables c1)"
    and "cat_roles c1 role = None" and "mg_create_role m"
  shows "fst (run_migrations ddl m role pw s) = Inr ()"
proof -
  let ?ra = "\<lparr>ra_login = True, ra_password = Some pw, ra_superuser = False, ra_bypassrls = False\<rparr>"
  let ?c2 = "c1\<lparr>cat_roles := (cat_roles c1)(role \<mapsto> ?ra)\<rparr>"
  have "create_app_role m role pw c1 = Inr ?c2" using assms(3,4) by (simp add: create_app_role_def)
  moreover have "run_statements rls_statements ?c2 = Inr (secure_tables TENANT_SCOPED_TABLES ?c2)"
    using secure_all [of TENANT_SCOPED_TABLES ?c2] assms(2) by (simp add: rls_statements_def)
  ultimately show ?thesis
    using assms(1) by (simp add: run_migrations_cases grant_app_role_def secure_tables_def)
qed

lemma migration_isolates_witness:
  "cat_enabled (ms_catalog (snd (run_migrations sample_ddl \<lparr>mg_create_role = True, mg_alter_superuser = False\<rparr>
     ''app'' ''pw'' \<lparr>ms_catalog = empty_catalog, ms_pools = 0\<rparr>))) ''users''"
proof -
  let ?m = "\<lparr>mg_create_role = True, mg_alter_superuser = False\<rparr>"
  let ?s = "\<lparr>ms_catalog = empty_catalog, ms_pools = 0\<rparr>"
  have ddl: "creates_tables sample_ddl" by (auto simp: creates_tables_def sample_ddl_def)
  have "fst (run_migrations sample_ddl ?m ''app'' ''pw'' ?s) = Inr ()"
    by (rule first_migration [of _ _ "empty_catalog\<lparr>cat_tables := TENANT_SCOPED_TABLES @ GLOBAL_TABLES\<rparr>"])
      (simp_all add: sample_ddl_def empty_catalog_def)
  then have run: "run_migrations sample_ddl ?m ''app'' ''pw'' ?s =
      (Inr (), snd (run_migrations sample_ddl ?m ''app'' ''pw'' ?s))" by (metis prod.collapse)
  have "''users'' \<in> set TENANT_SCOPED_TABLES" by (simp add: TENANT_SCOPED_TABLES_def)
  then show ?thesis
    using migration_isolates [OF ddl run] by blast
qed

end
