(* ===== verification/Config.thy ===== *)
theory Config
  imports Complex_Main OwnerRoutes
begin

text \<open>
  \<^verbatim>\<open>src/config.ts\<close>: the environment schema, its defaults and the two comma-separated
  allow-lists. An environment holds texts; what \<^verbatim>\<open>Number(text)\<close> makes of one is the parameter
  \<open>num\<close>.
\<close>

subsection \<open>Lists\<close>

definition js_space :: "char \<Rightarrow> bool" where
  "js_space c \<longleftrightarrow> c \<in> {CHR '' '', CHR 0x09, CHR 0x0A, CHR 0x0B, CHR 0x0C, CHR 0x0D, CHR 0xA0}"

definition trim :: "string \<Rightarrow> string" where
  "trim s = rev (dropWhile js_space (rev (dropWhile js_space s)))"

text \<open>\<^verbatim>\<open>split(",")\<close>: one piece more than there are commas.\<close>

fun split_comma :: "string \<Rightarrow> string list" where
  "split_comma [] = [[]]"
| "split_comma (c # cs) =
     (if c = CHR '','' then [] # split_comma cs
      else (case split_comma cs of [] \<Rightarrow> [[c]] | p # ps \<Rightarrow> (c # p) # ps))"

definition split_list :: "string option \<Rightarrow> string list" where
  "split_list value =
     (case value of
        None \<Rightarrow> []
      | Some v \<Rightarrow> if v = [] then [] else filter (\<lambda>s. length s > 0) (map trim (split_comma v)))"

subsection \<open>The schema\<close>

record raw_env =
  rv_NODE_ENV :: "string option"
  rv_PORT :: "string option"
  rv_LOG_LEVEL :: "string option"
  rv_DATABASE_URL :: "string option"
  rv_MIGRATION_DATABASE_URL :: "string option"
  rv_JWT_SIGNING_SECRET :: "string option"
  rv_ACCESS_TOKEN_TTL_SECONDS :: "string option"
  rv_REFRESH_TOKEN_TTL_SECONDS :: "string option"
  rv_REDIS_URL :: "string option"
  rv_CORS_ORIGIN :: "string option"
  rv_STRIPE_SECRET_KEY :: "string option"
  rv_STRIPE_WEBHOOK_SECRET :: "string option"
  rv_STRIPE_PRICE_IDS :: "string option"
  rv_BILLING_REDIRECT_ORIGINS :: "string option"

record app_config =
  cf_NODE_ENV :: string
  cf_PORT :: int
  cf_LOG_LEVEL :: string
  cf_DATABASE_URL :: string
  cf_MIGRATION_DATABASE_URL :: "string option"
  cf_JWT_SIGNING_SECRET :: string
  cf_ACCESS_TOKEN_TTL_SECONDS :: int
  cf_REFRESH_TOKEN_TTL_SECONDS :: int
  cf_REDIS_URL :: "string option"
  cf_CORS_ORIGIN :: "string option"
  cf_STRIPE_SECRET_KEY :: "string option"
  cf_STRIPE_WEBHOOK_SECRET :: "string option"
  cf_STRIPE_PRICE_ID_LIST :: "string list"
  cf_BILLING_REDIRECT_ORIGIN_LIST :: "string list"

datatype js_number = JsNaN | JsInfinite bool | JsNumber rat

text \<open>
  A field is the list of its issues and its value (meaningful when there are none). Several
  checks of one field each report an issue.
\<close>

type_synonym 'a field = "nat \<times> 'a"

definition enum_field :: "string list \<Rightarrow> string \<Rightarrow> string option \<Rightarrow> string field" where
  "enum_field allowed dflt x =
     (case x of None \<Rightarrow> (0, dflt) | Some s \<Rightarrow> (if s \<in> set allowed then 0 else 1, s))"

definition text_field :: "nat \<Rightarrow> string option \<Rightarrow> string field" where
  "text_field least x = (case x of None \<Rightarrow> (1, []) | Some s \<Rightarrow> (if length s < least then 1 else 0, s))"

definition optional_text_field :: "nat \<Rightarrow> string option \<Rightarrow> string option field" where
  "optional_text_field least x =
     (case x of None \<Rightarrow> (0, None) | Some s \<Rightarrow> (if length s < least then 1 else 0, Some s))"

text \<open>\<^verbatim>\<open>z.coerce.number().int().positive()\<close> with an upper bound and a default.\<close>

definition count_field :: "(string \<Rightarrow> js_number) \<Rightarrow> int option \<Rightarrow> int \<Rightarrow> string option \<Rightarrow> int field" where
  "count_field num most dflt x =
     (case x of
        None \<Rightarrow> (0, dflt)
      | Some s \<Rightarrow>
          (case num s of
             JsNaN \<Rightarrow> (1, 0)
           | JsInfinite neg \<Rightarrow> (1 + (if neg then 1 else 0) + (if \<not> neg \<and> most \<noteq> None then 1 else 0), 0)
           | JsNumber q \<Rightarrow>
               ((if q \<in> \<int> then 0 else 1) + (if q > 0 then 0 else 1) +
                (case most of None \<Rightarrow> 0 | Some m \<Rightarrow> if q \<le> of_int m then 0 else 1), \<lfloor>q\<rfloor>)))"

definition join :: "string \<Rightarrow> string list \<Rightarrow> string" where
  "join sep xs = (case xs of [] \<Rightarrow> [] | y # ys \<Rightarrow> y @ concat (map (\<lambda>z. sep @ z) ys))"

definition NODE_ENVS :: "string list" where
  "NODE_ENVS = [''development'', ''test'', ''production'']"

definition LOG_LEVELS :: "string list" where
  "LOG_LEVELS = [''fatal'', ''error'', ''warn'', ''info'', ''debug'', ''trace'']"

definition parse_env :: "(string \<Rightarrow> js_number) \<Rightarrow> raw_env \<Rightarrow> string list \<times> app_config" where
  "parse_env num e =
     (let (n1, node_env) = enum_field NODE_ENVS ''development'' (rv_NODE_ENV e);
          (n2, port) = count_field num None 3000 (rv_PORT e);
          (n3, level) = enum_field LOG_LEVELS ''info'' (rv_LOG_LEVEL e);
          (n4, url) = text_field 1 (rv_DATABASE_URL e);
          (n5, murl) = optional_text_field 1 (rv_MIGRATION_DATABASE_URL e);
          (n6, secret) = text_field 32 (rv_JWT_SIGNING_SECRET e);
          (n7, access) = count_field num (Some 900) 900 (rv_ACCESS_TOKEN_TTL_SECONDS e);
          (n8, refresh) = count_field num None 1209600 (rv_REFRESH_TOKEN_TTL_SECONDS e)
      in (replicate n1 ''NODE_ENV'' @ replicate n2 ''PORT'' @ replicate n3 ''LOG_LEVEL'' @
          replicate n4 ''DATABASE_URL'' @ replicate n5 ''MIGRATION_DATABASE_URL'' @
          replicate n6 ''JWT_SIGNING_SECRET'' @ replicate n7 ''ACCESS_TOKEN_TTL_SECONDS'' @
          replicate n8 ''REFRESH_TOKEN_TTL_SECONDS'',
          \<lparr>cf_NODE_ENV = node_env, cf_PORT = port, cf_LOG_LEVEL = level, cf_DATABASE_URL = url,
           cf_MIGRATION_DATABASE_URL = murl, cf_JWT_SIGNING_SECRET = secret,
           cf_ACCESS_TOKEN_TTL_SECONDS = access, cf_REFRESH_TOKEN_TTL_SECONDS = refresh,
           cf_REDIS_URL = rv_REDIS_URL e, cf_CORS_ORIGIN = rv_CORS_ORIGIN e,
           cf_STRIPE_SECRET_KEY = rv_STRIPE_SECRET_KEY e,
           cf_STRIPE_WEBHOOK_SECRET = rv_STRIPE_WEBHOOK_SECRET e,
           cf_STRIPE_PRICE_ID_LIST = split_list (rv_STRIPE_PRICE_IDS e),
           cf_BILLING_REDIRECT_ORIGIN_LIST = split_list (rv_BILLING_REDIRECT_ORIGINS e)\<rparr>))"

definition load_config :: "(string \<Rightarrow> js_number) \<Rightarrow> raw_env \<Rightarrow> exn + app_config" where
  "load_config num e =
     (case parse_env num e of
        (issues, cfg) \<Rightarrow>
          if issues = [] then Inr cfg
          else Inl (OtherError (''Invalid environment configuration: '' @ join '', '' issues)))"

text \<open>What \<^verbatim>\<open>buildApp\<close> takes from it.\<close>

definition token_config_of :: "app_config \<Rightarrow> token_config" where
  "token_config_of c =
     \<lparr>signing_secret = cf_JWT_SIGNING_SECRET c, access_ttl_seconds = cf_ACCESS_TOKEN_TTL_SECONDS c,
      refresh_ttl_seconds = cf_REFRESH_TOKEN_TTL_SECONDS c\<rparr>"

definition billing_config_of :: "app_config \<Rightarrow> billing_config" where
  "billing_config_of c =
     \<lparr>allowed_price_ids = cf_STRIPE_PRICE_ID_LIST c,
      allowed_redirect_origins = cf_BILLING_REDIRECT_ORIGIN_LIST c\<rparr>"

text \<open>\<^verbatim>\<open>src/server.ts\<close>: which optional parts a configuration switches on, and the two URLs.\<close>

definition owner_url :: "app_config \<Rightarrow> string" where
  "owner_url c = (case cf_MIGRATION_DATABASE_URL c of Some u \<Rightarrow> u | None \<Rightarrow> cf_DATABASE_URL c)"

definition limiter_on :: "app_config \<Rightarrow> bool" where
  "limiter_on c \<longleftrightarrow> (case cf_REDIS_URL c of None \<Rightarrow> False | Some u \<Rightarrow> u \<noteq> [])"

definition stripe_on :: "app_config \<Rightarrow> bool" where
  "stripe_on c \<longleftrightarrow> (case cf_STRIPE_SECRET_KEY c of None \<Rightarrow> False | Some k \<Rightarrow> k \<noteq> []) \<and>
     (case cf_STRIPE_WEBHOOK_SECRET c of None \<Rightarrow> False | Some k \<Rightarrow> k \<noteq> [])"

subsection \<open>What a loaded configuration guarantees\<close>

lemma count_field_ok:
  assumes "count_field num most dflt x = (0, n)" and "0 < dflt" and "\<And>m. most = Some m \<Longrightarrow> dflt \<le> m"
  shows "0 < n \<and> (\<forall>m. most = Some m \<longrightarrow> n \<le> m)"
proof (cases x)
  case None
  then show ?thesis using assms by (simp add: count_field_def)
next
  case (Some s)
  then obtain q where q: "num s = JsNumber q" "q \<in> \<int>" "q > 0" "n = \<lfloor>q\<rfloor>"
    "\<forall>m. most = Some m \<longrightarrow> q \<le> of_int m"
    using assms(1) by (auto simp: count_field_def split: js_number.splits if_splits option.splits)
  then obtain k where "q = of_int k" by (auto elim: Ints_cases)
  then show ?thesis using q by simp
qed

lemma load_config_sound:
  assumes "load_config num e = Inr c"
  shows "32 \<le> length (cf_JWT_SIGNING_SECRET c)" "0 < cf_ACCESS_TOKEN_TTL_SECONDS c"
    "cf_ACCESS_TOKEN_TTL_SECONDS c \<le> 900" "0 < cf_REFRESH_TOKEN_TTL_SECONDS c" "0 < cf_PORT c"
    "cf_DATABASE_URL c \<noteq> []" "owner_url c \<noteq> []"
proof -
  obtain access refresh port where f:
    "count_field num (Some 900) 900 (rv_ACCESS_TOKEN_TTL_SECONDS e) = (0, access)"
    "count_field num None 1209600 (rv_REFRESH_TOKEN_TTL_SECONDS e) = (0, refresh)"
    "count_field num None 3000 (rv_PORT e) = (0, port)"
    "cf_ACCESS_TOKEN_TTL_SECONDS c = access" "cf_REFRESH_TOKEN_TTL_SECONDS c = refresh" "cf_PORT c = port"
    using assms by (auto simp: load_config_def parse_env_def Let_def split: prod.splits if_splits)
  show "0 < cf_ACCESS_TOKEN_TTL_SECONDS c" "cf_ACCESS_TOKEN_TTL_SECONDS c \<le> 900"
    using count_field_ok [OF f(1)] f(4) by simp_all
  show "0 < cf_REFRESH_TOKEN_TTL_SECONDS c" "0 < cf_PORT c"
    using count_field_ok [OF f(2)] count_field_ok [OF f(3)] f(5,6) by simp_all
  show "32 \<le> length (cf_JWT_SIGNING_SECRET c)" "cf_DATABASE_URL c \<noteq> []" "owner_url c \<noteq> []"
    using assms
    by (auto simp: load_config_def parse_env_def Let_def text_field_def optional_text_field_def owner_url_def
        split: prod.splits if_splits option.splits)
qed

lemma unset_lives:
  assumes "load_config num e = Inr c"
  shows "rv_ACCESS_TOKEN_TTL_SECONDS e = None \<Longrightarrow> cf_ACCESS_TOKEN_TTL_SECONDS c = 900"
    "rv_REFRESH_TOKEN_TTL_SECONDS e = None \<Longrightarrow> cf_REFRESH_TOKEN_TTL_SECONDS c = 14 * 24 * 60 * 60"
  using assms
  by (auto simp: load_config_def parse_env_def Let_def count_field_def split: prod.splits if_splits)

text \<open>Without price ids no checkout passes; without origins every redirect does.\<close>

lemma unset_lists:
  assumes "load_config num e = Inr c"
  shows "rv_STRIPE_PRICE_IDS e = None \<Longrightarrow> actor_role a \<noteq> Member \<Longrightarrow>
      checkout_route gw w (billing_config_of c) price u1 u2 a s = (Inl (AppError (bad_request ''Unknown price_id'')), s)"
    "rv_BILLING_REDIRECT_ORIGINS e = None \<Longrightarrow>
      is_allowed_redirect w url (allowed_redirect_origins (billing_config_of c))"
proof -
  have l: "cf_STRIPE_PRICE_ID_LIST c = split_list (rv_STRIPE_PRICE_IDS e)"
    "cf_BILLING_REDIRECT_ORIGIN_LIST c = split_list (rv_BILLING_REDIRECT_ORIGINS e)"
    using assms by (auto simp: load_config_def parse_env_def Let_def split: prod.splits if_splits)
  show "rv_STRIPE_PRICE_IDS e = None \<Longrightarrow> actor_role a \<noteq> Member \<Longrightarrow>
      checkout_route gw w (billing_config_of c) price u1 u2 a s = (Inl (AppError (bad_request ''Unknown price_id'')), s)"
    by (simp add: checkout_route_def require_billing_role_def require_role_def andthen_def bnd_def
        lift_sum_def ret_def throw_def billing_config_of_def l split_list_def)
  show "rv_BILLING_REDIRECT_ORIGINS e = None \<Longrightarrow>
      is_allowed_redirect w url (allowed_redirect_origins (billing_config_of c))"
    by (simp add: billing_config_of_def l split_list_def is_allowed_redirect_def)
qed

lemma last_dropWhile_ne: "dropWhile P xs \<noteq> [] \<Longrightarrow> last (dropWhile P xs) = last xs"
  by (metis last_appendR takeWhile_dropWhile_id)

lemma trim_clean:
  assumes "trim s \<noteq> []"
  shows "\<not> js_space (hd (trim s))" "\<not> js_space (last (trim s))"
proof -
  let ?d = "dropWhile js_space s"
  have ne: "dropWhile js_space (rev ?d) \<noteq> []" using assms by (simp add: trim_def)
  then have d: "?d \<noteq> []" by (metis dropWhile.simps(1) rev.simps(1))
  show "\<not> js_space (last (trim s))"
    using ne hd_dropWhile [OF ne] by (simp add: trim_def last_rev)
  have "hd (trim s) = hd ?d"
    using ne last_dropWhile_ne [OF ne] d by (simp add: trim_def hd_rev last_rev)
  then show "\<not> js_space (hd (trim s))" using hd_dropWhile [OF d] by simp
qed

text \<open>The entries of an allow-list are neither empty nor padded.\<close>

lemma split_list_clean:
  assumes "s \<in> set (split_list v)"
  shows "s \<noteq> [] \<and> \<not> js_space (hd s) \<and> \<not> js_space (last s)"
proof -
  obtain p where "s = trim p" "s \<noteq> []"
    using assms by (auto simp: split_list_def split: option.splits if_splits)
  then show ?thesis using trim_clean by blast
qed

end
