(* ===== verification/Registration.thy ===== *)
theory Registration
  imports App
begin

text \<open>
  Which routes an application has: the registrations of \<^verbatim>\<open>buildApp\<close> in \<^verbatim>\<open>src/app.ts\<close> with the routes
  of its plugins, which depend on what the application is built from; the document that
  \<^verbatim>\<open>src/scripts/openapi-gen.ts\<close> derives from them; and the table of the README.
\<close>

subsection \<open>Routes\<close>

datatype route_limit = NoLimit | IpLimit route_class | TenantLimit

datatype route_guard = Open | BearerOnly | BearerOrKey

record route_entry =
  re_method :: string
  re_path :: string
  re_limit :: route_limit
  re_guard :: route_guard
  re_tenant_tx :: bool

definition route :: "string \<Rightarrow> string \<Rightarrow> route_limit \<Rightarrow> route_guard \<Rightarrow> bool \<Rightarrow> route_entry" where
  "route method path limit guard tenant_tx =
     \<lparr>re_method = method, re_path = path, re_limit = limit, re_guard = guard, re_tenant_tx = tenant_tx\<rparr>"

text \<open>A plugin's route \<^verbatim>\<open>/\<close> under a prefix is the prefix itself.\<close>

definition under_prefix :: "string \<Rightarrow> route_entry list \<Rightarrow> route_entry list" where
  "under_prefix prefix rs =
     map (\<lambda>e. e\<lparr>re_path := prefix @ (if re_path e = ''/'' then [] else re_path e)\<rparr>) rs"

text \<open>\<open>limited\<close>: a rate limiter was passed.\<close>

definition auth_plugin :: "bool \<Rightarrow> route_entry list" where
  "auth_plugin limited =
     (let credential = (if limited then IpLimit Credential else NoLimit);
          general = (if limited then IpLimit General else NoLimit) in
      [route ''POST'' ''/signup'' general Open False,
       route ''POST'' ''/login'' credential Open False,
       route ''POST'' ''/password-reset/request'' credential Open False,
       route ''POST'' ''/password-reset/confirm'' NoLimit Open False,
       route ''POST'' ''/invitations/accept'' NoLimit Open False,
       route ''POST'' ''/refresh'' credential Open False])"

definition invitation_plugin :: "route_entry list" where
  "invitation_plugin =
     [route ''POST'' ''/'' NoLimit BearerOnly False, route ''POST'' ''/role'' NoLimit BearerOnly False]"

definition projects_plugin :: "bool \<Rightarrow> route_entry list" where
  "projects_plugin limited =
     (let lim = (if limited then TenantLimit else NoLimit) in
      [route ''POST'' ''/'' lim BearerOrKey True, route ''GET'' ''/'' lim BearerOrKey True,
       route ''GET'' ''/:id'' lim BearerOrKey True, route ''PATCH'' ''/:id'' lim BearerOrKey True,
       route ''DELETE'' ''/:id'' lim BearerOrKey True])"

definition projects_v2_plugin :: "route_entry list" where
  "projects_v2_plugin =
     [route ''POST'' ''/'' NoLimit BearerOrKey True, route ''GET'' ''/'' NoLimit BearerOrKey True,
      route ''GET'' ''/:id'' NoLimit BearerOrKey True]"

definition export_plugin :: "route_entry list" where
  "export_plugin = [route ''POST'' ''/'' NoLimit BearerOrKey True]"

definition api_key_plugin :: "route_entry list" where
  "api_key_plugin =
     [route ''POST'' ''/'' NoLimit BearerOrKey True, route ''GET'' ''/'' NoLimit BearerOrKey True,
      route ''DELETE'' ''/:id'' NoLimit BearerOrKey True]"

definition tenant_plugin :: "route_entry list" where
  "tenant_plugin = [route ''DELETE'' ''/'' NoLimit BearerOrKey False]"

definition billing_plugin :: "route_entry list" where
  "billing_plugin =
     [route ''POST'' ''/checkout'' NoLimit BearerOrKey False, route ''POST'' ''/portal'' NoLimit BearerOrKey False]"

definition webhook_plugin :: "route_entry list" where
  "webhook_plugin = [route ''POST'' ''/'' NoLimit Open False]"

subsection \<open>What an application is built from\<close>

record build_deps =
  bd_owner_pool :: bool
  bd_app_pool :: bool
  bd_limiter :: bool
  bd_stripe :: bool

definition root_routes :: "route_entry list" where
  "root_routes = [route ''GET'' ''/health'' NoLimit Open False, route ''GET'' ''/openapi.json'' NoLimit Open False]"

definition plugin_routes :: "build_deps \<Rightarrow> route_entry list" where
  "plugin_routes d =
     (if bd_owner_pool d then
        under_prefix ''/v1/auth'' (auth_plugin (bd_limiter d)) @
        under_prefix ''/v1/invitations'' invitation_plugin @
        (if bd_app_pool d then
           under_prefix ''/v1/projects'' (projects_plugin (bd_limiter d)) @
           under_prefix ''/v2/projects'' projects_v2_plugin @
           under_prefix ''/v1/exports'' export_plugin @
           under_prefix ''/v1/api-keys'' api_key_plugin @
           under_prefix ''/v1/tenant'' tenant_plugin @
           (if bd_stripe d then under_prefix ''/v1/billing'' billing_plugin else [])
         else []) @
        (if bd_stripe d then under_prefix ''/webhooks/stripe'' webhook_plugin else [])
      else [])"

definition route_table :: "build_deps \<Rightarrow> route_entry list" where
  "route_table d = root_routes @ plugin_routes d"

lemmas plugin_defs = auth_plugin_def invitation_plugin_def projects_plugin_def projects_v2_plugin_def
  export_plugin_def api_key_plugin_def tenant_plugin_def billing_plugin_def webhook_plugin_def
  root_routes_def route_def under_prefix_def Let_def

subsection \<open>The requests of the model\<close>

text \<open>Method and path of a request; \<^verbatim>\<open>:id\<close> stands for the id it carries.\<close>

fun tenant_call_route :: "tenant_call \<Rightarrow> string \<times> string" where
  "tenant_call_route (CreateProject n d) = (''POST'', ''/v1/projects'')"
| "tenant_call_route (ListProjects c l) = (''GET'', ''/v1/projects'')"
| "tenant_call_route (GetProject i) = (''GET'', ''/v1/projects/:id'')"
| "tenant_call_route (UpdateProject i p) = (''PATCH'', ''/v1/projects/:id'')"
| "tenant_call_route (DeleteProject i) = (''DELETE'', ''/v1/projects/:id'')"
| "tenant_call_route (V2Create n d) = (''POST'', ''/v2/projects'')"
| "tenant_call_route (V2List c l) = (''GET'', ''/v2/projects'')"
| "tenant_call_route (V2Get i) = (''GET'', ''/v2/projects/:id'')"
| "tenant_call_route (CreateKey n) = (''POST'', ''/v1/api-keys'')"
| "tenant_call_route ListKeys = (''GET'', ''/v1/api-keys'')"
| "tenant_call_route (RevokeKey i) = (''DELETE'', ''/v1/api-keys/:id'')"
| "tenant_call_route Export = (''POST'', ''/v1/exports'')"

fun owner_call_route :: "owner_call \<Rightarrow> string \<times> string" where
  "owner_call_route (PostSignup i) = (''POST'', ''/v1/auth/signup'')"
| "owner_call_route (PostLogin email pw) = (''POST'', ''/v1/auth/login'')"
| "owner_call_route (PostResetRequest email) = (''POST'', ''/v1/auth/password-reset/request'')"
| "owner_call_route (PostResetConfirm token pw) = (''POST'', ''/v1/auth/password-reset/confirm'')"
| "owner_call_route (PostAccept token pw) = (''POST'', ''/v1/auth/invitations/accept'')"
| "owner_call_route (PostRefresh token) = (''POST'', ''/v1/auth/refresh'')"
| "owner_call_route (PostInvite email r) = (''POST'', ''/v1/invitations'')"
| "owner_call_route (PostRole u r) = (''POST'', ''/v1/invitations/role'')"
| "owner_call_route DeleteTenant = (''DELETE'', ''/v1/tenant'')"
| "owner_call_route (PostCheckout price ok_url cancel) = (''POST'', ''/v1/billing/checkout'')"
| "owner_call_route (PostPortal url) = (''POST'', ''/v1/billing/portal'')"

definition entry_for :: "build_deps \<Rightarrow> string \<times> string \<Rightarrow> route_entry option" where
  "entry_for d mp = find (\<lambda>e. (re_method e, re_path e) = mp) (route_table d)"

text \<open>An application with both pools.\<close>

definition full_build :: "deps \<Rightarrow> build_deps" where
  "full_build dp = \<lparr>bd_owner_pool = True, bd_app_pool = True, bd_limiter = d_limiter dp, bd_stripe = d_stripe dp\<rparr>"

fun owner_guard :: "owner_call \<Rightarrow> route_guard" where
  "owner_guard call = (case route_auth call of None \<Rightarrow> Open | Some keys \<Rightarrow> if keys then BearerOrKey else BearerOnly)"

lemma tenant_entry:
  "entry_for (full_build dp) (tenant_call_route call) =
     Some (case tenant_call_route call of (m, p) \<Rightarrow>
       route m p (if d_limiter dp \<and> limited_call call then TenantLimit else NoLimit) BearerOrKey True)"
  by (cases call; cases "d_limiter dp"; cases "d_stripe dp")
    (simp_all add: entry_for_def full_build_def route_table_def plugin_routes_def plugin_defs)

lemma owner_entry:
  "entry_for (full_build dp) (owner_call_route call) =
     (if is_billing_call call \<and> \<not> d_stripe dp then None
      else Some (case owner_call_route call of (m, p) \<Rightarrow>
        route m p (case ip_class call of Some c \<Rightarrow> if d_limiter dp then IpLimit c else NoLimit | None \<Rightarrow> NoLimit)
          (owner_guard call) False))"
  by (cases call; cases "d_limiter dp"; cases "d_stripe dp")
    (simp_all add: entry_for_def full_build_def route_table_def plugin_routes_def plugin_defs)

lemma webhook_entry:
  "entry_for (full_build dp) (''POST'', ''/webhooks/stripe'') =
     (if d_stripe dp then Some (route ''POST'' ''/webhooks/stripe'' NoLimit Open False) else None)"
  by (cases "d_limiter dp"; cases "d_stripe dp")
    (simp_all add: entry_for_def full_build_def route_table_def plugin_routes_def plugin_defs)

text \<open>No two registrations have the same method and path, so a request has one handler.\<close>

lemma distinct_routes: "distinct (map (\<lambda>e. (re_method e, re_path e)) (route_table d))"
  by (cases "bd_owner_pool d"; cases "bd_app_pool d"; cases "bd_limiter d"; cases "bd_stripe d")
    (simp_all add: route_table_def plugin_routes_def plugin_defs)

text \<open>Apart from the two root routes, the table has routes for requests of the model only.\<close>

lemma tenant_paths:
  "range tenant_call_route =
     {(''POST'', ''/v1/projects''), (''GET'', ''/v1/projects''), (''GET'', ''/v1/projects/:id''),
      (''PATCH'', ''/v1/projects/:id''), (''DELETE'', ''/v1/projects/:id''), (''POST'', ''/v2/projects''),
      (''GET'', ''/v2/projects''), (''GET'', ''/v2/projects/:id''), (''POST'', ''/v1/api-keys''),
      (''GET'', ''/v1/api-keys''), (''DELETE'', ''/v1/api-keys/:id''), (''POST'', ''/v1/exports'')}" (is "_ = ?S")
proof
  have "tenant_call_route call \<in> ?S" for call by (cases call) simp_all
  then show "range tenant_call_route \<subseteq> ?S" by blast
  have m: "x \<in> range tenant_call_route" if "tenant_call_route call = x" for x call using that by blast
  show "?S \<subseteq> range tenant_call_route"
    using tenant_call_route.simps [THEN m] by simp
qed

lemma owner_paths:
  "owner_call_route ` {call. st \<or> \<not> is_billing_call call} =
     {(''POST'', ''/v1/auth/signup''), (''POST'', ''/v1/auth/login''),
      (''POST'', ''/v1/auth/password-reset/request''), (''POST'', ''/v1/auth/password-reset/confirm''),
      (''POST'', ''/v1/auth/invitations/accept''), (''POST'', ''/v1/auth/refresh''), (''POST'', ''/v1/invitations''),
      (''POST'', ''/v1/invitations/role''), (''DELETE'', ''/v1/tenant'')} \<union>
     (if st then {(''POST'', ''/v1/billing/checkout''), (''POST'', ''/v1/billing/portal'')} else {})" (is "_ = ?S")
proof
  have "owner_call_route call \<in> ?S" if "st \<or> \<not> is_billing_call call" for call using that by (cases call) simp_all
  then show "owner_call_route ` {call. st \<or> \<not> is_billing_call call} \<subseteq> ?S" by blast
  have m: "x \<in> owner_call_route ` {call. st \<or> \<not> is_billing_call call}"
    if "owner_call_route call = x" "st \<or> \<not> is_billing_call call" for x call using that by blast
  show "?S \<subseteq> owner_call_route ` {call. st \<or> \<not> is_billing_call call}"
    using m [of "PostSignup i" for i, OF owner_call_route.simps(1)] m [OF owner_call_route.simps(2)]
      m [OF owner_call_route.simps(3)] m [OF owner_call_route.simps(4)] m [OF owner_call_route.simps(5)]
      m [OF owner_call_route.simps(6)] m [OF owner_call_route.simps(7)] m [OF owner_call_route.simps(8)]
      m [OF owner_call_route.simps(9)] m [OF owner_call_route.simps(10)] m [OF owner_call_route.simps(11)]
    by (cases st) simp_all
qed

lemma table_paths:
  "(\<lambda>e. (re_method e, re_path e)) ` set (route_table (full_build dp)) =
     {(''GET'', ''/health''), (''GET'', ''/openapi.json'')} \<union> range tenant_call_route \<union>
     owner_call_route ` {call. d_stripe dp \<or> \<not> is_billing_call call} \<union>
     (if d_stripe dp then {(''POST'', ''/webhooks/stripe'')} else {})"
  unfolding owner_paths tenant_paths
  by (cases "d_limiter dp"; cases "d_stripe dp")
    (simp_all add: full_build_def route_table_def plugin_routes_def plugin_defs insert_commute)

subsection \<open>The generated document\<close>

text \<open>
  \<^verbatim>\<open>openapi-gen.ts\<close> builds the application from a configuration alone. The document describes the
  routes of the plugins (the two root routes are added before the Swagger plugin is loaded).
\<close>

definition no_deps :: build_deps where
  "no_deps = \<lparr>bd_owner_pool = False, bd_app_pool = False, bd_limiter = False, bd_stripe = False\<rparr>"

definition documented :: "build_deps \<Rightarrow> (string \<times> string) list" where
  "documented d = map (\<lambda>e. (re_method e, re_path e)) (plugin_routes d)"

definition openapi_gen :: "(string \<times> string) list" where
  "openapi_gen = documented no_deps"

text \<open>
  The generated document has no path at all, while a served application has one entry for
  every route: the plugins are not registered without their pools.
\<close>

lemma openapi_gen_is_empty:
  "openapi_gen = []"
  "tenant_call_route call \<in> set (documented (full_build dp))"
  by (simp add: openapi_gen_def documented_def no_deps_def plugin_routes_def)
    (cases call; simp add: documented_def full_build_def plugin_routes_def plugin_defs)

subsection \<open>The README\<close>

definition readme_routes :: "(string \<times> string) list" where
  "readme_routes =
     [(''POST'', ''/v1/auth/signup''), (''POST'', ''/v1/auth/login''), (''POST'', ''/v1/auth/refresh''),
      (''POST'', ''/v1/auth/password-reset/request''), (''POST'', ''/v1/auth/password-reset/confirm''),
      (''POST'', ''/v1/invitations''), (''POST'', ''/v1/invitations/accept''),
      (''POST'', ''/v1/projects''), (''GET'', ''/v1/projects''), (''GET'', ''/v1/projects/:id''),
      (''PATCH'', ''/v1/projects/:id''), (''DELETE'', ''/v1/projects/:id''), (''GET'', ''/v2/projects''),
      (''POST'', ''/v1/billing/checkout''), (''POST'', ''/v1/billing/portal''), (''POST'', ''/webhooks/stripe''),
      (''POST'', ''/v1/api-keys''), (''GET'', ''/v1/api-keys''), (''DELETE'', ''/v1/api-keys/:id''),
      (''POST'', ''/v1/exports''), (''DELETE'', ''/v1/tenant''), (''GET'', ''/health''), (''GET'', ''/openapi.json'')]"

definition all_deps :: build_deps where
  "all_deps = \<lparr>bd_owner_pool = True, bd_app_pool = True, bd_limiter = True, bd_stripe = True\<rparr>"

text \<open>
  One documented route does not exist (invitations are accepted under \<^verbatim>\<open>/v1/auth\<close>), and four
  routes are not documented.
\<close>

lemma readme_against_routes:
  "filter (\<lambda>mp. mp \<notin> (\<lambda>e. (re_method e, re_path e)) ` set (route_table all_deps)) readme_routes =
     [(''POST'', ''/v1/invitations/accept'')]"
  "filter (\<lambda>mp. mp \<notin> set readme_routes) (map (\<lambda>e. (re_method e, re_path e)) (route_table all_deps)) =
     [(''POST'', ''/v1/auth/invitations/accept''), (''POST'', ''/v1/invitations/role''),
      (''POST'', ''/v2/projects''), (''GET'', ''/v2/projects/:id'')]"
  by (simp_all add: readme_routes_def all_deps_def route_table_def plugin_routes_def plugin_defs)

end
