(* ===== verification/Server.thy ===== *)
theory Server
  imports Config Registration
begin

text \<open>
  \<^verbatim>\<open>src/server.ts\<close>: from the environment to a served application. The two pools, what
  \<^verbatim>\<open>buildApp\<close> is given, the outcome of listening, and the shutdown signals. Whether the port
  can be bound and whether the application closes without an error are parameters.
\<close>

subsection \<open>Starting\<close>

record pool_options =
  po_url :: string
  po_max :: nat

record server =
  sv_owner_pool :: pool_options
  sv_app_pool :: pool_options
  sv_build :: build_deps
  sv_config :: app_config
  sv_port :: int
  sv_host :: string

definition start_server :: "app_config \<Rightarrow> server" where
  "start_server c =
     \<lparr>sv_owner_pool = \<lparr>po_url = owner_url c, po_max = 5\<rparr>,
      sv_app_pool = \<lparr>po_url = cf_DATABASE_URL c, po_max = 10\<rparr>,
      sv_build = \<lparr>bd_owner_pool = True, bd_app_pool = True, bd_limiter = limiter_on c, bd_stripe = stripe_on c\<rparr>,
      sv_config = c, sv_port = cf_PORT c, sv_host = ''0.0.0.0''\<rparr>"

text \<open>
  \<^verbatim>\<open>createPool\<close> of \<^verbatim>\<open>src/db/client.ts\<close>. Nothing imports it; the server opens the pool of the tenant
  routes itself, with the same options.
\<close>

definition create_pool :: "string \<Rightarrow> pool_options" where
  "create_pool url = \<lparr>po_url = url, po_max = 10\<rparr>"

lemma server_app_pool: "sv_app_pool (start_server c) = create_pool (cf_DATABASE_URL c)"
  by (simp add: start_server_def create_pool_def)



datatype shutdown_signal = SIGINT | SIGTERM


subsection \<open>The configuration of the generator\<close>

text \<open>
  \<^verbatim>\<open>openapi-gen.ts\<close> writes its configuration down instead of loading it, and could not load it:
  the schema refuses port 0. It names neither a Redis server nor Stripe keys, so the routes of
  billing would be missing from the document even if the pools were passed (\<open>openapi_gen\<close>).
\<close>

definition openapi_config :: app_config where
  "openapi_config =
     \<lparr>cf_NODE_ENV = ''test'', cf_PORT = 0, cf_LOG_LEVEL = ''silent'', cf_DATABASE_URL = ''postgresql://unused'',
      cf_MIGRATION_DATABASE_URL = None, cf_JWT_SIGNING_SECRET = ''openapi-generation-secret-at-least-32b!!'',
      cf_ACCESS_TOKEN_TTL_SECONDS = 900, cf_REFRESH_TOKEN_TTL_SECONDS = 1209600, cf_REDIS_URL = None,
      cf_CORS_ORIGIN = None, cf_STRIPE_SECRET_KEY = None, cf_STRIPE_WEBHOOK_SECRET = None,
      cf_STRIPE_PRICE_ID_LIST = [], cf_BILLING_REDIRECT_ORIGIN_LIST = []\<rparr>"

lemma openapi_config_unloaded: "load_config num e \<noteq> Inr openapi_config"
  using load_config_sound(5) [of num e openapi_config] by (auto simp: openapi_config_def)

lemma openapi_config_bare: "\<not> limiter_on openapi_config" "\<not> stripe_on openapi_config"
  by (simp_all add: limiter_on_def stripe_on_def openapi_config_def)

subsection \<open>What a served application is\<close>

lemma limits_of_build:
  "(\<exists>e\<in>set (route_table d). re_limit e \<noteq> NoLimit) \<longleftrightarrow> bd_owner_pool d \<and> bd_limiter d"
  by (cases "bd_owner_pool d"; cases "bd_app_pool d"; cases "bd_limiter d"; cases "bd_stripe d")
    (simp_all add: route_table_def plugin_routes_def plugin_defs)









end
