(* ===== verification/StripeAdapter.thy ===== *)
theory StripeAdapter
  imports Webhook
begin

text \<open>
  \<^verbatim>\<open>RealStripeGateway\<close> of \<^verbatim>\<open>src/billing/stripe.gateway.ts\<close>: what the adapter asks of the Stripe
  SDK and how it reads the SDK's objects. The SDK itself is the parameter \<open>sdk\<close>.
\<close>

record customer_params =
  cp_email :: string
  cp_metadata_tenant_id :: uuid

record checkout_params =
  xp_mode :: string
  xp_customer :: string
  xp_line_items :: "(string \<times> nat) list"
  xp_success_url :: string
  xp_cancel_url :: string
  xp_metadata_tenant_id :: uuid

record portal_params =
  pp_customer :: string
  pp_return_url :: string

record sdk_price =
  sp_metadata_plan :: "string option"
  sp_nickname :: "string option"

text \<open>\<^verbatim>\<open>customer\<close> is an id, or the expanded object with its id.\<close>

datatype sdk_customer = CustomerId string | CustomerObject string

record sdk_subscription =
  sd_id :: string
  sd_status :: string
  sd_items :: "sdk_price option list"
  sd_current_period_end :: "int option"
  sd_customer :: sdk_customer

record sdk =
  sdk_customers_create :: "stripe_call list \<Rightarrow> customer_params \<Rightarrow> exn + string"
  sdk_checkout_sessions_create :: "stripe_call list \<Rightarrow> checkout_params \<Rightarrow> exn + (string \<times> string option)"
  sdk_portal_sessions_create :: "stripe_call list \<Rightarrow> portal_params \<Rightarrow> exn + string"
  sdk_subscriptions_retrieve :: "stripe_call list \<Rightarrow> string \<Rightarrow> exn + sdk_subscription"
  sdk_construct_event :: "string \<Rightarrow> string \<Rightarrow> string \<Rightarrow> exn + stripe_event"

text \<open>\<^verbatim>\<open>(price?.metadata?.plan ?? price?.nickname) ?? null\<close>\<close>

definition price_plan :: "sdk_price option \<Rightarrow> string option" where
  "price_plan price =
     (case price of
        None \<Rightarrow> None
      | Some p \<Rightarrow> (case sp_metadata_plan p of Some plan \<Rightarrow> Some plan | None \<Rightarrow> sp_nickname p))"

definition first_price :: "sdk_subscription \<Rightarrow> sdk_price option" where
  "first_price s = (case sd_items s of [] \<Rightarrow> None | price # _ \<Rightarrow> price)"

definition customer_of :: "sdk_customer \<Rightarrow> string" where
  "customer_of c = (case c of CustomerId i \<Rightarrow> i | CustomerObject i \<Rightarrow> i)"

definition read_subscription :: "sdk_subscription \<Rightarrow> stripe_subscription" where
  "read_subscription s =
     \<lparr>ss_id = sd_id s, ss_status = sd_status s, ss_plan = price_plan (first_price s),
      ss_current_period_end = sd_current_period_end s, ss_customer_id = customer_of (sd_customer s)\<rparr>"

definition real_create_customer :: "sdk \<Rightarrow> stripe_call list \<Rightarrow> string \<Rightarrow> uuid \<Rightarrow> exn + string" where
  "real_create_customer k calls email t =
     sdk_customers_create k calls \<lparr>cp_email = email, cp_metadata_tenant_id = t\<rparr>"

definition real_create_checkout_session ::
  "sdk \<Rightarrow> stripe_call list \<Rightarrow> string \<Rightarrow> string \<Rightarrow> string \<Rightarrow> string \<Rightarrow> uuid \<Rightarrow> exn + (string \<times> string option)" where
  "real_create_checkout_session k calls customer price success cancel t =
     sdk_checkout_sessions_create k calls
       \<lparr>xp_mode = ''subscription'', xp_customer = customer, xp_line_items = [(price, 1)],
        xp_success_url = success, xp_cancel_url = cancel, xp_metadata_tenant_id = t\<rparr>"

definition real_create_portal_session :: "sdk \<Rightarrow> stripe_call list \<Rightarrow> string \<Rightarrow> string \<Rightarrow> exn + string" where
  "real_create_portal_session k calls customer url =
     sdk_portal_sessions_create k calls \<lparr>pp_customer = customer, pp_return_url = url\<rparr>"

definition real_get_subscription :: "sdk \<Rightarrow> stripe_call list \<Rightarrow> string \<Rightarrow> exn + stripe_subscription" where
  "real_get_subscription k calls i =
     (case sdk_subscriptions_retrieve k calls i of Inl e \<Rightarrow> Inl e | Inr s \<Rightarrow> Inr (read_subscription s))"

definition real_gateway :: "sdk \<Rightarrow> string \<Rightarrow> gateway" where
  "real_gateway k webhook_secret =
     \<lparr>gw_create_customer = real_create_customer k,
      gw_create_checkout_session = real_create_checkout_session k,
      gw_create_portal_session = real_create_portal_session k,
      gw_get_subscription = real_get_subscription k,
      gw_construct_event = (\<lambda>body sg. sdk_construct_event k body sg webhook_secret)\<rparr>"

subsection \<open>Which plan a subscription grants\<close>

text \<open>
  A cancelled subscription downgrades to \<^verbatim>\<open>free\<close> whatever its price says; else the price's
  metadata decides, then its nickname, and without either the organization keeps its plan.
\<close>

lemma plan_of_real_subscription:
  "sd_status s \<in> {''canceled'', ''incomplete_expired''} \<Longrightarrow> synced_plan (read_subscription s) org = ''free''"
  "sd_status s \<notin> {''canceled'', ''incomplete_expired''} \<Longrightarrow> synced_plan (read_subscription s) org =
     (case price_plan (first_price s) of Some plan \<Rightarrow> plan | None \<Rightarrow> org_plan org)"
  by (auto simp: synced_plan_def read_subscription_def map_status_def split: option.splits)

end
