(* ===== verification/Access.thy ===== *)
theory Access
  imports ErrorContract AppProperties
begin

text \<open>
  Who may do what, over whole requests of the application: the principal behind a request as
  a function of its headers and the database, and the role each route asks for. The routes
  are those of the theory App.
\<close>

subsection \<open>The principal of a request\<close>

definition bearer_principal :: "ext \<Rightarrow> token_config \<Rightarrow> env \<Rightarrow> string option \<Rightarrow> actor option" where
  "bearer_principal x cfg v header =
     (case header of
        None \<Rightarrow> None
      | Some h \<Rightarrow>
          if take 7 h \<noteq> bearer_prefix then None
          else (case verify_access_token x cfg v (drop 7 h) of
                  Inl _ \<Rightarrow> None
                | Inr cl \<Rightarrow> Some \<lparr>actor_tenant_id = tenant_id cl, actor_user_id = sub cl, actor_role = claim_role cl\<rparr>))"

definition live_key :: "ext \<Rightarrow> bool \<Rightarrow> string \<Rightarrow> db \<Rightarrow> api_key_row option" where
  "live_key x bypass key d =
     (case key_row bypass (hash_key x key) d of
        None \<Rightarrow> None
      | Some row \<Rightarrow> if ak_revoked_at row = None then Some row else None)"

definition presented_key :: "headers \<Rightarrow> string option" where
  "presented_key h = (case hd_api_key h of None \<Rightarrow> None | Some k \<Rightarrow> if k = [] then None else Some k)"

definition principal :: "ext \<Rightarrow> token_config \<Rightarrow> env \<Rightarrow> bool \<Rightarrow> headers \<Rightarrow> bool \<Rightarrow> db \<Rightarrow> actor option" where
  "principal x cfg v keys h bypass d =
     (case presented_key h of
        None \<Rightarrow> bearer_principal x cfg v (hd_authorization h)
      | Some key \<Rightarrow>
          if \<not> keys then None
          else map_option (\<lambda>row. \<lparr>actor_tenant_id = ak_tenant_id row, actor_user_id = ak_id row, actor_role = Member\<rparr>)
                 (live_key x bypass key d))"

text \<open>Authentication writes one thing only: when a key was last used.\<close>

definition touched :: "ext \<Rightarrow> env \<Rightarrow> headers \<Rightarrow> bool \<Rightarrow> db \<Rightarrow> db" where
  "touched x v h bypass d =
     (case presented_key h of
        None \<Rightarrow> d
      | Some key \<Rightarrow> (case live_key x bypass key d of None \<Rightarrow> d | Some row \<Rightarrow> key_used_db v row d))"

lemma authenticate_principal:
  assumes c: "clean (st_conn s)"
  shows "\<exists>m. authenticate x cfg v keys h s =
    (case principal x cfg v keys h (bypass_rls (st_conn s)) (st_db s) of
       None \<Rightarrow> (Inl (AppError (unauthorized m)), s)
     | Some a \<Rightarrow> (Inr a, s\<lparr>st_db := touched x v h (bypass_rls (st_conn s)) (st_db s)\<rparr>))"
proof -
  have bearer: "\<exists>m. authenticate_bearer x cfg v header s =
      (case bearer_principal x cfg v header of
         None \<Rightarrow> (Inl (AppError (unauthorized m)), s) | Some a \<Rightarrow> (Inr a, s))" for header
    by (auto simp: authenticate_bearer_def bearer_principal_def throw_def ret_def split: option.splits sum.splits)
  show ?thesis
  proof (cases "presented_key h")
    case None
    then have "authenticate x cfg v keys h = authenticate_bearer x cfg v (hd_authorization h)"
      by (auto simp: authenticate_def presented_key_def split: option.splits if_splits)
    then show ?thesis
      using bearer [of "hd_authorization h"] None
      by (cases "bearer_principal x cfg v (hd_authorization h)") (auto simp: principal_def touched_def)
  next
    case (Some key)
    then have "authenticate x cfg v keys h =
        (if \<not> keys then throw (AppError (unauthorized ''API keys not enabled''))
         else bnd (authenticate_api_key x v key) (\<lambda>p.
            ret \<lparr>actor_tenant_id = kp_tenant_id p, actor_user_id = kp_key_id p, actor_role = Member\<rparr>))"
      by (auto simp: authenticate_def presented_key_def split: option.splits if_splits)
    then show ?thesis
      using Some
      by (auto simp: principal_def touched_def live_key_def throw_def bnd_def ret_def
          authenticate_api_key_cases [OF c] split: option.splits)
  qed
qed

lemma on_pool_authenticate:
  assumes "clean owner"
  shows "\<exists>m. on_pool owner (authenticate x cfg v keys h) s =
    (case principal x cfg v keys h (bypass_rls owner) (st_db s) of
       None \<Rightarrow> (Inl (AppError (unauthorized m)), s)
     | Some a \<Rightarrow> (Inr a, s\<lparr>st_db := touched x v h (bypass_rls owner) (st_db s)\<rparr>))"
  using authenticate_principal [of "s\<lparr>st_conn := owner\<rparr>" x cfg v keys h] assms
  by (auto simp: on_pool_def split: option.splits)

subsection \<open>The role a route asks for\<close>

fun tenant_call_role :: "tenant_call \<Rightarrow> role" where
  "tenant_call_role (CreateKey n) = Admin"
| "tenant_call_role (RevokeKey i) = Admin"
| "tenant_call_role Export = Admin"
| "tenant_call_role call = Member"

fun owner_call_role :: "owner_call \<Rightarrow> role" where
  "owner_call_role DeleteTenant = Owner"
| "owner_call_role call = Admin"

text \<open>Whether a protected request may carry an API key, and the least role; \<open>None\<close>: public.\<close>

definition protection :: "app_request \<Rightarrow> (bool \<times> role) option" where
  "protection req =
     (case req of
        TenantRequest call \<Rightarrow> Some (True, tenant_call_role call)
      | OwnerRequest call \<Rightarrow> map_option (\<lambda>keys. (keys, owner_call_role call)) (route_auth call)
      | _ \<Rightarrow> None)"

lemma tenant_handler_forbidden:
  "\<not> has_min_role (actor_role a) (tenant_call_role call) \<Longrightarrow>
   route_handler x cod owner v call a s = (Inl (AppError forbidden_default), s)"
  by (cases call) (simp_all add: key_create_def key_revoke_def export_create_def require_admin_def
      require_role_def andthen_def bnd_def lift_sum_def)

lemma owner_handler_forbidden:
  "route_auth call = Some keys \<Longrightarrow> \<not> has_min_role (actor_role a) (owner_call_role call) \<Longrightarrow>
   owner_handler x cfg gw w bc v call (Some a) s = (Inl (AppError forbidden_default), s)"
  by (cases call) (simp_all add: owner_route_defs with_auth_def create_invitation_def change_role_def
      require_role_def andthen_def bnd_def lift_sum_def)

subsection \<open>Access control\<close>

definition refused :: "nat set \<Rightarrow> 'a reply \<Rightarrow> bool" where
  "refused codes rep \<longleftrightarrow> fst rep \<in> codes \<and> (\<exists>env. snd rep = Inl env)"

lemma refused_reply:
  "refused {400} (error_reply rid ThrownValidation)"
  "refused {401} (error_reply rid (ThrownExn (AppError (unauthorized m))))"
  "refused {403} (error_reply rid (ThrownExn (AppError (forbidden m))))"
  "refused {403} (error_reply rid (ThrownExn (AppError forbidden_default)))"
  "refused {404} (not_found_reply r)"
  by (simp_all add: refused_def error_reply_def not_found_reply_def not_found_handler_def error_handler_def
      unauthorized_def forbidden_def app_error_def)

lemma refused_mono: "refused codes rep \<Longrightarrow> codes \<subseteq> codes' \<Longrightarrow> refused codes' rep"
  by (auto simp: refused_def)

lemmas refused_either =
  refused_reply(1,2) [THEN refused_mono, of "{400, 401}", simplified]
  refused_reply(1,3,4) [THEN refused_mono, of "{400, 403}", simplified]

lemma tenant_unauthenticated:
  assumes c: "clean (st_conn s)" and kept: "\<And>a. tracks tx_kept (handler a)"
    and auth: "on_pool owner auth s = (Inl (AppError (unauthorized m)), s)"
    and run: "tenant_request rid cf owner valid auth limit handler s = (rep, s')"
  shows "s' = s \<and> refused {400, 401} rep"
  using run unfolding tenant_request_cases [where handler = handler, OF c kept] auth
  by (auto simp: refused_either split: if_splits)

lemma tenant_forbidden:
  assumes c: "clean (st_conn s)" and kept: "\<And>a. tracks tx_kept (handler a)"
    and auth: "on_pool owner auth s = (Inr a, s1)"
    and no: "\<And>s. handler a s = (Inl (AppError forbidden_default), s)"
    and run: "tenant_request rid cf owner valid auth (\<lambda>_. ret ()) handler s = (rep, s')"
  shows "refused {400, 403} rep \<and> st_calls s' = st_calls (if valid then s1 else s)
    \<and> st_db s' = st_db (if valid then s1 else s)"
proof -
  have "clean (st_conn s1)" using on_pool_conn [of owner auth s] auth c by simp
  note undone = rollback_open(2) [OF this]
  show ?thesis
    using run unfolding tenant_request_cases [where handler = handler, OF c kept] auth
    by (auto simp: refused_either no undone in_tenant_tx_def rollback_tx_def split: if_splits)
qed


lemma privileged_not_limited: "\<not> has_min_role r (tenant_call_role call) \<Longrightarrow> \<not> limited_call call"
  by (cases r; cases call) (simp_all add: has_min_role_def)

definition only_touched :: "deps \<Rightarrow> request_input \<Rightarrow> app_state \<Rightarrow> app_state \<Rightarrow> bool" where
  "only_touched dp r z z' \<longleftrightarrow>
     ap_db z' \<in> {ap_db z, touched (d_ext dp) (ri_env r) (ri_headers r) (bypass_rls (ap_owner z)) (ap_db z)}
     \<and> ap_calls z' = ap_calls z \<and> ap_limiter z' = ap_limiter z \<and> ap_owner z' = ap_owner z"

lemma tenant_route_access:
  assumes o: "clean (ap_owner z)" and p: "clean (ap_app z)"
    and run: "tenant_route dp r call z = (rep, z')"
  shows "case principal (d_ext dp) (d_tokens dp) (ri_env r) True (ri_headers r) (bypass_rls (ap_owner z)) (ap_db z) of
      None \<Rightarrow> z' = z \<and> refused {400, 401} rep
    | Some a \<Rightarrow> \<not> has_min_role (actor_role a) (tenant_call_role call) \<longrightarrow>
        refused {400, 403} rep \<and> only_touched dp r z z'"
proof -
  let ?s = "\<lparr>st_db = ap_db z, st_conn = ap_app z, st_calls = ap_calls z\<rparr>"
  let ?pr = "principal (d_ext dp) (d_tokens dp) (ri_env r) True (ri_headers r) (bypass_rls (ap_owner z)) (ap_db z)"
  let ?d = "touched (d_ext dp) (ri_env r) (ri_headers r) (bypass_rls (ap_owner z)) (ap_db z)"
  let ?limited = "d_limiter dp \<and> limited_call call"
  let ?lim = "if ?limited then limit_gate (ri_clocks r) (is_read_call call) (ap_limiter z) else (\<lambda>_. ret ())"
  obtain rep1 s' where t: "tenant_request (ri_request_id r) (ri_commit_fails r) (ap_owner z) (valid_call call)
      (tenant_auth dp r) ?lim (route_handler (d_ext dp) (d_codec dp) (ap_owner z) (ri_env r) call) ?s = (rep1, s')"
    by fastforce
  obtain m where auth: "on_pool (ap_owner z) (tenant_auth dp r) ?s =
      (case ?pr of None \<Rightarrow> (Inl (AppError (unauthorized m)), ?s) | Some a \<Rightarrow> (Inr a, ?s\<lparr>st_db := ?d\<rparr>))"
    using on_pool_authenticate [OF o, of "d_ext dp" "d_tokens dp" "ri_env r" True "ri_headers r" ?s]
    unfolding tenant_auth_def state.simps by blast
  have c: "clean (st_conn ?s)" using p by simp
  have z: "rep1 = rep" "z' = z\<lparr>ap_db := st_db s', ap_calls := st_calls s', ap_app := st_conn s',
      ap_limiter := (if ?limited \<and> valid_call call
        then limiter_after (ri_clocks r) (is_read_call call) (ap_owner z) (tenant_auth dp r) ?s (ap_limiter z)
        else ap_limiter z)\<rparr>"
    using run t by (auto simp: tenant_route_def Let_def)
  show ?thesis
  proof (cases ?pr)
    case None
    then have a: "on_pool (ap_owner z) (tenant_auth dp r) ?s = (Inl (AppError (unauthorized m)), ?s)"
      using auth by simp
    have "limiter_after ck rd (ap_owner z) (tenant_auth dp r) ?s l = l" for ck rd l
      by (simp add: limiter_after_def a)
    then show ?thesis
      using tenant_unauthenticated [where handler = "route_handler (d_ext dp) (d_codec dp) (ap_owner z) (ri_env r) call",
          OF c handler_kept a t] z None by simp
  next
    case (Some a)
    have auth': "on_pool (ap_owner z) (tenant_auth dp r) ?s = (Inr a, ?s\<lparr>st_db := ?d\<rparr>)" using auth Some by simp
    show ?thesis
    proof (cases "has_min_role (actor_role a) (tenant_call_role call)")
      case True
      then show ?thesis using Some by simp
    next
      case False
      have nl: "\<not> limited_call call" by (rule privileged_not_limited [OF False])
      have t': "tenant_request (ri_request_id r) (ri_commit_fails r) (ap_owner z) (valid_call call)
          (tenant_auth dp r) (\<lambda>_. ret ()) (route_handler (d_ext dp) (d_codec dp) (ap_owner z) (ri_env r) call) ?s
          = (rep1, s')" using t nl by simp
      show ?thesis
        using tenant_forbidden [OF c handler_kept auth' tenant_handler_forbidden [OF False] t'] z Some nl
        by (auto simp: only_touched_def)
    qed
  qed
qed


lemma owner_request_actor:
  assumes auth: "route_actor x cfg v h call s = (Inr (Some a), s1)"
    and no: "\<And>s. handler (Some a) s = (Inl (AppError forbidden_default), s)"
  shows "owner_request rid valid (ret ()) (route_actor x cfg v h call) handler s =
    (if valid then (error_reply rid (ThrownExn (AppError forbidden_default)), s1)
     else (error_reply rid ThrownValidation, s))"
  by (simp add: owner_request_def andthen_def bnd_def ret_def auth no)

lemma owner_route_access:
  assumes o: "clean (ap_owner z)" and keys: "route_auth call = Some keys"
    and run: "owner_route dp r call z = (rep, z')"
  shows "case principal (d_ext dp) (d_tokens dp) (ri_env r) keys (ri_headers r) (bypass_rls (ap_owner z)) (ap_db z) of
      None \<Rightarrow> z' = z \<and> refused {400, 401} rep
    | Some a \<Rightarrow> \<not> has_min_role (actor_role a) (owner_call_role call) \<longrightarrow>
        refused {400, 403} rep \<and> only_touched dp r z z'"
proof -
  let ?s = "\<lparr>st_db = ap_db z, st_conn = ap_owner z, st_calls = ap_calls z\<rparr>"
  let ?pr = "principal (d_ext dp) (d_tokens dp) (ri_env r) keys (ri_headers r) (bypass_rls (ap_owner z)) (ap_db z)"
  let ?d = "touched (d_ext dp) (ri_env r) (ri_headers r) (bypass_rls (ap_owner z)) (ap_db z)"
  let ?act = "route_actor (d_ext dp) (d_tokens dp) (ri_env r) (ri_headers r) call"
  let ?handler = "owner_handler (d_ext dp) (d_tokens dp) (d_gateway dp) (d_wire dp) (d_billing dp) (ri_env r) call"
  have ip: "ip_class call = None" using keys by (cases call) simp_all
  have c: "clean (st_conn ?s)" using o by simp
  have gate: "lift_sum (Inr ()) = (ret () :: unit io)" by (rule ext) (simp add: lift_sum_def ret_def)
  obtain m where au: "authenticate (d_ext dp) (d_tokens dp) (ri_env r) keys (ri_headers r) ?s =
      (case ?pr of None \<Rightarrow> (Inl (AppError (unauthorized m)), ?s) | Some a \<Rightarrow> (Inr a, ?s\<lparr>st_db := ?d\<rparr>))"
    using authenticate_principal [OF c, of "d_ext dp" "d_tokens dp" "ri_env r" keys "ri_headers r"]
    unfolding state.simps by blast
  have auth: "?act ?s =
      (case ?pr of None \<Rightarrow> (Inl (AppError (unauthorized m)), ?s) | Some a \<Rightarrow> (Inr (Some a), ?s\<lparr>st_db := ?d\<rparr>))"
    by (simp add: route_actor_def keys bnd_def au ret_def split: option.splits)
  have z: "rep = fst (owner_request (ri_request_id r) (valid_owner_call (d_wire dp) call) (ret ()) ?act ?handler ?s)"
    "z' = z\<lparr>ap_db := st_db (snd (owner_request (ri_request_id r) (valid_owner_call (d_wire dp) call) (ret ()) ?act ?handler ?s)),
       ap_calls := st_calls (snd (owner_request (ri_request_id r) (valid_owner_call (d_wire dp) call) (ret ()) ?act ?handler ?s)),
       ap_owner := st_conn (snd (owner_request (ri_request_id r) (valid_owner_call (d_wire dp) call) (ret ()) ?act ?handler ?s))\<rparr>"
    using run by (auto simp: owner_route_def Let_def ip verdict_def gate split: prod.splits)
  show ?thesis
  proof (cases ?pr)
    case None
    then have "owner_request (ri_request_id r) ok (ret ()) ?act ?handler ?s =
        (if ok then error_reply (ri_request_id r) (ThrownExn (AppError (unauthorized m)))
         else error_reply (ri_request_id r) ThrownValidation, ?s)" for ok
      by (simp add: owner_request_def andthen_def bnd_def ret_def auth)
    then show ?thesis
      using z None by (simp add: refused_either)
  next
    case (Some a)
    have auth': "?act ?s = (Inr (Some a), ?s\<lparr>st_db := ?d\<rparr>)" using auth Some by simp
    show ?thesis
    proof (cases "has_min_role (actor_role a) (owner_call_role call)")
      case True
      then show ?thesis using Some by simp
    next
      case False
      show ?thesis
        using z Some owner_request_actor [where handler = ?handler, OF auth' owner_handler_forbidden [OF keys False]]
        by (auto simp: only_touched_def refused_either)
    qed
  qed
qed


text \<open>
  C3: Nothing happens without authority. A request on a protected route that presents no valid
  credential (a verified access token, or, where keys are accepted, a key that is stored and
  not revoked) is answered 400, 401 or, when billing is not configured, 404, and changes
  nothing at all. A request whose principal has less than the route's least role (administrator
  for keys, exports, invitations, role changes and billing; owner for cancelling the tenant) is
  answered 400, 403 or 404 and changes no row, no Stripe call and no bucket, except that an
  API key it presented is marked as used.
\<close>
theorem access_control:
  assumes "clean (ap_owner z)" and "clean (ap_app z)"
    and "protection req = Some (keys, need)"
    and "app_step dp r req z = (rep, z')"
  shows "case principal (d_ext dp) (d_tokens dp) (ri_env r) keys (ri_headers r) (bypass_rls (ap_owner z)) (ap_db z) of
      None \<Rightarrow> z' = z \<and> refused {400, 401, 404} rep
    | Some a \<Rightarrow> \<not> has_min_role (actor_role a) need \<longrightarrow>
        refused {400, 403, 404} rep \<and> only_touched dp r z z'"
proof (cases req)
  case (TenantRequest call)
  obtain rep1 where run: "tenant_route dp r call z = (rep1, z')" "rep = fst (map_reply BTenant (rep1, z'))"
    using assms(4) TenantRequest by (metis app_step.simps(1) fst_conv prod.collapse snd_conv snd_map_reply)
  have "refused codes rep" if "refused codes rep1" for codes
    using that run(2) by (auto simp: refused_def map_reply_def split: prod.splits sum.splits)
  then show ?thesis
    using tenant_route_access [OF assms(1,2) run(1)] assms(3) TenantRequest
    by (auto simp: protection_def split: option.splits intro: refused_mono)
next
  case (OwnerRequest call)
  have keys: "route_auth call = Some keys" "need = owner_call_role call"
    using assms(3) OwnerRequest by (auto simp: protection_def)
  show ?thesis
  proof (cases "is_billing_call call \<and> \<not> d_stripe dp")
    case True
    then have "z' = z" "refused {404} rep" using assms(4) OwnerRequest refused_reply(5) by auto
    then show ?thesis by (auto simp: only_touched_def split: option.splits intro: refused_mono)
  next
    case False
    obtain rep1 where run: "owner_route dp r call z = (rep1, z')" "rep = fst (map_reply BOwner (rep1, z'))"
      using assms(4) OwnerRequest False by (metis app_step.simps(2) fst_conv prod.collapse snd_conv snd_map_reply)
    have "refused codes rep" if "refused codes rep1" for codes
      using that run(2) by (auto simp: refused_def map_reply_def split: prod.splits sum.splits)
    then show ?thesis
      using owner_route_access [OF assms(1) keys(1) run(1)] keys(2)
      by (auto split: option.splits intro: refused_mono)
  qed
qed (use assms(3) in \<open>simp_all add: protection_def\<close>)

text \<open>A member who asks to cancel the tenant.\<close>

definition member_headers :: headers where
  "member_headers = \<lparr>hd_api_key = None, hd_authorization = Some (bearer_prefix @
     sign_access_token sample_ext sample_config (sample_env 0) \<lparr>sub = 5, tenant_id = 1, claim_role = Member\<rparr>)\<rparr>"

lemma access_control_witness:
  "refused {400, 403, 404} (fst (app_step sample_deps ((sample_input 0)\<lparr>ri_headers := member_headers\<rparr>)
     (OwnerRequest DeleteTenant) sample_start))"
proof -
  have "principal sample_ext sample_config (sample_env 0) True member_headers True empty_db =
      Some \<lparr>actor_tenant_id = 1, actor_user_id = 5, actor_role = Member\<rparr>"
    using verify_sign_access_token [OF jwt_ok_sample, of "sample_env 0" "sample_env 0" sample_config]
    by (simp add: principal_def presented_key_def member_headers_def bearer_principal_def bearer_prefix_def
        sample_config_def)
  then show ?thesis
    using access_control [OF _ _ _ prod.collapse [symmetric], of sample_start "OwnerRequest DeleteTenant" True
        Owner sample_deps "(sample_input 0)\<lparr>ri_headers := member_headers\<rparr>"]
    by (simp add: sample_start_def sample_deps_def sample_input_def protection_def fresh_conn_def clean_def
        has_min_role_def)
qed

end
