(* ===== verification/Parts.thy ===== *)
theory Parts
  imports Access
begin

text \<open>
  Which tables a request can change. A part of the database that no statement of an operation
  writes is kept by the operation, through transactions and rollbacks. The locale
  \<open>ledger_part\<close> is a part outside the tables that billing, webhooks and authentication write;
  \<open>api_part\<close> is one that the tenant routes leave alone as well, \<open>owner_part\<close> one that the
  services of the owner pool leave alone.
\<close>

subsection \<open>A part of the database that requests keep\<close>

definition part_is :: "(db \<Rightarrow> 'p) \<Rightarrow> 'p \<Rightarrow> state \<Rightarrow> bool" where
  "part_is get p s \<longleftrightarrow> get (st_db s) = p \<and>
     (case tx (st_conn s) of NoTx \<Rightarrow> True | InTx d \<Rightarrow> get d = p | Aborted d \<Rightarrow> get d = p)"

definition keeps_part :: "(db \<Rightarrow> 'p) \<Rightarrow> state \<Rightarrow> state \<Rightarrow> bool" where
  "keeps_part get s s' \<longleftrightarrow> (\<forall>p. part_is get p s \<longrightarrow> part_is get p s')"

interpretation kp: state_order "keeps_part get" for get
  by unfold_locales (auto simp: keeps_part_def)

lemma part_exec:
  assumes "\<And>c d a d'. q c d = Inr (a, d') \<Longrightarrow> get d' = get d"
  shows "tracks (keeps_part get) (exec q)"
  unfolding tracks_def keeps_part_def part_is_def exec_def abort_tx_def
  using assms by (auto split: tx_state.splits sum.splits prod.splits)

lemma part_tx:
  "tracks (keeps_part get) begin_tx" "tracks (keeps_part get) commit_tx" "tracks (keeps_part get) rollback_tx"
  "tracks (keeps_part get) (set_config_local t)" "tracks (keeps_part get) reset_tenant"
  "tracks (keeps_part get) (log_call c)"
  by (auto simp: tracks_def keeps_part_def part_is_def begin_tx_def commit_tx_def rollback_tx_def
      set_config_local_def reset_tenant_def log_call_def end_tx_def split: tx_state.splits)

text \<open>Statements on a table outside the part, and statements that only read.\<close>

lemma part_insert:
  "(\<And>f d. get (upd f d) = get d) \<Longrightarrow> tracks (keeps_part get) (exec (q_insert tab upd ten clash fk row))"
  "(\<And>f d. get (upd f d) = get d) \<Longrightarrow> tracks (keeps_part get) (exec (q_update tab upd ten p g))"
  "(\<And>f d. get (upd f d) = get d) \<Longrightarrow> tracks (keeps_part get) (exec (q_delete tab upd ten p))"
  by (rule part_exec; auto simp: q_insert_def q_update_def q_delete_def Let_def split: if_splits)+

lemma part_reads:
  "tracks (keeps_part get) (exec (q_select tab ten p))" "tracks (keeps_part get) (exec (q_select_orgs po))"
  "tracks (keeps_part get) (exec (q_list_projects cod bound k))"
  by (rule part_exec; auto simp: q_select_def q_select_orgs_def q_list_projects_def
      split: option.splits prod.splits)+

lemma part_select_all: "tracks (keeps_part get) (select_all table)"
  unfolding select_all_def by (intro kp.tracks_intros tracks_if part_reads)

lemma part_enforce: "tracks (keeps_part get) (enforce_write owner a)"
  by (simp add: tracks_def enforce_read kp.order_refl)

lemma part_customer: "tracks (keeps_part get) (exec (q_customer t))"
  by (rule part_exec) (auto simp: q_customer_def)


lemma part_ask: "tracks (keeps_part get) (ask call answer)"
  by (simp add: tracks_def ask_def keeps_part_def part_is_def)

subsection \<open>Billing, webhooks and authentication\<close>

locale ledger_part =
  fixes get :: "db \<Rightarrow> 'p"
  assumes part_audit: "get (audit_log_update f2 d) = get d"
    and part_keys: "get (api_keys_update f3 d) = get d"
    and part_orgs: "get (organizations_update f4 d) = get d"
    and part_subs: "get (subscriptions_update f5 d) = get d"
    and part_ledger: "get (processed_webhooks_update f6 d) = get d"
begin

lemma part_writes:
  "tracks (keeps_part get) (insert_audit arow)" "tracks (keeps_part get) (insert_api_key krow)"
  "tracks (keeps_part get) (update_api_keys pk gk)"
  by (rule part_insert; rule part_audit part_keys)+

lemma part_set_customer: "tracks (keeps_part get) (exec (q_update_org p f))"
  by (rule part_exec) (auto simp: q_update_org_def part_orgs split: if_splits)

lemma part_ledger_insert: "tracks (keeps_part get) (exec (q_insert_webhook w))"
  by (rule part_exec) (auto simp: q_insert_webhook_def part_ledger split: if_splits)

lemma part_upsert: "tracks (keeps_part get) (exec (q_upsert_subscription row))"
  by (rule part_exec) (auto simp: q_upsert_subscription_def part_subs split: if_splits)

lemmas part_intros = kp.tracks_intros tracks_if tx_kept_if_option part_tx part_reads part_writes
  part_set_customer part_ledger_insert part_upsert part_customer part_ask

lemma part_billing: "tracks (keeps_part get) (start_checkout gw i)" "tracks (keeps_part get) (open_portal gw t url)"
proof -
  have "tracks (keeps_part get) (ensure_customer gw t)" for t
    unfolding ensure_customer_def ensure_body_def set_customer_def wrapped_def
    by (auto intro!: part_intros split: option.splits prod.splits)
  then show "tracks (keeps_part get) (start_checkout gw i)" "tracks (keeps_part get) (open_portal gw t url)"
    unfolding start_checkout_def open_portal_def wrapped_def
    by (auto intro!: part_intros split: option.splits prod.splits)
qed

lemma part_webhook: "tracks (keeps_part get) (process_webhook_event gw v ev)"
proof -
  have "tracks (keeps_part get) (webhook_sync v ev ss)" for ss
    unfolding webhook_sync_def ledger_insert_def sync_org_def by (intro part_intros)
  then show ?thesis
    unfolding process_webhook_event_def record_only_def webhook_fetch_def wrapped_def
    by (intro part_intros)
qed

lemma part_authenticate: "tracks (keeps_part get) (authenticate x cfg v keys h)"
proof -
  have key: "tracks (keeps_part get) (authenticate_api_key x v key)" for key
    unfolding authenticate_api_key_def by (intro part_intros)
  show ?thesis
    unfolding authenticate_def authenticate_bearer_def
    by (auto intro!: part_intros key split: option.splits sum.splits)
qed

lemma part_on_pool:
  assumes "tracks (keeps_part get) m" and "clean owner" and "on_pool owner m s = (r, s')"
  shows "get (st_db s') = get (st_db s)" "st_conn s' = st_conn s"
proof -
  obtain s1 where s1: "m (s\<lparr>st_conn := owner\<rparr>) = (r, s1)" "s' = s1\<lparr>st_conn := st_conn s\<rparr>"
    using assms(3) by (auto simp: on_pool_def split: prod.splits)
  have "part_is get (get (st_db s)) (s\<lparr>st_conn := owner\<rparr>)"
    using assms(2) by (simp add: part_is_def clean_def)
  then show "get (st_db s') = get (st_db s)"
    using tracksD [OF assms(1) s1(1)] s1(2) by (simp add: keeps_part_def part_is_def)
  show "st_conn s' = st_conn s" using s1 by simp
qed

lemma part_webhook_route:
  assumes "clean (ap_owner z)"
  shows "get (ap_db (snd (webhook_route dp r sg body z))) = get (ap_db z)"
proof -
  let ?s = "\<lparr>st_db = ap_db z, st_conn = ap_owner z, st_calls = ap_calls z\<rparr>"
  have "get (st_db s') = get (ap_db z)" if run: "process_webhook_event gw v ev ?s = (out, s')" for gw v ev out s'
  proof -
    have "part_is get (get (ap_db z)) ?s" using assms by (simp add: part_is_def clean_def)
    then show ?thesis using tracksD [OF part_webhook run] by (simp add: keeps_part_def part_is_def)
  qed
  then have "get (st_db (snd (webhook_request (d_gateway dp) (ri_env r) (ri_request_id r) sg body ?s))) = get (ap_db z)"
    by (simp add: webhook_request_def split: option.splits sum.splits prod.splits)
  then show ?thesis by (simp add: webhook_route_def case_prod_beta)
qed

end

subsection \<open>The tenant routes\<close>

locale api_part = ledger_part +
  assumes part_projects: "get (projects_update f1 d) = get d"
begin

lemma part_project_writes:
  "tracks (keeps_part get) (insert_project prow)" "tracks (keeps_part get) (delete_projects pp)"
  by (rule part_insert; rule part_projects)+

lemma part_returning: "tracks (keeps_part get) (exec (q_update_returning p f))"
  by (rule part_exec)
    (auto simp: q_update_returning_def q_update_def Let_def part_projects split: sum.splits if_splits)

end

sublocale api_part \<subseteq> api: route_statements "keeps_part get" UNIV UNIV
  by unfold_locales
    (intro part_writes part_project_writes part_reads part_returning part_select_all part_enforce)+

context api_part
begin

lemma part_handler: "tracks (keeps_part get) (route_handler x cod owner v call a)"
  by (rule api.tr_handler) simp_all

lemma part_in_tx:
  assumes "tracks (keeps_part get) handler" and "handler (in_tenant_tx t s) = (r, s3)"
  shows "get (kept_db s status cf s3) = get (st_db s)"
proof -
  have "part_is get (get (st_db s)) (in_tenant_tx t s)" by (simp add: part_is_def)
  then have "part_is get (get (st_db s)) s3"
    using tracksD [OF assms] by (simp add: keeps_part_def)
  then show ?thesis by (auto simp: kept_db_def committed_db_def part_is_def split: tx_state.splits)
qed

lemma part_request:
  assumes c: "clean (st_conn s)" and o: "clean owner"
    and auth: "tracks (keeps_part get) auth" and limit: "\<And>a. tracks (keeps_part get) (limit a)"
    and kept: "\<And>a. tracks tx_kept (handler a)" and handler: "\<And>a. tracks (keeps_part get) (handler a)"
    and run: "tenant_request rid cf owner valid auth limit handler s = (rep, s')"
  shows "get (st_db s') = get (st_db s)"
proof -
  note cases = run [unfolded tenant_request_cases [where handler = handler, OF c kept]]
  obtain r1 s1 where a: "on_pool owner auth s = (r1, s1)" by fastforce
  note s1 = part_on_pool [OF auth o a]
  show ?thesis
  proof (cases "valid \<and> (\<exists>act. r1 = Inr act)")
    case False
    then show ?thesis using cases a s1 by (cases r1) (auto split: if_splits)
  next
    case True
    then obtain act where act: "r1 = Inr act" "valid" by blast
    obtain r2 s2 where l: "on_pool owner (limit act) s1 = (r2, s2)" by fastforce
    have s2: "get (st_db s2) = get (st_db s)" "st_conn s2 = st_conn s"
      using part_on_pool [OF limit o l] s1 by simp_all
    have c2: "clean (st_conn s2)" using s2 c by simp
    obtain r3 s3 where h: "handler act (in_tenant_tx (actor_tenant_id act) s2) = (r3, s3)" by fastforce
    show ?thesis
      using cases act a l h s2 part_in_tx [OF handler h] rollback_open [OF c2]
      by (cases r2; cases r3) (auto split: if_splits prod.splits)
  qed
qed

lemma part_tenant_route:
  assumes "clean (ap_owner z)" and "clean (ap_app z)"
  shows "get (ap_db (snd (tenant_route dp r call z))) = get (ap_db z)"
proof -
  let ?s = "\<lparr>st_db = ap_db z, st_conn = ap_app z, st_calls = ap_calls z\<rparr>"
  let ?lim = "if d_limiter dp \<and> limited_call call
    then limit_gate (ri_clocks r) (is_read_call call) (ap_limiter z) else (\<lambda>_. ret ())"
  obtain rep s' where run: "tenant_request (ri_request_id r) (ri_commit_fails r) (ap_owner z) (valid_call call)
      (tenant_auth dp r) ?lim (route_handler (d_ext dp) (d_codec dp) (ap_owner z) (ri_env r) call) ?s = (rep, s')"
    by fastforce
  have plan: "tracks (keeps_part get) (plan_of t)" for t
    unfolding plan_of_def by (intro part_intros)
  have gate: "tracks (keeps_part get) (limit_gate ck rd l a)" for ck rd l a
    using plan [of "actor_tenant_id a"] by (simp add: tracks_def limit_gate_def case_prod_beta)
  have lim: "tracks (keeps_part get) (?lim a)" for a by (simp add: gate kp.tracks_ret)
  have auth: "tracks (keeps_part get) (tenant_auth dp r)" by (simp add: tenant_auth_def part_authenticate)
  have "get (st_db s') = get (st_db ?s)"
    by (rule part_request [OF _ _ auth lim handler_kept part_handler run]) (use assms in simp_all)
  then show ?thesis using run by (simp add: tenant_route_def Let_def)
qed

end

end
