(* ===== verification/AppSessions.thy ===== *)
theory AppSessions
  imports Parts SessionProperties
begin

text \<open>
  Sessions over runs of the whole application. Requests that are not authentication or team
  services leave the identity tables alone (theory Parts); with the histories of the
  theory Sessions, revocation is permanent and a dead family stays dead over any sequence of
  requests.
\<close>

subsection \<open>The identity tables\<close>

definition identity_part :: "db \<Rightarrow> user_row list \<times> refresh_token_row list \<times> auth_token_row list \<times> invitation_row list" where
  "identity_part d = (users d, refresh_tokens d, auth_tokens d, invitations d)"

interpretation idp: api_part identity_part
  by unfold_locales (simp_all add: identity_part_def)

interpretation rtp: api_part refresh_tokens
  by unfold_locales simp_all

lemma identity_touched: "identity_part (touched x v h bypass d) = identity_part d"
  by (simp add: touched_def identity_part_def key_used_db_def split: option.splits)

lemma route_actor_cases:
  assumes "clean (st_conn s)"
  shows "(\<exists>e. route_actor x cfg v h call s = (Inl e, s)) \<or>
    (\<exists>auth d. route_actor x cfg v h call s = (Inr auth, s\<lparr>st_db := d\<rparr>) \<and> identity_part d = identity_part (st_db s))"
proof (cases "route_auth call")
  case None
  then have "route_actor x cfg v h call s = (Inr None, s\<lparr>st_db := st_db s\<rparr>)"
    by (simp add: route_actor_def ret_def)
  then show ?thesis by blast
next
  case (Some keys)
  let ?d = "touched x v h (bypass_rls (st_conn s)) (st_db s)"
  obtain m where m: "authenticate x cfg v keys h s =
      (case principal x cfg v keys h (bypass_rls (st_conn s)) (st_db s) of
         None \<Rightarrow> (Inl (AppError (unauthorized m)), s) | Some a \<Rightarrow> (Inr a, s\<lparr>st_db := ?d\<rparr>))"
    using authenticate_principal [OF assms] by blast
  show ?thesis
  proof (cases "principal x cfg v keys h (bypass_rls (st_conn s)) (st_db s)")
    case None
    then show ?thesis using m Some by (simp add: route_actor_def bnd_def)
  next
    case (Some a)
    then have "route_actor x cfg v h call s = (Inr (Some a), s\<lparr>st_db := ?d\<rparr>)"
      using m \<open>route_auth call = Some keys\<close> by (simp add: route_actor_def bnd_def ret_def)
    then show ?thesis using identity_touched by blast
  qed
qed

text \<open>
  A request on the owner pool either does not reach its handler, and changes nothing, or runs it on
  a database with the same identities.
\<close>

lemma owner_route_runs:
  assumes "clean (ap_owner z)"
  shows "(ap_db (snd (owner_route dp r call z)) = ap_db z \<and> ap_owner (snd (owner_route dp r call z)) = ap_owner z
      \<and> (\<exists>env. snd (fst (owner_route dp r call z)) = Inl env)) \<or>
    (\<exists>auth d out s'. identity_part d = identity_part (ap_db z) \<and>
       owner_handler (d_ext dp) (d_tokens dp) (d_gateway dp) (d_wire dp) (d_billing dp) (ri_env r) call auth
         \<lparr>st_db = d, st_conn = ap_owner z, st_calls = ap_calls z\<rparr> = (out, s') \<and>
       ap_db (snd (owner_route dp r call z)) = st_db s' \<and> ap_owner (snd (owner_route dp r call z)) = st_conn s' \<and>
       (case out of Inl e \<Rightarrow> \<exists>env. snd (fst (owner_route dp r call z)) = Inl env
          | Inr (status, body) \<Rightarrow> fst (owner_route dp r call z) = (status, Inr body)))"
proof -
  let ?s = "\<lparr>st_db = ap_db z, st_conn = ap_owner z, st_calls = ap_calls z\<rparr>"
  let ?h = "owner_handler (d_ext dp) (d_tokens dp) (d_gateway dp) (d_wire dp) (d_billing dp) (ri_env r) call"
  let ?act = "route_actor (d_ext dp) (d_tokens dp) (ri_env r) (ri_headers r) call"
  obtain valid g l where z: "owner_route dp r call z =
      (case owner_request (ri_request_id r) valid (lift_sum g) ?act ?h ?s of (rep, s') \<Rightarrow>
        (rep, z\<lparr>ap_db := st_db s', ap_calls := st_calls s', ap_owner := st_conn s', ap_limiter := l\<rparr>))"
    unfolding owner_route_def Let_def by blast
  have c: "clean (st_conn ?s)" using assms by simp
  have err: "\<exists>env. snd (error_reply rid t) = Inl env" for rid t
    by (simp add: error_reply_def split: prod.splits)
  show ?thesis
  proof (cases "valid \<and> (\<exists>u. g = Inr u) \<and> (\<exists>a s1. ?act ?s = (Inr a, s1))")
    case False
    then show ?thesis
      using route_actor_cases [OF c, of "d_ext dp" "d_tokens dp" "ri_env r" "ri_headers r" call] err
      by (cases g) (auto simp: z owner_request_def andthen_def bnd_def lift_sum_def)
  next
    case True
    then obtain a s1 where a: "?act ?s = (Inr a, s1)" by blast
    then obtain d where d: "s1 = ?s\<lparr>st_db := d\<rparr>" "identity_part d = identity_part (ap_db z)"
      using route_actor_cases [OF c, of "d_ext dp" "d_tokens dp" "ri_env r" "ri_headers r" call] by auto
    obtain out s' where h: "?h a s1 = (out, s')" by fastforce
    have "?h a \<lparr>st_db = d, st_conn = ap_owner z, st_calls = ap_calls z\<rparr> = (out, s')" using h d(1) by simp
    moreover have "case out of Inl e \<Rightarrow> \<exists>env. snd (fst (owner_route dp r call z)) = Inl env
        | Inr (status, body) \<Rightarrow> fst (owner_route dp r call z) = (status, Inr body)"
      using True a h err
      by (auto simp: z owner_request_def andthen_def bnd_def lift_sum_def split: sum.splits prod.splits)
    moreover have "ap_db (snd (owner_route dp r call z)) = st_db s'" "ap_owner (snd (owner_route dp r call z)) = st_conn s'"
      using True a h
      by (auto simp: z owner_request_def andthen_def bnd_def lift_sum_def split: sum.splits prod.splits)
    ultimately show ?thesis using d(2) by blast
  qed
qed


subsection \<open>Histories of the token table over requests\<close>

lemma bnd_stepD: "bnd m (\<lambda>a. ret (f a)) s = (r, s') \<Longrightarrow> \<exists>r1. m s = (r1, s')"
  by (auto simp: bnd_def ret_def split: prod.splits sum.splits)

lemma bnd_pair_stepD: "bnd m (\<lambda>(a, b). ret (f a b)) s = (r, s') \<Longrightarrow> \<exists>r1. m s = (r1, s')"
  by (auto simp: bnd_def ret_def split: prod.splits sum.splits)

lemma andthen_lift_stepD: "andthen (lift_sum g) m s = (r, s') \<Longrightarrow> s' = s \<or> m s = (r, s')"
  by (auto simp: andthen_def bnd_def lift_sum_def split: sum.splits)

lemma andthen_stepD: "andthen m (ret b) s = (r, s') \<Longrightarrow> \<exists>r1. m s = (r1, s')"
  by (auto simp: andthen_def bnd_def ret_def split: prod.splits sum.splits)

definition login_family_new :: "env \<Rightarrow> owner_call \<Rightarrow> db \<Rightarrow> bool" where
  "login_family_new v call d \<longleftrightarrow>
     (case call of PostLogin email pw \<Rightarrow> \<forall>rt\<in>set (refresh_tokens d). rt_family_id rt \<noteq> new_id v 0 | _ \<Rightarrow> True)"

lemma billing_handler_tokens:
  assumes "clean (st_conn s)" and "is_billing_call call"
    and "owner_handler x cfg gw w bc v call auth s = (r, s')"
  shows "refresh_tokens (st_db s') = refresh_tokens (st_db s)"
proof -
  have "tracks (keeps_part refresh_tokens) (owner_handler x cfg gw w bc v call auth)"
    using assms(2)
    by (cases call)
      (auto simp: owner_route_defs with_auth_def intro!: kp.tracks_intros rtp.part_billing split: option.splits prod.splits)
  from tracksD [OF this assms(3)] show ?thesis
    using assms(1) by (simp add: keeps_part_def part_is_def clean_def)
qed

context token_history
begin

lemma hist_owner_handler:
  assumes c: "clean (st_conn s)" and run: "owner_handler x cfg gw w bc v call auth s = (r, s')"
    and new: "login_family_new v call (st_db s)"
    and adm: "\<And>n. mintable (tokens_of s) n \<Longrightarrow> admissible n"
  shows "P (tokens_of s) (tokens_of s')"
proof (cases "is_billing_call call \<or> s' = s")
  case True
  then have "tokens_of s' = tokens_of s"
    using billing_handler_tokens [OF c _ run] by (auto simp: tokens_of_def)
  then show ?thesis by (simp add: hist_refl)
next
  case False
  have "auth_step x cfg s s'"
    using run False new
    by (cases call; cases auth)
      (auto simp: owner_route_defs with_auth_def login_family_new_def tokens_of_def throw_def
        intro: auth_step.intros dest!: bnd_stepD bnd_pair_stepD andthen_lift_stepD andthen_stepD)
  then show ?thesis by (rule hist_step [OF _ c adm])
qed

end


definition login_new :: "request_input \<Rightarrow> app_request \<Rightarrow> app_state \<Rightarrow> bool" where
  "login_new r req z \<longleftrightarrow>
     (case req of OwnerRequest call \<Rightarrow> login_family_new (ri_env r) call (ap_db z) | _ \<Rightarrow> True)"

context token_history
begin

lemma hist_app_step:
  assumes o: "clean (ap_owner z)" and a: "clean (ap_app z)" and new: "login_new r req z"
    and adm: "\<And>n. mintable (refresh_tokens (ap_db z)) n \<Longrightarrow> admissible n"
  shows "P (refresh_tokens (ap_db z)) (refresh_tokens (ap_db (snd (app_step dp r req z))))"
proof (cases req)
  case (TenantRequest call)
  then show ?thesis using rtp.part_tenant_route [OF o a, of dp r call] by (simp add: hist_refl)
next
  case (OwnerRequest call)
  have "P (refresh_tokens (ap_db z)) (refresh_tokens (ap_db (snd (owner_route dp r call z))))"
    using owner_route_runs [OF o, of dp r call]
  proof
    assume "\<exists>auth d out s'. identity_part d = identity_part (ap_db z) \<and>
       owner_handler (d_ext dp) (d_tokens dp) (d_gateway dp) (d_wire dp) (d_billing dp) (ri_env r) call auth
         \<lparr>st_db = d, st_conn = ap_owner z, st_calls = ap_calls z\<rparr> = (out, s') \<and>
       ap_db (snd (owner_route dp r call z)) = st_db s' \<and> ap_owner (snd (owner_route dp r call z)) = st_conn s' \<and>
       (case out of Inl e \<Rightarrow> \<exists>env. snd (fst (owner_route dp r call z)) = Inl env
          | Inr (status, body) \<Rightarrow> fst (owner_route dp r call z) = (status, Inr body))"
    then obtain auth d out s' where d: "identity_part d = identity_part (ap_db z)"
      and h: "owner_handler (d_ext dp) (d_tokens dp) (d_gateway dp) (d_wire dp) (d_billing dp) (ri_env r) call auth
         \<lparr>st_db = d, st_conn = ap_owner z, st_calls = ap_calls z\<rparr> = (out, s')"
      and s': "ap_db (snd (owner_route dp r call z)) = st_db s'" by blast
    have t: "refresh_tokens d = refresh_tokens (ap_db z)" using d by (simp add: identity_part_def)
    have "login_family_new (ri_env r) call d"
      using new by (cases call) (simp_all add: login_new_def login_family_new_def t OwnerRequest)
    then show ?thesis
      using hist_owner_handler [OF _ h] o adm by (simp add: s' t tokens_of_def)
  qed (simp add: hist_refl)
  then show ?thesis by (simp add: OwnerRequest hist_refl)
next
  case (WebhookRequest sg body)
  then show ?thesis using rtp.part_webhook_route [OF o, of dp r sg body] by (simp add: hist_refl)
qed (simp_all add: hist_refl)

end

text \<open>Runs in which every login mints a family id that is new.\<close>

inductive session_run :: "deps \<Rightarrow> app_state \<Rightarrow> app_state \<Rightarrow> bool" for dp where
  session_refl: "session_run dp z z"
| session_more: "session_run dp z y \<Longrightarrow> login_new r req y \<Longrightarrow> session_run dp z (snd (app_step dp r req y))"

lemma session_run_app: "session_run dp z z' \<Longrightarrow> app_run dp z z'"
  by (induction rule: session_run.induct) (auto intro: app_run.intros)

lemma session_run_sound: "session_run dp z z' \<Longrightarrow> app_sound z \<Longrightarrow> app_sound z'"
  using app_run_sound [OF session_run_app] by blast

lemma session_run_keeps:
  assumes "session_run dp z z'" and "app_sound z"
  shows "keeps_tokens (refresh_tokens (ap_db z)) (refresh_tokens (ap_db z'))"
  using assms
proof (induction rule: session_run.induct)
  case (session_refl z)
  then show ?case by (simp add: kept.hist_refl)
next
  case (session_more z y r req)
  have "app_sound y" using session_run_sound session_more by blast
  then show ?case
    using session_more kept.hist_app_step [of y r req dp] kept.hist_trans by (auto simp: app_sound_def)
qed

lemma session_run_dead:
  assumes "session_run dp z z'" and "app_sound z" and "dead_in f (refresh_tokens (ap_db z))"
  shows "dead_in f (refresh_tokens (ap_db z'))"
  using assms
proof (induction rule: session_run.induct)
  case (session_refl z)
  then show ?case by blast
next
  case (session_more z y r req)
  then have y: "app_sound y" "dead_in f (refresh_tokens (ap_db y))" using session_run_sound by blast+
  have "rt_family_id n \<noteq> f" if "mintable (refresh_tokens (ap_db y)) n" for n
    using that y(2) unfolding mintable_def dead_in_def by metis
  then show ?case
    using dead.hist_app_step [of y r req f dp] y session_more.hyps by (simp add: app_sound_def stays_dead_def)
qed


subsection \<open>An admitted request on the owner pool\<close>

definition ip_admitted :: "deps \<Rightarrow> request_input \<Rightarrow> owner_call \<Rightarrow> app_state \<Rightarrow> bool" where
  "ip_admitted dp r call z \<longleftrightarrow>
     (case ip_class call of
        None \<Rightarrow> True
      | Some c \<Rightarrow> d_limiter dp \<longrightarrow> verdict (fst (ip_rate_limit (ri_clocks r) c (ri_ip r) (ap_limiter z))) = Inr ())"

definition public_run :: "deps \<Rightarrow> request_input \<Rightarrow> owner_call \<Rightarrow> app_state \<Rightarrow> (exn + nat \<times> owner_payload) \<times> state" where
  "public_run dp r call z =
     owner_handler (d_ext dp) (d_tokens dp) (d_gateway dp) (d_wire dp) (d_billing dp) (ri_env r) call None
       \<lparr>st_db = ap_db z, st_conn = ap_owner z, st_calls = ap_calls z\<rparr>"

lemma public_route_run:
  assumes "route_auth call = None" and "valid_owner_call (d_wire dp) call" and "ip_admitted dp r call z"
    and run: "public_run dp r call z = (out, s')"
  shows "fst (owner_route dp r call z) =
      (case out of Inl e \<Rightarrow> error_reply (ri_request_id r) (ThrownExn e) | Inr (status, body) \<Rightarrow> (status, Inr body))"
    and "ap_db (snd (owner_route dp r call z)) = st_db s'"
    and "ap_owner (snd (owner_route dp r call z)) = st_conn s'"
    and "ap_app (snd (owner_route dp r call z)) = ap_app z"
    and "ap_calls (snd (owner_route dp r call z)) = st_calls s'"
proof -
  let ?s = "\<lparr>st_db = ap_db z, st_conn = ap_owner z, st_calls = ap_calls z\<rparr>"
  let ?h = "owner_handler (d_ext dp) (d_tokens dp) (d_gateway dp) (d_wire dp) (d_billing dp) (ri_env r) call"
  let ?act = "route_actor (d_ext dp) (d_tokens dp) (ri_env r) (ri_headers r) call"
  have h: "?h None ?s = (out, s')" using run by (simp add: public_run_def)
  let ?q = "owner_request (ri_request_id r) True (lift_sum (Inr ())) ?act ?h ?s"
  have q: "fst (owner_route dp r call z) = fst ?q \<and> ap_db (snd (owner_route dp r call z)) = st_db (snd ?q) \<and>
      ap_owner (snd (owner_route dp r call z)) = st_conn (snd ?q) \<and> ap_app (snd (owner_route dp r call z)) = ap_app z \<and>
      ap_calls (snd (owner_route dp r call z)) = st_calls (snd ?q)"
    using assms(2,3)
    by (cases "ip_class call"; cases "d_limiter dp")
      (auto simp: owner_route_def Let_def ip_admitted_def verdict_def [where r = "Inr x" for x] case_prod_beta)
  have "?act ?s = (Inr None, ?s)" by (simp add: route_actor_def assms(1) ret_def)
  then have "?q = ((case out of Inl e \<Rightarrow> error_reply (ri_request_id r) (ThrownExn e) | Inr (status, body) \<Rightarrow> (status, Inr body)), s')"
    using h by (simp add: owner_request_def andthen_def bnd_def lift_sum_def split: sum.splits prod.splits)
  then show "fst (owner_route dp r call z) =
      (case out of Inl e \<Rightarrow> error_reply (ri_request_id r) (ThrownExn e) | Inr (status, body) \<Rightarrow> (status, Inr body))"
    "ap_db (snd (owner_route dp r call z)) = st_db s'"
    "ap_owner (snd (owner_route dp r call z)) = st_conn s'" "ap_app (snd (owner_route dp r call z)) = ap_app z"
    "ap_calls (snd (owner_route dp r call z)) = st_calls s'"
    using q by simp_all
qed

lemma error_reply_Inl: "\<exists>env. snd (error_reply rid t) = Inl env"
  by (simp add: error_reply_def split: prod.splits)

text \<open>A public request is either refused before its handler, changing nothing, or runs it.\<close>

lemma public_route_either:
  assumes "route_auth call = None"
  shows "(\<exists>env. snd (fst (owner_route dp r call z)) = Inl env) \<and> ap_db (snd (owner_route dp r call z)) = ap_db z
      \<and> ap_owner (snd (owner_route dp r call z)) = ap_owner z \<and> ap_app (snd (owner_route dp r call z)) = ap_app z
    \<or> valid_owner_call (d_wire dp) call \<and> ip_admitted dp r call z"
proof (cases "valid_owner_call (d_wire dp) call \<and> ip_admitted dp r call z")
  case True
  then show ?thesis by blast
next
  case False
  have v: "verdict q = Inr () \<or> (\<exists>e. verdict q = Inl e)" for q :: "exn + 'z"
    by (simp add: verdict_def split: sum.splits)
  show ?thesis
  proof (cases "valid_owner_call (d_wire dp) call")
    case invalid: False
    then show ?thesis
      by (simp add: error_reply_Inl owner_route_def Let_def owner_request_def case_prod_beta)
  next
    case valid: True
    then obtain c e where c: "ip_class call = Some c" "d_limiter dp"
        "verdict (fst (ip_rate_limit (ri_clocks r) c (ri_ip r) (ap_limiter z))) = Inl e"
      using False v by (auto simp: ip_admitted_def split: option.splits)
    show ?thesis
      using valid by (simp add: error_reply_Inl owner_route_def Let_def owner_request_def c andthen_def bnd_def lift_sum_def)
  qed
qed

subsection \<open>Revocation over requests\<close>

lemma fst_map_reply_error: "(\<exists>env. snd (fst (map_reply f p)) = Inl env) \<longleftrightarrow> (\<exists>env. snd (fst p) = Inl env)"
  by (auto simp: map_reply_def split: prod.splits sum.splits)

lemma status_map_reply [simp]: "fst (fst (map_reply f p)) = fst (fst p)"
  by (simp add: map_reply_def split: prod.splits sum.splits)

lemma revoked_refused:
  assumes z: "app_sound z" and rt: "rt \<in> set (refresh_tokens (ap_db z))" "rt_revoked_at rt \<noteq> None"
    and h: "hash_token (d_ext dp) presented = rt_hashed_token rt"
  shows "\<exists>env. snd (fst (app_step dp r (OwnerRequest (PostRefresh presented)) z)) = Inl env"
proof -
  have c: "clean (ap_owner z)" and d: "db_ok (ap_db z)" using z by (simp_all add: app_sound_def)
  from owner_route_runs [OF c, of dp r "PostRefresh presented"]
  have "\<exists>env. snd (fst (owner_route dp r (PostRefresh presented) z)) = Inl env"
  proof
    assume "\<exists>auth d out s'. identity_part d = identity_part (ap_db z) \<and>
       owner_handler (d_ext dp) (d_tokens dp) (d_gateway dp) (d_wire dp) (d_billing dp) (ri_env r)
         (PostRefresh presented) auth \<lparr>st_db = d, st_conn = ap_owner z, st_calls = ap_calls z\<rparr> = (out, s') \<and>
       ap_db (snd (owner_route dp r (PostRefresh presented) z)) = st_db s' \<and>
       ap_owner (snd (owner_route dp r (PostRefresh presented) z)) = st_conn s' \<and>
       (case out of Inl e \<Rightarrow> \<exists>env. snd (fst (owner_route dp r (PostRefresh presented) z)) = Inl env
          | Inr (status, body) \<Rightarrow> fst (owner_route dp r (PostRefresh presented) z) = (status, Inr body))"
    then obtain d' out s' where part: "identity_part d' = identity_part (ap_db z)"
      and run: "auth_refresh (d_ext dp) (d_tokens dp) (ri_env r) presented
        \<lparr>st_db = d', st_conn = ap_owner z, st_calls = ap_calls z\<rparr> = (out, s')"
      and rep: "case out of Inl e \<Rightarrow> \<exists>env. snd (fst (owner_route dp r (PostRefresh presented) z)) = Inl env
          | Inr (status, body) \<Rightarrow> fst (owner_route dp r (PostRefresh presented) z) = (status, Inr body)"
      by auto
    let ?s = "\<lparr>st_db = d', st_conn = ap_owner z, st_calls = ap_calls z\<rparr>"
    have "rt_revoked_at q \<noteq> None"
      if "refresh_row (bypass_rls (st_conn ?s)) (hash_token (d_ext dp) presented) (st_db ?s) = Some (q, u)" for q u
      using refresh_rowD [OF that] db_ok_tokens [OF d _ rt(1)] rt(2) h part by (auto simp: identity_part_def)
    moreover have "clean (st_conn ?s)" using c by simp
    ultimately obtain e where
      "fst (rotate_refresh_token (d_ext dp) (d_tokens dp) (ri_env r) DEFAULT_OVERLAP_MS presented ?s) = Inl e"
      using rotate_refused by blast
    then have "out = Inl e" using run by (auto simp: auth_refresh_def bnd_def split: prod.splits sum.splits)
    then show ?thesis using rep by simp
  qed blast
  then show ?thesis by (simp add: fst_map_reply_error)
qed


text \<open>A revoked token stays refused, whatever requests of any kind come in between.\<close>

lemma revocation_survives:
  assumes z: "app_sound z" and rt: "rt \<in> set (refresh_tokens (ap_db z))" "rt_revoked_at rt \<noteq> None"
    and later: "session_run dp z z'" and h: "hash_token (d_ext dp) presented = rt_hashed_token rt"
  shows "\<exists>env. snd (fst (app_step dp r (OwnerRequest (PostRefresh presented)) z')) = Inl env"
proof -
  obtain rt' where rt': "rt' \<in> set (refresh_tokens (ap_db z'))" "aged rt rt'"
    using session_run_keeps [OF later z] rt(1) by (auto simp: keeps_tokens_def)
  show ?thesis
    by (rule revoked_refused [OF session_run_sound [OF later z] rt'(1)])
      (use rt' rt(2) h in \<open>auto simp: aged_def rt_key_def\<close>)
qed

text \<open>
  C7: Theft detection. When a revoked refresh token, or a used one after the overlap window, is
  presented to \<^verbatim>\<open>/v1/auth/refresh\<close>, the answer is 401, and from then on, after any further
  requests to any route of the application with any inputs, no token of the whole family is
  ever exchanged again, including the ones the thief obtained.
\<close>
theorem stolen_family_ends:
  assumes z: "app_sound z" and adm: "ip_admitted dp r (PostRefresh presented) z" and "presented \<noteq> []"
    and row: "refresh_row (bypass_rls (ap_owner z)) (hash_token (d_ext dp) presented) (ap_db z) = Some (rt, u)"
    and "\<not> token_expired (ri_env r) rt" and "reuse_detected (ri_env r) DEFAULT_OVERLAP_MS rt"
    and "audit_fresh (ap_db z) (new_id (ri_env r) 0)"
    and step: "app_step dp r (OwnerRequest (PostRefresh presented)) z = (rep, z1)"
    and later: "session_run dp z1 z2"
    and tok: "rt2 \<in> set (refresh_tokens (ap_db z2))" "rt_family_id rt2 = rt_family_id rt"
      "hash_token (d_ext dp) replayed = rt_hashed_token rt2"
  shows "fst rep = 401 \<and>
    (\<exists>env. snd (fst (app_step dp r' (OwnerRequest (PostRefresh replayed)) z2)) = Inl env)"
proof -
  let ?s = "\<lparr>st_db = ap_db z, st_conn = ap_owner z, st_calls = ap_calls z\<rparr>"
  have c: "clean (st_conn ?s)" and d: "db_ok (st_db ?s)" using z by (simp_all add: app_sound_def)
  obtain out s1 where rot:
    "rotate_refresh_token (d_ext dp) (d_tokens dp) (ri_env r) DEFAULT_OVERLAP_MS presented ?s = (out, s1)"
    by fastforce
  note kill = reuse_kills_family [OF c d _ assms(5,6) _ rot, simplified, OF row assms(7)]
  have run: "public_run dp r (PostRefresh presented) z =
      (Inl (AppError (unauthorized ''Refresh token reuse detected'')), s1)"
    by (simp add: public_run_def auth_refresh_def bnd_def rot kill(1))
  note after = public_route_run [OF _ _ adm run, simplified, OF assms(3)]
  have z1: "z1 = snd (owner_route dp r (PostRefresh presented) z)"
    and rep: "rep = fst (map_reply BOwner (owner_route dp r (PostRefresh presented) z))"
    using step snd_map_reply [of BOwner "owner_route dp r (PostRefresh presented) z"] by auto
  have "fst rep = 401"
    by (simp add: rep after(1) refused_reply(2) [unfolded refused_def, simplified])
  moreover have sound: "app_sound z1" using app_step_sound [OF z, of dp r] step by (metis snd_conv)
  have "dead_in (rt_family_id rt) (refresh_tokens (ap_db z1))"
    using kill(2) after(2) by (simp add: tokens_of_def z1)
  from session_run_dead [OF later sound this]
  have "rt_revoked_at rt2 \<noteq> None" using tok(1,2) by (auto simp: dead_in_def)
  then have "\<exists>env. snd (fst (app_step dp r' (OwnerRequest (PostRefresh replayed)) z2)) = Inl env"
    by (rule revoked_refused [OF session_run_sound [OF later sound] tok(1) _ tok(3)])
  ultimately show ?thesis by blast
qed


lemma stolen_family_ends_witness:
  "\<exists>env. snd (fst (app_step sample_deps (sample_input 1) (OwnerRequest (PostRefresh ''rb''))
      (snd (app_step sample_deps (sample_input 0) (OwnerRequest (PostRefresh ''ra''))
        (sample_start\<lparr>ap_db := sample_db\<lparr>refresh_tokens :=
          [(sample_token 31 1 11 ''ra'' 41)\<lparr>rt_revoked_at := Some 1\<rparr>,
           sample_token 32 1 11 ''rb'' 41]\<rparr>\<rparr>))))) = Inl env"
proof -
  let ?rt = "(sample_token 31 1 11 ''ra'' 41)\<lparr>rt_revoked_at := Some 1\<rparr>"
  let ?rb = "sample_token 32 1 11 ''rb'' 41"
  let ?z = "sample_start\<lparr>ap_db := sample_db\<lparr>refresh_tokens := [?rt, ?rb]\<rparr>\<rparr>"
  have z: "app_sound ?z"
    by (simp add: app_sound_def sample_start_def db_ok_defs sample_defs clash_defs no_dups_def org_exists_def
        user_exists_def)
  let ?z1 = "snd (app_step sample_deps (sample_input 0) (OwnerRequest (PostRefresh ''ra'')) ?z)"
  have run: "session_run sample_deps ?z ?z1"
    by (rule session_more [OF session_refl]) (simp add: login_new_def login_family_new_def)
  obtain r' where r': "r' \<in> set (refresh_tokens (ap_db ?z1))" "aged ?rb r'"
    using session_run_keeps [OF run z] by (auto simp: keeps_tokens_def)
  then have fam: "rt_family_id r' = 41" "rt_hashed_token r' = ''rb''"
    by (simp_all add: aged_def rt_key_def sample_token_def)
  have row: "refresh_row True (hash_token sample_ext ''ra'') (sample_db\<lparr>refresh_tokens := [?rt, ?rb]\<rparr>) =
      Some (?rt, sample_user 11 1 ''a'' Owner)"
    by (simp add: refresh_row_def sample_defs hash_token_def)
  have e: "\<not> token_expired (sample_env 0) ?rt" "reuse_detected (sample_env 0) DEFAULT_OVERLAP_MS ?rt"
    by (simp_all add: token_expired_def reuse_detected_def date_of_timestamptz_def sample_token_def)
  have fr: "audit_fresh (sample_db\<lparr>refresh_tokens := [?rt, ?rb]\<rparr>) (new_id (sample_env 0) 0)"
    by (simp add: audit_fresh_def sample_defs)
  show ?thesis
    using stolen_family_ends [where dp = sample_deps and r = "sample_input 0" and presented = "''ra''"
        and replayed = "''rb''" and r' = "sample_input 1" and rt = ?rt and u = "sample_user 11 1 ''a'' Owner",
        OF z _ _ _ _ _ _ prod.collapse [symmetric] session_refl r'(1)] row e fr fam
    by (simp add: ip_admitted_def sample_deps_def sample_start_def sample_input_def hash_token_def sample_token_def)
qed

end
