(* ===== verification/Authority.thy ===== *)
theory Authority
  imports Parts
begin

text \<open>
  What it takes to change a tenant's projects. The services of the owner pool, billing and
  webhooks do not write projects (the locale \<open>owner_part\<close>), and a tenant route writes for the
  tenant of its principal only.
\<close>

subsection \<open>The services of the owner pool\<close>

locale owner_part = ledger_part +
  assumes part_users: "get (users_update f1 d) = get d"
    and part_tokens: "get (refresh_tokens_update f7 d) = get d"
    and part_auth: "get (auth_tokens_update f8 d) = get d"
    and part_invitations: "get (invitations_update f9 d) = get d"
begin

lemma part_identity_writes:
  "tracks (keeps_part get) (exec (q_insert users users_update ten1 clash1 fk1 row1))"
  "tracks (keeps_part get) (exec (q_update users users_update ten1 p1 g1))"
  "tracks (keeps_part get) (exec (q_insert refresh_tokens refresh_tokens_update ten2 clash2 fk2 row2))"
  "tracks (keeps_part get) (exec (q_update refresh_tokens refresh_tokens_update ten2 p2 g2))"
  "tracks (keeps_part get) (exec (q_insert auth_tokens auth_tokens_update ten3 clash3 fk3 row3))"
  "tracks (keeps_part get) (exec (q_update auth_tokens auth_tokens_update ten3 p3 g3))"
  "tracks (keeps_part get) (exec (q_insert invitations invitations_update ten4 clash4 fk4 row4))"
  "tracks (keeps_part get) (exec (q_update invitations invitations_update ten4 p4 g4))"
  by (rule part_insert; rule part_users part_tokens part_auth part_invitations)+

lemma part_insert_org: "tracks (keeps_part get) (exec (q_insert_org g))"
  by (rule part_exec) (auto simp: q_insert_org_def part_orgs split: if_splits)

lemma part_lookups:
  "tracks (keeps_part get) (exec (q_user_by_email e))" "tracks (keeps_part get) (exec (q_refresh_by_hash h))"
  by (rule part_exec, simp add: q_user_by_email_def q_refresh_by_hash_def)+

lemmas service_intros = part_intros part_identity_writes part_insert_org part_lookups

lemma part_with_tenant_tx: "tracks (keeps_part get) fn \<Longrightarrow> tracks (keeps_part get) (with_tenant_tx t fn)"
  unfolding with_tenant_tx_def by (intro service_intros)

lemma part_services:
  "tracks (keeps_part get) (signup x v i)" "tracks (keeps_part get) (login x cfg v email pw)"
  "tracks (keeps_part get) (rotate_refresh_token x cfg v w presented)"
  "tracks (keeps_part get) (request_password_reset x v ttl email)"
  "tracks (keeps_part get) (confirm_password_reset x v token pw)"
  "tracks (keeps_part get) (create_invitation x v a email q ttl)"
  "tracks (keeps_part get) (accept_invitation x v token pw)"
  "tracks (keeps_part get) (change_role v a target q)" "tracks (keeps_part get) (cancel_tenant v a)"
  unfolding signup_def login_def rotate_refresh_token_def revoke_family_def rotate_within_family_def
    request_password_reset_def confirm_password_reset_def confirm_lookup_def confirm_redeem_def apply_reset_def
    create_invitation_def invite_body_def accept_invitation_def accept_body_def change_role_def change_role_body_def
    cancel_tenant_def cancel_body_def generate_refresh_token_def Let_def prod.case
  by (auto intro!: service_intros part_with_tenant_tx split: option.splits)

lemma part_owner_handler: "tracks (keeps_part get) (owner_handler x cfg gw w bc v call auth)"
  by (cases call)
    (auto simp: owner_route_defs with_auth_def intro!: kp.tracks_intros part_services part_billing
      split: option.splits prod.splits)

lemma part_route_actor: "tracks (keeps_part get) (route_actor x cfg v h call)"
  unfolding route_actor_def by (intro part_intros part_authenticate)

lemma part_owner_route:
  assumes "clean (ap_owner z)"
  shows "get (ap_db (snd (owner_route dp r call z))) = get (ap_db z)"
proof -
  let ?s = "\<lparr>st_db = ap_db z, st_conn = ap_owner z, st_calls = ap_calls z\<rparr>"
  have "part_is get (get (ap_db z)) (snd (owner_request rid ok (lift_sum g)
      (route_actor (d_ext dp) (d_tokens dp) (ri_env r) (ri_headers r) call)
      (owner_handler (d_ext dp) (d_tokens dp) (d_gateway dp) (d_wire dp) (d_billing dp) (ri_env r) call) ?s))"
    for rid ok g
  proof -
    have "tracks (keeps_part get) (andthen (lift_sum g)
        (bnd (route_actor (d_ext dp) (d_tokens dp) (ri_env r) (ri_headers r) call)
          (owner_handler (d_ext dp) (d_tokens dp) (d_gateway dp) (d_wire dp) (d_billing dp) (ri_env r) call)))"
      by (intro kp.tracks_intros part_route_actor part_owner_handler)
    moreover have "part_is get (get (ap_db z)) ?s" using assms by (simp add: part_is_def clean_def)
    ultimately show ?thesis
      by (auto simp: owner_request_def tracks_def keeps_part_def split: prod.splits sum.splits) (metis snd_conv)+
  qed
  then show ?thesis by (simp add: owner_route_def Let_def case_prod_beta part_is_def)
qed

end

interpretation prj: owner_part projects
  by unfold_locales simp_all


subsection \<open>The tenant routes\<close>

definition projects_of :: "uuid \<Rightarrow> db \<Rightarrow> project_row list" where
  "projects_of t d = filter (\<lambda>r. project_tenant_id r = t) (projects d)"

lemma projects_of_others_kept: "others_kept u d d' \<Longrightarrow> t \<noteq> u \<Longrightarrow> projects_of t d' = projects_of t d"
  using others_kept_view [of u d d' t] by (simp add: tenant_view_def projects_of_def)

text \<open>An authenticated and admitted request is served for its principal.\<close>

lemma tenant_request_serves:
  assumes c: "clean (st_conn s)"
    and auth: "on_pool owner auth s = (Inr a, s1)" and limit: "on_pool owner (limit a) s1 = (Inr u, s2)"
    and "valid_call call"
  shows "tenant_request rid cf owner (valid_call call) auth limit (route_handler x cod owner v call) s =
    serve x cod owner v rid cf a call s2"
proof -
  have c2: "clean (st_conn s2)"
    using on_pool_conn [of owner auth s] on_pool_conn [of owner "limit a" s1] auth limit c by simp
  show ?thesis
    by (simp add: tenant_request_cases [OF c handler_kept] serve_cases [OF c2] auth limit assms(4))
qed

text \<open>Whether the tenant limiter lets the request of \<open>a\<close> through.\<close>

definition tenant_admitted :: "deps \<Rightarrow> request_input \<Rightarrow> tenant_call \<Rightarrow> actor \<Rightarrow> app_state \<Rightarrow> bool" where
  "tenant_admitted dp r call a z \<longleftrightarrow>
     (d_limiter dp \<and> limited_call call \<longrightarrow>
      fst (on_pool (ap_owner z) (limit_gate (ri_clocks r) (is_read_call call) (ap_limiter z) a)
        \<lparr>st_db = touched (d_ext dp) (ri_env r) (ri_headers r) (bypass_rls (ap_owner z)) (ap_db z),
         st_conn = ap_app z, st_calls = ap_calls z\<rparr>) = Inr ())"

lemma tenant_route_serves:
  assumes o: "clean (ap_owner z)" and p: "clean (ap_app z)" and valid: "valid_call call"
    and pr: "principal (d_ext dp) (d_tokens dp) (ri_env r) True (ri_headers r) (bypass_rls (ap_owner z)) (ap_db z) = Some a"
    and adm: "tenant_admitted dp r call a z"
    and sv: "serve (d_ext dp) (d_codec dp) (ap_owner z) (ri_env r) (ri_request_id r) (ri_commit_fails r) a call
      \<lparr>st_db = touched (d_ext dp) (ri_env r) (ri_headers r) (bypass_rls (ap_owner z)) (ap_db z),
       st_conn = ap_app z, st_calls = ap_calls z\<rparr> = (rep, s')"
  shows "fst (tenant_route dp r call z) = rep" "ap_db (snd (tenant_route dp r call z)) = st_db s'"
    "ap_app (snd (tenant_route dp r call z)) = st_conn s'" "ap_owner (snd (tenant_route dp r call z)) = ap_owner z"
proof -
  let ?s = "\<lparr>st_db = ap_db z, st_conn = ap_app z, st_calls = ap_calls z\<rparr>"
  let ?s1 = "\<lparr>st_db = touched (d_ext dp) (ri_env r) (ri_headers r) (bypass_rls (ap_owner z)) (ap_db z),
       st_conn = ap_app z, st_calls = ap_calls z\<rparr>"
  let ?lim = "if d_limiter dp \<and> limited_call call
    then limit_gate (ri_clocks r) (is_read_call call) (ap_limiter z) else (\<lambda>_. ret ())"
  have c: "clean (st_conn ?s)" using p by simp
  have auth: "on_pool (ap_owner z) (tenant_auth dp r) ?s = (Inr a, ?s1)"
    using on_pool_authenticate [OF o, of "d_ext dp" "d_tokens dp" "ri_env r" True "ri_headers r" ?s] pr
    by (auto simp: tenant_auth_def)
  have "snd (plan_of t s) = s" for t s
    by (auto simp: plan_of_def bnd_def exec_def q_select_orgs_def ret_def split: tx_state.splits)
  then have "snd (limit_gate ck rd l a s) = s" for ck rd l s by (simp add: limit_gate_def case_prod_beta)
  then have "snd (on_pool (ap_owner z) (?lim a) ?s1) = ?s1"
    by (simp add: on_pool_def ret_def case_prod_beta)
  moreover have "fst (on_pool (ap_owner z) (?lim a) ?s1) = Inr ()"
    using adm by (auto simp: tenant_admitted_def on_pool_def ret_def)
  ultimately have lim: "on_pool (ap_owner z) (?lim a) ?s1 = (Inr (), ?s1)" by (metis prod.collapse)
  have "tenant_request (ri_request_id r) (ri_commit_fails r) (ap_owner z) (valid_call call)
      (tenant_auth dp r) ?lim (route_handler (d_ext dp) (d_codec dp) (ap_owner z) (ri_env r) call) ?s = (rep, s')"
    using tenant_request_serves [where limit = ?lim, OF c auth lim valid] sv by simp
  then show "fst (tenant_route dp r call z) = rep" "ap_db (snd (tenant_route dp r call z)) = st_db s'"
    "ap_app (snd (tenant_route dp r call z)) = st_conn s'" "ap_owner (snd (tenant_route dp r call z)) = ap_owner z"
    by (simp_all add: tenant_route_def Let_def)
qed

lemma tenant_route_projects:
  assumes o: "clean (ap_owner z)" and p: "clean (ap_app z)" and nb: "\<not> bypass_rls (ap_app z)"
    and run: "tenant_route dp r call z = (rep, z')"
  shows "projects_of t (ap_db z') = projects_of t (ap_db z) \<or>
    (\<exists>a. principal (d_ext dp) (d_tokens dp) (ri_env r) True (ri_headers r) (bypass_rls (ap_owner z)) (ap_db z) = Some a
      \<and> actor_tenant_id a = t \<and> (\<exists>body. snd rep = Inr body))"
proof -
  let ?s = "\<lparr>st_db = ap_db z, st_conn = ap_app z, st_calls = ap_calls z\<rparr>"
  let ?lim = "if d_limiter dp \<and> limited_call call
    then limit_gate (ri_clocks r) (is_read_call call) (ap_limiter z) else (\<lambda>_. ret ())"
  let ?pr = "principal (d_ext dp) (d_tokens dp) (ri_env r) True (ri_headers r) (bypass_rls (ap_owner z)) (ap_db z)"
  let ?h = "route_handler (d_ext dp) (d_codec dp) (ap_owner z) (ri_env r) call"
  obtain rep1 s' where q: "tenant_request (ri_request_id r) (ri_commit_fails r) (ap_owner z) (valid_call call)
      (tenant_auth dp r) ?lim ?h ?s = (rep1, s')" by fastforce
  have z: "rep = rep1" "ap_db z' = st_db s'" using run q by (auto simp: tenant_route_def Let_def)
  have c: "clean (st_conn ?s)" using p by simp
  obtain r1 s1 where a: "on_pool (ap_owner z) (tenant_auth dp r) ?s = (r1, s1)" by fastforce
  have "tracks (keeps_part projects) (tenant_auth dp r)" by (simp add: tenant_auth_def prj.part_authenticate)
  note s1 = prj.part_on_pool [OF this o a]
  have plan: "tracks (keeps_part projects) (plan_of u)" for u
    unfolding plan_of_def by (intro prj.part_intros)
  have "tracks (keeps_part projects) (limit_gate ck rd l b)" for ck rd l b
    using plan [of "actor_tenant_id b"] by (simp add: tracks_def limit_gate_def case_prod_beta)
  then have lim: "tracks (keeps_part projects) (?lim b)" for b by (simp add: kp.tracks_ret)
  show ?thesis
  proof (cases "valid_call call \<and> (\<exists>act. r1 = Inr act)")
    case False
    then have "st_db s' = st_db ?s \<or> st_db s' = st_db s1"
      using q a unfolding tenant_request_cases [OF c handler_kept] by (cases r1) (auto split: if_splits)
    then show ?thesis using s1(1) by (auto simp: z projects_of_def)
  next
    case True
    then obtain act where act: "r1 = Inr act" and valid: "valid_call call" by blast
    obtain r2 s2 where l: "on_pool (ap_owner z) (?lim act) s1 = (r2, s2)" by fastforce
    note s2 = prj.part_on_pool [OF lim o l]
    have pr: "?pr = Some act"
      using a act on_pool_authenticate [OF o, of "d_ext dp" "d_tokens dp" "ri_env r" True "ri_headers r" ?s]
      by (auto simp: tenant_auth_def split: option.splits)
    show ?thesis
    proof (cases r2)
      case (Inl e)
      then have "st_db s' = st_db s2"
        using q a act l valid unfolding tenant_request_cases [OF c handler_kept] by simp
      then show ?thesis using s1(1) s2(1) by (simp add: z projects_of_def)
    next
      case (Inr u)
      have sv: "serve (d_ext dp) (d_codec dp) (ap_owner z) (ri_env r) (ri_request_id r) (ri_commit_fails r) act call s2
          = (rep1, s')"
        using tenant_request_serves [where limit = ?lim, OF c a [unfolded act] l [unfolded Inr] valid, of "ri_request_id r"
            "ri_commit_fails r" "d_ext dp" "d_codec dp" "ri_env r"] q by simp
      have "clean (st_conn s2)" "\<not> bypass_rls (st_conn s2)" using s1(2) s2(2) p nb by simp_all
      note si = serve_integrity [OF this sv]
      have old: "projects_of t (st_db s2) = projects_of t (ap_db z)" using s1(1) s2(1) by (simp add: projects_of_def)
      show ?thesis
      proof (cases "actor_tenant_id act = t \<and> (\<exists>body. snd rep1 = Inr body)")
        case True
        then show ?thesis using pr z by blast
      next
        case False
        then have "projects_of t (st_db s') = projects_of t (st_db s2)"
          using si(4) projects_of_others_kept [OF si(3)] by (cases "snd rep1") auto
        then show ?thesis using old by (simp add: z)
      qed
    qed
  qed
qed


text \<open>
  C4: Authority over projects. Among all requests the application can receive, signups,
  invitations, billing and webhooks included, only one kind changes the projects of a tenant:
  a request on a tenant route whose credential makes it a principal of that very tenant and
  that is answered with a success.
\<close>
theorem projects_change_with_authority:
  assumes "clean (ap_owner z)" and "clean (ap_app z)" and "\<not> bypass_rls (ap_app z)"
    and "app_step dp r req z = (rep, z')"
    and "projects_of t (ap_db z') \<noteq> projects_of t (ap_db z)"
  shows "\<exists>call a body. req = TenantRequest call \<and>
    principal (d_ext dp) (d_tokens dp) (ri_env r) True (ri_headers r) (bypass_rls (ap_owner z)) (ap_db z) = Some a
    \<and> actor_tenant_id a = t \<and> snd rep = Inr body"
proof (cases req)
  case (TenantRequest call)
  obtain rep1 where run: "tenant_route dp r call z = (rep1, z')" "rep = fst (map_reply BTenant (rep1, z'))"
    using assms(4) TenantRequest by (metis app_step.simps(1) fst_conv prod.collapse snd_conv snd_map_reply)
  then show ?thesis
    using tenant_route_projects [OF assms(1-3) run(1), of t] assms(5) TenantRequest
    by (auto simp: map_reply_def split: prod.splits)
next
  case (OwnerRequest call)
  have "projects (ap_db z') = projects (ap_db z)"
    using assms(4) OwnerRequest prj.part_owner_route [OF assms(1), of dp r call] snd_map_reply
    by (metis app_step.simps(2) snd_conv)
  then show ?thesis using assms(5) by (simp add: projects_of_def)
next
  case (WebhookRequest sg body)
  have "projects (ap_db z') = projects (ap_db z)"
    using assms(4) WebhookRequest prj.part_webhook_route [OF assms(1), of dp r sg body] snd_map_reply
    by (metis app_step.simps(3) snd_conv)
  then show ?thesis using assms(5) by (simp add: projects_of_def)
qed (use assms(4,5) in auto)


text \<open>A member of the sample tenant 1 with a bearer token.\<close>

definition bearer_input :: "nat \<Rightarrow> role \<Rightarrow> request_input" where
  "bearer_input k q = (sample_input k)\<lparr>ri_headers := \<lparr>hd_api_key = None, hd_authorization = Some (bearer_prefix @
     sign_access_token sample_ext sample_config (sample_env 0) \<lparr>sub = 11, tenant_id = 1, claim_role = q\<rparr>)\<rparr>\<rparr>"

lemma bearer_input_sel [simp]:
  "ri_env (bearer_input k q) = sample_env k" "ri_commit_fails (bearer_input k q) = False"
  "ri_request_id (bearer_input k q) = ''rid''"
  by (simp_all add: bearer_input_def sample_input_def)

lemma bearer_input_principal:
  "principal sample_ext sample_config (sample_env 0) keys (ri_headers (bearer_input 0 q)) b d = Some (sample_actor 1 11 q)"
  "touched x v (ri_headers (bearer_input 0 q)) b d = d"
  using verify_sign_access_token [OF jwt_ok_sample, of "sample_env 0" "sample_env 0" sample_config]
  by (simp_all add: principal_def presented_key_def bearer_input_def bearer_principal_def bearer_prefix_def
      sample_config_def touched_def sample_actor_def)

lemma projects_change_with_authority_witness:
  "\<exists>a. principal sample_ext sample_config (sample_env 0) True (ri_headers (bearer_input 0 Member)) True two_projects = Some a
    \<and> actor_tenant_id a = 1"
proof -
  let ?z = "sample_start\<lparr>ap_db := two_projects\<rparr>" and ?a = "sample_actor 1 11 Member"
  let ?s = "\<lparr>st_db = two_projects, st_conn = ap_app ?z, st_calls = ap_calls ?z\<rparr>"
  obtain s1 where s1: "serve sample_ext sample_codec (fresh_conn True) (sample_env 0) ''rid'' False ?a
        (CreateProject ''p'' None) ?s = ((201, Inr (PProject (project_view_of (new_project (sample_env 0) ?a ''p'' None)))), s1)"
      "st_db s1 = created_db (sample_env 0) ?a ''p'' None two_projects"
    using create_request [of ?s "fresh_conn True" ?a "''p''" None "sample_env 0" "''active''" "''free''"
        sample_ext sample_codec "''rid''"] two_projects_facts
    by (auto simp: assert_write_allowed_def quota_left_def plan_quota_def PROJECT_QUOTA_def
        valid_name_def valid_description_def sample_start_def)
  let ?q = "TenantRequest (CreateProject ''p'' None)"
  have "ap_db (snd (tenant_route sample_deps (bearer_input 0 Member) (CreateProject ''p'' None) ?z)) = st_db s1"
    by (rule tenant_route_serves(2) [where a = ?a])
      (use s1 in \<open>simp_all add: sample_deps_def sample_start_def bearer_input_principal tenant_admitted_def
        valid_name_def valid_description_def\<close>)
  then have "projects_of 1 (ap_db (snd (app_step sample_deps (bearer_input 0 Member) ?q ?z))) \<noteq> projects_of 1 (ap_db ?z)"
    by (simp add: s1(2) projects_of_def created_db_def)
  note w = projects_change_with_authority [OF _ _ _ prod.collapse [symmetric] this]
  have "clean (ap_owner ?z)" "clean (ap_app ?z)" "\<not> bypass_rls (ap_app ?z)" by (simp_all add: sample_start_def)
  from w [OF this] show ?thesis by (auto simp: sample_start_def sample_deps_def)
qed

end
