(* ===== verification/Locks.thy ===== *)
theory Locks
  imports BillingProperties
begin

text \<open>
  Transactions that are serialized by a lock. Any number of processes run the same kind of
  transaction on one database: each waits for the lock of its key, decides, works while it holds the lock
  (which may call a service), and runs the rest of its code. The lock is released when that code
  has ended the transaction, and stays taken when it has not. The steps of all
  processes interleave freely, with each other and with statements of other code; a process may
  also die while it holds the lock. The locale \<open>once\<close> says what the transaction has to do for
  its key to be handled at most once, whatever the interleaving, and \<open>serving\<close> what it has to do
  for every process to get through. Two parts of the source rest
  on it (theory Serialized): the row lock of \<^verbatim>\<open>src/billing/billing.service.ts\<close> and the unique index
  behind the ledger of \<^verbatim>\<open>src/billing/webhook.service.ts\<close>.
\<close>

subsection \<open>Processes\<close>

text \<open>
  \<open>Answered\<close>: ended before it took the lock, by its first statement. \<open>Finished\<close>: ended after
  it held the lock. The last part tells the answer, the committed data and whether the
  transaction was ended.
\<close>

datatype ('w, 'v, 'r) phase =
    Waiting
  | Inside 'w
  | Called 'v
  | Answered "exn + 'r"
  | Finished "exn + 'r"

record ('p, 'k, 'w, 'v, 'r) section_code =
  sx_key :: "'p \<Rightarrow> 'k"
  sx_first :: "'p \<Rightarrow> db \<Rightarrow> (exn + 'r) + 'w"
  sx_work :: "'p \<Rightarrow> 'w \<Rightarrow> db \<Rightarrow> stripe_call list \<Rightarrow> 'v \<times> stripe_call list"
  sx_last :: "'p \<Rightarrow> 'v \<Rightarrow> db \<Rightarrow> (exn + 'r) \<times> db \<times> bool"
  sx_asks :: "'k \<Rightarrow> stripe_call \<Rightarrow> bool"
  sx_others :: "db \<Rightarrow> db \<Rightarrow> bool"

text \<open>What a transaction's code leaves: the data others see, and whether it was ended.\<close>

definition left_behind :: "state \<Rightarrow> db \<times> bool" where
  "left_behind s =
     (case tx (st_conn s) of NoTx \<Rightarrow> (st_db s, True) | InTx d \<Rightarrow> (d, False) | Aborted d \<Rightarrow> (d, False))"

record ('p, 'k, 'w, 'v, 'r) sections =
  sc_db :: db
  sc_calls :: "stripe_call list"
  sc_lock :: "'k \<Rightarrow> 'p option"
  sc_phase :: "'p \<Rightarrow> ('w, 'v, 'r) phase"

fun holding :: "('w, 'v, 'r) phase \<Rightarrow> bool" where
  "holding (Inside w) = True"
| "holding (Called v) = True"
| "holding _ = False"

fun outcome :: "('w, 'v, 'r) phase \<Rightarrow> (exn + 'r) option" where
  "outcome (Answered r) = Some r"
| "outcome (Finished r) = Some r"
| "outcome _ = None"

inductive own_step ::
  "('p, 'k, 'w, 'v, 'r) section_code \<Rightarrow> 'p \<Rightarrow> ('p, 'k, 'w, 'v, 'r) sections \<Rightarrow> ('p, 'k, 'w, 'v, 'r) sections \<Rightarrow> bool"
  for x where
  skip: "sc_phase z p = Waiting \<Longrightarrow> sc_lock z (sx_key x p) = None \<Longrightarrow>
     sx_first x p (sc_db z) = Inl r \<Longrightarrow>
     own_step x p z (z\<lparr>sc_phase := (sc_phase z)(p := Answered r)\<rparr>)"
| enter: "sc_phase z p = Waiting \<Longrightarrow> sc_lock z (sx_key x p) = None \<Longrightarrow>
     sx_first x p (sc_db z) = Inr w \<Longrightarrow>
     own_step x p z (z\<lparr>sc_lock := (sc_lock z)(sx_key x p := Some p),
       sc_phase := (sc_phase z)(p := Inside w)\<rparr>)"
| work: "sc_phase z p = Inside w \<Longrightarrow> sx_work x p w (sc_db z) (sc_calls z) = (v, cs) \<Longrightarrow>
     own_step x p z (z\<lparr>sc_calls := cs, sc_phase := (sc_phase z)(p := Called v)\<rparr>)"
| commit: "sc_phase z p = Called v \<Longrightarrow> sx_last x p v (sc_db z) = (r, d, ended) \<Longrightarrow>
     own_step x p z (z\<lparr>sc_db := d,
       sc_lock := (if ended then (sc_lock z)(sx_key x p := None) else sc_lock z),
       sc_phase := (sc_phase z)(p := Finished r)\<rparr>)"

text \<open>A schedule: own steps, processes that die in their section, statements of other code.\<close>

inductive section_step ::
  "('p, 'k, 'w, 'v, 'r) section_code \<Rightarrow> ('p, 'k, 'w, 'v, 'r) sections \<Rightarrow> ('p, 'k, 'w, 'v, 'r) sections \<Rightarrow> bool"
  for x where
  own: "own_step x p z z' \<Longrightarrow> section_step x z z'"
| lost: "holding (sc_phase z p) \<Longrightarrow>
     section_step x z (z\<lparr>sc_lock := (sc_lock z)(sx_key x p := None),
       sc_phase := (sc_phase z)(p := Finished (Inl e))\<rparr>)"
| others: "sx_others x (sc_db z) d \<Longrightarrow> \<forall>k. filter (sx_asks x k) cs = [] \<Longrightarrow>
     section_step x z (z\<lparr>sc_db := d, sc_calls := sc_calls z @ cs\<rparr>)"

text \<open>The six ways a schedule goes on, as one case analysis.\<close>

lemma section_step_cases:
  assumes "section_step x z z'"
  obtains
    (skip) p r where "sc_phase z p = Waiting" "sc_lock z (sx_key x p) = None" "sx_first x p (sc_db z) = Inl r"
      "z' = z\<lparr>sc_phase := (sc_phase z)(p := Answered r)\<rparr>"
  | (enter) p w where "sc_phase z p = Waiting" "sc_lock z (sx_key x p) = None" "sx_first x p (sc_db z) = Inr w"
      "z' = z\<lparr>sc_lock := (sc_lock z)(sx_key x p := Some p), sc_phase := (sc_phase z)(p := Inside w)\<rparr>"
  | (work) p w v cs where "sc_phase z p = Inside w" "sx_work x p w (sc_db z) (sc_calls z) = (v, cs)"
      "z' = z\<lparr>sc_calls := cs, sc_phase := (sc_phase z)(p := Called v)\<rparr>"
  | (commit) p v r d ended where "sc_phase z p = Called v" "sx_last x p v (sc_db z) = (r, d, ended)"
      "z' = z\<lparr>sc_db := d, sc_lock := (if ended then (sc_lock z)(sx_key x p := None) else sc_lock z),
         sc_phase := (sc_phase z)(p := Finished r)\<rparr>"
  | (lost) p e where "holding (sc_phase z p)"
      "z' = z\<lparr>sc_lock := (sc_lock z)(sx_key x p := None), sc_phase := (sc_phase z)(p := Finished (Inl e))\<rparr>"
  | (others) d cs where "sx_others x (sc_db z) d" "\<forall>k. filter (sx_asks x k) cs = []"
      "z' = z\<lparr>sc_db := d, sc_calls := sc_calls z @ cs\<rparr>"
  using assms
proof (cases rule: section_step.cases)
  case (own p)
  then show ?thesis
  proof (cases rule: own_step.cases)
    case (skip r)
    then show ?thesis by (rule that(1) [rotated 3])
  next
    case (enter w)
    then show ?thesis by (rule that(2) [rotated 3])
  next
    case (work w v cs)
    then show ?thesis by (rule that(3) [rotated 2])
  next
    case (commit v r d ended)
    then show ?thesis by (rule that(4) [rotated 2])
  qed
next
  case (lost p e)
  then show ?thesis by (rule that(5) [rotated 1])
next
  case (others d cs)
  then show ?thesis by (rule that(6) [rotated 2])
qed

definition section_run ::
  "('p, 'k, 'w, 'v, 'r) section_code \<Rightarrow> ('p, 'k, 'w, 'v, 'r) sections \<Rightarrow> ('p, 'k, 'w, 'v, 'r) sections \<Rightarrow> bool" where
  "section_run x = (section_step x)\<^sup>*\<^sup>*"

text \<open>Where all begin: nobody has started, no lock is held, no call was made.\<close>

definition sections_start :: "db \<Rightarrow> ('p, 'k, 'w, 'v, 'r) sections" where
  "sections_start d = \<lparr>sc_db = d, sc_calls = [], sc_lock = (\<lambda>_. None), sc_phase = (\<lambda>_. Waiting)\<rparr>"

subsection \<open>What a schedule cannot do\<close>

text \<open>The processes of a key that failed after they held the lock.\<close>

definition failed :: "('p, 'k, 'w, 'v, 'r) section_code \<Rightarrow> ('p, 'k, 'w, 'v, 'r) sections \<Rightarrow> 'k \<Rightarrow> 'p set" where
  "failed x z k = {p. sx_key x p = k \<and> (\<exists>e. sc_phase z p = Finished (Inl e))}"

definition asked :: "('p, 'k, 'w, 'v, 'r) section_code \<Rightarrow> ('p, 'k, 'w, 'v, 'r) sections \<Rightarrow> 'k \<Rightarrow> nat" where
  "asked x z k = length (filter (sx_asks x k) (sc_calls z))"

text \<open>A process of the key has made its call and has not failed.\<close>

fun serves :: "('w, 'v, 'r) phase \<Rightarrow> bool" where
  "serves (Called v) = True"
| "serves (Finished (Inr r)) = True"
| "serves _ = False"

lemma serves_cases: "serves f \<longleftrightarrow> (\<exists>v. f = Called v) \<or> (\<exists>r. f = Finished (Inr r))"
  by (cases f rule: serves.cases) simp_all

definition served :: "('p, 'k, 'w, 'v, 'r) section_code \<Rightarrow> ('p, 'k, 'w, 'v, 'r) sections \<Rightarrow> 'k \<Rightarrow> bool" where
  "served x z k \<longleftrightarrow> (\<exists>p. sx_key x p = k \<and> serves (sc_phase z p))"

lemma served_kept:
  assumes "served x z k" and "\<And>q. serves (sc_phase z q) \<Longrightarrow> sx_key x q = k \<Longrightarrow> serves (sc_phase z' q)"
  shows "served x z' k"
  using assms unfolding served_def by blast

definition locks_ok :: "('p, 'k, 'w, 'v, 'r) section_code \<Rightarrow> ('p, 'k, 'w, 'v, 'r) sections \<Rightarrow> bool" where
  "locks_ok x z \<longleftrightarrow> (\<forall>k p. sc_lock z k = Some p \<longleftrightarrow> sx_key x p = k \<and> holding (sc_phase z p))"

text \<open>Every way through the last part ends the transaction.\<close>

definition ends :: "('p, 'k, 'w, 'v, 'r) section_code \<Rightarrow> bool" where
  "ends x \<longleftrightarrow> (\<forall>p v d r d' ended. sx_last x p v d = (r, d', ended) \<longrightarrow> ended)"

lemma endsD: "ends x \<Longrightarrow> sx_last x p v d = (r, d', ended) \<Longrightarrow> ended"
  unfolding ends_def by blast

lemma locks_ok_start: "locks_ok x (sections_start d)"
  by (simp add: locks_ok_def sections_start_def)

lemma one_holder:
  "locks_ok x z \<Longrightarrow> holding (sc_phase z p) \<Longrightarrow> holding (sc_phase z q) \<Longrightarrow> sx_key x p = sx_key x q \<Longrightarrow> p = q"
  unfolding locks_ok_def by (metis option.inject)

lemma waiting_free: "locks_ok x z \<Longrightarrow> sc_lock z (sx_key x p) = None \<Longrightarrow> holding (sc_phase z q) \<Longrightarrow> sx_key x q \<noteq> sx_key x p"
  unfolding locks_ok_def by (metis option.distinct(1))

lemma locks_ok_step:
  assumes "section_step x z z'" and "locks_ok x z" and ends: "ends x"
  shows "locks_ok x z'"
  using assms
proof (cases rule: section_step_cases)
  case (enter p w)
  have "sx_key x q \<noteq> sx_key x p" if "holding (sc_phase z q)" for q
    using waiting_free [OF assms(2) enter(2) that] .
  then show ?thesis using enter assms(2) by (auto simp: locks_ok_def)
next
  case (commit p v r d ended)
  have "q = p" if "holding (sc_phase z q)" "sx_key x q = sx_key x p" for q
    using one_holder [OF assms(2) that(1) _ that(2)] commit by simp
  then show ?thesis using commit assms(2) endsD [OF ends commit(2)] by (auto simp: locks_ok_def)
next
  case (lost p e)
  have "q = p" if "holding (sc_phase z q)" "sx_key x q = sx_key x p" for q
    using one_holder [OF assms(2) that(1) _ that(2)] lost by simp
  then show ?thesis using lost assms(2) by (auto simp: locks_ok_def)
qed (auto simp: locks_ok_def)

lemma locks_ok_run: "section_run x z z' \<Longrightarrow> locks_ok x z \<Longrightarrow> ends x \<Longrightarrow> locks_ok x z'"
  unfolding section_run_def by (induction rule: rtranclp_induct) (auto intro: locks_ok_step)


text \<open>
  What is known at every moment of a schedule: the key of a lock that is held is free, an
  answer is final, at most one process of a key has succeeded after it held the lock, and the
  calls of a key are at most one more than its failures.
\<close>

definition data_ok ::
  "('p, 'k, 'w, 'v, 'r) section_code \<Rightarrow> (db \<Rightarrow> bool) \<Rightarrow> ('k \<Rightarrow> db \<Rightarrow> bool) \<Rightarrow> ('k \<Rightarrow> 'r \<Rightarrow> db \<Rightarrow> bool) \<Rightarrow>
   ('p \<Rightarrow> 'v \<Rightarrow> bool) \<Rightarrow> ('p, 'k, 'w, 'v, 'r) sections \<Rightarrow> bool" where
  "data_ok x good free final usable z \<longleftrightarrow>
     good (sc_db z) \<and>
     (\<forall>p. holding (sc_phase z p) \<longrightarrow> free (sx_key x p) (sc_db z)) \<and>
     (\<forall>p v. sc_phase z p = Called v \<longrightarrow> usable p v) \<and>
     (\<forall>p r. outcome (sc_phase z p) = Some (Inr r) \<longrightarrow> final (sx_key x p) r (sc_db z))"

definition once_ok :: "('p, 'k, 'w, 'v, 'r) section_code \<Rightarrow> ('p, 'k, 'w, 'v, 'r) sections \<Rightarrow> bool" where
  "once_ok x z \<longleftrightarrow>
     (\<forall>p q r s. sc_phase z p = Finished (Inr r) \<and> sc_phase z q = Finished (Inr s) \<and>
        sx_key x p = sx_key x q \<longrightarrow> p = q)"

definition count_ok :: "('p, 'k, 'w, 'v, 'r) section_code \<Rightarrow> ('p, 'k, 'w, 'v, 'r) sections \<Rightarrow> bool" where
  "count_ok x z \<longleftrightarrow>
     (\<forall>k. finite (failed x z k) \<and>
        asked x z k \<le> card (failed x z k) + (if served x z k then 1 else 0))"

locale once =
  fixes x :: "('p, 'k, 'w, 'v, 'r) section_code"
    and good :: "db \<Rightarrow> bool"
    and free :: "'k \<Rightarrow> db \<Rightarrow> bool"
    and final :: "'k \<Rightarrow> 'r \<Rightarrow> db \<Rightarrow> bool"
    and usable :: "'p \<Rightarrow> 'v \<Rightarrow> bool"
  assumes final_taken: "final k r d \<Longrightarrow> \<not> free k d"
    and first_free: "good d \<Longrightarrow> sx_first x p d = Inr w \<Longrightarrow> free (sx_key x p) d"
    and first_final: "good d \<Longrightarrow> sx_first x p d = Inl (Inr r) \<Longrightarrow> final (sx_key x p) r d"
    and work_usable: "good d \<Longrightarrow> sx_work x p w d cs = (v, cs') \<Longrightarrow> usable p v"
    and work_asks: "sx_work x p w d cs = (v, cs') \<Longrightarrow>
      length (filter (sx_asks x k) cs') \<le> length (filter (sx_asks x k) cs) + (if k = sx_key x p then 1 else 0)"
    and last_ends: "ends x"
    and last_final: "good d \<Longrightarrow> free (sx_key x p) d \<Longrightarrow> usable p v \<Longrightarrow> sx_last x p v d = (Inr r, d', e) \<Longrightarrow>
      final (sx_key x p) r d'"
    and last_good: "good d \<Longrightarrow> free (sx_key x p) d \<Longrightarrow> usable p v \<Longrightarrow> sx_last x p v d = (out, d', e) \<Longrightarrow> good d'"
    and last_keeps: "good d \<Longrightarrow> free (sx_key x p) d \<Longrightarrow> usable p v \<Longrightarrow> sx_last x p v d = (out, d', e) \<Longrightarrow>
      final k a d \<Longrightarrow> final k a d'"
    and last_frees: "good d \<Longrightarrow> free (sx_key x p) d \<Longrightarrow> usable p v \<Longrightarrow> sx_last x p v d = (out, d', e) \<Longrightarrow>
      k \<noteq> sx_key x p \<Longrightarrow> free k d \<Longrightarrow> free k d'"
    and others_good: "good d \<Longrightarrow> sx_others x d d' \<Longrightarrow> good d'"
    and others_keep: "good d \<Longrightarrow> sx_others x d d' \<Longrightarrow> final k a d \<Longrightarrow> final k a d'"
    and others_free: "good d \<Longrightarrow> sx_others x d d' \<Longrightarrow> free k d \<Longrightarrow> free k d'"
begin

abbreviation sound :: "('p, 'k, 'w, 'v, 'r) sections \<Rightarrow> bool" where
  "sound z \<equiv> locks_ok x z \<and> data_ok x good free final usable z"

lemma data_step:
  assumes "section_step x z z'" and ok: "sound z"
  shows "data_ok x good free final usable z'"
  using assms(1)
proof (cases rule: section_step_cases)
  case (skip p r)
  then show ?thesis using ok first_final [of "sc_db z" p] by (auto simp: data_ok_def)
next
  case (enter p w)
  then show ?thesis using ok first_free [of "sc_db z" p w] by (auto simp: data_ok_def)
next
  case (work p w v cs)
  then show ?thesis using ok work_usable [of "sc_db z" p w "sc_calls z" v cs]
    by (auto simp: data_ok_def)
next
  case (commit p v r d ended)
  have at: "good (sc_db z)" "free (sx_key x p) (sc_db z)" "usable p v"
    using ok commit(1) by (auto simp: data_ok_def)
  have "sx_key x q \<noteq> sx_key x p" if "holding (sc_phase z q)" "q \<noteq> p" for q
    using one_holder [of x z q p] ok that commit(1) by auto
  then have "free (sx_key x q) d" if "holding (sc_phase z q)" "q \<noteq> p" for q
    using last_frees [OF at commit(2)] ok that by (auto simp: data_ok_def)
  moreover have "good d" by (rule last_good [OF at commit(2)])
  moreover have "final (sx_key x p) a d" if "r = Inr a" for a
    using last_final [OF at commit(2) [unfolded that]] .
  ultimately show ?thesis
    using ok commit last_keeps [OF at commit(2)] by (auto simp: data_ok_def)
next
  case (lost p e)
  then show ?thesis using ok by (auto simp: data_ok_def)
next
  case (others d cs)
  then show ?thesis
    using ok others_good others_keep others_free by (auto simp: data_ok_def)
qed

lemma sound_run: "section_run x z z' \<Longrightarrow> sound z \<Longrightarrow> sound z'"
  unfolding section_run_def
  by (induction rule: rtranclp_induct) (blast intro: locks_ok_step last_ends data_step)+

lemma sound_start: "good d \<Longrightarrow> sound (sections_start d)"
  using locks_ok_start [of x d] by (auto simp: data_ok_def sections_start_def)

lemma held_not_served:
  assumes ok: "sound z" and p: "sc_phase z p = Inside w"
  shows "\<not> served x z (sx_key x p)"
proof
  assume "served x z (sx_key x p)"
  then obtain q where q: "sx_key x q = sx_key x p"
      "(\<exists>v. sc_phase z q = Called v) \<or> (\<exists>r. sc_phase z q = Finished (Inr r))"
    by (auto simp: served_def serves_cases)
  from q(2) show False
  proof
    assume "\<exists>v. sc_phase z q = Called v"
    then show False using one_holder [of x z q p] ok p q(1) by auto
  next
    assume "\<exists>r. sc_phase z q = Finished (Inr r)"
    then obtain r where "final (sx_key x p) r (sc_db z)"
      using ok q(1) by (auto simp: data_ok_def) (metis outcome.simps(2))
    moreover have "free (sx_key x p) (sc_db z)" using ok p by (auto simp: data_ok_def)
    ultimately show False using final_taken by blast
  qed
qed

lemma once_step:
  assumes "section_step x z z'" and ok: "sound z" and once: "once_ok x z"
  shows "once_ok x z'"
  using assms(1)
proof (cases rule: section_step_cases)
  case (commit p v r d ended)
  have "free (sx_key x p) (sc_db z)" using ok commit(1) by (auto simp: data_ok_def)
  then have "sx_key x q \<noteq> sx_key x p" if "sc_phase z q = Finished (Inr a)" for q a
    using ok that final_taken [of "sx_key x p" a] by (auto simp: data_ok_def) (metis outcome.simps(2))
  then show ?thesis using once commit by (auto simp: once_ok_def) metis+
next
  case (lost p e)
  then show ?thesis using once by (fastforce simp: once_ok_def)
qed (use once in \<open>auto simp: once_ok_def\<close>)

lemma once_run: "section_run x z z' \<Longrightarrow> sound z \<Longrightarrow> once_ok x z \<Longrightarrow> once_ok x z'"
  unfolding section_run_def
proof (induction rule: rtranclp_induct)
  case (step y z')
  then have "section_run x z y" by (simp add: section_run_def)
  then show ?case using step sound_run once_step by blast
qed simp

text \<open>How a step changes the failures of a key and whether it is served.\<close>

lemma failed_upd:
  "failed x (z\<lparr>sc_phase := (sc_phase z)(p := Finished (Inl e))\<rparr>) k =
     (if sx_key x p = k then insert p (failed x z k) else failed x z k)"
  by (auto simp: failed_def)

lemma count_step:
  assumes step: "section_step x z z'" and ok: "sound z" and count: "count_ok x z"
  shows "count_ok x z'"
  unfolding count_ok_def
proof
  fix k
  have old: "finite (failed x z k)" "asked x z k \<le> card (failed x z k) + (if served x z k then 1 else 0)"
    using count by (auto simp: count_ok_def)
  show "finite (failed x z' k) \<and> asked x z' k \<le> card (failed x z' k) + (if served x z' k then 1 else 0)"
    using step
  proof (cases rule: section_step_cases)
    case (skip p r)
    have "failed x z' k = failed x z k" "asked x z' k = asked x z k" "served x z k \<Longrightarrow> served x z' k"
      using skip by (auto simp: failed_def asked_def elim!: served_kept)
    then show ?thesis using old by (auto split: if_splits)
  next
    case (enter p w)
    have "failed x z' k = failed x z k" "asked x z' k = asked x z k" "served x z k \<Longrightarrow> served x z' k"
      using enter by (auto simp: failed_def asked_def elim!: served_kept)
    then show ?thesis using old by (auto split: if_splits)
  next
    case (work p w v cs)
    have f: "failed x z' k = failed x z k" using work by (auto simp: failed_def)
    show ?thesis
    proof (cases "k = sx_key x p")
      case True
      have "\<not> served x z k" using held_not_served [OF ok work(1)] True by simp
      moreover have "served x z' k" using work True by (auto simp: served_def)
      moreover have "asked x z' k \<le> asked x z k + 1"
        using work_asks [OF work(2), of k] work True by (simp add: asked_def)
      ultimately show ?thesis using old f by simp
    next
      case False
      have "served x z k \<Longrightarrow> served x z' k" using work False by (auto elim!: served_kept)
      moreover have "asked x z' k \<le> asked x z k"
        using work_asks [OF work(2), of k] work False by (simp add: asked_def)
      ultimately show ?thesis using old f by (auto split: if_splits)
    qed
  next
    case (commit p v r d ended)
    have a: "asked x z' k = asked x z k" using commit by (simp add: asked_def)
    show ?thesis
    proof (cases "\<exists>e. r = Inl e \<and> sx_key x p = k")
      case True
      then have "failed x z' k = insert p (failed x z k)" "p \<notin> failed x z k"
        using commit by (auto simp: failed_def)
      then show ?thesis using old a by (auto split: if_splits)
    next
      case False
      have "failed x z' k = failed x z k" using commit False by (auto simp: failed_def)
      moreover have "served x z k \<Longrightarrow> served x z' k"
        using commit False by (cases r) (auto elim!: served_kept)
      ultimately show ?thesis using old a by (auto split: if_splits)
    qed
  next
    case (lost p e)
    have a: "asked x z' k = asked x z k" using lost by (simp add: asked_def)
    show ?thesis
    proof (cases "sx_key x p = k")
      case True
      then have "failed x z' k = insert p (failed x z k)" "p \<notin> failed x z k"
        using lost by (auto simp: failed_def)
      then show ?thesis using old a by (auto split: if_splits)
    next
      case False
      have "failed x z' k = failed x z k" "served x z k \<Longrightarrow> served x z' k"
        using lost False by (auto simp: failed_def elim!: served_kept)
      then show ?thesis using old a by (auto split: if_splits)
    qed
  next
    case (others d cs)
    then have "failed x z' k = failed x z k" "asked x z' k = asked x z k" "served x z' k = served x z k"
      by (auto simp: failed_def asked_def served_def)
    then show ?thesis using old by simp
  qed
qed

lemma count_run: "section_run x z z' \<Longrightarrow> sound z \<Longrightarrow> count_ok x z \<Longrightarrow> count_ok x z'"
  unfolding section_run_def
proof (induction rule: rtranclp_induct)
  case (step y z')
  then have "section_run x z y" by (simp add: section_run_def)
  then show ?case using step sound_run count_step by blast
qed simp

text \<open>From the start.\<close>

lemma handled_once:
  assumes run: "section_run x (sections_start d) z" and d: "good d"
  shows "good (sc_db z)" "\<And>p r. outcome (sc_phase z p) = Some (Inr r) \<Longrightarrow> final (sx_key x p) r (sc_db z)"
    "once_ok x z" "asked x z k \<le> card (failed x z k) + 1"
proof -
  show "good (sc_db z)" "outcome (sc_phase z p) = Some (Inr r) \<Longrightarrow> final (sx_key x p) r (sc_db z)" for p r
    using sound_run [OF run sound_start [OF d]] by (auto simp: data_ok_def)
  show "once_ok x z"
    by (rule once_run [OF run sound_start [OF d]]) (simp add: once_ok_def sections_start_def)
  have "count_ok x z"
    by (rule count_run [OF run sound_start [OF d]])
      (simp add: count_ok_def sections_start_def failed_def asked_def)
  then show "asked x z k \<le> card (failed x z k) + 1"
    unfolding count_ok_def by (metis (full_types) add_le_cancel_left le_trans less_one nat_less_le zero_le)
qed

text \<open>Once a process of a key has an answer, no other process of the key changes anything.\<close>

lemma settled_step:
  assumes run: "section_run x (sections_start d) z" and d: "good d"
    and ans: "outcome (sc_phase z p) = Some (Inr r)" and q: "sx_key x q = sx_key x p"
    and step: "own_step x q z z'"
  shows "sc_db z' = sc_db z \<and> sc_calls z' = sc_calls z"
proof -
  have ok: "sound z" by (rule sound_run [OF run sound_start [OF d]])
  have "final (sx_key x p) r (sc_db z)" using handled_once(2) [OF run d ans] .
  then have "\<not> free (sx_key x q) (sc_db z)" using final_taken q by simp
  then have "\<not> holding (sc_phase z q)" using ok by (auto simp: data_ok_def)
  with step show ?thesis by cases simp_all
qed

end

text \<open>An answer without the lock is one of the first statement.\<close>

lemma answered_first:
  assumes "section_run x (sections_start d0) z" and "sc_phase z p = Answered r"
  shows "\<exists>d. sx_first x p d = Inl r"
  using assms unfolding section_run_def
proof (induction arbitrary: p r rule: rtranclp_induct)
  case base
  then show ?case by (simp add: sections_start_def)
next
  case (step y z)
  from step.hyps(2) show ?case
    by (cases rule: section_step_cases) (use step.IH step.prems in \<open>auto split: if_splits\<close>)
qed

subsection \<open>Every process gets through\<close>

text \<open>Own steps only: nobody dies and no other statement runs.\<close>

definition proceeds ::
  "('p, 'k, 'w, 'v, 'r) section_code \<Rightarrow> ('p, 'k, 'w, 'v, 'r) sections \<Rightarrow> ('p, 'k, 'w, 'v, 'r) sections \<Rightarrow> bool" where
  "proceeds x = (\<lambda>z z'. \<exists>p. own_step x p z z')\<^sup>*\<^sup>*"

definition is_done :: "('p, 'k, 'w, 'v, 'r) sections \<Rightarrow> 'p \<Rightarrow> bool" where
  "is_done z p \<longleftrightarrow> outcome (sc_phase z p) \<noteq> None"

definition succeeded :: "('p, 'k, 'w, 'v, 'r) sections \<Rightarrow> 'p \<Rightarrow> bool" where
  "succeeded z p \<longleftrightarrow> (\<exists>a. outcome (sc_phase z p) = Some (Inr a))"

lemma proceeds_refl: "proceeds x z z"
  by (simp add: proceeds_def)

lemma proceeds_one: "own_step x p z z' \<Longrightarrow> proceeds x z z'"
  unfolding proceeds_def by blast

lemma proceeds_trans: "proceeds x z y \<Longrightarrow> proceeds x y z' \<Longrightarrow> proceeds x z z'"
  unfolding proceeds_def by simp

lemma proceeds_runs: "proceeds x z z' \<Longrightarrow> section_run x z z'"
  unfolding proceeds_def section_run_def by (erule rtranclp_mono [THEN predicate2D, rotated]) (auto intro: section_step.own)

text \<open>
  What the parts have to do for every process that is \<open>ready\<close> to succeed: the first statement
  answers or goes on, the work gives something the last part is \<open>willing\<close> to accept, and no last
  part takes away what another process needs. \<open>able\<close> says what is expected of the outside and of the data.
\<close>

locale serving = once x good free final usable
  for x :: "('p, 'k, 'w, 'v, 'r) section_code"
    and good :: "db \<Rightarrow> bool"
    and free :: "'k \<Rightarrow> db \<Rightarrow> bool"
    and final :: "'k \<Rightarrow> 'r \<Rightarrow> db \<Rightarrow> bool"
    and usable :: "'p \<Rightarrow> 'v \<Rightarrow> bool" +
  fixes able :: "db \<Rightarrow> bool"
    and ready :: "'p \<Rightarrow> db \<Rightarrow> bool"
    and willing :: "'v \<Rightarrow> bool"
  assumes first_serves: "good d \<Longrightarrow> able d \<Longrightarrow> ready p d \<Longrightarrow> sx_first x p d = Inl out \<Longrightarrow> \<exists>a. out = Inr a"
    and work_serves: "able d \<Longrightarrow> sx_work x p w d cs = (v, cs') \<Longrightarrow> willing v"
    and last_serves: "good d \<Longrightarrow> able d \<Longrightarrow> free (sx_key x p) d \<Longrightarrow> usable p v \<Longrightarrow> willing v \<Longrightarrow>
      sx_last x p v d = (out, d', e) \<Longrightarrow> \<exists>a. out = Inr a"
    and last_able: "good d \<Longrightarrow> able d \<Longrightarrow> free (sx_key x p) d \<Longrightarrow> usable p v \<Longrightarrow>
      sx_last x p v d = (out, d', e) \<Longrightarrow> able d'"
    and last_ready: "good d \<Longrightarrow> able d \<Longrightarrow> free (sx_key x p) d \<Longrightarrow> usable p v \<Longrightarrow>
      sx_last x p v d = (out, d', e) \<Longrightarrow> ready q d \<Longrightarrow> ready q d'"
begin

abbreviation fine :: "('p, 'k, 'w, 'v, 'r) sections \<Rightarrow> bool" where
  "fine z \<equiv> sound z \<and> able (sc_db z)"

abbreviation moved :: "'p \<Rightarrow> ('p, 'k, 'w, 'v, 'r) sections \<Rightarrow> ('p, 'k, 'w, 'v, 'r) sections \<Rightarrow> bool" where
  "moved p z z' \<equiv> proceeds x z z' \<and> fine z' \<and> is_done z' p \<and>
     (\<forall>q. q \<noteq> p \<longrightarrow> sc_phase z' q = sc_phase z q) \<and> (\<forall>q. ready q (sc_db z) \<longrightarrow> ready q (sc_db z'))"

lemma own_sound: "own_step x p z z' \<Longrightarrow> sound z \<Longrightarrow> sound z'"
  using sound_run [OF proceeds_runs [OF proceeds_one]] .

text \<open>Who holds a lock gives it back, and succeeds when its work did.\<close>

lemma commits:
  assumes ok: "fine z" and p: "sc_phase z p = Called v"
  shows "\<exists>z'. moved p z z' \<and> sc_lock z' (sx_key x p) = None \<and> (willing v \<longrightarrow> succeeded z' p)"
proof -
  obtain r d ended where l: "sx_last x p v (sc_db z) = (r, d, ended)" by (metis prod.exhaust)
  have at: "good (sc_db z)" "able (sc_db z)" "free (sx_key x p) (sc_db z)" "usable p v"
    using ok p by (auto simp: data_ok_def)
  let ?z' = "z\<lparr>sc_db := d, sc_lock := (if ended then (sc_lock z)(sx_key x p := None) else sc_lock z),
       sc_phase := (sc_phase z)(p := Finished r)\<rparr>"
  have s: "own_step x p z ?z'" by (rule own_step.commit [OF p l])
  have "moved p z ?z'"
    using proceeds_one [OF s] own_sound [OF s] ok last_able [OF at l] last_ready [OF at l]
    by (auto simp: is_done_def)
  moreover have "sc_lock ?z' (sx_key x p) = None" using endsD [OF last_ends l] by simp
  moreover have "willing v \<longrightarrow> succeeded ?z' p" using last_serves [OF at _ l] by (auto simp: succeeded_def)
  ultimately show ?thesis by blast
qed

lemma leaves:
  assumes ok: "fine z" and p: "holding (sc_phase z p)"
  shows "\<exists>z'. moved p z z' \<and> sc_lock z' (sx_key x p) = None \<and> ((\<exists>w. sc_phase z p = Inside w) \<longrightarrow> succeeded z' p)"
proof (cases "sc_phase z p")
  case (Inside w)
  obtain v cs where l: "sx_work x p w (sc_db z) (sc_calls z) = (v, cs)" by fastforce
  let ?y = "z\<lparr>sc_calls := cs, sc_phase := (sc_phase z)(p := Called v)\<rparr>"
  have s: "own_step x p z ?y" by (rule own_step.work [OF Inside l])
  have y: "fine ?y" using own_sound [OF s] ok by simp
  have w: "willing v" using work_serves [OF _ l] ok by simp
  obtain z' where z': "moved p ?y z'" "sc_lock z' (sx_key x p) = None" "succeeded z' p"
    using commits [OF y, of p v] w by auto
  have "proceeds x z z'" using proceeds_trans [OF proceeds_one [OF s]] z'(1) by blast
  then have "moved p z z'" using z'(1) by simp
  then show ?thesis using z'(2,3) by blast
next
  case (Called v)
  then show ?thesis using commits [OF ok Called] by auto
qed (use p in simp_all)

text \<open>Who waits gets its turn, after the holder of the lock if there is one.\<close>

lemma takes_turn:
  assumes ok: "fine z" and p: "sc_phase z p = Waiting" "sc_lock z (sx_key x p) = None" and r: "ready p (sc_db z)"
  shows "\<exists>z'. moved p z z' \<and> succeeded z' p"
proof (cases "sx_first x p (sc_db z)")
  case (Inl out)
  let ?z' = "z\<lparr>sc_phase := (sc_phase z)(p := Answered out)\<rparr>"
  have s: "own_step x p z ?z'" by (rule own_step.skip [OF p Inl])
  have "\<exists>a. out = Inr a" using first_serves [OF _ _ r Inl] ok by (auto simp: data_ok_def)
  then have "moved p z ?z' \<and> succeeded ?z' p"
    using proceeds_one [OF s] own_sound [OF s] ok by (auto simp: is_done_def succeeded_def)
  then show ?thesis by blast
next
  case (Inr w)
  let ?y = "z\<lparr>sc_lock := (sc_lock z)(sx_key x p := Some p), sc_phase := (sc_phase z)(p := Inside w)\<rparr>"
  have s: "own_step x p z ?y" by (rule own_step.enter [OF p Inr])
  have y: "fine ?y" using own_sound [OF s] ok by simp
  obtain z' where z': "moved p ?y z'" "succeeded z' p" using leaves [OF y, of p] by auto
  have "proceeds x z z'" using proceeds_trans [OF proceeds_one [OF s]] z'(1) by blast
  then have "moved p z z'" using z'(1) by simp
  then show ?thesis using z'(2) by blast
qed

lemma gets_served:
  assumes ok: "fine z" and p: "sc_phase z p = Waiting" and r: "ready p (sc_db z)"
  shows "\<exists>z'. proceeds x z z' \<and> fine z' \<and> succeeded z' p \<and> (\<forall>q. ready q (sc_db z) \<longrightarrow> ready q (sc_db z')) \<and>
    (\<forall>q. q \<noteq> p \<and> \<not> holding (sc_phase z q) \<longrightarrow> sc_phase z' q = sc_phase z q)"
proof (cases "sc_lock z (sx_key x p)")
  case None
  from takes_turn [OF ok p None r] show ?thesis by blast
next
  case (Some q)
  then have q: "sx_key x q = sx_key x p" "holding (sc_phase z q)" using ok by (auto simp: locks_ok_def)
  obtain y where y: "moved q z y" "sc_lock y (sx_key x p) = None"
    using leaves [OF ok q(2)] unfolding q(1) by blast
  have "p \<noteq> q" using p q(2) by auto
  then have "sc_phase y p = Waiting" using y(1) p by simp
  then obtain z' where z': "moved p y z'" "succeeded z' p"
    using takes_turn [of y p] y r by blast
  have same: "sc_phase z' s = sc_phase z s" if "s \<noteq> p" "\<not> holding (sc_phase z s)" for s
  proof -
    have "s \<noteq> q" using that(2) q(2) by auto
    then show ?thesis using y(1) z'(1) that(1) by simp
  qed
  have "proceeds x z z'" using proceeds_trans y(1) z'(1) by blast
  then show ?thesis using y(1) z' same by blast
qed

lemma all_served:
  assumes ok: "fine z"
  shows "(\<forall>p\<in>set ps. sc_phase z p = Waiting \<and> ready p (sc_db z)) \<Longrightarrow>
    \<exists>z'. proceeds x z z' \<and> fine z' \<and> (\<forall>p\<in>set ps. succeeded z' p) \<and>
      (\<forall>q. ready q (sc_db z) \<longrightarrow> ready q (sc_db z')) \<and>
      (\<forall>q. q \<notin> set ps \<and> \<not> holding (sc_phase z q) \<longrightarrow> sc_phase z' q = sc_phase z q)"
proof (induction ps)
  case Nil
  then show ?case using proceeds_refl ok by fastforce
next
  case (Cons p ps)
  then obtain y where y: "proceeds x z y" "fine y" "\<forall>p\<in>set ps. succeeded y p"
      "\<forall>q. ready q (sc_db z) \<longrightarrow> ready q (sc_db y)"
      "\<forall>q. q \<notin> set ps \<and> \<not> holding (sc_phase z q) \<longrightarrow> sc_phase y q = sc_phase z q"
    by auto
  show ?case
  proof (cases "p \<in> set ps")
    case True
    then show ?thesis using y by (intro exI [of _ y]) auto
  next
    case False
    then have p: "sc_phase y p = Waiting" "ready p (sc_db y)" using y(4,5) Cons.prems by simp_all
    obtain z' where z': "proceeds x y z'" "fine z'" "succeeded z' p"
        "\<forall>q. ready q (sc_db y) \<longrightarrow> ready q (sc_db z')"
        "\<forall>q. q \<noteq> p \<and> \<not> holding (sc_phase y q) \<longrightarrow> sc_phase z' q = sc_phase y q"
      using gets_served [OF y(2) p] by blast
    have idle: "\<not> holding (sc_phase y q)" if "succeeded y q" for q
      using that by (cases "sc_phase y q") (simp_all add: succeeded_def)
    have "succeeded z' q" if "q \<in> set ps" for q
      using y(3) z'(5) idle that False by (metis succeeded_def)
    moreover have "sc_phase z' q = sc_phase z q" if "q \<notin> set (p # ps)" "\<not> holding (sc_phase z q)" for q
      using y(5) z'(5) that by simp
    ultimately show ?thesis
      using proceeds_trans [OF y(1) z'(1)] z'(2,3,4) y(4) by (intro exI [of _ z']) auto
  qed
qed

end

end
