(* ===== verification/Serialized.thy ===== *)
theory Serialized
  imports Locks SessionProperties
begin

text \<open>
  Two transactions of the source that rely on a lock, as instances of the locale \<open>once\<close>:
  \<^verbatim>\<open>ensureCustomer\<close> of \<^verbatim>\<open>src/billing/billing.service.ts\<close>, whose SELECT takes the row of the
  organization FOR UPDATE, and the transaction of \<^verbatim>\<open>src/billing/webhook.service.ts\<close>, whose first
  INSERT takes the entry of the event in the unique index of the ledger (a second INSERT of the
  same event waits until the first transaction ends). Each is cut at the points where another
  process can run, and shown to be the modelled operation when its parts run in a row. The last part
  runs the source's own COMMIT and its handlers: a way through it that left the transaction open
  would keep the lock. \<open>ensureCustomer\<close> is an instance of \<open>serving\<close> too, so every request gets through.
\<close>

subsection \<open>The customer of a tenant\<close>

text \<open>
  A request is a number and its tenant. The scalar subquery for the email is evaluated with
  the row.
\<close>

type_synonym bill_process = "nat \<times> uuid"

definition customer_first :: "bool \<Rightarrow> bill_process \<Rightarrow> db \<Rightarrow> (exn + string) + string" where
  "customer_first bypass p d =
     (case tenant_org d (snd p) of
        None \<Rightarrow> Inl (Inl (AppError (not_found ''Organization not found'')))
      | Some g \<Rightarrow>
          (case truthy (org_stripe_customer_id g) of
             Some i \<Rightarrow> Inl (Inr i)
           | None \<Rightarrow>
               (case truthy (bill_email bypass d (snd p)) of
                  None \<Rightarrow> Inl (Inl (AppError (conflict ''Organization has no owner to bill'')))
                | Some em \<Rightarrow> Inr em)))"

definition customer_ask ::
  "gateway \<Rightarrow> bill_process \<Rightarrow> string \<Rightarrow> db \<Rightarrow> stripe_call list \<Rightarrow> (exn + string) \<times> stripe_call list" where
  "customer_ask gw p em d calls =
     ((case gw_create_customer gw calls em (snd p) of
         Inl e \<Rightarrow> Inl (wrap_stripe_error e ''Failed to create billing customer'')
       | Inr i \<Rightarrow> Inr i), calls @ [CreateCustomer em (snd p)])"

text \<open>After the call: the write, the COMMIT, and the handler that rolls back.\<close>

definition customer_rest :: "uuid \<Rightarrow> exn + string \<Rightarrow> string io" where
  "customer_rest t answer =
     try_catch
       (case answer of
          Inl e \<Rightarrow> throw e
        | Inr i \<Rightarrow> andthen (set_customer t i) (andthen commit_tx (ret i)))
       (\<lambda>e. andthen (swallow rollback_tx) (throw e))"

definition customer_write :: "bool \<Rightarrow> bill_process \<Rightarrow> exn + string \<Rightarrow> db \<Rightarrow> (exn + string) \<times> db \<times> bool" where
  "customer_write bypass p answer d =
     (case customer_rest (snd p) answer (entered (start_state bypass d)) of
        (r, s) \<Rightarrow> (r, left_behind s))"

lemma customer_write_run:
  "customer_write bypass p answer d =
     (case answer of
        Inl e \<Rightarrow> (Inl e, d, True)
      | Inr i \<Rightarrow>
          if customer_taken d (snd p) i then (Inl (SqlError UniqueViolation), d, True)
          else (Inr i, customer_db (snd p) i d, True))"
proof (cases answer)
  case (Inl e)
  then show ?thesis
    by (simp add: customer_write_def customer_rest_def try_catch_def throw_def andthen_def bnd_def swallow_def
        rollback_tx_def left_behind_def entered_def start_state_def end_tx_def)
next
  case (Inr i)
  let ?s = "entered (start_state bypass d)"
  have l: "live ?s" and db: "st_db ?s = d" by (simp_all add: entered_def start_state_def live_def)
  obtain n where n: "set_customer (snd p) i ?s =
      (if customer_taken d (snd p) i then (Inl (SqlError UniqueViolation), ?s\<lparr>st_conn := abort_tx (st_conn ?s)\<rparr>)
       else (Inr n, ?s\<lparr>st_db := customer_db (snd p) i d\<rparr>))"
    using set_customer_run [OF l, of "snd p" i] unfolding db by blast
  show ?thesis
    using n Inr
    by (simp add: customer_write_def customer_rest_def try_catch_def throw_def andthen_def bnd_def swallow_def
        ret_def rollback_tx_def commit_tx_def left_behind_def entered_def start_state_def abort_tx_def)
qed

text \<open>In a row they are \<open>ensure_customer\<close>.\<close>

lemma customer_parts:
  assumes "clean (st_conn s)"
  shows "ensure_customer gw t s =
    (case customer_first (bypass_rls (st_conn s)) (n, t) (st_db s) of
       Inl r \<Rightarrow> (r, s)
     | Inr em \<Rightarrow>
         (case customer_ask gw (n, t) em (st_db s) (st_calls s) of
            (answer, calls) \<Rightarrow>
              (case customer_write bypass (n, t) answer (st_db s) of
                 (r, d, ended) \<Rightarrow> (r, s\<lparr>st_db := d, st_calls := calls\<rparr>))))"
  unfolding ensure_customer_cases [OF assms]
  by (simp add: customer_first_def customer_ask_def customer_write_run called_def
      split: option.split sum.split)

text \<open>
  What else happens to an organization meanwhile: anything that keeps the customer it has, or
  that it has none, and stores no empty id.
\<close>

definition stored_customer :: "db \<Rightarrow> uuid \<Rightarrow> string option option" where
  "stored_customer d t = map_option org_stripe_customer_id (tenant_org d t)"

definition no_blank :: "db \<Rightarrow> bool" where
  "no_blank d \<longleftrightarrow> (\<forall>g\<in>set (organizations d). org_stripe_customer_id g \<noteq> Some [])"

definition keeps_customers :: "db \<Rightarrow> db \<Rightarrow> bool" where
  "keeps_customers d d' \<longleftrightarrow> (db_ok d \<longrightarrow> db_ok d') \<and> (no_blank d \<longrightarrow> no_blank d') \<and>
     (\<forall>t. stored_customer d t \<noteq> None \<longrightarrow> stored_customer d' t = stored_customer d t)"

text \<open>
  The statements of the source on organizations are of this kind: the insert of a signup, and the
  updates of a webhook and of a cancellation, which keep the keys of the row. So is every
  statement on another table.
\<close>

lemma intact_statement:
  assumes "tracks keeps_intact (exec q)" and "q (fresh_conn b) d = Inr (a, d')" and "db_ok d"
  shows "db_ok d'"
proof -
  have "exec q (start_state b d) = (Inr a, (start_state b d)\<lparr>st_db := d'\<rparr>)"
    using assms(2) by (simp add: exec_def start_state_def fresh_conn_def)
  from tracksD [OF assms(1) this] show ?thesis
    using assms(3) by (simp add: keeps_intact_def intact_def start_state_def fresh_conn_def)
qed

lemma signup_keeps_customers:
  assumes q: "q_insert_org (new_org x v i) (fresh_conn b) d = Inr (a, d')"
  shows "keeps_customers d d'"
proof -
  have d': "organizations d' = organizations d @ [new_org x v i]"
    using q by (auto simp: q_insert_org_def split: if_splits)
  have "stored_customer d' t = stored_customer d t" if "stored_customer d t \<noteq> None" for t
    using that by (cases "filter (\<lambda>g. org_id g = t) (organizations d)")
      (simp_all add: stored_customer_def tenant_org_def d')
  moreover have "no_blank d \<Longrightarrow> no_blank d'" by (auto simp: no_blank_def d' new_org_def)
  moreover have "db_ok d \<Longrightarrow> db_ok d'" using intact_statement [OF intact_insert_org q] .
  ultimately show ?thesis by (simp add: keeps_customers_def)
qed

lemma update_keeps_customers:
  assumes k: "\<And>g. org_key (f g) = org_key g" and q: "q_update_org p f (fresh_conn b) d = Inr (a, d')"
  shows "keeps_customers d d'"
proof -
  let ?f = "\<lambda>g. if p g then f g else g"
  have d': "organizations d' = map ?f (organizations d)"
    using q by (auto simp: q_update_org_def split: if_splits)
  have "tenant_org d' t = map_option ?f (tenant_org d t)" for t
    unfolding tenant_org_def d' by (rule first_row_filter_map) (simp add: org_keyD [OF k])
  then have "stored_customer d' t = stored_customer d t" for t
    by (cases "tenant_org d t") (simp_all add: stored_customer_def org_keyD [OF k])
  moreover have "no_blank d \<Longrightarrow> no_blank d'" by (auto simp: no_blank_def d' org_keyD [OF k])
  moreover have "db_ok d \<Longrightarrow> db_ok d'" using intact_statement [OF intact_update_org [OF k] q] .
  ultimately show ?thesis by (simp add: keeps_customers_def)
qed

lemma elsewhere_keeps_customers:
  "organizations d' = organizations d \<Longrightarrow> (db_ok d \<Longrightarrow> db_ok d') \<Longrightarrow> keeps_customers d d'"
  by (simp add: keeps_customers_def no_blank_def stored_customer_def tenant_org_def)

definition customer_code ::
  "gateway \<Rightarrow> bool \<Rightarrow> (bill_process, uuid, string, exn + string, string) section_code" where
  "customer_code gw bypass =
     \<lparr>sx_key = snd, sx_first = customer_first bypass, sx_work = customer_ask gw, sx_last = customer_write bypass,
      sx_asks = (\<lambda>t call. \<exists>em. call = CreateCustomer em t), sx_others = keeps_customers\<rparr>"

lemma customer_code_sel [simp]:
  "sx_key (customer_code gw b) p = snd p" "sx_first (customer_code gw b) = customer_first b"
  "sx_work (customer_code gw b) = customer_ask gw" "sx_last (customer_code gw b) = customer_write b"
  "sx_asks (customer_code gw b) t call \<longleftrightarrow> (\<exists>em. call = CreateCustomer em t)"
  "sx_others (customer_code gw b) = keeps_customers"
  by (simp_all add: customer_code_def)

text \<open>What Stripe answers with: ids that are not empty.\<close>

definition issued :: "gateway \<Rightarrow> uuid \<Rightarrow> string \<Rightarrow> bool" where
  "issued gw t i \<longleftrightarrow> (\<exists>calls em. gw_create_customer gw calls em t = Inr i)"

definition names_customers :: "gateway \<Rightarrow> bool" where
  "names_customers gw \<longleftrightarrow> (\<forall>t i. issued gw t i \<longrightarrow> i \<noteq> [])"

lemma issuedI: "gw_create_customer gw calls em t = Inr i \<Longrightarrow> issued gw t i"
  by (auto simp: issued_def)

lemma customer_db_org:
  "tenant_org (customer_db t i d) u =
     map_option (\<lambda>g. if org_id g = t \<and> org_stripe_customer_id g = None
       then g\<lparr>org_stripe_customer_id := Some i\<rparr> else g) (tenant_org d u)"
proof -
  let ?f = "\<lambda>g. if org_id g = t \<and> org_stripe_customer_id g = None then g\<lparr>org_stripe_customer_id := Some i\<rparr> else g"
  have "tenant_org (customer_db t i d) u = first_row (filter (\<lambda>g. org_id g = u) (map ?f (organizations d)))"
    by (simp add: tenant_org_def customer_db_def)
  also have "\<dots> = map_option ?f (tenant_org d u)"
    unfolding tenant_org_def by (rule first_row_filter_map) simp
  finally show ?thesis .
qed

lemma tenant_org_id: "tenant_org d t = Some g \<Longrightarrow> g \<in> set (organizations d) \<and> org_id g = t"
  unfolding tenant_org_def by (rule first_row_filterD)

lemma customer_db_of:
  "stored_customer (customer_db t i d) u =
     (if u = t \<and> stored_customer d t = Some None then Some (Some i) else stored_customer d u)"
  using tenant_org_id [of d u]
  by (cases "tenant_org d u") (auto simp: stored_customer_def customer_db_org)

lemma customer_db_no_blank: "no_blank d \<Longrightarrow> i \<noteq> [] \<Longrightarrow> no_blank (customer_db t i d)"
  by (auto simp: no_blank_def customer_db_def)

interpretation cu: once "customer_code gw bypass"
  "\<lambda>d. db_ok d \<and> no_blank d \<and> names_customers gw" "\<lambda>t d. stored_customer d t = Some None"
  "\<lambda>t i d. stored_customer d t = Some (Some i)" "\<lambda>p answer. \<forall>i. answer = Inr i \<longrightarrow> i \<noteq> [] \<and> issued gw (snd p) i"
  for gw bypass
proof (unfold_locales, unfold customer_code_sel)
  fix d p w
  assume d: "db_ok d \<and> no_blank d \<and> names_customers gw"
  assume "customer_first bypass p d = Inr w"
  then obtain g where g: "tenant_org d (snd p) = Some g" "truthy (org_stripe_customer_id g) = None"
    by (auto simp: customer_first_def split: option.splits)
  then have "org_stripe_customer_id g \<noteq> Some []" using d tenant_org_id [OF g(1)] by (auto simp: no_blank_def)
  then show "stored_customer d (snd p) = Some None"
    using g by (auto simp: stored_customer_def truthy_def split: option.splits if_splits)
next
  fix d p r
  assume "customer_first bypass p d = Inl (Inr r)"
  then show "stored_customer d (snd p) = Some (Some r)"
    by (auto simp: customer_first_def stored_customer_def truthy_def split: option.splits if_splits)
next
  fix d p w cs v cs'
  assume "db_ok d \<and> no_blank d \<and> names_customers gw" "customer_ask gw p w d cs = (v, cs')"
  then show "\<forall>i. v = Inr i \<longrightarrow> i \<noteq> [] \<and> issued gw (snd p) i"
    by (auto simp: customer_ask_def names_customers_def dest: issuedI split: sum.splits)
qed (auto simp: customer_ask_def customer_write_run customer_db_of customer_db_ok customer_db_no_blank
    keeps_customers_def ends_def split: sum.splits if_splits)

text \<open>
  A request that is ready: its tenant exists, and has a customer or a user to bill. The outside is
  able when Stripe answers every call, and with an id of this tenant alone, which no other
  tenant has stored either.
\<close>

definition bill_ready :: "bool \<Rightarrow> bill_process \<Rightarrow> db \<Rightarrow> bool" where
  "bill_ready bypass p d \<longleftrightarrow> (\<exists>g. tenant_org d (snd p) = Some g \<and>
     (truthy (org_stripe_customer_id g) \<noteq> None \<or> truthy (bill_email bypass d (snd p)) \<noteq> None))"

definition stripe_answers :: "gateway \<Rightarrow> db \<Rightarrow> bool" where
  "stripe_answers gw d \<longleftrightarrow>
     (\<forall>calls em t. \<exists>i. gw_create_customer gw calls em t = Inr i) \<and>
     (\<forall>t u i. issued gw t i \<and> (issued gw u i \<or> stored_customer d u = Some (Some i)) \<longrightarrow> u = t)"

lemma fresh_customer_free:
  assumes d: "db_ok d" and free: "\<forall>u. stored_customer d u = Some (Some i) \<longrightarrow> u = t"
  shows "\<not> customer_taken d t i"
proof
  assume "customer_taken d t i"
  then obtain r q where r: "r \<in> set (organizations d)" "org_id r = t" "org_stripe_customer_id r = None"
    and q: "q \<in> set (organizations d)" "org_id q \<noteq> t" "org_clash (r\<lparr>org_stripe_customer_id := Some i\<rparr>) q"
    by (auto simp: customer_taken_def list_ex_iff)
  have nd: "no_dups org_clash (organizations d)" using d by (simp add: db_ok_defs)
  have "\<not> org_clash r q"
    using no_dups_eq [OF nd r(1) q(1)] r(2,3) q(2) by (auto simp: org_clash_def same_some_def)
  then have i: "org_stripe_customer_id q = Some i"
    using q(3) r(2) q(2) by (auto simp: org_clash_def same_some_def)
  have "filter (\<lambda>g. org_id g = org_id q) (organizations d) = [q]"
    by (rule no_dups_filter_one [OF nd q(1)]) (simp_all add: org_clash_def)
  then have "stored_customer d (org_id q) = Some (Some i)" by (simp add: stored_customer_def tenant_org_def i)
  then show False using free q(2) by blast
qed

lemma customer_db_email [simp]: "bill_email bypass (customer_db t i d) u = bill_email bypass d u"
  by (simp add: bill_email_def customer_db_def)

lemma customer_db_ready:
  assumes "bill_ready bypass p d" and "i \<noteq> []"
  shows "bill_ready bypass p (customer_db t i d)"
proof -
  obtain g where "tenant_org d (snd p) = Some g"
      "truthy (org_stripe_customer_id g) \<noteq> None \<or> truthy (bill_email bypass d (snd p)) \<noteq> None"
    using assms(1) by (auto simp: bill_ready_def)
  moreover have "truthy (Some i) \<noteq> None" using assms(2) by (simp add: truthy_def)
  ultimately show ?thesis by (simp add: bill_ready_def customer_db_org)
qed

lemma customer_db_answers:
  assumes a: "stripe_answers gw d" and i: "issued gw t i"
  shows "stripe_answers gw (customer_db t i d)"
proof -
  have apart: "v = u" if "issued gw u j" "issued gw v j \<or> stored_customer d v = Some (Some j)" for u v j
    using a that unfolding stripe_answers_def by blast
  have "v = u" if "issued gw u j" "stored_customer (customer_db t i d) v = Some (Some j)" for u v j
  proof (cases "v = t \<and> stored_customer d t = Some None")
    case True
    then have "j = i" using that(2) by (simp add: customer_db_of)
    then show ?thesis using apart that(1) i True by blast
  next
    case False
    then show ?thesis using apart that by (simp add: customer_db_of split: if_splits)
  qed
  then show ?thesis using a unfolding stripe_answers_def by blast
qed

interpretation cs: serving "customer_code gw bypass"
  "\<lambda>d. db_ok d \<and> no_blank d \<and> names_customers gw" "\<lambda>t d. stored_customer d t = Some None"
  "\<lambda>t i d. stored_customer d t = Some (Some i)" "\<lambda>p answer. \<forall>i. answer = Inr i \<longrightarrow> i \<noteq> [] \<and> issued gw (snd p) i"
  "stripe_answers gw" "bill_ready bypass" "\<lambda>answer. \<exists>i. answer = Inr i"
  for gw bypass
proof (unfold_locales, unfold customer_code_sel)
  fix d p and out :: "exn + string"
  assume "bill_ready bypass p d" "customer_first bypass p d = Inl out"
  then show "\<exists>a. out = Inr a" by (auto simp: bill_ready_def customer_first_def split: option.splits)
next
  fix d p w cs v cs'
  assume "stripe_answers gw d" "customer_ask gw p w d cs = (v, cs')"
  then show "\<exists>i. v = Inr i"
    by (auto simp: stripe_answers_def customer_ask_def split: sum.splits) (metis Inr_Inl_False)
next
  fix d p v d' e and out :: "exn + string"
  assume d: "db_ok d \<and> no_blank d \<and> names_customers gw" "stripe_answers gw d"
    and v: "\<forall>i. v = Inr i \<longrightarrow> i \<noteq> [] \<and> issued gw (snd p) i" "\<exists>i. v = Inr i"
    and w: "customer_write bypass p v d = (out, d', e)"
  from v obtain i where i: "v = Inr i" "issued gw (snd p) i" by blast
  have "\<not> customer_taken d (snd p) i"
    by (rule fresh_customer_free) (use d i(2) in \<open>unfold stripe_answers_def, blast+\<close>)
  then show "\<exists>a. out = Inr a" using w i(1) by (auto simp: customer_write_run)
next
  fix d p v d' e and out :: "exn + string"
  assume d: "stripe_answers gw d" and v: "\<forall>i. v = Inr i \<longrightarrow> i \<noteq> [] \<and> issued gw (snd p) i"
    and w: "customer_write bypass p v d = (out, d', e)"
  then show "stripe_answers gw d'"
    using customer_db_answers [OF d] by (auto simp: customer_write_run split: sum.splits if_splits)
next
  fix d p v d' e q and out :: "exn + string"
  assume v: "\<forall>i. v = Inr i \<longrightarrow> i \<noteq> [] \<and> issued gw (snd p) i"
    and w: "customer_write bypass p v d = (out, d', e)" and r: "bill_ready bypass q d"
  then show "bill_ready bypass q d'"
    using customer_db_ready [OF r] by (auto simp: customer_write_run split: sum.splits if_splits)
qed

subsection \<open>The ledger of events\<close>

text \<open>
  A delivery: its event, what was fetched for it before the transaction (nothing, when the event is
  only recorded), and the state of its request, whose database is the shared one.
\<close>

record delivery =
  dl_env :: env
  dl_event :: stripe_event
  dl_fetched :: "stripe_subscription option"
  dl_state :: state

definition hook_insert :: "delivery \<Rightarrow> db \<Rightarrow> (exn + webhook_outcome) + unit" where
  "hook_insert p d = (if in_ledger d (ev_id (dl_event p)) then Inl (Inr Duplicate) else Inr ())"

definition hook_resolve ::
  "delivery \<Rightarrow> unit \<Rightarrow> db \<Rightarrow> stripe_call list \<Rightarrow> (stripe_subscription \<times> org_row) option \<times> stripe_call list" where
  "hook_resolve p w d calls =
     ((case dl_fetched p of
         None \<Rightarrow> None
       | Some ss \<Rightarrow> (case customer_org d ss of None \<Rightarrow> None | Some org \<Rightarrow> Some (ss, org))), calls)"

text \<open>
  After the lookup: the synchronisation, the COMMIT, the handler that rolls back and the reset. An
  event that is only recorded has nothing to write, like one of an unknown customer.
\<close>

definition hook_rest ::
  "env \<Rightarrow> stripe_event \<Rightarrow> (stripe_subscription \<times> org_row) option \<Rightarrow> webhook_outcome io" where
  "hook_rest v ev found =
     finally_do
       (try_catch
          (case found of
             None \<Rightarrow> andthen commit_tx (ret Ignored)
           | Some (ss, org) \<Rightarrow> andthen (sync_org v ev ss org) (andthen commit_tx (ret Processed)))
          (\<lambda>e. andthen (swallow rollback_tx) (throw e)))
       (swallow reset_tenant)"

definition hook_write ::
  "delivery \<Rightarrow> (stripe_subscription \<times> org_row) option \<Rightarrow> db \<Rightarrow> (exn + webhook_outcome) \<times> db \<times> bool" where
  "hook_write p found d =
     (case hook_rest (dl_env p) (dl_event p) found
          (recorded (dl_env p) (ev_id (dl_event p)) ((dl_state p)\<lparr>st_db := d\<rparr>)) of
        (r, s) \<Rightarrow> (r, left_behind s))"

lemma hook_write_run:
  "hook_write p found d =
     (case found of
        None \<Rightarrow> (Inr Ignored, recorded_db (dl_env p) (ev_id (dl_event p)) d, True)
      | Some (ss, org) \<Rightarrow>
          (case sync_org (dl_env p) (dl_event p) ss org
              (recorded (dl_env p) (ev_id (dl_event p)) ((dl_state p)\<lparr>st_db := d\<rparr>)) of
             (Inr _, s1) \<Rightarrow> (Inr Processed, committed_db s1, True)
           | (Inl e, _) \<Rightarrow> (Inl e, d, True)))"
proof (cases found)
  case None
  let ?s = "recorded (dl_env p) (ev_id (dl_event p)) ((dl_state p)\<lparr>st_db := d\<rparr>)"
  have "tx (st_conn ?s) = InTx d" "st_db ?s = recorded_db (dl_env p) (ev_id (dl_event p)) d"
    by (simp_all add: recorded_def entered_def)
  then show ?thesis
    by (simp add: None hook_write_def hook_rest_def eff_simps commit_tx_def reset_tenant_def left_behind_def)
next
  case (Some f)
  obtain ss org where f: "f = (ss, org)" by fastforce
  let ?s = "recorded (dl_env p) (ev_id (dl_event p)) ((dl_state p)\<lparr>st_db := d\<rparr>)"
  have r1: "tx (st_conn ?s) = InTx d" by (simp add: recorded_def entered_def)
  obtain r2 s2 where sy: "sync_org (dl_env p) (dl_event p) ss org ?s = (r2, s2)" by fastforce
  have "tx_kept ?s s2" by (rule tracksD [OF sync_org_kept sy])
  then have tx2: "tx (st_conn s2) = InTx d \<or> tx (st_conn s2) = Aborted d"
    by (auto simp: tx_kept_def r1)
  show ?thesis
    using tx2 sy Some f
    by (cases r2)
      (auto simp: hook_write_def hook_rest_def eff_simps commit_tx_def rollback_tx_def
        reset_tenant_def committed_db_def left_behind_def end_tx_def)
qed

definition hook_parts :: "delivery \<Rightarrow> db \<Rightarrow> (exn + webhook_outcome) \<times> db" where
  "hook_parts p d =
     (case hook_insert p d of
        Inl r \<Rightarrow> (r, d)
      | Inr w \<Rightarrow> (case hook_write p (fst (hook_resolve p w d [])) d of (r, d', ended) \<Rightarrow> (r, d')))"

text \<open>In a row they are the transaction of the webhook, and the insert of an event without one.\<close>

lemma hook_parts_sync:
  assumes "clean (st_conn s)" and "webhook_sync v ev ss s = (r, s')"
  shows "hook_parts \<lparr>dl_env = v, dl_event = ev, dl_fetched = Some ss, dl_state = s\<rparr> (st_db s) = (r, st_db s')"
proof -
  have "s\<lparr>st_db := st_db s\<rparr> = s" by simp
  with assms(2) [unfolded webhook_sync_cases [OF assms(1)]] show ?thesis
    by (auto simp: hook_parts_def hook_insert_def hook_resolve_def hook_write_run
        split: option.splits sum.splits prod.splits if_splits)
qed

lemma hook_parts_record:
  assumes "clean (st_conn s)" and "dl_fetched p = None" and "dl_env p = v" and "ev_id (dl_event p) = i"
    and "bnd (record_only v i) (\<lambda>b. ret (if b then Ignored else Duplicate)) s = (r, s')"
  shows "hook_parts p (st_db s) = (r, st_db s')"
  using assms(2-)
  by (auto simp: hook_parts_def hook_insert_def hook_resolve_def hook_write_run bnd_def ret_def
      record_only_cases [OF assms(1)] split: if_splits)

text \<open>Everything that records an event is a delivery; other statements leave the ledger alone.\<close>

definition keeps_ledger :: "db \<Rightarrow> db \<Rightarrow> bool" where
  "keeps_ledger d d' \<longleftrightarrow> processed_webhooks d' = processed_webhooks d"

definition hook_code ::
  "(delivery, string, unit, (stripe_subscription \<times> org_row) option, webhook_outcome) section_code" where
  "hook_code =
     \<lparr>sx_key = (\<lambda>p. ev_id (dl_event p)), sx_first = hook_insert, sx_work = hook_resolve, sx_last = hook_write,
      sx_asks = (\<lambda>i call. False), sx_others = keeps_ledger\<rparr>"

lemma hook_code_sel [simp]:
  "sx_key hook_code p = ev_id (dl_event p)" "sx_first hook_code = hook_insert"
  "sx_work hook_code = hook_resolve" "sx_last hook_code = hook_write"
  "sx_asks hook_code i call \<longleftrightarrow> False" "sx_others hook_code = keeps_ledger"
  by (simp_all add: hook_code_def)

lemma in_ledger_cong: "processed_webhooks d = processed_webhooks d' \<Longrightarrow> in_ledger d i = in_ledger d' i"
  by (simp add: in_ledger_def)

lemma hook_write_ledger:
  assumes "hook_write p found d = (r, d', ended)"
  shows "(\<exists>e. r = Inl e) \<and> d' = d \<or>
    processed_webhooks d' = processed_webhooks (recorded_db (dl_env p) (ev_id (dl_event p)) d)"
proof (cases found)
  case None
  then show ?thesis using assms by (simp add: hook_write_run)
next
  case (Some f)
  obtain ss org where f: "f = (ss, org)" by fastforce
  let ?s = "(dl_state p)\<lparr>st_db := d\<rparr>"
  obtain r1 s1 where run: "sync_org (dl_env p) (dl_event p) ss org (recorded (dl_env p) (ev_id (dl_event p)) ?s) = (r1, s1)"
    by fastforce
  show ?thesis
  proof (cases r1)
    case (Inl e)
    then show ?thesis using assms Some f run by (auto simp: hook_write_run)
  next
    case (Inr u)
    then have "live s1 \<and> processed_webhooks (st_db s1) =
        processed_webhooks (st_db (recorded (dl_env p) (ev_id (dl_event p)) ?s))"
      using sync_org_Inr run by simp
    then show ?thesis
      using assms Some f run Inr by (simp add: hook_write_run committed_live recorded_def)
  qed
qed

lemma hook_write_in_ledger:
  assumes "hook_write p found d = (r, d', ended)"
  shows "in_ledger d' i \<longleftrightarrow> in_ledger d i \<or> (d' \<noteq> d \<and> i = ev_id (dl_event p)) \<or>
    ((\<exists>out. r = Inr out) \<and> i = ev_id (dl_event p))"
  using hook_write_ledger [OF assms]
proof
  assume "(\<exists>e. r = Inl e) \<and> d' = d"
  then show ?thesis by auto
next
  assume "processed_webhooks d' = processed_webhooks (recorded_db (dl_env p) (ev_id (dl_event p)) d)"
  from in_ledger_cong [OF this, of i] show ?thesis
    by (cases "d' = d") auto
qed

lemma hook_write_failed: "hook_write p found d = (Inl e, d', ended) \<Longrightarrow> d' = d"
  by (auto simp: hook_write_run split: option.splits prod.splits sum.splits)

interpretation hk: once hook_code "\<lambda>d. True" "\<lambda>i d. \<not> in_ledger d i" "\<lambda>i out d. in_ledger d i" "\<lambda>p f. True"
proof (unfold_locales, unfold hook_code_sel)
  fix p v d d' ended r
  assume "hook_write p v d = (Inr r, d', ended)"
  from hook_write_in_ledger [OF this] show "in_ledger d' (ev_id (dl_event p))" by blast
next
  fix p v d d' ended k and out :: "exn + webhook_outcome"
  assume "hook_write p v d = (out, d', ended)" "in_ledger d k"
  then show "in_ledger d' k" using hook_write_in_ledger by blast
next
  fix p v d d' ended k and out :: "exn + webhook_outcome"
  assume "hook_write p v d = (out, d', ended)" "k \<noteq> ev_id (dl_event p)" "\<not> in_ledger d k"
  then show "\<not> in_ledger d' k" using hook_write_in_ledger [of p v d out d' ended k] by blast
next
  show "ends hook_code"
    by (auto simp: ends_def hook_write_run split: option.splits prod.splits sum.splits)
qed (auto simp: hook_insert_def hook_resolve_def keeps_ledger_def in_ledger_def split: if_splits)

subsection \<open>What holds of every schedule\<close>

lemma customer_unique:
  assumes d: "db_ok d" and i: "stored_customer d t = Some (Some i)" "stored_customer d u = Some (Some i)"
  shows "t = u"
proof -
  obtain g h where g: "tenant_org d t = Some g" "org_stripe_customer_id g = Some i"
    and h: "tenant_org d u = Some h" "org_stripe_customer_id h = Some i"
    using i by (auto simp: stored_customer_def)
  have c: "org_clash g h" "org_clash h g" using g h by (simp_all add: org_clash_def same_some_def)
  have "no_dups org_clash (organizations d)" using d by (simp add: db_ok_defs)
  then have "g = h"
    by (rule no_dups_eq) (use c tenant_org_id [OF g(1)] tenant_org_id [OF h(1)] in auto)
  then show ?thesis using tenant_org_id [OF g(1)] tenant_org_id [OF h(1)] by simp
qed

text \<open>
  C16: Any number of requests, of any tenants, that need the tenant's Stripe customer, run
  interleaved statement by statement with each other and with other code; some may die inside
  their transaction. Every request that gets an id gets the one stored for its tenant, so all
  requests of a tenant agree; no two tenants share one; and Stripe is asked to create a customer
  for a tenant at most once, plus once for each request that failed after it held the row.
\<close>
theorem customers_concurrent:
  assumes "section_run (customer_code gw bypass) (sections_start d) z"
    and "db_ok d" and "no_blank d" and "names_customers gw"
  shows "(\<forall>p i. outcome (sc_phase z p) = Some (Inr i) \<longrightarrow> stored_customer (sc_db z) (snd p) = Some (Some i)) \<and>
    (\<forall>p q i. outcome (sc_phase z p) = Some (Inr i) \<and> outcome (sc_phase z q) = Some (Inr i) \<longrightarrow> snd p = snd q) \<and>
    asked (customer_code gw bypass) z t \<le> card (failed (customer_code gw bypass) z t) + 1"
proof -
  have d: "db_ok d \<and> no_blank d \<and> names_customers gw" using assms(2-4) by simp
  have stored: "stored_customer (sc_db z) (snd p) = Some (Some i)" if "outcome (sc_phase z p) = Some (Inr i)" for p i
    using cu.handled_once(2) [OF assms(1) d that] by simp
  moreover have "db_ok (sc_db z)" using cu.handled_once(1) [OF assms(1) d] by simp
  ultimately show ?thesis
    using cu.handled_once(4) [OF assms(1) d, of t] customer_unique by blast
qed

text \<open>
  C18: Every request gets its customer, provided Stripe answers. Wherever a schedule stands, whoever
  holds a row, has died or failed before, and whoever waits: any waiting requests of tenants
  that have a customer or a user to bill can be brought to success by steps of requests alone,
  each with the id stored for its tenant, and the answers already given stay. It rests on every way through the
  transaction of \<^verbatim>\<open>ensureCustomer\<close> ending it: by the COMMIT, or by the ROLLBACK when the call, or
  the write, of the holder failed.
\<close>
theorem customers_all_served:
  assumes "section_run (customer_code gw bypass) (sections_start d) z"
    and "db_ok d" and "no_blank d" and "names_customers gw" and "stripe_answers gw (sc_db z)"
    and "\<forall>p\<in>set ps. sc_phase z p = Waiting \<and> bill_ready bypass p (sc_db z)"
  shows "\<exists>z'. proceeds (customer_code gw bypass) z z' \<and>
    (\<forall>p\<in>set ps. \<exists>i. outcome (sc_phase z' p) = Some (Inr i) \<and> stored_customer (sc_db z') (snd p) = Some (Some i)) \<and>
    (\<forall>q. is_done z q \<longrightarrow> sc_phase z' q = sc_phase z q)"
proof -
  have d: "db_ok d \<and> no_blank d \<and> names_customers gw" using assms(2-4) by simp
  have "cs.fine gw bypass z" using cu.sound_run [OF assms(1) cu.sound_start [OF d]] assms(5) by simp
  from cs.all_served [OF this assms(6)] obtain z' where z': "proceeds (customer_code gw bypass) z z'"
      "\<forall>p\<in>set ps. succeeded z' p"
      "\<forall>q. q \<notin> set ps \<and> \<not> holding (sc_phase z q) \<longrightarrow> sc_phase z' q = sc_phase z q" by blast
  have run: "section_run (customer_code gw bypass) (sections_start d) z'"
    using assms(1) proceeds_runs [OF z'(1)] unfolding section_run_def by (rule rtranclp_trans)
  have "sc_phase z' q = sc_phase z q" if "is_done z q" for q
  proof -
    have "q \<notin> set ps" "\<not> holding (sc_phase z q)"
      using that assms(6) by (auto simp: is_done_def) (cases "sc_phase z q"; simp)
    then show ?thesis using z'(3) by blast
  qed
  then show ?thesis
    using z'(1,2) cu.handled_once(2) [OF run d] unfolding succeeded_def customer_code_sel by blast
qed

text \<open>
  C17: Any number of deliveries, of the same and of other events, run interleaved statement by
  statement; some may die inside their transaction. At most one delivery of an event processes or
  ignores it, and one that does not get that far answers that it is a duplicate; every answered
  event is in the ledger, and from then on no step of another delivery of it changes the database;
  a delivery that fails changes nothing either.
\<close>
theorem deliveries_concurrent:
  assumes "section_run hook_code (sections_start d) z"
  shows "(\<forall>p q a b. sc_phase z p = Finished (Inr a) \<and> sc_phase z q = Finished (Inr b) \<and>
      ev_id (dl_event p) = ev_id (dl_event q) \<longrightarrow> p = q) \<and>
    (\<forall>p r. sc_phase z p = Answered r \<longrightarrow> r = Inr Duplicate) \<and>
    (\<forall>p out. outcome (sc_phase z p) = Some (Inr out) \<longrightarrow> in_ledger (sc_db z) (ev_id (dl_event p))) \<and>
    (\<forall>p q out z'. outcome (sc_phase z p) = Some (Inr out) \<and> ev_id (dl_event q) = ev_id (dl_event p) \<and>
      own_step hook_code q z z' \<longrightarrow> sc_db z' = sc_db z) \<and>
    (\<forall>p e z'. own_step hook_code p z z' \<and> sc_phase z' p = Finished (Inl e) \<longrightarrow> sc_db z' = sc_db z)"
proof -
  have "once_ok hook_code z" by (rule hk.handled_once(3) [OF assms]) simp
  moreover have "in_ledger (sc_db z) (ev_id (dl_event p))" if "outcome (sc_phase z p) = Some (Inr out)" for p out
    using hk.handled_once(2) [OF assms _ that] by simp
  moreover have "r = Inr Duplicate" if "sc_phase z p = Answered r" for p r
    using answered_first [OF assms that] by (auto simp: hook_insert_def split: if_splits)
  moreover have "sc_db z' = sc_db z" if "outcome (sc_phase z p) = Some (Inr out)"
    "ev_id (dl_event q) = ev_id (dl_event p)" "own_step hook_code q z z'" for p q out z'
    using hk.settled_step [OF assms _ that(1) _ that(3)] that(2) by simp
  moreover have "sc_db z' = sc_db z" if "own_step hook_code p z z'" "sc_phase z' p = Finished (Inl e)" for p e z'
    using that(1) by cases (use that(2) hook_write_failed in auto)
  ultimately show ?thesis unfolding once_ok_def hook_code_sel by blast
qed

subsection \<open>Two requests at once\<close>

lemma customers_concurrent_witness:
  "\<exists>z. section_run (customer_code (sample_gateway ''active'') True) (sections_start sample_db) z \<and>
     sc_phase z (0, 1) = Finished (Inr ''cus_new'') \<and> sc_phase z (1, 1) = Answered (Inr ''cus_new'') \<and>
     sc_calls z = [CreateCustomer ''a'' 1] \<and> stored_customer (sc_db z) 1 = Some (Some ''cus_new'')"
proof -
  let ?x = "customer_code (sample_gateway ''active'') True"
  let ?z0 = "sections_start sample_db :: (bill_process, uuid, string, exn + string, string) sections"
  let ?z1 = "?z0\<lparr>sc_lock := (sc_lock ?z0)(1 := Some (0, 1)), sc_phase := (sc_phase ?z0)((0, 1) := Inside ''a'')\<rparr>"
  let ?z2 = "?z1\<lparr>sc_calls := [CreateCustomer ''a'' 1], sc_phase := (sc_phase ?z1)((0, 1) := Called (Inr ''cus_new''))\<rparr>"
  let ?d = "customer_db 1 ''cus_new'' sample_db"
  let ?z3 = "?z2\<lparr>sc_db := ?d, sc_lock := (sc_lock ?z2)(1 := None),
    sc_phase := (sc_phase ?z2)((0, 1) := Finished (Inr ''cus_new''))\<rparr>"
  let ?z4 = "?z3\<lparr>sc_phase := (sc_phase ?z3)((1, 1) := Answered (Inr ''cus_new''))\<rparr>"
  note defs = sections_start_def customer_first_def customer_ask_def customer_write_run tenant_org_def truthy_def
    bill_email_def customer_taken_def customer_db_def sample_defs clash_defs
  have "own_step ?x (0, 1) ?z0 ?z1" using own_step.enter [of ?z0 "(0, 1)" ?x "''a''"] by (simp add: defs)
  moreover have "own_step ?x (0, 1) ?z1 ?z2"
    using own_step.work [of ?z1 "(0, 1)" "''a''" ?x] by (simp add: defs)
  moreover have "own_step ?x (0, 1) ?z2 ?z3"
    using own_step.commit [of ?z2 "(0, 1)" "Inr ''cus_new''" ?x "Inr ''cus_new''" ?d True] by (simp add: defs)
  moreover have "own_step ?x (1, 1) ?z3 ?z4"
    using own_step.skip [of ?z3 "(1, 1)" ?x] by (simp add: defs)
  ultimately have run: "section_run ?x ?z0 ?z4"
    unfolding section_run_def
    by (blast intro: section_step.own converse_rtranclp_into_rtranclp rtranclp.rtrancl_refl)
  have ok: "db_ok sample_db" "no_blank sample_db" "names_customers (sample_gateway ''active'')"
    using sample_db_ok by (simp_all add: no_blank_def sample_defs, auto simp: names_customers_def issued_def)
  have "outcome (sc_phase ?z4 (0, 1)) = Some (Inr ''cus_new'')" by simp
  with conjunct1 [OF customers_concurrent [OF run ok]]
  have "stored_customer (sc_db ?z4) (snd (0 :: nat, 1)) = Some (Some ''cus_new'')" by blast
  then have "stored_customer (sc_db ?z4) 1 = Some (Some ''cus_new'')" by (simp only: snd_conv)
  then show ?thesis by (intro exI [of _ ?z4] conjI run) simp_all
qed

text \<open>A gateway that makes ids of tenants, and two requests of one tenant with one of another.\<close>

definition naming_gateway :: gateway where
  "naming_gateway = (sample_gateway ''active'')\<lparr>gw_create_customer := (\<lambda>calls em t. Inr (uuid_out t))\<rparr>"

lemma uuid_out_ne: "uuid_out t \<noteq> []"
  using uuid_out_shape [of t] by (auto simp: id_shape_def)

lemma uuid_out_inj: "uuid_out t = uuid_out u \<Longrightarrow> u = t"
  by (metis option.inject uuid_in_out)

lemma issued_naming: "issued naming_gateway t i \<longleftrightarrow> i = uuid_out t"
  by (auto simp: issued_def naming_gateway_def)

lemma customers_all_served_witness:
  "\<exists>z. proceeds (customer_code naming_gateway True) (sections_start sample_db) z \<and>
     (\<exists>i j k. outcome (sc_phase z (0, 1)) = Some (Inr i) \<and> outcome (sc_phase z (1, 1)) = Some (Inr j) \<and>
       outcome (sc_phase z (2, 2)) = Some (Inr k) \<and> stored_customer (sc_db z) 1 = Some (Some i) \<and>
       stored_customer (sc_db z) 2 = Some (Some k))"
proof -
  let ?z = "sections_start sample_db :: (bill_process, uuid, string, exn + string, string) sections"
  have run: "section_run (customer_code naming_gateway True) ?z ?z" by (simp add: section_run_def)
  have none: "stored_customer sample_db u \<noteq> Some (Some i)" for u i
    by (auto simp: stored_customer_def tenant_org_def sample_defs)
  have db: "sc_db ?z = sample_db" by (simp add: sections_start_def)
  have call: "gw_create_customer naming_gateway calls em t = Inr (uuid_out t)" for calls em t
    by (simp add: naming_gateway_def)
  have "names_customers naming_gateway" "no_blank sample_db"
    by (auto simp: names_customers_def issued_naming no_blank_def sample_defs uuid_out_ne)
  moreover have "stripe_answers naming_gateway (sc_db ?z)"
    unfolding stripe_answers_def issued_naming using none uuid_out_inj db by (metis call)
  moreover have "\<forall>p\<in>set [(0, 1), (1, 1), (2, 2)]. sc_phase ?z p = Waiting \<and> bill_ready True p (sc_db ?z)"
    by (simp add: sections_start_def bill_ready_def tenant_org_def truthy_def bill_email_def sample_defs)
  ultimately show ?thesis using customers_all_served [OF run sample_db_ok] by fastforce
qed

definition sample_delivery :: "string \<Rightarrow> delivery" where
  "sample_delivery kind =
     \<lparr>dl_env = sample_env 0,
      dl_event = \<lparr>ev_id = ''evt_1'', ev_type = kind, ev_object_id = None, ev_object_subscription = None\<rparr>,
      dl_fetched = None, dl_state = start_state True sample_db\<rparr>"

lemma deliveries_concurrent_witness:
  "\<exists>z. section_run hook_code (sections_start sample_db) z \<and>
     sc_phase z (sample_delivery ''a'') = Finished (Inr Ignored) \<and>
     sc_phase z (sample_delivery ''b'') = Answered (Inr Duplicate) \<and> in_ledger (sc_db z) ''evt_1''"
proof -
  let ?p = "sample_delivery ''a''" and ?q = "sample_delivery ''b''"
  let ?d = "recorded_db (sample_env 0) ''evt_1'' sample_db"
  let ?z0 = "sections_start sample_db ::
    (delivery, string, unit, (stripe_subscription \<times> org_row) option, webhook_outcome) sections"
  let ?z1 = "?z0\<lparr>sc_lock := (sc_lock ?z0)(''evt_1'' := Some ?p), sc_phase := (sc_phase ?z0)(?p := Inside ())\<rparr>"
  let ?z2 = "?z1\<lparr>sc_calls := [], sc_phase := (sc_phase ?z1)(?p := Called None)\<rparr>"
  let ?z3 = "?z2\<lparr>sc_db := ?d, sc_lock := (sc_lock ?z2)(''evt_1'' := None),
    sc_phase := (sc_phase ?z2)(?p := Finished (Inr Ignored))\<rparr>"
  let ?z4 = "?z3\<lparr>sc_phase := (sc_phase ?z3)(?q := Answered (Inr Duplicate))\<rparr>"
  have i: "ev_id (dl_event (sample_delivery k)) = ''evt_1''" "dl_env (sample_delivery k) = sample_env 0"
    "dl_fetched (sample_delivery k) = None" for k
    by (simp_all add: sample_delivery_def)
  have ne: "?q \<noteq> ?p" by (simp add: sample_delivery_def)
  have fresh: "\<not> in_ledger sample_db ''evt_1''" by (simp add: in_ledger_def sample_defs)
  note defs = i ne fresh sections_start_def hook_insert_def hook_resolve_def hook_write_run
  have "own_step hook_code ?p ?z0 ?z1" using own_step.enter [of ?z0 ?p hook_code "()"] by (simp add: defs)
  moreover have "own_step hook_code ?p ?z1 ?z2"
    using own_step.work [of ?z1 ?p "()" hook_code] by (simp add: defs)
  moreover have "own_step hook_code ?p ?z2 ?z3"
    using own_step.commit [of ?z2 ?p None hook_code "Inr Ignored" ?d True] by (simp add: defs)
  moreover have "own_step hook_code ?q ?z3 ?z4"
    using own_step.skip [of ?z3 ?q hook_code] by (simp add: defs)
  ultimately have run: "section_run hook_code ?z0 ?z4"
    unfolding section_run_def
    by (blast intro: section_step.own converse_rtranclp_into_rtranclp rtranclp.rtrancl_refl)
  have "outcome (sc_phase ?z4 ?p) = Some (Inr Ignored)" using ne by simp
  with conjunct1 [OF conjunct2 [OF conjunct2 [OF deliveries_concurrent [OF run]]]]
  have "in_ledger (sc_db ?z4) (ev_id (dl_event ?p))" by blast
  then have "in_ledger (sc_db ?z4) ''evt_1''" by (simp only: i)
  moreover have "sc_phase ?z4 ?p = Finished (Inr Ignored)" "sc_phase ?z4 ?q = Answered (Inr Duplicate)"
    using ne by simp_all
  ultimately show ?thesis using run by (intro exI [of _ ?z4] conjI)
qed

end
