(* ===== verification/Races.thy ===== *)
theory Races
  imports TeamProperties ProjectProperties
begin

text \<open>
  Two requests at once. A transaction of the source reads, decides and then writes; on two
  connections the reads of both can come before the writes of either (READ COMMITTED, no row
  lock in any of these statements). The theory cuts the role change of \<^verbatim>\<open>src/team/team.service.ts\<close>,
  the create of \<^verbatim>\<open>src/routes/v1/projects.routes.ts\<close> and the acceptance of an invitation into these
  halves, shows that the halves in a row are the operation, and runs them interleaved.
\<close>

subsection \<open>Two connections on one database\<close>

text \<open>
  A step of one connection sees the database as the other left it. That is what READ COMMITTED
  shows as long as the other has nothing uncommitted, which holds in the schedule below: no
  half that reads changes the database, and each half that writes ends its transaction.
\<close>

record two_conns =
  tc_db :: db
  tc_a :: conn
  tc_b :: conn

definition step_a :: "'a io \<Rightarrow> (two_conns, 'a) eff" where
  "step_a m z =
     (case m \<lparr>st_db = tc_db z, st_conn = tc_a z, st_calls = []\<rparr> of
        (r, s) \<Rightarrow> (r, z\<lparr>tc_db := st_db s, tc_a := st_conn s\<rparr>))"

definition step_b :: "'a io \<Rightarrow> (two_conns, 'a) eff" where
  "step_b m z =
     (case m \<lparr>st_db = tc_db z, st_conn = tc_b z, st_calls = []\<rparr> of
        (r, s) \<Rightarrow> (r, z\<lparr>tc_db := st_db s, tc_b := st_conn s\<rparr>))"

definition overlapping ::
  "'a io \<Rightarrow> 'b io \<Rightarrow> ('a \<Rightarrow> 'c io) \<Rightarrow> ('b \<Rightarrow> 'd io) \<Rightarrow> (two_conns, 'c \<times> 'd) eff" where
  "overlapping reads_a reads_b writes_a writes_b =
     bnd (step_a reads_a) (\<lambda>a. bnd (step_b reads_b) (\<lambda>b.
     bnd (step_a (writes_a a)) (\<lambda>c. bnd (step_b (writes_b b)) (\<lambda>d. ret (c, d)))))"

lemmas overlapping_steps = overlapping_def bnd_def step_a_def step_b_def ret_def

subsection \<open>The halves of a tenant transaction\<close>

definition tx_reads :: "uuid \<Rightarrow> 'a io \<Rightarrow> 'a io" where
  "tx_reads t m = andthen begin_tx (andthen (set_config_local t) m)"

definition tx_writes :: "'a io \<Rightarrow> 'a io" where
  "tx_writes m = bnd m (\<lambda>out. andthen commit_tx (andthen (swallow reset_tenant) (ret out)))"

text \<open>In a row they are \<^verbatim>\<open>withTenantTx\<close>.\<close>

lemma tx_halves:
  assumes "bnd (tx_reads t reads) (\<lambda>a. tx_writes (writes a)) s = (Inr out, s')"
  shows "with_tenant_tx t (bnd reads writes) s = (Inr out, s')"
proof -
  obtain s1 s2 s3 s4 s5 a where "begin_tx s = (Inr (), s1)" "set_config_local t s1 = (Inr (), s2)"
    "reads s2 = (Inr a, s3)" "writes a s3 = (Inr out, s4)" "commit_tx s4 = (Inr (), s5)"
    "swallow reset_tenant s5 = (Inr (), s')"
    using assms unfolding tx_reads_def tx_writes_def andthen_def
    by (elim bnd_InrE) (simp add: ret_def)
  then show ?thesis
    by (simp add: with_tenant_tx_def finally_do_def try_catch_def andthen_def bnd_def ret_def)
qed

text \<open>The state between the halves: a transaction of the tenant is open.\<close>

definition between :: "uuid \<Rightarrow> state \<Rightarrow> bool" where
  "between t s \<longleftrightarrow> (\<exists>d. tx (st_conn s) = InTx d) \<and> current_tenant (st_conn s) = Some t"

lemma between_live: "between t s \<Longrightarrow> live s"
  by (auto simp: between_def live_def)

lemma between_visible: "between t s \<Longrightarrow> visible (st_conn s) u \<longleftrightarrow> bypass_rls (st_conn s) \<or> u = t"
  by (auto simp: between_def visible_def)

lemma tx_reads_run:
  assumes "tx (st_conn s) = NoTx" and "m (in_tenant_tx t s) = (Inr a, in_tenant_tx t s)"
  shows "tx_reads t m s = (Inr a, in_tenant_tx t s)"
  using assms
  by (simp add: tx_reads_def andthen_def bnd_def begin_tx_def set_config_local_def in_tenant_tx_def)

lemma tx_writes_run:
  assumes "between t s" and "m s = (Inr out, s\<lparr>st_db := d\<rparr>)"
  shows "tx_writes m s = (Inr out, s\<lparr>st_db := d, st_conn := released (st_conn s)\<rparr>)"
  using assms
  by (auto simp: tx_writes_def between_def bnd_def andthen_def commit_tx_def swallow_def reset_tenant_def ret_def
      reset_end_tx [of _ "st_conn s"])
subsection \<open>Two role changes\<close>

definition role_check :: "uuid \<Rightarrow> role \<Rightarrow> unit io" where
  "role_check target new_role =
     bnd (select_users (\<lambda>u. user_id u = target)) (\<lambda>rows.
       case first_row rows of
         None \<Rightarrow> throw (AppError (not_found ''User not found''))
       | Some t \<Rightarrow>
           if user_role t = Owner \<and> new_role \<noteq> Owner then
             bnd (select_users (\<lambda>u. user_role u = Owner)) (\<lambda>owners.
               if length owners \<le> 1
               then throw (AppError (conflict ''Organization must retain an owner''))
               else ret ())
           else ret ())"

definition role_write :: "env \<Rightarrow> actor \<Rightarrow> uuid \<Rightarrow> role \<Rightarrow> unit io" where
  "role_write v a target new_role =
     andthen (update_users (\<lambda>u. user_id u = target) (\<lambda>u. u\<lparr>user_role := new_role\<rparr>))
       (insert_audit (audit_entry v (new_id v 0) (actor_tenant_id a) (Some (actor_user_id a))
          ''user.role_changed'' (uuid_out target) (Some [(''newRole'', role_text new_role)])))"

definition role_reads :: "actor \<Rightarrow> uuid \<Rightarrow> role \<Rightarrow> unit io" where
  "role_reads a target new_role =
     andthen (lift_sum (require_role (actor_role a) Admin))
       (tx_reads (actor_tenant_id a) (role_check target new_role))"

definition role_writes :: "env \<Rightarrow> actor \<Rightarrow> uuid \<Rightarrow> role \<Rightarrow> unit io" where
  "role_writes v a target new_role = tx_writes (role_write v a target new_role)"

lemma change_role_body_split: "change_role_body v a target r = bnd (role_check target r) (\<lambda>_. role_write v a target r)"
proof -
  have "andthen m n = bnd m (\<lambda>_. n)" for m :: "unit io" and n :: "unit io" by (simp add: andthen_def)
  then show ?thesis
    unfolding change_role_body_def role_check_def bnd_assoc role_write_def [symmetric]
    by (intro arg_cong2 [where f = bnd] refl ext) (simp split: option.split)
qed

lemma bnd_lift_Inr: "bnd (lift_sum x) f s = (Inr b, s') \<longleftrightarrow> (\<exists>a. x = Inr a \<and> f a s = (Inr b, s'))"
  by (cases x) (simp_all add: bnd_def lift_sum_def)

text \<open>In a row the halves are the role change.\<close>

lemma role_halves:
  assumes "andthen (role_reads a target r) (role_writes v a target r) s = (Inr (), s')"
  shows "change_role v a target r s = (Inr (), s')"
proof -
  have "bnd (lift_sum (require_role (actor_role a) Admin))
      (\<lambda>_. bnd (tx_reads (actor_tenant_id a) (role_check target r)) (\<lambda>_. tx_writes (role_write v a target r))) s = (Inr (), s')"
    using assms by (simp only: role_reads_def role_writes_def andthen_def bnd_assoc)
  then obtain u where role: "require_role (actor_role a) Admin = Inr u"
    and run: "bnd (tx_reads (actor_tenant_id a) (role_check target r)) (\<lambda>_. tx_writes (role_write v a target r)) s = (Inr (), s')"
    unfolding bnd_lift_Inr by blast
  have "with_tenant_tx (actor_tenant_id a) (change_role_body v a target r) s = (Inr (), s')"
    unfolding change_role_body_split by (rule tx_halves) (rule run)
  then show ?thesis by (simp only: change_role_def andthen_def bnd_lift_Inr role) blast
qed

lemma role_reads_run:
  assumes idle: "tx (st_conn s) = NoTx" and adm: "actor_role a \<noteq> Member"
    and row: "first_row (filter (\<lambda>u. user_id u = target)
      (users_seen (bypass_rls (st_conn s)) (actor_tenant_id a) (st_db s))) = Some u"
    and guard: "\<not> last_owner_guard (bypass_rls (st_conn s)) (actor_tenant_id a) u r (st_db s)"
  shows "role_reads a target r s = (Inr (), in_tenant_tx (actor_tenant_id a) s)"
proof -
  let ?s1 = "in_tenant_tx (actor_tenant_id a) s"
  have sel: "select_users p ?s1 =
      (Inr (filter p (users_seen (bypass_rls (st_conn s)) (actor_tenant_id a) (st_db s))), ?s1)" for p
    by (simp add: exec_select_live users_seen_def conj_commute)
  have "role_check target r ?s1 = (Inr (), ?s1)"
    unfolding role_check_def bnd_def sel prod.case sum.case row option.case
    using guard by (auto simp: last_owner_guard_def owners_seen_def ret_def sel)
  then have "tx_reads (actor_tenant_id a) (role_check target r) s = (Inr (), ?s1)"
    by (rule tx_reads_run [OF idle])
  moreover have "require_role (actor_role a) Admin = Inr ()" using adm by simp
  ultimately show ?thesis by (simp only: role_reads_def run_steps)
qed

lemma role_writes_run:
  assumes bt: "between (actor_tenant_id a) s" and og: "org_exists (st_db s) (actor_tenant_id a)"
    and fresh: "audit_fresh (st_db s) (new_id v 0)"
  shows "role_writes v a target r s =
    (Inr (), s\<lparr>st_db := role_changed_db (bypass_rls (st_conn s)) v a target r (st_db s), st_conn := released (st_conn s)\<rparr>)"
proof -
  note l = between_live [OF bt] and vis = between_visible [OF bt]
  let ?b = "bypass_rls (st_conn s)" and ?t = "actor_tenant_id a"
  let ?d1 = "(st_db s)\<lparr>users := map (\<lambda>u. if (?b \<or> user_tenant_id u = ?t) \<and> user_id u = target
          then u\<lparr>user_role := r\<rparr> else u) (users (st_db s))\<rparr>"
  have "\<exists>n. update_users (\<lambda>u. user_id u = target) (\<lambda>u. u\<lparr>user_role := r\<rparr>) s = (Inr n, s\<lparr>st_db := ?d1\<rparr>)"
    using l by (subst exec_update_ok) (auto simp: vis)
  then obtain n where upd: "update_users (\<lambda>u. user_id u = target) (\<lambda>u. u\<lparr>user_role := r\<rparr>) s =
      (Inr n, s\<lparr>st_db := ?d1\<rparr>)" by blast
  have aud: "insert_audit (audit_entry v (new_id v 0) ?t (Some (actor_user_id a))
       ''user.role_changed'' (uuid_out target) (Some [(''newRole'', role_text r)]))
       (s\<lparr>st_db := ?d1\<rparr>) = (Inr (), s\<lparr>st_db := role_changed_db ?b v a target r (st_db s)\<rparr>)"
    using og fresh l by (subst exec_insert_ok)
      (auto simp: audit_fresh_clash role_changed_db_def org_exists_def vis)
  show ?thesis
    unfolding role_writes_def
    by (rule tx_writes_run [OF bt]) (simp only: role_write_def run_steps upd aud)
qed

text \<open>The second connection's half writes what the first one left.\<close>

lemma between_reads: "between t \<lparr>st_db = d, st_conn = st_conn (in_tenant_tx t s), st_calls = c\<rparr>"
  by (simp add: between_def)

lemma role_changed_sel [simp]:
  "organizations (role_changed_db b v a target r d) = organizations d"
  "audit_fresh (role_changed_db b v a target r d) i \<longleftrightarrow> audit_fresh d i \<and> new_id v 0 \<noteq> i"
  by (auto simp: role_changed_db_def audit_fresh_def)

lemma owners_demoted:
  assumes "user_role u = Owner" "r \<noteq> Owner"
  shows "owners_of t (role_changed_db False v a target r d) =
    filter (\<lambda>u. \<not> (user_tenant_id u = actor_tenant_id a \<and> user_id u = target)) (owners_of t d)"
proof -
  have "filter (\<lambda>u. user_tenant_id u = t \<and> user_role u = Owner)
      (map (\<lambda>u. if user_tenant_id u = actor_tenant_id a \<and> user_id u = target then u\<lparr>user_role := r\<rparr> else u) us) =
    filter (\<lambda>u. \<not> (user_tenant_id u = actor_tenant_id a \<and> user_id u = target))
      (filter (\<lambda>u. user_tenant_id u = t \<and> user_role u = Owner) us)" for us
    using assms(2) by (induction us) auto
  then show ?thesis by (simp add: owners_of_def role_changed_db_def)
qed

text \<open>
  C31: The last-owner guard does not survive two requests at once, not even under the policies.
  When the two owners of a tenant are demoted by overlapping requests (each steps down, or each
  demotes the other), both requests read two owners before either writes, both succeed, and the
  tenant is left without an owner.
\<close>
theorem owners_race:
  assumes c: "clean ca" "clean cb" and b: "\<not> bypass_rls ca" "\<not> bypass_rls cb" and d: "db_ok d"
    and t: "actor_tenant_id a = t" "actor_tenant_id b = t" and adm: "actor_role a \<noteq> Member" "actor_role b \<noteq> Member"
    and og: "org_exists d t" and fresh: "audit_fresh d (new_id va 0)" "audit_fresh d (new_id vb 0)" "new_id va 0 \<noteq> new_id vb 0"
    and owners: "owners_of t d = [u1, u2]" and r: "ra \<noteq> Owner" "rb \<noteq> Owner"
  shows "\<exists>z. overlapping (role_reads a (user_id u1) ra) (role_reads b (user_id u2) rb)
      (\<lambda>_. role_writes va a (user_id u1) ra) (\<lambda>_. role_writes vb b (user_id u2) rb)
      \<lparr>tc_db = d, tc_a = ca, tc_b = cb\<rparr> = (Inr ((), ()), z)
    \<and> owners_of t (tc_db z) = [] \<and> clean (tc_a z) \<and> clean (tc_b z)"
proof -
  let ?sa = "\<lparr>st_db = d, st_conn = ca, st_calls = []\<rparr>" and ?sb = "\<lparr>st_db = d, st_conn = cb, st_calls = []\<rparr>"
  let ?d1 = "role_changed_db False va a (user_id u1) ra d"
  let ?d2 = "role_changed_db False vb b (user_id u2) rb ?d1"
  have bf: "bypass_rls ca = False" "bypass_rls cb = False" using b by simp_all
  have mem: "u \<in> set (users d) \<and> user_tenant_id u = t \<and> user_role u = Owner" if "u \<in> {u1, u2}" for u
    using that arg_cong [OF owners, of set] by (auto simp: owners_of_def)
  have row: "first_row (filter (\<lambda>w. user_id w = user_id u) (users_seen False t d)) = Some u" if "u \<in> {u1, u2}" for u
  proof -
    have "filter (\<lambda>w. user_id w = user_id u \<and> user_tenant_id w = t) (users d) = [u]"
      by (rule no_dups_filter_one [of user_clash])
        (use mem [OF that] d in \<open>auto simp: db_ok_defs user_clash_def\<close>)
    then show ?thesis by (simp add: users_seen_def conj_commute)
  qed
  have guard: "\<not> last_owner_guard False t u q d" for u q
    by (simp add: last_owner_guard_def owners_seen_policies owners)
  have ra: "role_reads a (user_id u1) ra ?sa = (Inr (), in_tenant_tx t ?sa)"
    using role_reads_run [of ?sa a "user_id u1" u1 ra] row guard c adm t bf by (simp add: clean_NoTx)
  have rb: "role_reads b (user_id u2) rb ?sb = (Inr (), in_tenant_tx t ?sb)"
    using role_reads_run [of ?sb b "user_id u2" u2 rb] row guard c adm t bf by (simp add: clean_NoTx)
  have wa: "role_writes va a (user_id u1) ra \<lparr>st_db = d, st_conn = st_conn (in_tenant_tx t ?sa), st_calls = []\<rparr> =
      (Inr (), \<lparr>st_db = ?d1, st_conn = released (st_conn (in_tenant_tx t ?sa)), st_calls = []\<rparr>)"
    using role_writes_run [OF between_reads [of "actor_tenant_id a" d ?sa "[]"]] og fresh t bf by simp
  have wb: "role_writes vb b (user_id u2) rb \<lparr>st_db = ?d1, st_conn = st_conn (in_tenant_tx t ?sb), st_calls = []\<rparr> =
      (Inr (), \<lparr>st_db = ?d2, st_conn = released (st_conn (in_tenant_tx t ?sb)), st_calls = []\<rparr>)"
    using role_writes_run [OF between_reads [of "actor_tenant_id b" ?d1 ?sb "[]"]] og fresh t bf
    by (simp add: org_exists_def)
  have none: "owners_of t ?d2 = []"
    using mem r t by (simp add: owners_demoted [of u1] owners_demoted [of u2] owners)
  have "overlapping (role_reads a (user_id u1) ra) (role_reads b (user_id u2) rb)
      (\<lambda>_. role_writes va a (user_id u1) ra) (\<lambda>_. role_writes vb b (user_id u2) rb)
      \<lparr>tc_db = d, tc_a = ca, tc_b = cb\<rparr> = (Inr ((), ()), \<lparr>tc_db = ?d2,
        tc_a = released (st_conn (in_tenant_tx t ?sa)), tc_b = released (st_conn (in_tenant_tx t ?sb))\<rparr>)"
    by (simp add: overlapping_steps ra rb wa wb)
  then show ?thesis using none by simp
qed

lemma owners_race_witness:
  "\<exists>z. overlapping (role_reads (sample_actor 1 11 Owner) 11 Member) (role_reads (sample_actor 1 12 Owner) 12 Admin)
      (\<lambda>_. role_writes (sample_env 0) (sample_actor 1 11 Owner) 11 Member)
      (\<lambda>_. role_writes (sample_env 1) (sample_actor 1 12 Owner) 12 Admin)
      \<lparr>tc_db = sample_db\<lparr>users := [sample_user 11 1 ''a'' Owner, sample_user 12 1 ''c'' Owner], refresh_tokens := []\<rparr>,
       tc_a = fresh_conn False, tc_b = fresh_conn False\<rparr> = (Inr ((), ()), z)
    \<and> owners_of 1 (tc_db z) = []"
proof -
  let ?d = "sample_db\<lparr>users := [sample_user 11 1 ''a'' Owner, sample_user 12 1 ''c'' Owner], refresh_tokens := []\<rparr>"
  have d: "db_ok ?d"
    by (simp add: db_ok_defs sample_defs clash_defs no_dups_def org_exists_def user_exists_def)
  have o: "owners_of 1 ?d = [sample_user 11 1 ''a'' Owner, sample_user 12 1 ''c'' Owner]"
    by (simp add: owners_of_def sample_defs)
  have f: "audit_fresh ?d i" for i by (simp add: audit_fresh_def sample_defs)
  have og: "org_exists ?d 1" by (simp add: org_exists_def sample_defs)
  have ids: "user_id (sample_user i t m q) = i" for i t m q by (simp add: sample_user_def)
  have ar: "actor_role (sample_actor t i q) = q" for t i q by (simp add: sample_actor_def)
  have "new_id (sample_env 0) 0 \<noteq> new_id (sample_env 1) 0" by simp
  from owners_race [OF clean_fresh_conn clean_fresh_conn _ _ d _ _ _ _ og f f this o, of False False
      "sample_actor 1 11 Owner" "sample_actor 1 12 Owner" Member Admin]
  show ?thesis unfolding ids by (simp add: ar) blast
qed

subsection \<open>Two creates\<close>

definition create_reads :: "conn \<Rightarrow> actor \<Rightarrow> unit io" where
  "create_reads owner a =
     andthen (with_tenant_open (Some a)) (bnd (enforce_write owner a) assert_project_quota)"

definition create_writes :: "env \<Rightarrow> actor \<Rightarrow> string \<Rightarrow> string option \<Rightarrow> project_view io" where
  "create_writes v a n desc =
     bnd (create_project v a n desc) (\<lambda>row. andthen (commit_tenant 201 False) (ret row))"

text \<open>In a row the halves are the request.\<close>

lemma create_halves:
  assumes "valid_call (CreateProject n desc)"
    and "bnd (create_reads owner a) (\<lambda>_. create_writes v a n desc) s = (Inr row, s')"
  shows "serve x cod owner v rid False a (CreateProject n desc) s = ((201, Inr (PProject row)), s')"
proof -
  obtain s1 s2 s3 s4 plan where "with_tenant_open (Some a) s = (Inr (), s1)" "enforce_write owner a s1 = (Inr plan, s2)"
    "assert_project_quota plan s2 = (Inr (), s3)" "create_project v a n desc s3 = (Inr row, s4)"
    "snd (commit_tenant 201 False s4) = s'"
    using assms(2) unfolding create_reads_def create_writes_def andthen_def
    by (elim bnd_InrE) (simp add: ret_def)
  then show ?thesis
    using assms(1)
    by (simp add: serve_def tenant_request_def v1_create_def andthen_def bnd_def ret_def on_pool_def del: valid_call.simps)
qed

lemma create_reads_run:
  assumes c: "clean (st_conn s)" and nb: "\<not> bypass_rls (st_conn s)" and o: "clean owner"
    and alive: "\<not> org_deleted (st_db s) (actor_tenant_id a)"
    and bill: "billing_state_of (bypass_rls owner) (actor_tenant_id a) (st_db s) = \<lparr>bs_status = st, bs_plan = plan\<rparr>"
    and allowed: "assert_write_allowed st = Inr ()" and left: "quota_left (actor_tenant_id a) (st_db s) plan"
  shows "create_reads owner a s = (Inr (), in_tenant_tx (actor_tenant_id a) s)"
proof -
  let ?in = "in_tenant_tx (actor_tenant_id a) s"
  have opened: "with_tenant_open (Some a) s = (Inr (), ?in)" using alive by (simp add: open_cases [OF c])
  have e: "enforce_write owner a ?in = (Inr plan, ?in)"
    using bill allowed by (simp add: enforce_run [OF o])
  have q: "assert_project_quota plan ?in = (Inr (), ?in)"
    using left quota_check [OF live_in_tenant_tx bound_in_tenant_tx [OF nb, of "actor_tenant_id a"], of plan]
    by (simp add: quota_left_def split: quota.splits)
  show ?thesis by (simp only: create_reads_def run_steps opened e q)
qed

lemma create_writes_run:
  assumes bt: "between (actor_tenant_id a) s" and og: "org_exists (st_db s) (actor_tenant_id a)"
    and fr: "project_fresh v (st_db s)"
  shows "create_writes v a n desc s =
    (Inr (project_view_of (new_project v a n desc)),
     s\<lparr>st_db := created_db v a n desc (st_db s), st_conn := released (st_conn s)\<rparr>)"
proof -
  obtain d0 where tx: "tx (st_conn s) = InTx d0" using bt by (auto simp: between_def)
  have cr: "create_project v a n desc s =
      (Inr (project_view_of (new_project v a n desc)), s\<lparr>st_db := created_db v a n desc (st_db s)\<rparr>)"
    by (rule create_project_run [OF between_live [OF bt] _ og fr]) (simp add: between_visible [OF bt])
  have "commit_tenant 201 False (s\<lparr>st_db := d\<rparr>) = (Inr (), s\<lparr>st_db := d, st_conn := released (st_conn s)\<rparr>)" for d
    using tx by (simp add: commit_tenant_def finally_do_def try_catch_def swallow_def commit_tx_def reset_tenant_def
        reset_end_tx [of _ "st_conn s"])
  then show ?thesis by (simp only: create_writes_def run_steps cr)
qed

text \<open>
  C32: The quota does not survive two requests at once. When a tenant is one active project below
  the cap of its plan and two creates overlap, both count before either inserts, both are
  answered with their project, and the tenant ends one above its cap.
\<close>
theorem quota_race:
  assumes c: "clean ca" "clean cb" "clean owner" and b: "\<not> bypass_rls ca" "\<not> bypass_rls cb"
    and t: "actor_tenant_id a = t" "actor_tenant_id b = t"
    and alive: "\<not> org_deleted d t" and og: "org_exists d t"
    and bill: "billing_state_of (bypass_rls owner) t d = \<lparr>bs_status = st, bs_plan = plan\<rparr>"
    and st: "st \<noteq> ''past_due''" "st \<noteq> ''canceled''"
    and cap: "plan_quota plan = Cap cap" "length (active_projects t d) + 1 = cap"
    and fresh: "project_fresh va d" "project_fresh vb d" "new_id va 0 \<noteq> new_id vb 0" "new_id va 1 \<noteq> new_id vb 1"
  shows "\<exists>z. overlapping (create_reads owner a) (create_reads owner b)
      (\<lambda>_. create_writes va a na da) (\<lambda>_. create_writes vb b nb db) \<lparr>tc_db = d, tc_a = ca, tc_b = cb\<rparr> =
      (Inr (project_view_of (new_project va a na da), project_view_of (new_project vb b nb db)), z)
    \<and> length (active_projects t (tc_db z)) = cap + 1"
proof -
  let ?sa = "\<lparr>st_db = d, st_conn = ca, st_calls = []\<rparr>" and ?sb = "\<lparr>st_db = d, st_conn = cb, st_calls = []\<rparr>"
  let ?d1 = "created_db va a na da d"
  let ?d2 = "created_db vb b nb db ?d1"
  have left: "quota_left t d plan" using cap by (simp add: quota_left_def)
  have ok: "assert_write_allowed st = Inr ()" using st by (simp add: assert_write_allowed_def)
  have ra: "create_reads owner a ?sa = (Inr (), in_tenant_tx t ?sa)"
    using create_reads_run [of ?sa owner a st plan] c b alive bill ok left t by simp
  have rb: "create_reads owner b ?sb = (Inr (), in_tenant_tx t ?sb)"
    using create_reads_run [of ?sb owner b st plan] c b alive bill ok left t by simp
  have wa: "create_writes va a na da \<lparr>st_db = d, st_conn = st_conn (in_tenant_tx t ?sa), st_calls = []\<rparr> =
      (Inr (project_view_of (new_project va a na da)),
       \<lparr>st_db = ?d1, st_conn = released (st_conn (in_tenant_tx t ?sa)), st_calls = []\<rparr>)"
    using create_writes_run [OF between_reads [of "actor_tenant_id a" d ?sa "[]"]] og fresh t by simp
  have "project_fresh vb ?d1" "org_exists ?d1 t"
    using fresh og by (auto simp: project_fresh_def created_db_def audited_def audit_fresh_def org_exists_def)
  then have wb: "create_writes vb b nb db \<lparr>st_db = ?d1, st_conn = st_conn (in_tenant_tx t ?sb), st_calls = []\<rparr> =
      (Inr (project_view_of (new_project vb b nb db)),
       \<lparr>st_db = ?d2, st_conn = released (st_conn (in_tenant_tx t ?sb)), st_calls = []\<rparr>)"
    using create_writes_run [OF between_reads [of "actor_tenant_id b" ?d1 ?sb "[]"]] t by simp
  have "overlapping (create_reads owner a) (create_reads owner b)
      (\<lambda>_. create_writes va a na da) (\<lambda>_. create_writes vb b nb db) \<lparr>tc_db = d, tc_a = ca, tc_b = cb\<rparr> =
      (Inr (project_view_of (new_project va a na da), project_view_of (new_project vb b nb db)), \<lparr>tc_db = ?d2,
        tc_a = released (st_conn (in_tenant_tx t ?sa)), tc_b = released (st_conn (in_tenant_tx t ?sb))\<rparr>)"
    by (simp add: overlapping_steps ra rb wa wb)
  then show ?thesis using cap t by (simp add: active_created)
qed

lemma quota_race_witness:
  "plan_quota ''free'' = Cap 3 \<and> (\<exists>rows z. overlapping
      (create_reads (fresh_conn True) (sample_actor 1 11 Owner)) (create_reads (fresh_conn True) (sample_actor 1 11 Owner))
      (\<lambda>_. create_writes (sample_env 0) (sample_actor 1 11 Owner) ''p'' None)
      (\<lambda>_. create_writes (sample_env 1) (sample_actor 1 11 Owner) ''q'' None)
      \<lparr>tc_db = two_projects, tc_a = fresh_conn False, tc_b = fresh_conn False\<rparr> = (Inr rows, z)
    \<and> length (active_projects 1 (tc_db z)) = 4)"
proof -
  have q: "plan_quota ''free'' = Cap 3" by (simp add: plan_quota_def PROJECT_QUOTA_def)
  have "project_fresh (sample_env 1) two_projects"
    by (simp add: project_fresh_def audit_fresh_def two_projects_def with_projects_def sample_project_def sample_defs)
  with quota_race [of "fresh_conn False" "fresh_conn False" "fresh_conn True" "sample_actor 1 11 Owner" 1
      "sample_actor 1 11 Owner" two_projects "''active''" "''free''" 3 "sample_env 0" "sample_env 1" "''p''" None "''q''" None]
  show ?thesis using two_projects_facts q by auto
qed

subsection \<open>Two acceptances\<close>

definition accept_lookup :: "ext \<Rightarrow> env \<Rightarrow> string \<Rightarrow> invitation_row io" where
  "accept_lookup x v token =
     bnd (select_invitations
           (redeemable inv_hashed_token inv_consumed_at inv_expires_at (hash_token x token) (db_now v)))
       (\<lambda>rows. case first_row rows of
         None \<Rightarrow> throw (AppError (gone ''Invitation invalid or expired''))
       | Some row \<Rightarrow> ret row)"

definition accept_redeem :: "ext \<Rightarrow> env \<Rightarrow> string \<Rightarrow> invitation_row \<Rightarrow> (uuid \<times> uuid) io" where
  "accept_redeem x v password row =
     with_tenant_tx (inv_tenant_id row) (accept_body v row (hash_password x v password))"

lemma accept_halves: "accept_invitation x v token password = bnd (accept_lookup x v token) (accept_redeem x v password)"
  unfolding accept_invitation_def accept_lookup_def bnd_assoc accept_redeem_def
  by (intro arg_cong2 [where f = bnd] refl ext) (simp add: Let_def split: option.split)

lemma accept_lookup_run:
  assumes "clean (st_conn s)"
    and "invitation_of (bypass_rls (st_conn s)) (hash_token x token) (db_now v) (st_db s) = Some row"
  shows "accept_lookup x v token s = (Inr row, s)"
  using assms(2) by (simp add: accept_lookup_def bnd_def exec_select_clean [OF assms(1)] invitation_of_def ret_def split: if_splits)

text \<open>An acceptance whose account exists already stops at the unique index and is rolled back.\<close>

lemma accept_redeem_taken:
  assumes idle: "tx (st_conn s) = NoTx" and b: "bypass_rls (st_conn s)"
    and taken: "w \<in> set (users (st_db s))" "user_tenant_id w = inv_tenant_id row" "user_email w = inv_email row"
  shows "accept_redeem x v pw row s =
    (Inl (SqlError UniqueViolation), s\<lparr>st_conn := released (st_conn s)\<rparr>)"
proof -
  let ?s1 = "in_tenant_tx (inv_tenant_id row) s"
  let ?u = "new_user v (new_id v 0) (inv_tenant_id row) (inv_email row) (hash_password x v pw) (inv_role row)"
  have "list_ex (user_clash ?u) (users (st_db s))"
    unfolding list_ex_iff by (rule bexI [OF _ taken(1)]) (simp add: user_clash_def new_user_def taken(2,3))
  then obtain s2 where "insert_user ?u ?s1 = (Inl (SqlError UniqueViolation), s2)" "st_calls s2 = st_calls s"
    using b by (auto simp: exec_live q_insert_def)
  then have "accept_body v row (hash_password x v pw) ?s1 = (Inl (SqlError UniqueViolation), s2)" "st_calls s2 = st_calls s"
    by (simp_all only: accept_body_def run_steps)
  then show ?thesis
    unfolding accept_redeem_def with_tenant_tx_run [OF accept_body_kept idle] by (cases s; cases s2) simp
qed

text \<open>
  An invitation is redeemed once even when two acceptances overlap. Both find it before either
  redeems it; the first adds its account, and the second is stopped by the unique index on tenant
  and email and changes nothing. It is not told that the invitation is gone, though: the violation
  is answered 500.
\<close>
theorem accept_race:
  assumes c: "clean ca" "clean cb" and b: "bypass_rls ca" "bypass_rls cb"
    and row: "invitation_of True (hash_token x token) (db_now va) d = Some row"
      "invitation_of True (hash_token x token) (db_now vb) d = Some row"
    and og: "org_exists d (inv_tenant_id row)" and fresh: "audit_fresh d (new_id va 1)"
      "\<forall>u\<in>set (users d). user_id u \<noteq> new_id va 0 \<and> \<not> (user_tenant_id u = inv_tenant_id row \<and> user_email u = inv_email row)"
  shows "\<exists>z. overlapping (accept_lookup x va token) (accept_lookup x vb token)
      (accept_redeem x va pwa) (accept_redeem x vb pwb) \<lparr>tc_db = d, tc_a = ca, tc_b = cb\<rparr> =
      (Inl (SqlError UniqueViolation), z)
    \<and> tc_db z = accepted_db va row (hash_password x va pwa) d \<and> clean (tc_a z) \<and> clean (tc_b z)
    \<and> fst (error_handler rid (ThrownExn (SqlError UniqueViolation))) = 500"
proof -
  let ?sa = "\<lparr>st_db = d, st_conn = ca, st_calls = []\<rparr>" and ?sb = "\<lparr>st_db = d, st_conn = cb, st_calls = []\<rparr>"
  let ?d1 = "accepted_db va row (hash_password x va pwa) d"
  have bt: "bypass_rls ca = True" "bypass_rls cb = True" using b by simp_all
  have la: "accept_lookup x va token ?sa = (Inr row, ?sa)" and lb: "accept_lookup x vb token ?sb = (Inr row, ?sb)"
    using row c bt by (simp_all add: accept_lookup_run)
  have wa: "accept_redeem x va pwa row ?sa = (Inr (new_id va 0, inv_tenant_id row),
      \<lparr>st_db = ?d1, st_conn = released ca, st_calls = []\<rparr>)"
    unfolding accept_redeem_def by (subst accept_body_run) (use c bt og fresh in \<open>simp_all add: clean_NoTx\<close>)
  have wb: "accept_redeem x vb pwb row \<lparr>st_db = ?d1, st_conn = cb, st_calls = []\<rparr> =
      (Inl (SqlError UniqueViolation), \<lparr>st_db = ?d1, st_conn = released cb, st_calls = []\<rparr>)"
    by (subst accept_redeem_taken [where w = "new_user va (new_id va 0) (inv_tenant_id row) (inv_email row)
        (hash_password x va pwa) (inv_role row)"]) (use c bt in \<open>simp_all add: clean_NoTx accepted_db_def new_user_def\<close>)
  have "overlapping (accept_lookup x va token) (accept_lookup x vb token)
      (accept_redeem x va pwa) (accept_redeem x vb pwb) \<lparr>tc_db = d, tc_a = ca, tc_b = cb\<rparr> =
      (Inl (SqlError UniqueViolation), \<lparr>tc_db = ?d1, tc_a = released ca, tc_b = released cb\<rparr>)"
    by (simp add: overlapping_steps la lb wa wb)
  then show ?thesis by (simp add: error_handler_def)
qed

lemma accept_race_witness:
  "\<exists>z. overlapping (accept_lookup sample_ext (sample_env 0) ''it'') (accept_lookup sample_ext (sample_env 1) ''it'')
      (accept_redeem sample_ext (sample_env 0) ''first'') (accept_redeem sample_ext (sample_env 1) ''second'')
      \<lparr>tc_db = sample_db\<lparr>invitations := [\<lparr>inv_id = 61, inv_tenant_id = 1, inv_email = ''z'', inv_role = Member,
         inv_hashed_token = ''it'', inv_expires_at = 9000000, inv_consumed_at = None, inv_created_at = 0\<rparr>]\<rparr>,
       tc_a = fresh_conn True, tc_b = fresh_conn True\<rparr> = (Inl (SqlError UniqueViolation), z)"
proof -
  let ?row = "\<lparr>inv_id = 61, inv_tenant_id = 1, inv_email = ''z'', inv_role = Member,
         inv_hashed_token = ''it'', inv_expires_at = 9000000, inv_consumed_at = None, inv_created_at = 0\<rparr>"
  let ?d = "sample_db\<lparr>invitations := [?row]\<rparr>"
  have row: "invitation_of True (hash_token sample_ext ''it'') (db_now (sample_env k)) ?d = Some ?row" for k
    by (simp add: invitation_of_def redeemable_def hash_token_def)
  have og: "org_exists ?d (inv_tenant_id ?row)" by (simp add: org_exists_def sample_defs)
  have f: "audit_fresh ?d (new_id (sample_env 0) 1)" by (simp add: audit_fresh_def sample_defs)
  have u: "\<forall>u\<in>set (users ?d). user_id u \<noteq> new_id (sample_env 0) 0
      \<and> \<not> (user_tenant_id u = inv_tenant_id ?row \<and> user_email u = inv_email ?row)"
    by (simp add: sample_defs)
  show ?thesis
    using accept_race [where ca = "fresh_conn True" and cb = "fresh_conn True" and pwa = "''first''" and pwb = "''second''",
        OF clean_fresh_conn clean_fresh_conn _ _ row row og f u]
    by (simp only: start_state_simps) blast
qed

end
