(* ===== verification/SessionRaces.thy ===== *)
theory SessionRaces
  imports Races SessionProperties
begin

text \<open>
  A rotation that overlaps the end of its session. \<^verbatim>\<open>src/auth/refresh.service.ts\<close> looks the
  presented token up before its transaction, and the transaction does not look again. The theory
  cuts the rotation there and runs its second part on whatever database another request left.
\<close>

subsection \<open>The two parts of a rotation\<close>

definition rotate_lookup :: "ext \<Rightarrow> string \<Rightarrow> (refresh_token_row \<times> user_row) option io" where
  "rotate_lookup x presented =
     bnd (exec (q_refresh_by_hash (hash_token x presented))) (\<lambda>rows. ret (first_row rows))"

definition rotate_finish ::
  "ext \<Rightarrow> token_config \<Rightarrow> env \<Rightarrow> int \<Rightarrow> (refresh_token_row \<times> user_row) option \<Rightarrow> (string \<times> string) io" where
  "rotate_finish x cfg v overlap_ms found =
     (case found of
        None \<Rightarrow> throw (AppError (unauthorized ''Invalid refresh token''))
      | Some (rt, u) \<Rightarrow>
          if token_expired v rt then throw (AppError (unauthorized ''Refresh token expired''))
          else if reuse_detected v overlap_ms rt then
            andthen (with_tenant_tx (rt_tenant_id rt) (revoke_family v rt))
              (throw (AppError (unauthorized ''Refresh token reuse detected'')))
          else
            let access_token = sign_access_token x cfg v
                  \<lparr>sub = rt_user_id rt, tenant_id = rt_tenant_id rt, claim_role = user_role u\<rparr>;
                refresh_token = fst (generate_refresh_token x v) in
            andthen (with_tenant_tx (rt_tenant_id rt) (rotate_within_family x cfg v rt))
              (ret (access_token, refresh_token)))"

lemma rotate_parts:
  "rotate_refresh_token x cfg v w presented = bnd (rotate_lookup x presented) (rotate_finish x cfg v w)"
  unfolding rotate_refresh_token_def rotate_lookup_def bnd_assoc
  by (simp add: rotate_finish_def)

lemma rotate_lookup_run:
  assumes "clean (st_conn s)"
  shows "rotate_lookup x presented s =
    (Inr (refresh_row (bypass_rls (st_conn s)) (hash_token x presented) (st_db s)), s)"
  using refresh_lookup [OF assms, of "hash_token x presented"]
  by (auto simp: rotate_lookup_def bnd_def ret_def)

subsection \<open>The second part, later\<close>

text \<open>
  Whatever has happened to the row in between, the second part goes through as long as tenant and
  account still exist.
\<close>

lemma late_rotation:
  assumes "tx (st_conn s) = NoTx" and "bypass_rls (st_conn s)"
    and "\<not> token_expired v rt" and "\<not> reuse_detected v w rt"
    and "org_exists (st_db s) (rt_tenant_id rt)" and "user_exists (st_db s) (rt_user_id rt)"
    and "rt_fresh (st_db s) (new_id v 0) (hash_token x (rnd_token v))"
  shows "rotate_finish x cfg v w (Some (rt, u)) s =
    (Inr (sign_access_token x cfg v \<lparr>sub = rt_user_id rt, tenant_id = rt_tenant_id rt, claim_role = user_role u\<rparr>,
       rnd_token v), s\<lparr>st_db := rotated_db x cfg v rt (st_db s), st_conn := released (st_conn s)\<rparr>)"
  using rotate_within_family_run [OF assms(1,2,5,6,7), of cfg] assms(3,4)
  by (simp add: rotate_finish_def generate_refresh_token_def Let_def andthen_def bnd_def ret_def)

text \<open>The row a rotation stores.\<close>

definition rotated_row :: "ext \<Rightarrow> token_config \<Rightarrow> env \<Rightarrow> refresh_token_row \<Rightarrow> refresh_token_row" where
  "rotated_row x cfg v rt =
     new_refresh_token v (new_id v 0) (rt_tenant_id rt) (rt_user_id rt) (hash_token x (rnd_token v))
       (rt_family_id rt) (refresh_expiry cfg v)"

lemma rotated_row_sel [simp]:
  "rt_user_id (rotated_row x cfg v rt) = rt_user_id rt" "rt_tenant_id (rotated_row x cfg v rt) = rt_tenant_id rt"
  "rt_family_id (rotated_row x cfg v rt) = rt_family_id rt" "rt_revoked_at (rotated_row x cfg v rt) = None"
  "rt_used_at (rotated_row x cfg v rt) = None"
  "rt_hashed_token (rotated_row x cfg v rt) = hash_token x (rnd_token v)"
  by (simp_all add: rotated_row_def new_refresh_token_def)

lemma rotated_row_stored: "rotated_row x cfg v rt \<in> set (refresh_tokens (rotated_db x cfg v rt d))"
  by (simp add: rotated_db_def rotated_row_def)

text \<open>It is found by its token, and is good for the next rotation.\<close>

lemma rotated_row_found:
  assumes fresh: "rt_fresh d (new_id v 0) (hash_token x (rnd_token v))" and us: "user_exists d (rt_user_id rt)"
  shows "\<exists>u. refresh_row True (hash_token x (rnd_token v)) (rotated_db x cfg v rt d) = Some (rotated_row x cfg v rt, u)"
proof -
  let ?h = "hash_token x (rnd_token v)" and ?d = "rotated_db x cfg v rt d"
  let ?f = "\<lambda>r. if rt_id r = rt_id rt \<and> rt_used_at r = None then r\<lparr>rt_used_at := Some (db_now v)\<rparr> else r"
  have "filter (\<lambda>r. rt_hashed_token r = ?h) (map ?f (refresh_tokens d)) = []"
    using fresh by (auto simp: filter_empty_conv rt_fresh_def)
  then have one: "filter (\<lambda>r. rt_hashed_token r = ?h) (refresh_tokens ?d) = [rotated_row x cfg v rt]"
    by (simp add: rotated_db_def rotated_row_def new_refresh_token_def)
  have users: "users ?d = users d" by (simp add: rotated_db_def)
  obtain y ys where "filter (\<lambda>u. user_id u = rt_user_id rt) (users d) = y # ys"
    using us by (cases "filter (\<lambda>u. user_id u = rt_user_id rt) (users d)")
      (auto simp: user_exists_def list_ex_iff filter_empty_conv)
  then show ?thesis by (simp add: refresh_row_def one users)
qed

lemma rotated_row_valid: "\<not> reuse_detected v' w (rotated_row x cfg v rt)"
  by (simp add: reuse_detected_def)

lemma next_rotation:
  assumes c: "clean (st_conn s)" and b: "bypass_rls (st_conn s)" and s: "st_db s = rotated_db x cfg v rt d"
    and fresh: "rt_fresh d (new_id v 0) (hash_token x (rnd_token v))"
    and og: "org_exists d (rt_tenant_id rt)" and us: "user_exists d (rt_user_id rt)"
    and later: "\<not> token_expired v' (rotated_row x cfg v rt)"
      "rt_fresh (st_db s) (new_id v' 0) (hash_token x (rnd_token v'))"
  shows "\<exists>tokens s'. rotate_refresh_token x cfg v' w (rnd_token v) s = (Inr tokens, s')"
proof -
  obtain u where u: "refresh_row True (hash_token x (rnd_token v)) (st_db s) = Some (rotated_row x cfg v rt, u)"
    using rotated_row_found [OF fresh us] unfolding s by blast
  have l: "rotate_lookup x (rnd_token v) s = (Inr (Some (rotated_row x cfg v rt, u)), s)"
    using rotate_lookup_run [OF c] u b by simp
  have "org_exists (st_db s) (rt_tenant_id rt)" "user_exists (st_db s) (rt_user_id rt)"
    using og us by (simp_all add: s rotated_db_def org_exists_def user_exists_def)
  then show ?thesis
    unfolding rotate_parts bnd_InrI [where m = "rotate_lookup x (rnd_token v)", OF l]
    using late_rotation [where w = w and u = u, OF clean_NoTx [OF c] b later(1) rotated_row_valid] later(2) by simp
qed

subsection \<open>Against the end of a session\<close>

text \<open>
  C38: A password reset does not end a session that is being refreshed. When a rotation has looked
  its token up before the reset commits, both succeed: the password is changed and every token
  known to the reset is revoked, yet the rotation then stores a token that is not, and its holder
  goes on rotating it for as long as tokens live.
\<close>
theorem rotation_outruns_reset:
  assumes c: "clean ca" "clean cb" and b: "bypass_rls ca" "bypass_rls cb" and d: "db_ok d"
    and reset: "reset_row True (hash_token x token) (db_now va) d = Some row"
    and found: "refresh_row True (hash_token x presented) d = Some (rt, u)" and own: "rt_user_id rt = at_user_id row"
    and valid: "\<not> token_expired vb rt" "\<not> reuse_detected vb w rt"
    and fresh: "audit_fresh d (new_id va 0)" "rt_fresh d (new_id vb 0) (hash_token x (rnd_token vb))"
  shows "\<exists>access z. overlapping (confirm_lookup x va token) (rotate_lookup x presented)
      (\<lambda>f. confirm_redeem x va f pw) (rotate_finish x cfg vb w) \<lparr>tc_db = d, tc_a = ca, tc_b = cb\<rparr> =
      (Inr ((), (access, rnd_token vb)), z)
    \<and> (\<forall>q\<in>set (users (tc_db z)). user_id q = at_user_id row \<longrightarrow> user_password_hash q = hash_password x va pw)
    \<and> (\<exists>r\<in>set (refresh_tokens (tc_db z)). rt_hashed_token r = hash_token x (rnd_token vb) \<and>
        rt_user_id r = at_user_id row \<and> rt_revoked_at r = None)
    \<and> (\<forall>v'. \<not> token_expired v' (rotated_row x cfg vb rt) \<and>
        rt_fresh (tc_db z) (new_id v' 0) (hash_token x (rnd_token v')) \<longrightarrow>
        (\<exists>tokens s'. rotate_refresh_token x cfg v' w (rnd_token vb) (start_state True (tc_db z)) = (Inr tokens, s')))"
proof -
  let ?sa = "\<lparr>st_db = d, st_conn = ca, st_calls = []\<rparr>" and ?sb = "\<lparr>st_db = d, st_conn = cb, st_calls = []\<rparr>"
  let ?d1 = "reset_db va row (hash_password x va pw) d"
  let ?d2 = "rotated_db x cfg vb rt ?d1"
  have bt: "bypass_rls ca = True" "bypass_rls cb = True" using b by simp_all
  have refs: "org_exists d (rt_tenant_id rt)" "user_exists d (rt_user_id rt)"
    using db_ok_token_refs [OF d refresh_rowD(2) [OF found]] by simp_all
  then have refs1: "org_exists ?d1 (rt_tenant_id rt)" "user_exists ?d1 (rt_user_id rt)"
    by (simp_all add: reset_db_def org_exists_def user_exists_def list_ex_map_if)
  have fresh1: "rt_fresh ?d1 (new_id vb 0) (hash_token x (rnd_token vb))"
    using fresh(2) by (auto simp: rt_fresh_def reset_db_def)
  have la: "confirm_lookup x va token ?sa = (Inr (Some row), ?sa)"
    using confirm_lookup_run [of ?sa] c reset bt by simp
  have lb: "rotate_lookup x presented ?sb = (Inr (Some (rt, u)), ?sb)"
    using rotate_lookup_run [of ?sb] c found bt by simp
  have wa: "confirm_redeem x va (Some row) pw ?sa = (Inr (), \<lparr>st_db = ?d1, st_conn = released ca, st_calls = []\<rparr>)"
    using apply_reset_run [of ?sa row va "hash_password x va pw"] c bt
      db_ok_auth_refs [OF d reset_rowD(2) [OF reset]] fresh(1)
    by (simp add: confirm_redeem_def clean_NoTx)
  have wb: "rotate_finish x cfg vb w (Some (rt, u)) \<lparr>st_db = ?d1, st_conn = cb, st_calls = []\<rparr> =
      (Inr (sign_access_token x cfg vb \<lparr>sub = rt_user_id rt, tenant_id = rt_tenant_id rt, claim_role = user_role u\<rparr>,
        rnd_token vb), \<lparr>st_db = ?d2, st_conn = released cb, st_calls = []\<rparr>)"
    using late_rotation [of "\<lparr>st_db = ?d1, st_conn = cb, st_calls = []\<rparr>" vb rt w x cfg u] c bt valid refs1 fresh1
    by (simp add: clean_NoTx)
  have run: "overlapping (confirm_lookup x va token) (rotate_lookup x presented)
      (\<lambda>f. confirm_redeem x va f pw) (rotate_finish x cfg vb w) \<lparr>tc_db = d, tc_a = ca, tc_b = cb\<rparr> =
      (Inr ((), (sign_access_token x cfg vb \<lparr>sub = rt_user_id rt, tenant_id = rt_tenant_id rt, claim_role = user_role u\<rparr>,
        rnd_token vb)), \<lparr>tc_db = ?d2, tc_a = released ca, tc_b = released cb\<rparr>)"
    by (simp add: overlapping_steps la lb wa wb)
  have pass: "\<forall>q\<in>set (users ?d2). user_id q = at_user_id row \<longrightarrow> user_password_hash q = hash_password x va pw"
    by (auto simp: rotated_db_def reset_db_def)
  have live: "\<exists>r\<in>set (refresh_tokens ?d2). rt_hashed_token r = hash_token x (rnd_token vb) \<and>
      rt_user_id r = at_user_id row \<and> rt_revoked_at r = None"
    using rotated_row_stored own by (intro bexI [of _ "rotated_row x cfg vb rt"]) simp_all
  have on: "\<exists>tokens s'. rotate_refresh_token x cfg v' w (rnd_token vb) (start_state True ?d2) = (Inr tokens, s')"
    if "\<not> token_expired v' (rotated_row x cfg vb rt)" "rt_fresh ?d2 (new_id v' 0) (hash_token x (rnd_token v'))" for v'
    using next_rotation [of "start_state True ?d2" x cfg vb rt ?d1 v' w] fresh1 refs1 that
    by (simp add: start_state_def fresh_conn_def clean_def current_tenant_def current_setting_def)
  show ?thesis using run pass live on by fastforce
qed

text \<open>
  The same way a rotation outruns the detection of a stolen token: the family is dead, and then
  it is not.
\<close>
theorem rotation_outruns_detection:
  assumes c: "clean (st_conn s)" and d: "db_ok (st_db s)"
    and found: "refresh_row (bypass_rls (st_conn s)) (hash_token x presented) (st_db s) = Some (rt, u)"
    and valid: "\<not> token_expired vb rt" "\<not> reuse_detected vb w rt"
    and used: "refresh_row (bypass_rls (st_conn s)) (hash_token x replayed) (st_db s) = Some (rt', u')"
      "rt_family_id rt' = rt_family_id rt" "\<not> token_expired va rt'" "reuse_detected va w rt'"
    and fresh: "audit_fresh (st_db s) (new_id va 0)" "rt_fresh (st_db s) (new_id vb 0) (hash_token x (rnd_token vb))"
  shows "\<exists>s1 s2 out. rotate_lookup x presented s = (Inr (Some (rt, u)), s) \<and>
    rotate_refresh_token x cfg va w replayed s = (Inl (AppError (unauthorized ''Refresh token reuse detected'')), s1) \<and>
    family_dead (rt_family_id rt) (st_db s1) \<and>
    rotate_finish x cfg vb w (Some (rt, u)) s1 = (Inr out, s2) \<and> \<not> family_dead (rt_family_id rt) (st_db s2)"
proof -
  let ?d1 = "revoked_family_db va rt' (st_db s)"
  let ?s1 = "s\<lparr>st_db := ?d1, st_conn := released (st_conn s)\<rparr>"
  let ?s2 = "?s1\<lparr>st_db := rotated_db x cfg vb rt ?d1, st_conn := released (st_conn ?s1)\<rparr>"
  have b: "bypass_rls (st_conn s)" by (rule refresh_rowD(1) [OF found])
  have facts: "org_exists ?d1 (rt_tenant_id rt)" "user_exists ?d1 (rt_user_id rt)"
    "rt_fresh ?d1 (new_id vb 0) (hash_token x (rnd_token vb))"
    using db_ok_token_refs [OF d refresh_rowD(2) [OF found]] fresh(2)
    by (auto simp: revoked_family_db_def org_exists_def user_exists_def rt_fresh_def)
  have "rotate_lookup x presented s = (Inr (Some (rt, u)), s)" using rotate_lookup_run [OF c] found by simp
  moreover have "rotate_refresh_token x cfg va w replayed s =
      (Inl (AppError (unauthorized ''Refresh token reuse detected'')), ?s1)"
    using revoke_family_run [OF clean_NoTx [OF c] b db_ok_token_refs(1) [OF d refresh_rowD(2) [OF used(1)]] fresh(1)]
      used by (simp add: rotate_cases [OF c])
  moreover have "family_dead (rt_family_id rt) ?d1" using revoked_family_dead [of rt' va] used(2) by simp
  moreover have "rotate_finish x cfg vb w (Some (rt, u)) ?s1 =
      (Inr (sign_access_token x cfg vb \<lparr>sub = rt_user_id rt, tenant_id = rt_tenant_id rt, claim_role = user_role u\<rparr>,
        rnd_token vb), ?s2)"
    using late_rotation [of ?s1 vb rt w x cfg u] b valid facts by (simp add: clean_NoTx)
  moreover have "\<not> family_dead (rt_family_id rt) (rotated_db x cfg vb rt ?d1)"
    unfolding family_dead_def
    using rotated_row_stored [of x cfg vb rt ?d1] rotated_row_sel(3,4) [of x cfg vb rt] by blast
  ultimately show ?thesis by fastforce
qed

lemma rotation_outruns_reset_witness:
  "\<exists>access z. overlapping (confirm_lookup sample_ext (sample_env 0) ''rt'') (rotate_lookup sample_ext ''ra'')
      (\<lambda>f. confirm_redeem sample_ext (sample_env 0) f ''new'')
      (rotate_finish sample_ext sample_config (sample_env 1) 10000)
      \<lparr>tc_db = sample_db\<lparr>auth_tokens := [sample_reset 51 1 11 ''rt'']\<rparr>, tc_a = fresh_conn True, tc_b = fresh_conn True\<rparr> =
      (Inr ((), (access, ''tokk'')), z)
    \<and> (\<exists>r\<in>set (refresh_tokens (tc_db z)). rt_user_id r = 11 \<and> rt_revoked_at r = None)"
proof -
  let ?d = "sample_db\<lparr>auth_tokens := [sample_reset 51 1 11 ''rt'']\<rparr>"
  let ?rt = "sample_token 31 1 11 ''ra'' 41"
  have d: "db_ok ?d"
    by (simp add: db_ok_defs sample_defs clash_defs no_dups_def org_exists_def user_exists_def)
  have row: "reset_row True (hash_token sample_ext ''rt'') (db_now (sample_env 0)) ?d = Some (sample_reset 51 1 11 ''rt'')"
    by (simp add: reset_row_def reset_redeemable_def redeemable_def sample_defs hash_token_def)
  have found: "refresh_row True (hash_token sample_ext ''ra'') ?d = Some (?rt, sample_user 11 1 ''a'' Owner)"
    by (simp add: refresh_row_def sample_defs hash_token_def)
  have valid: "\<not> token_expired (sample_env 1) ?rt" "\<not> reuse_detected (sample_env 1) 10000 ?rt"
    by (simp_all add: token_expired_def reuse_detected_def sample_token_def date_of_timestamptz_def)
  have fresh: "audit_fresh ?d (new_id (sample_env 0) 0)"
    "rt_fresh ?d (new_id (sample_env 1) 0) (hash_token sample_ext (rnd_token (sample_env 1)))"
    by (simp_all add: audit_fresh_def rt_fresh_def sample_defs hash_token_def)
  have own: "rt_user_id ?rt = at_user_id (sample_reset 51 1 11 ''rt'')" by (simp add: sample_defs)
  have bp: "bypass_rls (fresh_conn True)" by (simp add: fresh_conn_def)
  have at: "at_user_id (sample_reset 51 1 11 ''rt'') = 11" by (simp add: sample_defs)
  have tok: "rnd_token (sample_env 1) = ''tokk''" by simp
  show ?thesis
    using rotation_outruns_reset [OF clean_fresh_conn clean_fresh_conn bp bp d row found own valid fresh,
        where pw = "''new''" and cfg = sample_config]
    unfolding tok at by blast
qed

end
