(* ===== verification/Smoke.thy ===== *)
theory Smoke
  imports Http
begin

text \<open>
  \<^verbatim>\<open>src/scripts/smoke.ts\<close>: the post-deploy test that polls \<^verbatim>\<open>/health\<close> until it is healthy or two
  minutes have gone by. The answers of the server and the time each attempt takes are inputs,
  one per attempt; the clock does not run backwards.
\<close>

subsection \<open>The URL\<close>

text \<open>\<^verbatim>\<open>baseUrl.replace(/\/$/, "")\<close>: one trailing slash, if there is one.\<close>

definition strip_slash :: "string \<Rightarrow> string" where
  "strip_slash u = (if u \<noteq> [] \<and> last u = CHR ''/'' then butlast u else u)"

definition smoke_base :: "string option \<Rightarrow> string option \<Rightarrow> string option" where
  "smoke_base argv smoke_url =
     (case (case argv of Some a \<Rightarrow> Some a | None \<Rightarrow> smoke_url) of
        None \<Rightarrow> None
      | Some u \<Rightarrow> if u = [] then None else Some u)"

definition health_url :: "string \<Rightarrow> string" where
  "health_url base = strip_slash base @ ''/health''"

subsection \<open>One attempt\<close>

text \<open>
  The body of a response: text that is no JSON, the literal \<^verbatim>\<open>null\<close> (reading its \<^verbatim>\<open>status\<close> throws),
  or a value whose \<^verbatim>\<open>status\<close> is a text or anything else; \<open>BodyStatus\<close> carries the printed body.
\<close>

datatype health_body = NoJson string | JsonNull | BodyStatus "string option" string

datatype fetched = FetchFailed string | Response nat health_body

definition response_ok :: "nat \<Rightarrow> bool" where
  "response_ok status \<longleftrightarrow> 200 \<le> status \<and> status \<le> 299"

text \<open>\<open>None\<close>: healthy; otherwise the new \<^verbatim>\<open>lastErr\<close>.\<close>

definition judge :: "fetched \<Rightarrow> string option" where
  "judge f =
     (case f of
        FetchFailed m \<Rightarrow> Some m
      | Response status body \<Rightarrow>
          if \<not> response_ok status then Some (''status '' @ show_nat status)
          else (case body of
                  NoJson m \<Rightarrow> Some m
                | JsonNull \<Rightarrow> Some ''Cannot read properties of null''
                | BodyStatus st printed \<Rightarrow>
                    if st = Some ''ok'' then None else Some (''unexpected body '' @ printed)))"

subsection \<open>The loop\<close>

definition SMOKE_TIMEOUT_MS :: int where
  "SMOKE_TIMEOUT_MS = 120000"

definition SMOKE_PAUSE_MS :: nat where
  "SMOKE_PAUSE_MS = 5000"

text \<open>
  \<open>attempt k\<close> is what the k-th attempt gets and the milliseconds it takes beyond the pause.
  The result is the exit code, the attempts made and the last error.
\<close>

function poll :: "(nat \<Rightarrow> fetched \<times> nat) \<Rightarrow> int \<Rightarrow> int \<Rightarrow> nat \<Rightarrow> string \<Rightarrow> nat \<times> nat \<times> string" where
  "poll attempt deadline now k last_err =
     (if now < deadline then
        (case judge (fst (attempt k)) of
           None \<Rightarrow> (0, Suc k, last_err)
         | Some e \<Rightarrow> poll attempt deadline (now + int (snd (attempt k) + SMOKE_PAUSE_MS)) (Suc k) e)
      else (1, k, last_err))"
  by pat_completeness auto

termination poll
  by (relation "measure (\<lambda>(attempt, deadline, now, k, e). nat (deadline - now))")
    (auto simp: SMOKE_PAUSE_MS_def)

declare poll.simps [simp del]

definition smoke_main :: "string option \<Rightarrow> string option \<Rightarrow> (string \<Rightarrow> nat \<Rightarrow> fetched \<times> nat) \<Rightarrow> int \<Rightarrow> nat \<times> nat \<times> string" where
  "smoke_main argv smoke_url server now =
     (case smoke_base argv smoke_url of
        None \<Rightarrow> (1, 0, ''usage: tsx src/scripts/smoke.ts <baseUrl>'')
      | Some base \<Rightarrow> poll (server (health_url base)) (now + SMOKE_TIMEOUT_MS) now 0 [])"

subsection \<open>The verdict\<close>

text \<open>When the k-th attempt starts, if all before it failed.\<close>

definition elapsed :: "(nat \<Rightarrow> fetched \<times> nat) \<Rightarrow> nat \<Rightarrow> nat \<Rightarrow> int" where
  "elapsed attempt j k = (\<Sum>i\<in>{j..<k}. int (snd (attempt i) + SMOKE_PAUSE_MS))"

definition healthy_at :: "(nat \<Rightarrow> fetched \<times> nat) \<Rightarrow> nat \<Rightarrow> bool" where
  "healthy_at attempt k \<longleftrightarrow> judge (fst (attempt k)) = None"

lemma elapsed_refl [simp]: "elapsed attempt k k = 0"
  by (simp add: elapsed_def)

lemma elapsed_first: "j < k \<Longrightarrow> elapsed attempt j k = int (snd (attempt j) + SMOKE_PAUSE_MS) + elapsed attempt (Suc j) k"
  by (simp add: elapsed_def sum.atLeast_Suc_lessThan)

lemma elapsed_least: "j \<le> k \<Longrightarrow> int (k - j) * 5000 \<le> elapsed attempt j k"
proof -
  have "int (k - j) * 5000 = (\<Sum>i\<in>{j..<k}. 5000)" by simp
  also have "\<dots> \<le> elapsed attempt j k"
    unfolding elapsed_def by (rule sum_mono) (simp add: SMOKE_PAUSE_MS_def)
  finally show ?thesis .
qed

lemma poll_healthy:
  assumes "j \<le> k" and "healthy_at attempt k" and "\<And>i. j \<le> i \<Longrightarrow> i < k \<Longrightarrow> \<not> healthy_at attempt i"
    and "now + elapsed attempt j k < deadline"
  shows "fst (poll attempt deadline now j e) = 0 \<and> fst (snd (poll attempt deadline now j e)) = Suc k"
  using assms
proof (induction "k - j" arbitrary: j now e)
  case 0
  then show ?case by (subst (1 2) poll.simps) (simp add: healthy_at_def)
next
  case (Suc n)
  then have lt: "j < k" by simp
  obtain m where m: "judge (fst (attempt j)) = Some m"
    using Suc.prems(3) [of j] lt by (auto simp: healthy_at_def)
  have el: "elapsed attempt j k = int (snd (attempt j) + SMOKE_PAUSE_MS) + elapsed attempt (Suc j) k"
    by (rule elapsed_first [OF lt])
  have now: "now < deadline" using Suc.prems(4) elapsed_least [of j k attempt] lt by simp
  have "fst (poll attempt deadline (now + int (snd (attempt j) + SMOKE_PAUSE_MS)) (Suc j) m) = 0 \<and>
      fst (snd (poll attempt deadline (now + int (snd (attempt j) + SMOKE_PAUSE_MS)) (Suc j) m)) = Suc k"
    by (rule Suc.hyps(1)) (use Suc lt el in auto)
  then show ?case using now m by (subst (1 2) poll.simps) simp
qed

lemma poll_unhealthy:
  assumes "\<And>k. j \<le> k \<Longrightarrow> now + elapsed attempt j k < deadline \<Longrightarrow> \<not> healthy_at attempt k"
  shows "fst (poll attempt deadline now j e) = 1"
  using assms
proof (induction attempt deadline now j e rule: poll.induct)
  case (1 attempt deadline now j e)
  show ?case
  proof (cases "now < deadline")
    case True
    then obtain m where m: "judge (fst (attempt j)) = Some m"
      using "1.prems" [of j] by (auto simp: healthy_at_def)
    have "fst (poll attempt deadline (now + int (snd (attempt j) + SMOKE_PAUSE_MS)) (Suc j) m) = 1"
    proof (rule "1.IH" [OF True m])
      fix k assume "Suc j \<le> k" "now + int (snd (attempt j) + SMOKE_PAUSE_MS) + elapsed attempt (Suc j) k < deadline"
      then show "\<not> healthy_at attempt k" using "1.prems" [of k] elapsed_first [of j k attempt] by simp
    qed
    then show ?thesis using True m by (subst poll.simps) simp
  next
    case False
    then show ?thesis by (subst poll.simps) simp
  qed
qed

lemma poll_attempts:
  assumes "now \<le> deadline"
  shows "int (fst (snd (poll attempt deadline now j e))) \<le> int j + (deadline - now + 4999) div 5000"
  using assms
proof (induction attempt deadline now j e rule: poll.induct)
  case (1 attempt deadline now j e)
  show ?case
  proof (cases "now < deadline \<and> judge (fst (attempt j)) \<noteq> None")
    case False
    then show ?thesis using "1.prems" by (subst poll.simps) auto
  next
    case True
    then obtain m where m: "judge (fst (attempt j)) = Some m" and lt: "now < deadline" by auto
    let ?next = "now + int (snd (attempt j) + SMOKE_PAUSE_MS)"
    have step: "poll attempt deadline now j e = poll attempt deadline ?next (Suc j) m"
      using m lt by (subst poll.simps) simp
    have far: "now + 5000 \<le> ?next" by (simp add: SMOKE_PAUSE_MS_def)
    show ?thesis
    proof (cases "?next \<le> deadline")
      case True
      have "int (fst (snd (poll attempt deadline ?next (Suc j) m))) \<le> int (Suc j) + (deadline - ?next + 4999) div 5000"
        by (rule "1.IH" [OF lt m True])
      also have "\<dots> \<le> int j + (deadline - now + 4999) div 5000" using far by simp
      finally show ?thesis by (simp add: step)
    next
      case False
      then have "poll attempt deadline ?next (Suc j) m = (1, Suc j, m)" by (subst poll.simps) simp
      then show ?thesis using lt by (simp add: step)
    qed
  qed
qed

lemma elapsed_mono: "k \<le> k' \<Longrightarrow> elapsed attempt 0 k \<le> elapsed attempt 0 k'"
  unfolding elapsed_def by (rule sum_mono2) auto

lemma healthy_at_iff:
  "healthy_at attempt k \<longleftrightarrow>
     (\<exists>status printed. fst (attempt k) = Response status (BodyStatus (Some ''ok'') printed) \<and> 200 \<le> status \<and> status \<le> 299)"
  by (auto simp: healthy_at_def judge_def response_ok_def split: fetched.splits health_body.splits if_splits)

text \<open>
  C35: The smoke test always ends, after at most 24 attempts, and its exit code is the verdict:
  0 if and only if some attempt that starts within the two minutes is healthy (status 2xx and
  the body's status \<open>ok\<close>), whatever the other attempts got; otherwise 1. Without a URL it exits
  with 1 and makes no attempt.
\<close>
theorem smoke_verdict:
  "case smoke_base argv smoke_url of
     None \<Rightarrow> fst (smoke_main argv smoke_url server now) = 1
       \<and> fst (snd (smoke_main argv smoke_url server now)) = 0
   | Some base \<Rightarrow>
       fst (smoke_main argv smoke_url server now) =
         (if \<exists>k status printed. fst (server (health_url base) k) = Response status (BodyStatus (Some ''ok'') printed)
               \<and> 200 \<le> status \<and> status \<le> 299
               \<and> (\<Sum>i<k. int (snd (server (health_url base) i)) + 5000) < 120000
          then 0 else 1)
       \<and> fst (snd (smoke_main argv smoke_url server now)) \<le> 24"
proof (cases "smoke_base argv smoke_url")
  case None
  then show ?thesis by (simp add: smoke_main_def)
next
  case (Some base)
  let ?at = "server (health_url base)" and ?d = "now + SMOKE_TIMEOUT_MS"
  have main: "smoke_main argv smoke_url server now = poll ?at ?d now 0 []"
    by (simp add: smoke_main_def Some)
  have "fst (poll ?at ?d now 0 []) = 0" if k: "healthy_at ?at k" "elapsed ?at 0 k < 120000" for k
  proof -
    define n where "n = (LEAST k. healthy_at ?at k)"
    have n: "healthy_at ?at n" "n \<le> k" unfolding n_def using k(1) by (rule LeastI, intro Least_le)
    have least: "\<not> healthy_at ?at i" if "i < n" for i
      using that unfolding n_def by (rule not_less_Least)
    have "now + elapsed ?at 0 n < ?d"
      using elapsed_mono [OF n(2), of ?at] k(2) by (simp add: SMOKE_TIMEOUT_MS_def)
    from poll_healthy [OF le0 n(1) least this] show ?thesis by blast
  qed
  moreover have "fst (poll ?at ?d now 0 []) = 1"
    if "\<not> (\<exists>k. healthy_at ?at k \<and> elapsed ?at 0 k < 120000)"
    using that by (intro poll_unhealthy) (auto simp: SMOKE_TIMEOUT_MS_def)
  moreover have "fst (snd (poll ?at ?d now 0 [])) \<le> 24"
    using poll_attempts [of now ?d ?at 0 "[]"] by (simp add: SMOKE_TIMEOUT_MS_def)
  moreover have "(\<Sum>i<k. int (snd (?at i)) + 5000) = elapsed ?at 0 k" for k
    by (simp add: elapsed_def SMOKE_PAUSE_MS_def atLeast0LessThan)
  then have "(\<exists>k status printed. fst (?at k) = Response status (BodyStatus (Some ''ok'') printed)
        \<and> 200 \<le> status \<and> status \<le> 299 \<and> (\<Sum>i<k. int (snd (?at i)) + 5000) < 120000)
      \<longleftrightarrow> (\<exists>k. healthy_at ?at k \<and> elapsed ?at 0 k < 120000)"
    by (simp only: healthy_at_iff) blast
  ultimately show ?thesis unfolding main Some option.case by auto
qed

lemma smoke_verdict_witness:
  "fst (smoke_main (Some ''http://alb/'') None
     (\<lambda>url k. (if k < 3 then FetchFailed ''refused'' else Response 200 (BodyStatus (Some ''ok'') ''{}''), 100)) 7) = 0"
proof -
  let ?server = "\<lambda>(url::string) (k::nat). (if k < 3 then FetchFailed ''refused'' else Response 200 (BodyStatus (Some ''ok'') ''{}''), 100::nat)"
  have b: "smoke_base (Some ''http://alb/'') None = Some ''http://alb/''" by (simp add: smoke_base_def)
  have "fst (?server u 3) = Response 200 (BodyStatus (Some ''ok'') ''{}'')
      \<and> (\<Sum>i<3. int (snd (?server u i)) + 5000) < 120000" for u
    by (simp add: numeral_3_eq_3)
  then show ?thesis
    using smoke_verdict [of "Some ''http://alb/''" None ?server 7] unfolding b option.case by auto
qed

subsection \<open>Against the application\<close>

text \<open>What a fetch of \<^verbatim>\<open>/health\<close> sees of a reply.\<close>

definition fetch_reply :: "http_reply \<Rightarrow> fetched" where
  "fetch_reply rep =
     Response (hp_status rep)
       (case hp_body rep of
          Some (Inr BHealth) \<Rightarrow> BodyStatus (Some ''ok'') ''{status: ok}''
        | _ \<Rightarrow> BodyStatus None [])"

definition health_head :: http_head where
  "health_head = \<lparr>hh_method = ''GET'', hh_request_id = None, hh_forwarded = [], hh_peer = ''10.0.0.1''\<rparr>"

text \<open>
  A listening application is healthy in every state: no pool is asked. So the test passes on a
  deployment whose database, Redis or migrations are missing.
\<close>

lemma health_is_constant:
  "judge (fetch_reply (fst (http_step dp origin fresh health_head r HealthRequest z))) = None"
  by (simp add: http_step_def Let_def health_head_def fetch_reply_def judge_def response_ok_def)

end
