(* ===== verification/LoadTest.thy ===== *)
theory LoadTest
  imports Smoke AppSessions Authority AuthProperties
begin

text \<open>
  \<^verbatim>\<open>k6/load-test.js\<close>: the flows of the load test, run against the application over HTTP. What an
  iteration of k6 contributes (its virtual user, its number, the time, the address it comes
  from) and what the server draws for each request are inputs.
\<close>

subsection \<open>The options\<close>

record ramp_stage =
  rs_seconds :: nat
  rs_target :: nat

definition crud_stages :: "ramp_stage list" where
  "crud_stages = [\<lparr>rs_seconds = 30, rs_target = 20\<rparr>, \<lparr>rs_seconds = 60, rs_target = 20\<rparr>, \<lparr>rs_seconds = 30, rs_target = 0\<rparr>]"

record arrival_rate =
  ar_rate :: nat
  ar_unit_seconds :: nat
  ar_seconds :: nat
  ar_start_seconds :: nat

definition burst_scenario :: arrival_rate where
  "burst_scenario = \<lparr>ar_rate = 120, ar_unit_seconds = 1, ar_seconds = 20, ar_start_seconds = 30\<rparr>"

definition burst_iterations :: nat where
  "burst_iterations = ar_rate burst_scenario div ar_unit_seconds burst_scenario * ar_seconds burst_scenario"

subsection \<open>One iteration\<close>

text \<open>\<open>ki_server k\<close> is what the server draws and reads for the k-th request of the iteration.\<close>

record k6_iteration =
  ki_vu :: nat
  ki_iter :: nat
  ki_now :: nat
  ki_peer :: string
  ki_server :: "nat \<Rightarrow> uuid \<times> request_input"

definition no_auth :: headers where
  "no_auth = \<lparr>hd_api_key = None, hd_authorization = None\<rparr>"

definition auth :: "string \<Rightarrow> headers" where
  "auth token = \<lparr>hd_api_key = None, hd_authorization = Some (bearer_prefix @ token)\<rparr>"

definition script_input :: "k6_iteration \<Rightarrow> nat \<Rightarrow> headers \<Rightarrow> request_input" where
  "script_input it k h = (snd (ki_server it k))\<lparr>ri_headers := h\<rparr>"

definition script_head :: "k6_iteration \<Rightarrow> string \<Rightarrow> http_head" where
  "script_head it method =
     \<lparr>hh_method = method, hh_request_id = None, hh_forwarded = [], hh_peer = ki_peer it\<rparr>"

definition send :: "deps \<Rightarrow> string option \<Rightarrow> k6_iteration \<Rightarrow> nat \<Rightarrow> string \<Rightarrow> headers \<Rightarrow> app_request \<Rightarrow> app_state \<Rightarrow>
    http_reply \<times> app_state" where
  "send dp origin it k method h req =
     http_step dp origin (fst (ki_server it k)) (script_head it method) (script_input it k h) req"

definition load_suffix :: "k6_iteration \<Rightarrow> string" where
  "load_suffix it = show_nat (ki_vu it) @ ''-'' @ show_nat (ki_iter it) @ ''-'' @ show_nat (ki_now it)"

definition load_email :: "k6_iteration \<Rightarrow> string" where
  "load_email it = ''load-'' @ load_suffix it @ ''@example.com''"

definition load_signup :: "k6_iteration \<Rightarrow> signup_input" where
  "load_signup it = \<lparr>su_organization_name = ''Load '' @ load_suffix it, su_email = load_email it,
     su_password = ''password123''\<rparr>"

text \<open>\<^verbatim>\<open>login.json("access_token")\<close> and \<^verbatim>\<open>created.json("id")\<close>\<close>

definition access_token_of :: "http_reply \<Rightarrow> string option" where
  "access_token_of rep =
     (case hp_body rep of Some (Inr (BOwner (OTokens access refresh))) \<Rightarrow> Some access | _ \<Rightarrow> None)"

definition project_id_of :: "http_reply \<Rightarrow> uuid option" where
  "project_id_of rep = (case hp_body rep of Some (Inr (BTenant (PProject w))) \<Rightarrow> Some (pv_id w) | _ \<Rightarrow> None)"

definition onboard :: "deps \<Rightarrow> string option \<Rightarrow> k6_iteration \<Rightarrow> app_state \<Rightarrow> string option \<times> app_state" where
  "onboard dp origin it z =
     (case send dp origin it 0 ''POST'' no_auth (OwnerRequest (PostSignup (load_signup it))) z of (_, z1) \<Rightarrow>
      (case send dp origin it 1 ''POST'' no_auth (OwnerRequest (PostLogin (load_email it) ''password123'')) z1 of
         (rep, z2) \<Rightarrow> (access_token_of rep, z2)))"

text \<open>The result of a flow is the list of its checks.\<close>

definition crudFlow :: "deps \<Rightarrow> string option \<Rightarrow> k6_iteration \<Rightarrow> app_state \<Rightarrow> (string \<times> bool) list \<times> app_state" where
  "crudFlow dp origin it z =
     (case onboard dp origin it z of (token, z2) \<Rightarrow>
        (case truthy token of
           None \<Rightarrow> ([], z2)
         | Some t \<Rightarrow>
             (case send dp origin it 2 ''POST'' (auth t)
                (TenantRequest (CreateProject (''p-'' @ show_nat (ki_iter it)) None)) z2 of (created, z3) \<Rightarrow>
             (case send dp origin it 3 ''GET'' (auth t) (TenantRequest (ListProjects None 25)) z3 of (listed, z4) \<Rightarrow>
                (let checks = [(''create 201'', hp_status created = 201), (''list 200'', hp_status listed = 200)] in
                 case project_id_of created of
                   None \<Rightarrow> (checks, z4)
                 | Some i \<Rightarrow>
                     (case send dp origin it 4 ''GET'' (auth t) (TenantRequest (GetProject i)) z4 of (got, z5) \<Rightarrow>
                        (checks @ [(''get 200|404'', hp_status got = 200 \<or> hp_status got = 404)], z5)))))))"

text \<open>How often \<^verbatim>\<open>rateLimited\<close> is incremented.\<close>

definition burstFlow :: "deps \<Rightarrow> string option \<Rightarrow> k6_iteration \<Rightarrow> app_state \<Rightarrow> nat \<times> app_state" where
  "burstFlow dp origin it z =
     (case onboard dp origin it z of (token, z2) \<Rightarrow>
        (case truthy token of
           None \<Rightarrow> (0, z2)
         | Some t \<Rightarrow>
             (case send dp origin it 2 ''GET'' (auth t) (TenantRequest (ListProjects None 25)) z2 of (res, z3) \<Rightarrow>
                (if hp_status res = 429 then 1 else 0, z3))))"


subsection \<open>What a request of the script comes to\<close>

definition seen_input :: "k6_iteration \<Rightarrow> nat \<Rightarrow> string \<Rightarrow> headers \<Rightarrow> request_input" where
  "seen_input it k method h = under_head (fst (ki_server it k)) (script_head it method) (script_input it k h)"

lemma seen_input_sel [simp]:
  "ri_headers (seen_input it k method h) = h" "ri_env (seen_input it k method h) = ri_env (snd (ki_server it k))"
  "ri_commit_fails (seen_input it k method h) = ri_commit_fails (snd (ki_server it k))"
  by (simp_all add: seen_input_def script_input_def under_head_def)

lemma send_app:
  assumes "method \<noteq> ''OPTIONS''"
  shows "hp_status (fst (send dp origin it k method h req z)) = fst (fst (app_step dp (seen_input it k method h) req z))"
    "hp_body (fst (send dp origin it k method h req z)) = Some (snd (fst (app_step dp (seen_input it k method h) req z)))"
    "snd (send dp origin it k method h req z) = snd (app_step dp (seen_input it k method h) req z)"
proof -
  have "hh_method (script_head it method) = method" by (simp add: script_head_def)
  then show "hp_status (fst (send dp origin it k method h req z)) = fst (fst (app_step dp (seen_input it k method h) req z))"
    "hp_body (fst (send dp origin it k method h req z)) = Some (snd (fst (app_step dp (seen_input it k method h) req z)))"
    "snd (send dp origin it k method h req z) = snd (app_step dp (seen_input it k method h) req z)"
    using assms by (simp_all add: send_def http_step_def Let_def seen_input_def case_prod_beta)
qed

lemma body_map_reply: "snd (fst (map_reply f p)) = map_sum id f (snd (fst p))"
  by (simp add: map_reply_def split: prod.splits sum.splits)

lemma send_owner:
  assumes "\<not> is_billing_call call"
  shows "hp_status (fst (send dp origin it k ''POST'' h (OwnerRequest call) z)) =
      fst (fst (owner_route dp (seen_input it k ''POST'' h) call z))"
    "hp_body (fst (send dp origin it k ''POST'' h (OwnerRequest call) z)) =
      Some (map_sum id BOwner (snd (fst (owner_route dp (seen_input it k ''POST'' h) call z))))"
    "snd (send dp origin it k ''POST'' h (OwnerRequest call) z) = snd (owner_route dp (seen_input it k ''POST'' h) call z)"
  using assms by (simp_all add: send_app body_map_reply)

lemma send_tenant:
  assumes "method \<noteq> ''OPTIONS''"
  shows "hp_status (fst (send dp origin it k method h (TenantRequest call) z)) =
      fst (fst (tenant_route dp (seen_input it k method h) call z))"
    "hp_body (fst (send dp origin it k method h (TenantRequest call) z)) =
      Some (map_sum id BTenant (snd (fst (tenant_route dp (seen_input it k method h) call z))))"
    "snd (send dp origin it k method h (TenantRequest call) z) = snd (tenant_route dp (seen_input it k method h) call z)"
  using assms by (simp_all add: send_app body_map_reply)


subsection \<open>A customer's first session\<close>

abbreviation srv :: "k6_iteration \<Rightarrow> nat \<Rightarrow> env" where
  "srv it k \<equiv> ri_env (snd (ki_server it k))"

text \<open>What the server draws for the iteration is unused, and nobody has its email.\<close>

definition draws_fresh :: "ext \<Rightarrow> k6_iteration \<Rightarrow> db \<Rightarrow> bool" where
  "draws_fresh x it d \<longleftrightarrow>
     signup_fresh x (srv it 0) (load_signup it) d
     \<and> (\<forall>u\<in>set (users d). user_email u \<noteq> lower_ascii (load_email it))
     \<and> rt_fresh d (new_id (srv it 1) 1) (hash_token x (rnd_token (srv it 1)))
     \<and> audit_fresh d (new_id (srv it 1) 2) \<and> new_id (srv it 1) 2 \<noteq> new_id (srv it 0) 2
     \<and> project_fresh (srv it 2) d \<and> new_id (srv it 2) 1 \<notin> {new_id (srv it 0) 2, new_id (srv it 1) 2}"

text \<open>The access token is still valid at every later request of the iteration.\<close>

definition within_ttl :: "token_config \<Rightarrow> k6_iteration \<Rightarrow> bool" where
  "within_ttl cfg it \<longleftrightarrow>
     (\<forall>k\<in>{2,3,4}. js_now (srv it k) div 1000 < js_now (srv it 1) div 1000 + access_ttl_seconds cfg)"

definition script_fits :: "deps \<Rightarrow> k6_iteration \<Rightarrow> bool" where
  "script_fits dp it \<longleftrightarrow> email_ok (d_wire dp) (load_email it) \<and> length (load_suffix it) \<le> 100"

definition load_token :: "deps \<Rightarrow> k6_iteration \<Rightarrow> string" where
  "load_token dp it = sign_access_token (d_ext dp) (d_tokens dp) (srv it 1)
     \<lparr>sub = new_id (srv it 0) 1, tenant_id = new_id (srv it 0) 0, claim_role = Owner\<rparr>"

definition load_actor :: "k6_iteration \<Rightarrow> actor" where
  "load_actor it = \<lparr>actor_tenant_id = new_id (srv it 0) 0, actor_user_id = new_id (srv it 0) 1, actor_role = Owner\<rparr>"

definition onboarded_db :: "deps \<Rightarrow> k6_iteration \<Rightarrow> db \<Rightarrow> db" where
  "onboarded_db dp it d =
     login_db (d_ext dp) (d_tokens dp) (srv it 1) (owner_row (d_ext dp) (srv it 0) (load_signup it))
       (signup_db (d_ext dp) (srv it 0) (load_signup it) d)"

lemma load_signup_sel [simp]:
  "su_email (load_signup it) = load_email it" "su_password (load_signup it) = ''password123''"
  by (simp_all add: load_signup_def)

lemma script_fits_valid:
  assumes "script_fits dp it"
  shows "valid_owner_call (d_wire dp) (PostSignup (load_signup it))"
    "valid_owner_call (d_wire dp) (PostLogin (load_email it) ''password123'')"
    "valid_call (CreateProject (''p-'' @ show_nat (ki_iter it)) None)"
  using assms
  by (simp_all add: script_fits_def load_signup_def load_suffix_def valid_password_def valid_name_def
      valid_description_def)

lemma app_sound_sel: "app_sound z \<Longrightarrow> clean (ap_owner z)" "app_sound z \<Longrightarrow> clean (ap_app z)"
    "app_sound z \<Longrightarrow> db_ok (ap_db z)"
  by (simp_all add: app_sound_def)

lemma onboard_fresh:
  assumes x: "argon2_ok (d_ext dp)" and z: "app_sound z" and b: "bypass_rls (ap_owner z)"
    and fr: "draws_fresh (d_ext dp) it (ap_db z)" and fits: "script_fits dp it" and nl: "\<not> d_limiter dp"
  shows "\<exists>z2. onboard dp origin it z = (Some (load_token dp it), z2) \<and> app_sound z2
    \<and> ap_db z2 = onboarded_db dp it (ap_db z) \<and> ap_app z2 = ap_app z \<and> bypass_rls (ap_owner z2)"
proof -
  let ?r0 = "seen_input it 0 ''POST'' no_auth" and ?r1 = "seen_input it 1 ''POST'' no_auth"
  let ?i = "load_signup it" and ?x = "d_ext dp"
  have adm: "ip_admitted dp r call z'" for r call z'
    using nl by (simp add: ip_admitted_def split: option.splits)
  let ?s = "\<lparr>st_db = ap_db z, st_conn = ap_owner z, st_calls = ap_calls z\<rparr>"
  have sf: "signup_fresh ?x (srv it 0) ?i (st_db ?s)" using fr by (simp add: draws_fresh_def)
  have idle: "tx (st_conn ?s) = NoTx" using clean_NoTx [OF app_sound_sel(1) [OF z]] by simp
  have "public_run dp ?r0 (PostSignup ?i) z =
      (Inr (201, OSignup (new_id (srv it 0) 0) (new_id (srv it 0) 1) (signup_slug ?x (srv it 0) ?i)),
       ?s\<lparr>st_db := signup_db ?x (srv it 0) ?i (ap_db z), st_conn := released (ap_owner z)\<rparr>)"
    using signup_success [OF sf idle] by (simp add: public_run_def auth_signup_def bnd_def ret_def)
  note up = public_route_run [OF _ script_fits_valid(1) [OF fits] adm this, simplified]
  define z1 where "z1 = snd (owner_route dp ?r0 (PostSignup ?i) z)"
  have z1: "ap_db z1 = signup_db ?x (srv it 0) ?i (ap_db z)" "ap_owner z1 = released (ap_owner z)" "ap_app z1 = ap_app z"
    using up by (simp_all add: z1_def)
  have s1: "app_sound z1" using app_step_sound [OF z, of dp ?r0 "OwnerRequest (PostSignup ?i)"] by (simp add: z1_def)
  let ?s1 = "\<lparr>st_db = ap_db z1, st_conn = ap_owner z1, st_calls = ap_calls z1\<rparr>"
  have "login ?x (d_tokens dp) (srv it 1) (load_email it) (su_password ?i) ?s1 =
    (Inr \<lparr>lr_access_token = load_token dp it, lr_refresh_token = rnd_token (srv it 1),
          lr_tenant_id = new_id (srv it 0) 0, lr_user_id = new_id (srv it 0) 1, lr_role = Owner\<rparr>,
     ?s1\<lparr>st_db := login_db ?x (d_tokens dp) (srv it 1) (owner_row ?x (srv it 0) ?i) (st_db ?s1),
        st_conn := released (st_conn ?s1)\<rparr>)"
    unfolding load_token_def
    by (rule login_new_account [OF x, where d = "ap_db z"])
      (use s1 z1 b fr in \<open>auto simp: app_sound_def draws_fresh_def\<close>)
  then have "public_run dp ?r1 (PostLogin (load_email it) ''password123'') z1 =
      (Inr (200, OTokens (load_token dp it) (rnd_token (srv it 1))),
       ?s1\<lparr>st_db := onboarded_db dp it (ap_db z), st_conn := released (ap_owner z1)\<rparr>)"
    by (simp add: public_run_def auth_login_def bnd_def ret_def onboarded_db_def z1(1))
  note lg = public_route_run [OF _ script_fits_valid(2) [OF fits] adm this, simplified]
  define z2 where "z2 = snd (owner_route dp ?r1 (PostLogin (load_email it) ''password123'') z1)"
  have "app_sound z2"
    using app_step_sound [OF s1, of dp ?r1 "OwnerRequest (PostLogin (load_email it) ''password123'')"] by (simp add: z2_def)
  moreover have "onboard dp origin it z = (Some (load_token dp it), z2)"
    using lg(1) by (simp add: onboard_def case_prod_beta access_token_of_def send_owner z1_def [symmetric] z2_def)
  ultimately show ?thesis using lg z1 b by (simp add: z2_def)
qed


lemma load_principal:
  assumes "jwt_ok (d_ext dp)" and "within_ttl (d_tokens dp) it" and "k \<in> {2, 3, 4}"
  shows "principal (d_ext dp) (d_tokens dp) (srv it k) True (auth (load_token dp it)) b d = Some (load_actor it)"
    "touched (d_ext dp) v (auth (load_token dp it)) b d = d"
proof -
  have "js_now (srv it k) div 1000 < js_now (srv it 1) div 1000 + access_ttl_seconds (d_tokens dp)"
    using assms(2,3) by (auto simp: within_ttl_def)
  note ok = verify_sign_access_token [OF assms(1) this]
  show "principal (d_ext dp) (d_tokens dp) (srv it k) True (auth (load_token dp it)) b d = Some (load_actor it)"
    by (simp add: principal_def presented_key_def auth_def bearer_principal_def bearer_prefix_def load_token_def
        load_actor_def ok [simplified])
  show "touched (d_ext dp) v (auth (load_token dp it)) b d = d"
    by (simp add: touched_def presented_key_def auth_def)
qed

text \<open>The new tenant is empty, alive and in good standing.\<close>

lemma onboarded_facts:
  assumes d: "db_ok d" and fr: "draws_fresh (d_ext dp) it d"
  shows "\<not> org_deleted (onboarded_db dp it d) (new_id (srv it 0) 0)"
    "org_exists (onboarded_db dp it d) (new_id (srv it 0) 0)"
    "project_fresh (srv it 2) (onboarded_db dp it d)"
    "billing_state_of b (new_id (srv it 0) 0) (onboarded_db dp it d) = \<lparr>bs_status = ''active'', bs_plan = ''free''\<rparr>"
    "quota_left (new_id (srv it 0) 0) (onboarded_db dp it d) ''free''"
proof -
  let ?t = "new_id (srv it 0) 0" and ?d = "onboarded_db dp it d"
  have sf: "signup_fresh (d_ext dp) (srv it 0) (load_signup it) d" using fr by (simp add: draws_fresh_def)
  then have no: "\<not> org_exists d ?t" by (auto simp: signup_fresh_def org_exists_def list_ex_iff)
  have orgs: "filter (\<lambda>g. org_id g = ?t) (organizations ?d) = [new_org (d_ext dp) (srv it 0) (load_signup it)]"
    using sf by (auto simp: onboarded_db_def login_db_def signup_db_def signup_fresh_def filter_empty_conv new_org_def)
  show "\<not> org_deleted ?d ?t" by (simp add: org_deleted_def orgs new_org_def)
  show "org_exists ?d ?t"
    by (simp add: onboarded_db_def login_db_def signup_db_def org_exists_def new_org_def)
  show "project_fresh (srv it 2) ?d"
    using fr by (auto simp: draws_fresh_def project_fresh_def audit_fresh_def onboarded_db_def login_db_def signup_db_def)
  have "filter (\<lambda>r. subs_tenant_id r = ?t) (subscriptions ?d) = []"
    using d no by (auto simp: onboarded_db_def login_db_def signup_db_def filter_empty_conv db_ok_defs)
  then show "billing_state_of b ?t ?d = \<lparr>bs_status = ''active'', bs_plan = ''free''\<rparr>"
    by (cases b) (simp_all add: billing_state_of_def latest_subscription_def orgs new_org_def)
  have "active_projects ?t ?d = []"
    using d no by (auto simp: active_projects_def onboarded_db_def login_db_def signup_db_def filter_empty_conv db_ok_defs)
  then show "quota_left ?t ?d ''free''" by (simp add: quota_left_def plan_quota_def PROJECT_QUOTA_def)
qed

text \<open>Reading requests: a first page, and one project.\<close>

lemma list_request:
  assumes c: "clean (st_conn s)" and alive: "\<not> org_deleted (st_db s) (actor_tenant_id a)" and l: "1 \<le> l" "l \<le> 100"
  shows "\<exists>body s1. serve x cod owner v rid False a (ListProjects None l) s = ((200, Inr body), s1)
    \<and> st_db s1 = st_db s \<and> st_conn s1 = released (st_conn s)"
proof -
  let ?in = "in_tenant_tx (actor_tenant_id a) s"
  have "\<exists>p. list_projects cod None l ?in = (Inr p, ?in)"
    using l by (auto simp: list_projects_def bnd_def lift_sum_def exec_live q_list_projects_def Let_def ret_def)
  then obtain p where "list_projects cod None l ?in = (Inr p, ?in)" by blast
  then have "route_handler x cod owner v (ListProjects None l) a ?in = (Inr (200, PProjects p), ?in)"
    by (simp only: route_handler.simps v1_list_def run_steps)
  from serve_Inr [OF c _ alive this] l show ?thesis by simp
qed

lemma get_request:
  assumes c: "clean (st_conn s)" and alive: "\<not> org_deleted (st_db s) (actor_tenant_id a)" and d: "db_ok (st_db s)"
    and p: "p \<in> set (projects (st_db s))" "project_tenant_id p = actor_tenant_id a"
  shows "\<exists>s1. serve x cod owner v rid False a (GetProject (project_id p)) s = ((200, Inr (PProject (project_view_of p))), s1)"
proof -
  let ?in = "in_tenant_tx (actor_tenant_id a) s"
  have "get_project (project_id p) ?in = (Inr (project_view_of p), ?in)"
    by (rule get_project_run) (use d p in simp_all)
  then have "route_handler x cod owner v (GetProject (project_id p)) a ?in = (Inr (200, PProject (project_view_of p)), ?in)"
    by (simp only: route_handler.simps v1_get_def run_steps)
  from serve_Inr [OF c _ alive this] show ?thesis by simp
qed


text \<open>A request of the script on a tenant route, without a limiter.\<close>

lemma script_serves:
  assumes z: "app_sound z" and nl: "\<not> d_limiter dp" and jwt: "jwt_ok (d_ext dp)"
    and ttl: "within_ttl (d_tokens dp) it" "k \<in> {2, 3, 4}" and cf: "\<forall>k. \<not> ri_commit_fails (snd (ki_server it k))"
    and valid: "valid_call call" and m: "method \<noteq> ''OPTIONS''"
    and sv: "serve (d_ext dp) (d_codec dp) (ap_owner z) (srv it k)
      (ri_request_id (seen_input it k method (auth (load_token dp it)))) False (load_actor it) call
      \<lparr>st_db = ap_db z, st_conn = ap_app z, st_calls = ap_calls z\<rparr> = ((status, Inr body), s')"
  shows "hp_status (fst (send dp origin it k method (auth (load_token dp it)) (TenantRequest call) z)) = status"
    "hp_body (fst (send dp origin it k method (auth (load_token dp it)) (TenantRequest call) z)) = Some (Inr (BTenant body))"
    "ap_db (snd (send dp origin it k method (auth (load_token dp it)) (TenantRequest call) z)) = st_db s'"
    "bypass_rls (ap_app (snd (send dp origin it k method (auth (load_token dp it)) (TenantRequest call) z))) =
      bypass_rls (ap_app z)"
    "app_sound (snd (send dp origin it k method (auth (load_token dp it)) (TenantRequest call) z))"
proof -
  let ?r = "seen_input it k method (auth (load_token dp it))"
  have adm: "tenant_admitted dp ?r call (load_actor it) z" using nl by (simp add: tenant_admitted_def)
  note pr = load_principal [OF jwt ttl]
  note run = tenant_route_serves [where r = ?r, OF app_sound_sel(1,2) [OF z] valid _ adm, simplified, OF pr(1)]
  have sv': "serve (d_ext dp) (d_codec dp) (ap_owner z) (ri_env ?r) (ri_request_id ?r) (ri_commit_fails ?r) (load_actor it) call
      \<lparr>st_db = touched (d_ext dp) (ri_env ?r) (ri_headers ?r) (bypass_rls (ap_owner z)) (ap_db z),
       st_conn = ap_app z, st_calls = ap_calls z\<rparr> = ((status, Inr body), s')"
    using sv cf by (simp add: pr(2))
  show "hp_status (fst (send dp origin it k method (auth (load_token dp it)) (TenantRequest call) z)) = status"
    "hp_body (fst (send dp origin it k method (auth (load_token dp it)) (TenantRequest call) z)) = Some (Inr (BTenant body))"
    "ap_db (snd (send dp origin it k method (auth (load_token dp it)) (TenantRequest call) z)) = st_db s'"
    using run [OF sv' [simplified]] by (simp_all add: send_tenant [OF m])
  show "bypass_rls (ap_app (snd (send dp origin it k method (auth (load_token dp it)) (TenantRequest call) z))) =
      bypass_rls (ap_app z)"
    "app_sound (snd (send dp origin it k method (auth (load_token dp it)) (TenantRequest call) z))"
    using app_step_sound [OF z, of dp ?r "TenantRequest call"] by (simp_all add: send_app(3) [OF m] same_roles_def)
qed

text \<open>
  C11: A new customer's first session works end to end over HTTP. On an application without a
  limiter whose owner role bypasses the row policies and whose application role does not, and
  with unused draws of the server, the load test's flow (signup, login, create a project, list,
  read it back, with the token of the login) passes all its checks.
\<close>
theorem crud_flow_passes:
  assumes "argon2_ok (d_ext dp)" and jwt: "jwt_ok (d_ext dp)" and tok: "load_token dp it \<noteq> []"
    and nl: "\<not> d_limiter dp" and z: "app_sound z" and b: "bypass_rls (ap_owner z)" and nb: "\<not> bypass_rls (ap_app z)"
    and fr: "draws_fresh (d_ext dp) it (ap_db z)" and ttl: "within_ttl (d_tokens dp) it" and fits: "script_fits dp it"
    and cf: "\<forall>k. \<not> ri_commit_fails (snd (ki_server it k))"
  shows "fst (crudFlow dp origin it z) = [(''create 201'', True), (''list 200'', True), (''get 200|404'', True)]"
proof -
  let ?a = "load_actor it" and ?h = "auth (load_token dp it)"
  define nm where "nm = ''p-'' @ show_nat (ki_iter it)"
  have nv: "valid_call (CreateProject nm None)" unfolding nm_def by (rule script_fits_valid(3) [OF fits])
  let ?x = "d_ext dp" and ?cod = "d_codec dp"
  obtain z2 where z2: "onboard dp origin it z = (Some (load_token dp it), z2)" "app_sound z2"
      "ap_db z2 = onboarded_db dp it (ap_db z)" "ap_app z2 = ap_app z"
    using onboard_fresh [OF assms(1) z b fr fits nl] by blast
  note facts = onboarded_facts [OF app_sound_sel(3) [OF z] fr]
  have k: "2 \<in> {2, 3, 4 :: nat}" "3 \<in> {2, 3, 4 :: nat}" "4 \<in> {2, 3, 4 :: nat}" by simp_all
  have m: "''POST'' \<noteq> ''OPTIONS''" "''GET'' \<noteq> ''OPTIONS''" by simp_all
  have v: "valid_call (ListProjects None 25)" "valid_call (GetProject i)" for i by simp_all
  let ?s2 = "\<lparr>st_db = ap_db z2, st_conn = ap_app z2, st_calls = ap_calls z2\<rparr>"
  let ?p = "new_project (srv it 2) ?a nm None"
  have t: "actor_tenant_id ?a = new_id (srv it 0) 0" by (simp add: load_actor_def)
  obtain s3 where s3: "serve ?x ?cod (ap_owner z2) (srv it 2) (ri_request_id (seen_input it 2 ''POST'' ?h)) False ?a
      (CreateProject nm None) ?s2 = ((201, Inr (PProject (project_view_of ?p))), s3)"
      "st_db s3 = created_db (srv it 2) ?a nm None (ap_db z2)"
    using create_request [of ?s2 "ap_owner z2" ?a nm None "srv it 2" "''active''" "''free''" ?x ?cod]
      app_sound_sel(1,2) [OF z2(2)] nb facts nv
    by (auto simp: z2 t assert_write_allowed_def)
  define z3 where "z3 = snd (send dp origin it 2 ''POST'' ?h (TenantRequest (CreateProject nm None)) z2)"
  note create = script_serves [where origin = origin, OF z2(2) nl jwt ttl k(1) cf nv m(1) s3(1), folded z3_def]
  have alive: "\<not> org_deleted (ap_db z3) (actor_tenant_id ?a)"
    using facts(1) by (simp add: create s3(2) z2 t created_db_def org_deleted_def)
  let ?s3 = "\<lparr>st_db = ap_db z3, st_conn = ap_app z3, st_calls = ap_calls z3\<rparr>"
  have c3: "clean (st_conn ?s3)" using app_sound_sel(2) [OF create(5)] by simp
  obtain body s4 where s4: "serve ?x ?cod (ap_owner z3) (srv it 3) (ri_request_id (seen_input it 3 ''GET'' ?h)) False ?a
      (ListProjects None 25) ?s3 = ((200, Inr body), s4)" "st_db s4 = ap_db z3"
    using list_request [OF c3, of ?a 25] alive by fastforce
  define z4 where "z4 = snd (send dp origin it 3 ''GET'' ?h (TenantRequest (ListProjects None 25)) z3)"
  note listed = script_serves [where origin = origin, OF create(5) nl jwt ttl k(2) cf v(1) m(2) s4(1), folded z4_def]
  let ?s4 = "\<lparr>st_db = ap_db z4, st_conn = ap_app z4, st_calls = ap_calls z4\<rparr>"
  have c4: "clean (st_conn ?s4)" "db_ok (st_db ?s4)" using app_sound_sel(2,3) [OF listed(5)] by simp_all
  have mem: "?p \<in> set (projects (st_db ?s4))" by (simp add: listed s4(2) create s3(2) created_db_def)
  obtain s5 where s5: "serve ?x ?cod (ap_owner z4) (srv it 4) (ri_request_id (seen_input it 4 ''GET'' ?h)) False ?a
      (GetProject (project_id ?p)) ?s4 = ((200, Inr (PProject (project_view_of ?p))), s5)"
    using get_request [OF c4(1) _ c4(2) mem, of ?a] alive by (fastforce simp: listed s4(2))
  note got = script_serves [where origin = origin, OF listed(5) nl jwt ttl k(3) cf v(2) m(2) s5]
  have i: "project_id_of (fst (send dp origin it 2 ''POST'' ?h (TenantRequest (CreateProject nm None)) z2)) = Some (project_id ?p)"
    by (simp add: project_id_of_def create project_view_of_def)
  show ?thesis
    using tok got(1) unfolding crudFlow_def nm_def [symmetric] z2(1)
    by (simp add: truthy_def case_prod_beta Let_def i create listed z3_def [symmetric] z4_def [symmetric])
qed


definition sample_iteration :: k6_iteration where
  "sample_iteration = \<lparr>ki_vu = 1, ki_iter = 2, ki_now = 3, ki_peer = ''10.0.0.9'',
     ki_server = (\<lambda>k. (of_nat k, sample_input k))\<rparr>"

lemma sample_iteration_sel [simp]: "ki_server sample_iteration k = (of_nat k, sample_input k)"
  "ri_env (sample_input k) = sample_env k" "\<not> ri_commit_fails (sample_input k)"
  by (simp_all add: sample_iteration_def sample_input_def)

lemma sample_suffix: "load_suffix sample_iteration = ''1-2-3''"
  by (simp add: load_suffix_def sample_iteration_def show_nat.simps) code_simp

lemma crud_flow_passes_witness:
  "fst (crudFlow sample_deps None sample_iteration sample_start) =
    [(''create 201'', True), (''list 200'', True), (''get 200|404'', True)]"
proof (rule crud_flow_passes)
  show "argon2_ok (d_ext sample_deps)" "jwt_ok (d_ext sample_deps)"
    by (simp_all add: sample_deps_def argon2_ok_sample jwt_ok_sample)
  show "load_token sample_deps sample_iteration \<noteq> []"
    by (simp add: load_token_def sign_access_token_def sample_deps_def sample_ext_def sample_sign_def
        enc_role_def)
  show "\<not> d_limiter sample_deps" "bypass_rls (ap_owner sample_start)" "\<not> bypass_rls (ap_app sample_start)"
    by (simp_all add: sample_deps_def sample_start_def)
  show "app_sound sample_start" by (simp add: app_sound_def sample_start_def db_ok_empty)
  show "draws_fresh (d_ext sample_deps) sample_iteration (ap_db sample_start)"
    by (simp add: draws_fresh_def sample_start_def signup_fresh_def audit_fresh_def rt_fresh_def project_fresh_def
        empty_db_def)
  show "within_ttl (d_tokens sample_deps) sample_iteration"
    by (simp add: within_ttl_def sample_deps_def sample_config_def)
  show "script_fits sample_deps sample_iteration"
    by (simp add: script_fits_def sample_suffix load_email_def sample_deps_def)
  show "\<forall>k. \<not> ri_commit_fails (snd (ki_server sample_iteration k))" by simp
qed


subsection \<open>The burst\<close>

lemma uuid_out_head: "\<exists>c cs v. uuid_out u = c # cs \<and> hex_val c = Some v"
proof -
  let ?ds = "to_hex 32 (unat u)"
  have "?ds \<noteq> []" using length_to_hex [of 32 "unat u"] by fastforce
  then obtain c cs where ds: "?ds = c # cs" by (cases ?ds) auto
  then have "\<exists>v. hex_val c = Some v" using set_to_hex [of c 32 "unat u"] by simp
  moreover have "uuid_out u = c # (take 7 cs @ ''-'' @ take 4 (drop 8 ?ds) @ ''-'' @ take 4 (drop 12 ?ds) @ ''-'' @
      take 4 (drop 16 ?ds) @ ''-'' @ drop 20 ?ds)"
    by (simp add: uuid_out_def Let_def ds)
  ultimately show ?thesis by blast
qed

definition tenant_key :: "uuid \<Rightarrow> string" where
  "tenant_key t = ''ratelimit:'' @ uuid_out t"

lemma tenant_key_no_ip_key: "tenant_key t \<noteq> ip_key ip c"
proof
  assume e: "tenant_key t = ip_key ip c"
  obtain d cs v where "uuid_out t = d # cs" "hex_val d = Some v" using uuid_out_head by blast
  with e show False by (simp add: tenant_key_def ip_key_def hex_val_def)
qed

text \<open>An address limiter leaves every tenant's bucket alone.\<close>

lemma ip_limit_store:
  assumes "k \<noteq> ip_key ip c"
  shows "ls_store (snd (ip_rate_limit ck c ip l)) k = ls_store l k"
proof (cases "ls_up l")
  case True
  then show ?thesis
    using assms
    by (auto simp: ip_rate_limit_def spend_def try_catch_def bnd_def consume_up ip_key_def fail_policy_def
        throw_def ret_def too_many_def split: prod.splits)
next
  case False
  then show ?thesis
    by (auto simp: ip_rate_limit_def spend_def try_catch_def bnd_def consume_down fail_policy_def throw_def
        ret_def connection_error_def)
qed

lemma owner_route_tenant_bucket:
  "ls_store (ap_limiter (snd (owner_route dp r call z))) (tenant_key t) = ls_store (ap_limiter z) (tenant_key t)"
  using ip_limit_store [OF tenant_key_no_ip_key]
  by (auto simp: owner_route_def Let_def case_prod_beta split: option.splits)

text \<open>An unused bucket of a tenant on the free plan admits a read, whether or not Redis answers.\<close>

lemma fresh_tenant_read:
  assumes "ls_store l (tenant_key t) = None"
  shows "verdict (fst (tenant_rate_limit ck True t (Inr ''free'') l)) = Inr ()"
proof (cases "ls_up l")
  case True
  then show ?thesis
    using assms
    by (simp add: tenant_rate_limit_def spend_def try_catch_def bnd_def lift_sum_def consume_up answered_def
      live_bucket_def token_bucket_def Let_def refilled_def limit_result_of_def ret_def verdict_def tenant_key_def
      bucket_for_plan_def PLAN_BUCKETS_def split: prod.splits)
next
  case False
  then show ?thesis
    by (simp add: tenant_rate_limit_def spend_def try_catch_def bnd_def lift_sum_def consume_down fail_policy_def
        ret_def verdict_def connection_error_def)
qed


text \<open>Any outcome of onboarding: no token, or the state of a fresh onboarding.\<close>

lemma onboard_cases:
  assumes x: "argon2_ok (d_ext dp)" and z: "app_sound z" and fr: "draws_fresh (d_ext dp) it (ap_db z)"
  shows "\<exists>token z2. onboard dp origin it z = (token, z2) \<and> app_sound z2 \<and>
    ls_store (ap_limiter z2) (tenant_key t) = ls_store (ap_limiter z) (tenant_key t) \<and>
    (token = None \<or> token = Some (load_token dp it) \<and> ap_db z2 = onboarded_db dp it (ap_db z) \<and> ap_app z2 = ap_app z)"
proof -
  let ?r0 = "seen_input it 0 ''POST'' no_auth" and ?r1 = "seen_input it 1 ''POST'' no_auth"
  let ?i = "load_signup it" and ?x = "d_ext dp"
  let ?up = "PostSignup ?i" and ?in = "PostLogin (load_email it) ''password123''"
  define z1 where "z1 = snd (owner_route dp ?r0 ?up z)"
  define z2 where "z2 = snd (owner_route dp ?r1 ?in z1)"
  have s1: "app_sound z1" using app_step_sound [OF z, of dp ?r0 "OwnerRequest ?up"] by (simp add: z1_def)
  have s2: "app_sound z2" using app_step_sound [OF s1, of dp ?r1 "OwnerRequest ?in"] by (simp add: z2_def)
  have lim: "ls_store (ap_limiter z2) (tenant_key t) = ls_store (ap_limiter z) (tenant_key t)"
    by (simp add: z2_def z1_def owner_route_tenant_bucket)
  have on: "onboard dp origin it z =
      (access_token_of (fst (send dp origin it 1 ''POST'' no_auth (OwnerRequest ?in) z1)), z2)"
    by (simp add: onboard_def case_prod_beta send_owner z1_def z2_def)
  have body: "hp_body (fst (send dp origin it 1 ''POST'' no_auth (OwnerRequest ?in) z1)) =
      Some (map_sum id BOwner (snd (fst (owner_route dp ?r1 ?in z1))))"
    by (simp add: send_owner)
  show ?thesis
  proof (cases "access_token_of (fst (send dp origin it 1 ''POST'' no_auth (OwnerRequest ?in) z1))")
    case None
    then show ?thesis using on s2 lim by simp
  next
    case (Some tok)
    then have noerr: "\<not> (\<exists>env. snd (fst (owner_route dp ?r1 ?in z1)) = Inl env)"
      unfolding access_token_of_def body by auto
    then have lg: "valid_owner_call (d_wire dp) ?in" "ip_admitted dp ?r1 ?in z1"
      using public_route_either [of ?in dp ?r1 z1] by auto
    let ?s1 = "\<lparr>st_db = ap_db z1, st_conn = ap_owner z1, st_calls = ap_calls z1\<rparr>"
    have c1: "clean (st_conn ?s1)" using app_sound_sel(1) [OF s1] by simp
    obtain out s' where run: "login ?x (d_tokens dp) (srv it 1) (load_email it) ''password123'' ?s1 = (out, s')" by fastforce
    have "public_run dp ?r1 ?in z1 =
        (case out of Inl e \<Rightarrow> Inl e | Inr lr \<Rightarrow> Inr (200, OTokens (lr_access_token lr) (lr_refresh_token lr)), s')"
      by (simp add: public_run_def auth_login_def bnd_def run ret_def del: One_nat_def split: sum.splits)
    note after = public_route_run [OF route_auth.simps(7) lg this]
    obtain lr where lr: "out = Inr lr" using noerr after(1) error_reply_Inl by (cases out) auto
    have "login_row (bypass_rls (ap_owner z1)) (load_email it) (ap_db z1) \<noteq> None"
      using run lr by (auto simp: login_cases [OF c1] simp del: One_nat_def split: option.splits sum.splits bool.splits)
    then obtain u where u: "u \<in> set (users (ap_db z1))" "user_email u = lower_ascii (load_email it)"
      and b1: "bypass_rls (ap_owner z1)"
      by (auto simp: login_row_def dest!: first_row_filterD split: if_splits)
    have "ap_db z1 \<noteq> ap_db z" using u fr by (auto simp: draws_fresh_def)
    then have up: "valid_owner_call (d_wire dp) ?up" "ip_admitted dp ?r0 ?up z"
      using public_route_either [of ?up dp ?r0 z] by (auto simp: z1_def)
    let ?s = "\<lparr>st_db = ap_db z, st_conn = ap_owner z, st_calls = ap_calls z\<rparr>"
    have sf: "signup_fresh ?x (srv it 0) ?i (st_db ?s)" using fr by (simp add: draws_fresh_def)
    have idle: "tx (st_conn ?s) = NoTx" using clean_NoTx [OF app_sound_sel(1) [OF z]] by simp
    have "public_run dp ?r0 ?up z =
        (Inr (201, OSignup (new_id (srv it 0) 0) (new_id (srv it 0) 1) (signup_slug ?x (srv it 0) ?i)),
         ?s\<lparr>st_db := signup_db ?x (srv it 0) ?i (ap_db z), st_conn := released (ap_owner z)\<rparr>)"
      using signup_success [OF sf idle] by (simp add: public_run_def auth_signup_def bnd_def ret_def)
    note z1 = public_route_run [OF _ up this, simplified, folded z1_def]
    have "login ?x (d_tokens dp) (srv it 1) (load_email it) (su_password ?i) ?s1 =
      (Inr \<lparr>lr_access_token = load_token dp it, lr_refresh_token = rnd_token (srv it 1),
            lr_tenant_id = new_id (srv it 0) 0, lr_user_id = new_id (srv it 0) 1, lr_role = Owner\<rparr>,
       ?s1\<lparr>st_db := login_db ?x (d_tokens dp) (srv it 1) (owner_row ?x (srv it 0) ?i) (st_db ?s1),
          st_conn := released (st_conn ?s1)\<rparr>)"
      unfolding load_token_def
      by (rule login_new_account [OF x, where d = "ap_db z"])
        (use c1 b1 z1 fr in \<open>auto simp: draws_fresh_def\<close>)
    then have lr2: "lr_access_token lr = load_token dp it" "st_db s' = onboarded_db dp it (ap_db z)"
      using run lr by (auto simp: onboarded_db_def z1 simp del: One_nat_def)
    have "tok = load_token dp it"
      using Some after(1) lr lr2 unfolding access_token_of_def body by (simp del: One_nat_def)
    moreover have "ap_db z2 = onboarded_db dp it (ap_db z)" "ap_app z2 = ap_app z"
      using after lr2 z1 by (simp_all add: z2_def del: One_nat_def)
    ultimately show ?thesis using on s2 lim Some by (simp del: One_nat_def)
  qed
qed


text \<open>The token of the login has at most the claims it was issued for.\<close>

lemma load_principal_only:
  assumes jwt: "jwt_ok (d_ext dp)" and "0 < access_ttl_seconds (d_tokens dp)"
    and pr: "principal (d_ext dp) (d_tokens dp) v True (auth (load_token dp it)) b d = Some a"
  shows "a = load_actor it"
proof -
  let ?k = "signing_secret (d_tokens dp)" and ?x = "d_ext dp"
  define p where "p = \<lparr>jwt_sub = new_id (srv it 0) 1, jwt_tenant_id = new_id (srv it 0) 0, jwt_role = Owner,
    jwt_iss = ISSUER, jwt_aud = AUDIENCE, jwt_iat = js_now (srv it 1) div 1000,
    jwt_exp = js_now (srv it 1) div 1000 + access_ttl_seconds (d_tokens dp)\<rparr>"
  have t: "load_token dp it = jwt_sign ?x ?k p" by (simp add: load_token_def sign_access_token_def p_def)
  obtain q where q: "jwt_verify ?x ?k ISSUER AUDIENCE (js_now v) (load_token dp it) = Inr q"
      "a = \<lparr>actor_tenant_id = jwt_tenant_id q, actor_user_id = jwt_sub q, actor_role = jwt_role q\<rparr>"
    using pr by (auto simp: principal_def presented_key_def auth_def bearer_principal_def bearer_prefix_def
        verify_access_token_def split: sum.splits)
  have q': "load_token dp it = jwt_sign ?x ?k q" "jwt_iss q = ISSUER" "jwt_aud q = AUDIENCE" "js_now v div 1000 < jwt_exp q"
    using jwt q(1) unfolding jwt_ok_def by blast+
  define now where "now = 1000 * (min (jwt_exp p) (jwt_exp q) - 1)"
  have "now div 1000 < jwt_exp p" "now div 1000 < jwt_exp q" by (simp_all add: now_def)
  then have "jwt_verify ?x ?k (jwt_iss p) (jwt_aud p) now (jwt_sign ?x ?k p) = Inr p"
    "jwt_verify ?x ?k (jwt_iss q) (jwt_aud q) now (jwt_sign ?x ?k q) = Inr q"
    using jwt unfolding jwt_ok_def by blast+
  then have "p = q" using t q' by (simp add: p_def)
  then show ?thesis using q(2) unfolding \<open>p = q\<close> [symmetric] by (simp add: load_actor_def p_def)
qed

lemma list_status:
  assumes c: "clean (st_conn s)" and alive: "\<not> org_deleted (st_db s) (actor_tenant_id a)"
  shows "fst (fst (serve x cod owner v rid cf a (ListProjects None 25) s)) = 200"
proof -
  let ?in = "in_tenant_tx (actor_tenant_id a) s"
  have "\<exists>p. list_projects cod None 25 ?in = (Inr p, ?in)"
    by (auto simp: list_projects_def bnd_def lift_sum_def exec_live q_list_projects_def Let_def ret_def)
  then obtain p where "list_projects cod None 25 ?in = (Inr p, ?in)" by blast
  then have "route_handler x cod owner v (ListProjects None 25) a ?in = (Inr (200, PProjects p), ?in)"
    by (simp only: route_handler.simps v1_list_def run_steps)
  then show ?thesis using alive by (simp add: serve_cases [OF c])
qed

text \<open>
  The burst scenario cannot show the tenant limiter. Each of its iterations signs up a
  tenant of its own and reads once with it, so the only bucket the read touches is one that was
  never used: whatever state the limiters, Redis and the database are in, and whatever the
  requests before it are answered, the counter \<^verbatim>\<open>rate_limited_429\<close> is not incremented and the
  check on \<^verbatim>\<open>Retry-After\<close> is never made.
\<close>
theorem burst_counts_no_429:
  assumes x: "argon2_ok (d_ext dp)" and jwt: "jwt_ok (d_ext dp)" and ttl: "0 < access_ttl_seconds (d_tokens dp)"
    and z: "app_sound z" and fr: "draws_fresh (d_ext dp) it (ap_db z)"
    and unused: "ls_store (ap_limiter z) (tenant_key (new_id (srv it 0) 0)) = None"
  shows "fst (burstFlow dp origin it z) = 0"
proof -
  let ?t = "new_id (srv it 0) 0"
  obtain token z2 where on: "onboard dp origin it z = (token, z2)" "app_sound z2"
      "ls_store (ap_limiter z2) (tenant_key ?t) = None"
    and tok: "token = None \<or> token = Some (load_token dp it) \<and> ap_db z2 = onboarded_db dp it (ap_db z) \<and> ap_app z2 = ap_app z"
    using onboard_cases [OF x z fr, of origin ?t] unused by auto
  show ?thesis
  proof (cases "truthy token")
    case None
    then show ?thesis by (simp add: burstFlow_def on(1))
  next
    case (Some t)
    then have t: "t = load_token dp it" and db: "ap_db z2 = onboarded_db dp it (ap_db z)"
      using tok by (auto simp: truthy_def split: if_splits)
    let ?r = "seen_input it 2 ''GET'' (auth t)" and ?call = "ListProjects None 25"
    let ?pr = "principal (d_ext dp) (d_tokens dp) (ri_env ?r) True (ri_headers ?r) (bypass_rls (ap_owner z2)) (ap_db z2)"
    have "fst (fst (tenant_route dp ?r ?call z2)) \<noteq> 429"
    proof (cases ?pr)
      case None
      then show ?thesis
        using tenant_route_access [OF app_sound_sel(1,2) [OF on(2)] prod.collapse [symmetric], of dp ?r ?call]
        by (auto simp: refused_def)
    next
      case (Some a)
      have a: "a = load_actor it" by (rule load_principal_only [OF jwt ttl Some [unfolded t seen_input_sel]])
      have same: "touched (d_ext dp) v (auth t) b d = d" for v b d
        by (simp add: touched_def presented_key_def auth_def)
      have plan: "fst (on_pool (ap_owner z2) (limit_gate ck True (ap_limiter z2) a) s) = Inr ()"
        if s: "st_db s = ap_db z2" for ck s
      proof -
        have "billing_state_of True ?t (onboarded_db dp it (ap_db z)) = \<lparr>bs_status = ''active'', bs_plan = ''free''\<rparr>"
          by (rule onboarded_facts(4) [OF app_sound_sel(3) [OF z] fr])
        moreover have "live (s\<lparr>st_conn := ap_owner z2\<rparr>)"
          by (rule live_NoTx) (use clean_NoTx [OF app_sound_sel(1) [OF on(2)]] in simp)
        ultimately have "fst (plan_of ?t (s\<lparr>st_conn := ap_owner z2\<rparr>)) = Inr ''free''"
          by (simp add: plan_of_def bnd_def exec_select_orgs_live s db ret_def billing_state_of_def)
        then show ?thesis
          using fresh_tenant_read [OF on(3)]
          by (simp add: on_pool_def limit_gate_def case_prod_beta a load_actor_def)
      qed
      have adm: "tenant_admitted dp ?r ?call a z2" by (simp add: tenant_admitted_def plan same)
      have "\<not> org_deleted (ap_db z2) (actor_tenant_id a)"
        using onboarded_facts(1) [OF app_sound_sel(3) [OF z] fr] by (simp add: db a load_actor_def)
      then have "fst (fst (serve (d_ext dp) (d_codec dp) (ap_owner z2) (ri_env ?r) (ri_request_id ?r) (ri_commit_fails ?r) a ?call
          \<lparr>st_db = touched (d_ext dp) (ri_env ?r) (ri_headers ?r) (bypass_rls (ap_owner z2)) (ap_db z2),
           st_conn = ap_app z2, st_calls = ap_calls z2\<rparr>)) = 200"
        using app_sound_sel(2) [OF on(2)] by (intro list_status) (simp_all add: same)
      then show ?thesis
        using tenant_route_serves(1) [OF app_sound_sel(1,2) [OF on(2)] _ Some adm prod.collapse [symmetric]] by simp
    qed
    then show ?thesis
      using Some by (simp add: burstFlow_def on(1) case_prod_beta send_tenant)
  qed
qed


lemma burst_counts_no_429_witness:
  "fst (burstFlow (sample_deps\<lparr>d_limiter := True\<rparr>) None sample_iteration sample_start) = 0"
proof (rule burst_counts_no_429)
  show "argon2_ok (d_ext (sample_deps\<lparr>d_limiter := True\<rparr>))" "jwt_ok (d_ext (sample_deps\<lparr>d_limiter := True\<rparr>))"
    by (simp_all add: sample_deps_def argon2_ok_sample jwt_ok_sample)
  show "0 < access_ttl_seconds (d_tokens (sample_deps\<lparr>d_limiter := True\<rparr>))"
    by (simp add: sample_deps_def sample_config_def)
  show "app_sound sample_start" by (simp add: app_sound_def sample_start_def db_ok_empty)
  show "draws_fresh (d_ext (sample_deps\<lparr>d_limiter := True\<rparr>)) sample_iteration (ap_db sample_start)"
    by (simp add: draws_fresh_def sample_start_def signup_fresh_def audit_fresh_def rt_fresh_def project_fresh_def
        empty_db_def)
  show "ls_store (ap_limiter sample_start) (tenant_key (new_id (srv sample_iteration 0) 0)) = None"
    by (simp add: sample_start_def)
qed

text \<open>
  An iteration whose login is refused (the credential limiter admits ten at once and ten a
  minute from one address) makes no check and counts nothing.
\<close>

lemma refused_login_is_silent:
  assumes "\<not> ip_admitted dp (seen_input it 1 ''POST'' no_auth) (PostLogin (load_email it) ''password123'')
    (snd (send dp origin it 0 ''POST'' no_auth (OwnerRequest (PostSignup (load_signup it))) z))"
  shows "fst (crudFlow dp origin it z) = []" "fst (burstFlow dp origin it z) = 0"
proof -
  define z1 where "z1 = snd (send dp origin it 0 ''POST'' no_auth (OwnerRequest (PostSignup (load_signup it))) z)"
  have "\<exists>env. snd (fst (owner_route dp (seen_input it 1 ''POST'' no_auth)
      (PostLogin (load_email it) ''password123'') z1)) = Inl env"
    using public_route_either [OF route_auth.simps(7), of dp "seen_input it 1 ''POST'' no_auth"] assms
    unfolding z1_def by blast
  then have "access_token_of (fst (send dp origin it 1 ''POST'' no_auth
      (OwnerRequest (PostLogin (load_email it) ''password123'')) z1)) = None"
    by (auto simp: access_token_of_def send_owner simp del: One_nat_def)
  then have "fst (onboard dp origin it z) = None"
    by (simp add: onboard_def case_prod_beta z1_def del: One_nat_def)
  then show "fst (crudFlow dp origin it z) = []" "fst (burstFlow dp origin it z) = 0"
    by (simp_all add: crudFlow_def burstFlow_def truthy_def case_prod_beta)
qed

end
