(* ===== verification/Spec2Isabelle.thy ===== *)
theory Spec2Isabelle
  imports AuthProperties SessionProperties TeamProperties LimitProperties BillingProperties AppProperties
    Http Bodies Migration Server StripeAdapter AppSessions Authority Serialized SessionRaces LoadTest
begin

text \<open>
  A model of TenantForge, a multi-tenant API server (TypeScript, Fastify, PostgreSQL with row
  level security, Redis, Stripe), and the theorems that hold of it. Paths are relative to the
  repository's package directory; \<^verbatim>\<open>src/auth/login.service.ts\<close> is the file of that name in it.

  \<^bold>\<open>The program.\<close> A request enters \<^verbatim>\<open>src/app.ts\<close>, passes the limiter of its route
  (\<^verbatim>\<open>src/ratelimit\<close>), is authenticated by a JWT or an API key, and runs on one of two pools. The
  tenant routes (projects, API keys, export) run on the app-role pool: \<^verbatim>\<open>src/middleware/tenant.ts\<close>
  opens a transaction, sets \<^verbatim>\<open>app.current_tenant_id\<close> in it, and PostgreSQL's policies confine
  every statement to that tenant. All other routes (signup, login, refresh, password reset,
  invitations, roles, cancellation, billing, webhook) run on the owner pool, with transactions
  of their own. Handlers throw; one error handler turns exceptions into replies.

  \<^bold>\<open>Values and effects.\<close>
  \<^item> Prelude: identifiers, clocks, list lemmas, the collections of simplification rules.
  \<^item> AppErrors: \<^verbatim>\<open>src/errors.ts\<close>, and the three kinds of exception (application error, database
    error with its SQLSTATE, any other thrown value).
  \<^item> Rbac: \<^verbatim>\<open>src/auth/rbac.ts\<close>; the roles are an instance of \<^verbatim>\<open>linorder\<close>.
  \<^item> Effects: awaited code as a function from a state to a result (\<^term>\<open>Inl\<close>: what was thrown) and
    a new state; sequencing, \<^verbatim>\<open>try/catch\<close>, \<^verbatim>\<open>finally\<close>, \<^verbatim>\<open>.catch(() => {})\<close>. The locale
    \<open>state_order\<close>: a preorder on states that the basic steps respect is respected by whatever
    is composed of them. Invariants, isolation and histories are all its instances.
  \<^item> Uuids, Base64Url, Slugs, Tokens: the text forms of ids, the cursor's base64url,
    \<^verbatim>\<open>src/auth/slug.ts\<close>, \<^verbatim>\<open>src/auth/token.service.ts\<close> and \<^verbatim>\<open>src/auth/password.ts\<close>.

  \<^bold>\<open>The database.\<close>
  \<^item> Schema: \<^verbatim>\<open>src/db/schema\<close>, one record per table, its unique indexes and foreign keys.
  \<^item> Sql: connections, transactions and statements under the policies of \<^verbatim>\<open>src/db/rls.ts\<close>.
    A connection may belong to a role that bypasses the policies or not, and both are studied,
    because the source's owner pool may be either.
  \<^item> Transactions: BEGIN, work, COMMIT or ROLLBACK, RESET, release; the lemmas show that the
    protocol refines an atomic update of the database (\<open>tx_block_run\<close>).
  \<^item> Tables: the statements of each table; the locale \<open>tenant_table\<close> says what a statement under
    the policies leaves of the other tenants' rows, and is interpreted on all eight tables.
  \<^item> Integrity: the invariant \<open>db_ok\<close> (unique indexes and foreign keys); the locale
    \<open>stored_table\<close>, interpreted on the eight tables.
  \<^item> RlsSql: the text the generator of \<^verbatim>\<open>src/db/rls.ts\<close> writes, and that the lint of
    \<^verbatim>\<open>src/scripts/rls-lint.ts\<close> accepts it. Migration: \<^verbatim>\<open>src/db/migrate.ts\<close> over a catalog of tables,
    policies, roles and grants; its statements render to that text.

  \<^bold>\<open>The services on the owner pool.\<close>
  \<^item> Signup, Login, Refresh, PasswordReset (\<^verbatim>\<open>src/auth\<close>), Team (\<^verbatim>\<open>src/team\<close>), Lifecycle
    (\<^verbatim>\<open>src/tenants\<close>): each operation with all its branches, and its outcome lemmas. The locale
    \<open>single_use\<close> of PasswordReset is the contract of a credential that is redeemed once; it is
    interpreted on reset tokens and on invitations.
  \<^item> Gateway, StripeAdapter (\<^verbatim>\<open>src/billing/stripe.gateway.ts\<close>), Billing, Webhook, Enforcement
    (\<^verbatim>\<open>src/billing\<close>): customers, checkout and portal sessions; event processing with its ledger;
    quotas and the degraded-access rule.
  \<^item> Sessions: a step relation of all the services that touch sessions, in any order, and the
    histories of the token table it allows (locale \<open>token_history\<close>).

  \<^bold>\<open>The tenant routes.\<close>
  \<^item> Projects, ApiKeys, Exports (\<^verbatim>\<open>src/projects\<close>, \<^verbatim>\<open>src/apikeys\<close>, \<^verbatim>\<open>src/exports\<close>); Pagination: what a
    client gets that follows the cursors.
  \<^item> Middleware: \<^verbatim>\<open>src/middleware/tenant.ts\<close> and the life of a request. Routes: the handlers
    of \<^verbatim>\<open>src/routes/v1\<close> and \<^verbatim>\<open>src/routes/v2\<close> and their schemas. OwnerRoutes: the same for the owner pool.
  \<^item> Isolation: the locale \<open>route_statements\<close> lists the statements the tenant routes are
    built from; a relation these respect is respected by every route. The locale
    \<open>confined_table\<close> extends \<open>tenant_table\<close> by what two databases that agree on one tenant
    still agree on after a statement.

  \<^bold>\<open>Around them.\<close>
  \<^item> RateLimit: the Lua script of \<^verbatim>\<open>src/ratelimit/limiter.ts\<close>, its client, plans and middleware.
  \<^item> Config: \<^verbatim>\<open>src/config.ts\<close>. App: \<^verbatim>\<open>src/app.ts\<close> with both pools, a step of the whole
    application, and its runs. Http: its \<^verbatim>\<open>onRequest\<close> hooks, request ids, client addresses and
    preflight. Bodies: how a body is read before anything else runs, the raw-body parser and the
    size cap of the webhook, and what becomes of a body the framework refuses.
  \<^item> Registration: the table of routes as a function of what \<^verbatim>\<open>buildApp\<close> is given, shown to agree
    with the limiters and the authentication of App request by request; the document of
    \<^verbatim>\<open>src/scripts/openapi-gen.ts\<close> and the table of the README against it. Server:
    \<^verbatim>\<open>src/server.ts\<close>, from the environment to a listening application and its shutdown.
  \<^item> Smoke: \<^verbatim>\<open>src/scripts/smoke.ts\<close>. LoadTest: the flows of \<^verbatim>\<open>k6/load-test.js\<close>, as clients of the
    modelled application over HTTP.
  \<^item> Access: the principal behind a request, as a function of its headers and the database, and
    the least role of every route. Parts: which tables a request can change; the locales
    \<open>ledger_part\<close> and \<open>api_part\<close> (and \<open>owner_part\<close> in Authority) are interpreted on the identity
    tables, on the refresh tokens and on the projects.
  \<^item> Outcomes, ErrorContract: what a program can throw and return (\<open>yields\<close>), with one rule per
    combinator, and from it that every service throws errors of the contract only.

  \<^bold>\<open>What is shown.\<close>
  \<^item> IsolationProperties: a request of one tenant neither changes nor depends on the rows of
    another, and in any interleaving of requests each tenant gets the replies it would get alone.
  \<^item> AppProperties: the invariant of the application over all runs; the life of an API key
    across the two pools; what a cancelled tenant can still do.
  \<^item> AuthProperties: signup provisions exactly one tenant or nothing, its account logs in, login
    does not tell unknown emails from wrong passwords.
  \<^item> SessionProperties: rotation of refresh tokens, theft detection, reset, each stated over
    arbitrary later requests.
  \<^item> TeamProperties: invitations, the last owner, cancellation, under the policies and without.
  \<^item> BillingProperties: a webhook is processed exactly once and brings the tenant to what Stripe
    reports; one customer per tenant; the guards of checkout.
  \<^item> Serialized: in every interleaving of requests and crashes a tenant gets one Stripe customer,
    an event is processed by at most one of its deliveries, and, as long as Stripe answers, every
    request that waits can still be brought to its customer.
  \<^item> ProjectProperties (over the outcome lemmas of ProjectRuns): what following the cursors yields and
    which projects it can miss, reads of written projects, quotas, exports written out column by column.
  \<^item> Http: every reply carries the request's id and every error is of the contract, but for the 400 of
    the webhook route, which has no envelope; Migration: a successful run isolates the tenants.
  \<^item> LimitProperties: the bound of the token bucket, its expiry, the advised waiting time.
  \<^item> Access, AppSessions, Authority: over requests of the whole application, who is refused and
    what a refusal leaves; that a stolen session stays dead; what it takes to change a tenant's
    projects.
  \<^item> Bodies: only signed bytes count. Server: a listening server is what its environment says.
    Smoke: the smoke test ends with the right verdict. LoadTest: a customer's first session
    passes; the burst scenario can never see a 429.
  Some theorems state how the code falls short of its comments: a cancellation that ends the
  sessions of every tenant, a last-owner guard that counts other tenants' owners, a reset token
  redeemed twice, a session that outlives a reset, stale webhook writes, a cursor that skips rows or is
  not read, API keys created by a tenant that is past due, a quota that is bypassed, a
  failed COMMIT that is answered as success, clocks and forwarded addresses that defeat the
  limiters, a migration that runs only once, an administrator who becomes an owner, a second
  account under an email that can never log in, a generated document without paths.

  \<^bold>\<open>Parameters.\<close> Functions of code outside the repository are arguments, with their documented
  behaviour as named hypotheses: \<open>ext\<close> (Argon2, SHA-256, JWT, NFKD), \<open>codec\<close> (the text of a
  timestamp between the driver and PostgreSQL; it carries whole units only and the cast may not read it), \<open>wire\<close> (email and URL parsers), \<open>gateway\<close> and
  \<open>sdk\<close> (Stripe), \<open>fastify\<close> (the body parsers), \<open>num\<close> (\<^verbatim>\<open>Number(text)\<close>), the server a smoke
  test polls. What a request draws from outside (clocks, random
  values) is the record \<open>env\<close>. Samples gives instances that satisfy the hypotheses.

  \<^bold>\<open>Bounds and fuel.\<close> Timestamps are integers, microseconds in the database and milliseconds in
  JavaScript, with both conversions written out; uuids are 128-bit words; the script's numbers
  are rationals, its doubles without rounding. \<open>collect_pages\<close> follows cursors with fuel; more
  fuel than the tenant has projects is enough, because every page that has a successor is full and
  the rows of the next one come after it.
  The client of the limiter calls itself again after it reloaded the script, which happens at
  most once in a row (measure in RateLimit); the smoke test's loop is measured by the time left. Everything else is structural or a list function.

  \<^bold>\<open>Concurrency.\<close> A transaction runs as one step; requests are sequences of such steps. Where the
  code reads outside the transaction that acts on the result (reset confirmation, webhook) the
  two parts are separate definitions, and the races are stated by interleaving them. Races cuts
  transactions themselves into the half that reads and the half that writes, shows that the
  halves in a row are the operation, and runs them on two connections: two role changes can
  leave a tenant without an owner and two creates can exceed a quota, while an invitation is
  redeemed once. SessionRaces cuts the rotation of a refresh token at its lookup: a rotation
  under way outlives a password reset and the revocation of its family. Locks is the general form
  for transactions that do take a lock: any number of processes, each with its key, step by step,
  with statements of other code between and with processes that die. The lock is given back
  exactly when the code of the last step has ended its transaction. Its locale \<open>once\<close> gives what
  holds of every schedule, and \<open>serving\<close>, which extends it, that every process gets through;
  Serialized cuts \<^verbatim>\<open>ensureCustomer\<close> (the row lock of FOR UPDATE) and the webhook's transaction (the
  unique index of the ledger) into their steps, shows that the steps in a row are the operation,
  and interprets \<open>once\<close> on both and \<open>serving\<close> on the first.

  \<^bold>\<open>Not modelled.\<close> the query builder of \<^verbatim>\<open>src/db/client.ts\<close>, the table DDL (a parameter of
  Migration), logging, the schemas inside the OpenAPI document and the page that shows it, the
  latency thresholds and the scheduling of the load test, and the static page
  \<^verbatim>\<open>web/index.html\<close>: they are I/O around the code above or call it from outside. Fastify's own
  parsers are a parameter of Bodies. Strings are lists of characters; what depends on Unicode
  tables is a parameter.
\<close>

end
